(* ===== verification/Rust_Prelude.thy ===== *)
theory Rust_Prelude
  imports Main "HOL-Library.Char_ord" "HOL-Library.List_Lexorder" "HOL-Library.Sublist" "HOL-Library.Multiset"
begin

text \<open>
  What the components of the engine share.

  \<^item> \<open>Result\<close> values: a Rust \<open>Result<T, E>\<close> is \<open>'e + 'a\<close>, with \<open>Err\<close> for the left and
    \<open>Ok\<close> for the right injection; the \<open>?\<close> operator is \<open>and_then\<close>, an early return behind a
    condition is \<open>ensure\<close>.
  \<^item> Strings: a Rust \<open>String\<close> or \<open>&str\<close> is the sequence of its UTF-8 bytes, one \<open>char\<close> per
    byte, so \<open>length\<close> is \<open>len()\<close>; \<open>trim\<close> removes the UTF-8 encodings of the Unicode white
    space characters, as \<open>str::trim\<close> does.
  \<^item> Machine integers: unsigned and signed values are \<open>nat\<close> and \<open>int\<close> with their range
    written out (\<open>in_i64\<close>), with \<open>saturating_add\<close>, \<open>checked_mul\<close> and their kin.
  \<^item> Collections: \<open>push_entry\<close> is \<open>map.entry(k).or_default().push(v)\<close> on a map of vectors.
\<close>

named_theorems result_simps \<open>unfolding of the error monad\<close>
named_theorems str_simps \<open>evaluation of string operations\<close>

subsection \<open>Results\<close>

abbreviation Err :: "'e \<Rightarrow> 'e + 'a" where
  "Err \<equiv> Inl"

abbreviation Ok :: "'a \<Rightarrow> 'e + 'a" where
  "Ok \<equiv> Inr"

fun and_then :: "'e + 'a \<Rightarrow> ('a \<Rightarrow> 'e + 'b) \<Rightarrow> 'e + 'b" where
  "and_then (Inl e) f = Inl e"
| "and_then (Inr x) f = f x"

definition ensure :: "bool \<Rightarrow> 'e \<Rightarrow> 'e + unit" where
  "ensure b e = (if b then Ok () else Err e)"

definition ok_or :: "'a option \<Rightarrow> 'e \<Rightarrow> 'e + 'a" where
  "ok_or x e = (case x of None \<Rightarrow> Err e | Some v \<Rightarrow> Ok v)"

definition is_ok :: "'e + 'a \<Rightarrow> bool" where
  "is_ok r = (case r of Inl _ \<Rightarrow> False | Inr _ \<Rightarrow> True)"

lemma and_then_eq_Ok: "and_then r f = Ok y \<longleftrightarrow> (\<exists>x. r = Ok x \<and> f x = Ok y)"
  by (cases r) auto

lemma and_then_eq_Err:
  "and_then r f = Err e \<longleftrightarrow> r = Err e \<or> (\<exists>x. r = Ok x \<and> f x = Err e)"
  by (cases r) auto

lemma ensure_eq_Ok: "ensure b e = Ok u \<longleftrightarrow> b"
  by (simp add: ensure_def)

lemma ensure_eq_Err: "ensure b e = Err e' \<longleftrightarrow> \<not> b \<and> e' = e"
  by (auto simp: ensure_def)

lemma ensure_then: "and_then (ensure b e) f = (if b then f () else Err e)"
  by (simp add: ensure_def)

lemma ok_or_eq_Ok: "ok_or x e = Ok v \<longleftrightarrow> x = Some v"
  by (simp add: ok_or_def split: option.splits)

lemma ok_or_eq_Err: "ok_or x e = Err e' \<longleftrightarrow> x = None \<and> e' = e"
  by (auto simp: ok_or_def split: option.splits)

lemma is_ok_iff: "is_ok r \<longleftrightarrow> (\<exists>x. r = Ok x)"
  by (cases r) (auto simp: is_ok_def)

lemma is_ok_simps [simp]: "is_ok (Inr x)" "\<not> is_ok (Inl e)"
  by (simp_all add: is_ok_def)

lemmas [result_simps] =
  and_then_eq_Ok and_then_eq_Err ensure_eq_Ok ensure_eq_Err ok_or_eq_Ok ok_or_eq_Err

text \<open>\<open>iter().try_for_each\<close>: stop at the first error.\<close>

fun try_for_each :: "('a \<Rightarrow> 'e + unit) \<Rightarrow> 'a list \<Rightarrow> 'e + unit" where
  "try_for_each f [] = Ok ()"
| "try_for_each f (x # xs) = and_then (f x) (\<lambda>_. try_for_each f xs)"

lemma try_for_each_Ok: "try_for_each f xs = Ok u \<longleftrightarrow> (\<forall>x \<in> set xs. f x = Ok ())"
  by (induction xs) (auto simp: result_simps)

subsection \<open>Strings as UTF-8 bytes\<close>

definition ascii_ws :: "char \<Rightarrow> bool" where
  "ascii_ws c = (let n = (of_char c :: nat) in (9 \<le> n \<and> n \<le> 13) \<or> n = 32)"

text \<open>The two and three byte encodings of the characters with the White_Space property.\<close>

definition ws2 :: "char \<Rightarrow> char \<Rightarrow> bool" where
  "ws2 a b = ((of_char a :: nat) = 194 \<and> ((of_char b :: nat) = 133 \<or> (of_char b :: nat) = 160))"

definition ws3 :: "char \<Rightarrow> char \<Rightarrow> char \<Rightarrow> bool" where
  "ws3 a b c = (let x = (of_char a :: nat); y = (of_char b :: nat); z = (of_char c :: nat) in
     (x = 225 \<and> y = 154 \<and> z = 128) \<or>
     (x = 226 \<and> y = 128 \<and> ((128 \<le> z \<and> z \<le> 138) \<or> z = 168 \<or> z = 169 \<or> z = 175)) \<or>
     (x = 226 \<and> y = 129 \<and> z = 159) \<or>
     (x = 227 \<and> y = 128 \<and> z = 128))"

fun trim_start :: "string \<Rightarrow> string" where
  "trim_start (a # b # c # s) =
     (if ascii_ws a then trim_start (b # c # s)
      else if ws2 a b then trim_start (c # s)
      else if ws3 a b c then trim_start s
      else a # b # c # s)"
| "trim_start [a, b] =
     (if ascii_ws a then trim_start [b] else if ws2 a b then [] else [a, b])"
| "trim_start [a] = (if ascii_ws a then [] else [a])"
| "trim_start [] = []"

text \<open>The same from the end, on the reversed string: the encodings are met backwards.\<close>

fun trim_rev :: "string \<Rightarrow> string" where
  "trim_rev (a # b # c # s) =
     (if ascii_ws a then trim_rev (b # c # s)
      else if ws2 b a then trim_rev (c # s)
      else if ws3 c b a then trim_rev s
      else a # b # c # s)"
| "trim_rev [a, b] =
     (if ascii_ws a then trim_rev [b] else if ws2 b a then [] else [a, b])"
| "trim_rev [a] = (if ascii_ws a then [] else [a])"
| "trim_rev [] = []"

definition trim_end :: "string \<Rightarrow> string" where
  "trim_end s = rev (trim_rev (rev s))"

definition trim :: "string \<Rightarrow> string" where
  "trim s = trim_end (trim_start s)"

definition blank :: "string \<Rightarrow> bool" where
  "blank s = (trim s = [])"

lemma blank_Nil [simp]: "blank []"
  by (simp add: blank_def trim_def trim_end_def)

text \<open>Trimming leaves a string alone that begins and ends with a printable ASCII character.\<close>

definition solid :: "char \<Rightarrow> bool" where
  "solid c = (\<not> ascii_ws c \<and> (of_char c :: nat) < 128)"

lemma trim_start_solid: "solid c \<Longrightarrow> trim_start (c # s) = c # s"
  by (cases "(c # s)" rule: trim_start.cases) (auto simp: solid_def ws2_def ws3_def Let_def)

lemma trim_rev_solid: "solid c \<Longrightarrow> trim_rev (c # s) = c # s"
  by (cases "(c # s)" rule: trim_rev.cases) (auto simp: solid_def ws2_def ws3_def Let_def)

lemma trim_id:
  assumes "s \<noteq> []" "solid (hd s)" "solid (last s)"
  shows "trim s = s"
proof -
  from assms obtain c r where s: "s = c # r" by (cases s) auto
  then have st: "trim_start s = s" using assms(2) trim_start_solid [of c r] by simp
  from assms(1) have "rev s = last s # rev (butlast s)"
    by (metis append_butlast_last_id rev.simps(2) rev_rev_ident rev_swap)
  then have "trim_rev (rev s) = rev s" using assms(3) trim_rev_solid by metis
  then show ?thesis by (simp add: trim_def trim_end_def st)
qed

text \<open>\<open>str::to_ascii_lowercase\<close>.\<close>

definition ascii_lower :: "char \<Rightarrow> char" where
  "ascii_lower c = (let n = (of_char c :: nat) in
     if 65 \<le> n \<and> n \<le> 90 then char_of (n + 32) else c)"

definition to_ascii_lowercase :: "string \<Rightarrow> string" where
  "to_ascii_lowercase s = map ascii_lower s"

text \<open>Trimming twice is trimming once, and trimming does not mind the case of letters.\<close>

definition leading_ws :: "string \<Rightarrow> bool" where
  "leading_ws s = (case s of
       [] \<Rightarrow> False
     | [a] \<Rightarrow> ascii_ws a
     | [a, b] \<Rightarrow> ascii_ws a \<or> ws2 a b
     | a # b # c # _ \<Rightarrow> ascii_ws a \<or> ws2 a b \<or> ws3 a b c)"

lemma trim_rev_last: "s \<noteq> [] \<Longrightarrow> solid (last s) \<Longrightarrow> trim_rev s \<noteq> []"
  by (induction s rule: trim_rev.induct) (auto simp: solid_def ws2_def ws3_def Let_def split: if_splits)

lemma blank_solid: "solid c \<Longrightarrow> \<not> blank (c # s)"
  using trim_rev_last [of "rev (c # s)"] by (simp add: blank_def trim_def trim_end_def trim_start_solid)

lemma length_trim_start: "length (trim_start s) \<le> length s"
  by (induction s rule: trim_start.induct) auto

lemma trim_start_fix: "trim_start s = s \<longleftrightarrow> \<not> leading_ws s"
proof (cases s rule: trim_start.cases)
  case (1 a b c r)
  then show ?thesis
    using length_trim_start [of "b # c # r"] length_trim_start [of "c # r"] length_trim_start [of r]
    by (auto simp: leading_ws_def split: if_splits)
qed (auto simp: leading_ws_def)

lemma trim_start_stop: "\<not> leading_ws (trim_start s)"
  by (induction s rule: trim_start.induct) (auto simp: leading_ws_def)

lemma trim_start_idem: "trim_start (trim_start s) = trim_start s"
  using trim_start_fix trim_start_stop by blast

lemma leading_ws_append: "leading_ws p \<Longrightarrow> leading_ws (p @ r)"
  by (auto simp: leading_ws_def split: list.splits)

lemma trim_rev_suffix: "\<exists>p. s = p @ trim_rev s"
proof (induction s rule: trim_rev.induct)
  case (1 a b c s)
  then show ?case by (auto split: if_splits) (metis append_Cons append_Nil)+
qed auto

lemma trim_rev_stop: "trim_rev (trim_rev s) = trim_rev s"
  by (induction s rule: trim_rev.induct) auto

lemma trim_idem: "trim (trim s) = trim s"
proof -
  obtain p where "rev (trim_start s) = p @ trim_rev (rev (trim_start s))"
    using trim_rev_suffix by blast
  then have "trim_start s = trim s @ rev p"
    unfolding trim_def trim_end_def by (metis rev_append rev_rev_ident)
  then have "\<not> leading_ws (trim s)" using trim_start_stop [of s] leading_ws_append by metis
  then have "trim_start (trim s) = trim s" using trim_start_fix by blast
  then show ?thesis
    by (simp add: trim_def [of "trim s"] trim_end_def) (simp add: trim_def trim_end_def trim_rev_stop)
qed

lemma ascii_lower_ws:
  "ascii_ws (ascii_lower c) = ascii_ws c" "ws2 (ascii_lower a) (ascii_lower b) = ws2 a b"
  "ws3 (ascii_lower a) (ascii_lower b) (ascii_lower c) = ws3 a b c"
proof -
  have n: "(of_char (ascii_lower x) :: nat) = (if 65 \<le> (of_char x :: nat) \<and> (of_char x :: nat) \<le> 90
      then of_char x + 32 else of_char x)" for x
    by (simp add: ascii_lower_def Let_def)
  show "ascii_ws (ascii_lower c) = ascii_ws c" by (simp add: ascii_ws_def n)
  show "ws2 (ascii_lower a) (ascii_lower b) = ws2 a b" by (auto simp: ws2_def n)
  show "ws3 (ascii_lower a) (ascii_lower b) (ascii_lower c) = ws3 a b c"
    by (auto simp: ws3_def n Let_def)
qed

lemma trim_lower: "trim (to_ascii_lowercase s) = to_ascii_lowercase (trim s)"
proof -
  have a: "trim_start (map ascii_lower s) = map ascii_lower (trim_start s)" for s
    by (induction s rule: trim_start.induct) (auto simp: ascii_lower_ws)
  have b: "trim_rev (map ascii_lower s) = map ascii_lower (trim_rev s)" for s
    by (induction s rule: trim_rev.induct) (auto simp: ascii_lower_ws)
  show ?thesis
    by (simp add: trim_def trim_end_def to_ascii_lowercase_def a rev_map b)
qed

lemma ascii_lower_idem: "ascii_lower (ascii_lower c) = ascii_lower c"
  by (simp add: ascii_lower_def Let_def)

lemma to_ascii_lowercase_idem: "to_ascii_lowercase (to_ascii_lowercase s) = to_ascii_lowercase s"
  by (simp add: to_ascii_lowercase_def ascii_lower_idem)

definition is_ascii_digit :: "char \<Rightarrow> bool" where
  "is_ascii_digit c = (let n = (of_char c :: nat) in 48 \<le> n \<and> n \<le> 57)"

definition is_ascii_lowercase :: "char \<Rightarrow> bool" where
  "is_ascii_lowercase c = (let n = (of_char c :: nat) in 97 \<le> n \<and> n \<le> 122)"

definition is_ascii_uppercase :: "char \<Rightarrow> bool" where
  "is_ascii_uppercase c = (let n = (of_char c :: nat) in 65 \<le> n \<and> n \<le> 90)"

definition is_ascii_alphabetic :: "char \<Rightarrow> bool" where
  "is_ascii_alphabetic c = (is_ascii_lowercase c \<or> is_ascii_uppercase c)"

definition is_ascii_alphanumeric :: "char \<Rightarrow> bool" where
  "is_ascii_alphanumeric c = (is_ascii_alphabetic c \<or> is_ascii_digit c)"

definition is_ascii_hexdigit :: "char \<Rightarrow> bool" where
  "is_ascii_hexdigit c = (let n = (of_char c :: nat) in
     (48 \<le> n \<and> n \<le> 57) \<or> (65 \<le> n \<and> n \<le> 70) \<or> (97 \<le> n \<and> n \<le> 102))"

text \<open>\<open>strip_prefix\<close>, \<open>split\<close> and \<open>split_once\<close>.\<close>

fun strip_prefix :: "string \<Rightarrow> string \<Rightarrow> string option" where
  "strip_prefix [] s = Some s"
| "strip_prefix (p # ps) [] = None"
| "strip_prefix (p # ps) (c # s) = (if p = c then strip_prefix ps s else None)"

lemma strip_prefix_Some: "strip_prefix p s = Some r \<longleftrightarrow> s = p @ r"
  by (induction p s rule: strip_prefix.induct) auto

lemma strip_prefix_append [simp]: "strip_prefix p (p @ r) = Some r"
  by (simp add: strip_prefix_Some)

fun split_char :: "char \<Rightarrow> string \<Rightarrow> string list" where
  "split_char d [] = [[]]"
| "split_char d (c # s) =
     (if c = d then [] # split_char d s
      else (case split_char d s of [] \<Rightarrow> [[c]] | p # ps \<Rightarrow> (c # p) # ps))"

lemma split_char_none: "d \<notin> set a \<Longrightarrow> split_char d a = [a]"
  by (induction a) auto

lemma split_char_first: "d \<notin> set a \<Longrightarrow> split_char d (a @ d # b) = a # split_char d b"
  by (induction a) auto

fun split_once :: "char \<Rightarrow> string \<Rightarrow> (string \<times> string) option" where
  "split_once d [] = None"
| "split_once d (c # s) =
     (if c = d then Some ([], s)
      else map_option (\<lambda>(a, b). (c # a, b)) (split_once d s))"

lemma split_once_Some:
  "split_once d s = Some (a, b) \<Longrightarrow> s = a @ d # b \<and> d \<notin> set a"
  by (induction s arbitrary: a) (auto split: if_splits)

lemma split_once_append: "d \<notin> set a \<Longrightarrow> split_once d (a @ d # b) = Some (a, b)"
  by (induction a) auto

definition starts_with :: "string \<Rightarrow> string \<Rightarrow> bool" where
  "starts_with s p = (take (length p) s = p)"

definition ends_with :: "string \<Rightarrow> string \<Rightarrow> bool" where
  "ends_with s p = (length p \<le> length s \<and> drop (length s - length p) s = p)"

fun contains_str :: "string \<Rightarrow> string \<Rightarrow> bool" where
  "contains_str [] p = (p = [])"
| "contains_str (c # s) p = (starts_with (c # s) p \<or> contains_str s p)"

fun split_once_str :: "string \<Rightarrow> string \<Rightarrow> (string \<times> string) option" where
  "split_once_str p [] = (if p = [] then Some ([], []) else None)"
| "split_once_str p (c # s) =
     (if starts_with (c # s) p then Some ([], drop (length p) (c # s))
      else map_option (\<lambda>(a, b). (c # a, b)) (split_once_str p s))"

definition is_ascii_str :: "string \<Rightarrow> bool" where
  "is_ascii_str s = list_all (\<lambda>c. (of_char c :: nat) < 128) s"

lemma starts_with_append [simp]: "starts_with (p @ s) p"
  by (simp add: starts_with_def)

lemma starts_with_iff: "starts_with s p \<longleftrightarrow> (\<exists>r. s = p @ r)"
  by (metis append_eq_conv_conj append_take_drop_id starts_with_def)

lemma contains_str_iff: "contains_str s p \<longleftrightarrow> (\<exists>a b. s = a @ p @ b)"
proof (induction s)
  case (Cons c s)
  have "(\<exists>a b. c # s = a @ p @ b) \<longleftrightarrow> (\<exists>b. c # s = p @ b) \<or> (\<exists>a b. s = a @ p @ b)"
    by (metis append_Cons append_Nil list.exhaust list.inject)
  then show ?case by (simp add: Cons starts_with_iff)
qed auto

text \<open>\<open>split_whitespace\<close> on the tokens a schedule expression can hold.\<close>

fun split_ws_acc :: "string \<Rightarrow> string \<Rightarrow> string list" where
  "split_ws_acc acc [] = (if acc = [] then [] else [rev acc])"
| "split_ws_acc acc (c # s) =
     (let r = trim_start (c # s) in
      if length r < length (c # s)
      then (if acc = [] then [] else [rev acc]) @ split_ws_acc [] r
      else split_ws_acc (c # acc) s)"

definition split_whitespace :: "string \<Rightarrow> string list" where
  "split_whitespace s = split_ws_acc [] s"

subsection \<open>Decimal numbers\<close>

definition digit_val :: "char \<Rightarrow> nat" where
  "digit_val c = (of_char c :: nat) - 48"

fun digits_val :: "nat \<Rightarrow> string \<Rightarrow> nat" where
  "digits_val acc [] = acc"
| "digits_val acc (c # s) = digits_val (acc * 10 + digit_val c) s"

definition all_digits :: "string \<Rightarrow> bool" where
  "all_digits s = (s \<noteq> [] \<and> list_all is_ascii_digit s)"

text \<open>
  \<open>str::parse\<close> for an unsigned type with maximum \<open>mx\<close>: an optional \<open>+\<close>, then at least one
  decimal digit and nothing else, in range.
\<close>

definition parse_unsigned :: "nat \<Rightarrow> string \<Rightarrow> nat option" where
  "parse_unsigned mx s =
     (let d = (case s of [] \<Rightarrow> [] | c # r \<Rightarrow> if c = CHR ''+'' then r else s) in
      if all_digits d \<and> digits_val 0 d \<le> mx then Some (digits_val 0 d) else None)"

definition u32_max :: nat where
  "u32_max = 4294967295"

definition u64_max :: nat where
  "u64_max = 18446744073709551615"

definition parse_u32 :: "string \<Rightarrow> nat option" where
  "parse_u32 s = parse_unsigned u32_max s"

lemma parse_unsigned_le: "parse_unsigned mx s = Some n \<Longrightarrow> n \<le> mx"
  by (auto simp: parse_unsigned_def Let_def split: if_splits)

text \<open>The decimal form of a number, as \<open>Display\<close> prints it, and its reading back.\<close>

fun decimal_rev :: "nat \<Rightarrow> string" where
  "decimal_rev n =
     (if n < 10 then [char_of (48 + n)] else char_of (48 + n mod 10) # decimal_rev (n div 10))"

declare decimal_rev.simps [simp del]

definition decimal :: "nat \<Rightarrow> string" where
  "decimal n = rev (decimal_rev n)"

lemma decimal_step:
  "decimal n = (if n < 10 then [char_of (48 + n)] else decimal (n div 10) @ [char_of (48 + n mod 10)])"
  unfolding decimal_def by (subst decimal_rev.simps) simp

lemma decimal_nonempty [simp]: "decimal n \<noteq> []"
  by (subst decimal_step) simp

lemma digit_char:
  assumes "k < (10 :: nat)"
  shows "is_ascii_digit (char_of (48 + k))" and "digit_val (char_of (48 + k)) = k"
  using assms by (simp_all add: is_ascii_digit_def digit_val_def Let_def)

lemma decimal_digits: "list_all is_ascii_digit (decimal n)"
proof (induction n rule: decimal_rev.induct)
  case (1 n)
  then show ?case by (subst decimal_step) (simp add: digit_char)
qed

lemma digits_val_append: "digits_val acc (s @ [c]) = digits_val acc s * 10 + digit_val c"
  by (induction s arbitrary: acc) auto

lemma digits_val_decimal: "digits_val 0 (decimal n) = n"
proof (induction n rule: decimal_rev.induct)
  case (1 n)
  then show ?case by (subst decimal_step) (simp add: digit_char digits_val_append)
qed

lemma digit_not_sign: "is_ascii_digit c \<Longrightarrow> c \<noteq> CHR ''+'' \<and> c \<noteq> CHR ''-''"
  by (auto simp: is_ascii_digit_def Let_def)

lemma parse_unsigned_decimal: "n \<le> mx \<Longrightarrow> parse_unsigned mx (decimal n) = Some n"
proof -
  obtain c r where cr: "decimal n = c # r" by (cases "decimal n") auto
  then have "c \<noteq> CHR ''+''" using decimal_digits [of n] digit_not_sign by auto
  moreover assume "n \<le> mx"
  ultimately show ?thesis
    using decimal_digits [of n] digits_val_decimal [of n]
    by (simp add: parse_unsigned_def all_digits_def cr)
qed

subsection \<open>Signed 64-bit arithmetic\<close>

definition i64_min :: int where
  "i64_min = -9223372036854775808"

definition i64_max :: int where
  "i64_max = 9223372036854775807"

definition in_i64 :: "int \<Rightarrow> bool" where
  "in_i64 x = (i64_min \<le> x \<and> x \<le> i64_max)"

definition clamp_i64 :: "int \<Rightarrow> int" where
  "clamp_i64 x = max i64_min (min i64_max x)"

definition saturating_add :: "int \<Rightarrow> int \<Rightarrow> int" where
  "saturating_add a b = clamp_i64 (a + b)"

definition saturating_sub :: "int \<Rightarrow> int \<Rightarrow> int" where
  "saturating_sub a b = clamp_i64 (a - b)"

definition saturating_mul :: "int \<Rightarrow> int \<Rightarrow> int" where
  "saturating_mul a b = clamp_i64 (a * b)"

definition checked_i64 :: "int \<Rightarrow> int option" where
  "checked_i64 x = (if in_i64 x then Some x else None)"

lemma clamp_in_i64: "in_i64 (clamp_i64 x)"
  by (simp add: clamp_i64_def in_i64_def i64_min_def i64_max_def)

lemma clamp_id: "in_i64 x \<Longrightarrow> clamp_i64 x = x"
  by (simp add: clamp_i64_def in_i64_def)

text \<open>\<open>parse::<i64>\<close>: an optional sign, decimal digits, in range.\<close>

definition parse_i64 :: "string \<Rightarrow> int option" where
  "parse_i64 s =
     (case s of
        [] \<Rightarrow> None
      | c # r \<Rightarrow>
          if c = CHR ''-'' then
            (if all_digits r then checked_i64 (- int (digits_val 0 r)) else None)
          else
            (let d = (if c = CHR ''+'' then r else s) in
             if all_digits d then checked_i64 (int (digits_val 0 d)) else None))"

lemma checked_i64_Some: "checked_i64 x = Some y \<longleftrightarrow> y = x \<and> in_i64 x"
  by (auto simp: checked_i64_def)

lemma parse_i64_range: "parse_i64 s = Some x \<Longrightarrow> in_i64 x"
  by (auto simp: parse_i64_def Let_def checked_i64_Some split: list.splits if_splits)

subsection \<open>Maps of vectors\<close>

definition push_entry :: "'k \<Rightarrow> 'v \<Rightarrow> ('k \<rightharpoonup> 'v list) \<Rightarrow> ('k \<rightharpoonup> 'v list)" where
  "push_entry k v m = m(k \<mapsto> (case m k of None \<Rightarrow> [v] | Some vs \<Rightarrow> vs @ [v]))"

definition get_list :: "('k \<rightharpoonup> 'v list) \<Rightarrow> 'k \<Rightarrow> 'v list" where
  "get_list m k = (case m k of None \<Rightarrow> [] | Some vs \<Rightarrow> vs)"

lemma get_list_empty [simp]: "get_list Map.empty k = []"
  by (simp add: get_list_def)

lemma get_list_push:
  "get_list (push_entry k v m) k' = get_list m k' @ (if k' = k then [v] else [])"
  by (simp add: get_list_def push_entry_def split: option.splits)

text \<open>Grouping by a key: pushing every element of a list in order is filtering.\<close>

lemma get_list_fold_push:
  "get_list (fold (\<lambda>x. push_entry (f x) (g x)) xs m) k
     = get_list m k @ map g (filter (\<lambda>x. f x = k) xs)"
  by (induction xs arbitrary: m) (auto simp: get_list_push)

subsection \<open>Lists\<close>

lemma length_filter_complement:
  "length (filter P xs) + length (filter (\<lambda>x. \<not> P x) xs) = length xs"
  by (induction xs) auto

lemma count_list_map_filter:
  "count_list (map snd (filter (\<lambda>e. fst e = u) es)) v = length (filter (\<lambda>e. e = (u, v)) es)"
  by (induction es) auto

lemma distinct_length_card: "distinct xs \<Longrightarrow> length xs = card (set xs)"
  by (simp add: distinct_card)

subsection \<open>Unspecified orders\<close>

text \<open>
  Where the order of iteration is not specified (a hash table, rows of a query that compare
  equal), the model takes the order as an argument, a function of which only this is assumed.
\<close>

definition permuting :: "('a list \<Rightarrow> 'a list) \<Rightarrow> bool" where
  "permuting f \<longleftrightarrow> (\<forall>xs. mset (f xs) = mset xs)"

lemma permuting_set: "permuting f \<Longrightarrow> set (f xs) = set xs"
  by (metis permuting_def set_mset_mset)

lemma permuting_distinct: "permuting f \<Longrightarrow> distinct (f xs) = distinct xs"
  by (metis permuting_def mset_eq_imp_distinct_iff)

lemma permuting_id: "permuting (\<lambda>xs. xs)"
  by (simp add: permuting_def)

end
