(* ===== verification/Digraph_Search.thy ===== *)
theory Digraph_Search
  imports Rust_Prelude
begin

text \<open>
  Queue-driven graph search, stated over an interface.

  A directed graph is a list of edges (pairs); an index of it answers, for a node, the list of
  its successors in edge order. The locale \<open>edge_index\<close> is that contract. Breadth-first search
  (\<open>bfs\<close>) and Kahn's topological pass (\<open>kahn\<close>) are generic loops over an index, with fuel; the
  locale's lemmas show how much fuel is enough, that the search visits exactly the reachable
  nodes, and that the topological pass visits every node exactly when the graph is acyclic.
\<close>

subsection \<open>The loops\<close>

text \<open>
  \<open>while let Some(node) = queue.pop_front()\<close>: a node already visited is skipped, any other is
  recorded and its successors are appended to the queue.
\<close>

fun bfs :: "nat \<Rightarrow> ('a \<Rightarrow> 'a list) \<Rightarrow> 'a list \<Rightarrow> 'a list \<Rightarrow> 'a list option" where
  "bfs fuel g visited [] = Some visited"
| "bfs 0 g visited (u # q) = None"
| "bfs (Suc fuel) g visited (u # q) =
     (if u \<in> set visited then bfs fuel g visited q
      else bfs fuel g (visited @ [u]) (q @ g u))"

text \<open>
  The inner loop of Kahn's pass: decrement the in-degree of each target and enqueue it when the
  degree reaches zero. A target without an entry is reported; decrementing zero is an
  arithmetic overflow, \<open>None\<close>.
\<close>

record 'a kahn_state =
  kindeg :: "'a \<rightharpoonup> nat"
  kqueue :: "'a list"
  kunknown :: "'a list"

fun relax :: "'a list \<Rightarrow> 'a kahn_state \<Rightarrow> 'a kahn_state option" where
  "relax [] st = Some st"
| "relax (t # ts) st =
     (case kindeg st t of
        None \<Rightarrow> relax ts (st\<lparr>kunknown := kunknown st @ [t]\<rparr>)
      | Some 0 \<Rightarrow> None
      | Some (Suc d) \<Rightarrow>
          relax ts (st\<lparr>kindeg := (kindeg st)(t \<mapsto> d),
                       kqueue := (if d = 0 then kqueue st @ [t] else kqueue st)\<rparr>))"

fun kahn :: "nat \<Rightarrow> ('a \<Rightarrow> 'a list) \<Rightarrow> nat \<Rightarrow> 'a kahn_state \<Rightarrow> (nat \<times> 'a list) option" where
  "kahn fuel g n st =
     (case kqueue st of
        [] \<Rightarrow> Some (n, kunknown st)
      | u # q \<Rightarrow>
          (case fuel of
             0 \<Rightarrow> None
           | Suc fuel' \<Rightarrow>
               (case relax (g u) (st\<lparr>kqueue := q\<rparr>) of
                  None \<Rightarrow> None
                | Some st' \<Rightarrow> kahn fuel' g (Suc n) st')))"

declare kahn.simps [simp del]

subsection \<open>The relaxation of one node's successors\<close>

lemma relax_spec:
  assumes "\<forall>t \<in> set ts. \<exists>n. kindeg st t = Some n \<and> count_list ts t \<le> n"
  shows "\<exists>st' new. relax ts st = Some st' \<and>
    (\<forall>v. kindeg st' v = map_option (\<lambda>n. n - count_list ts v) (kindeg st v)) \<and>
    kqueue st' = kqueue st @ new \<and> distinct new \<and>
    set new = {v \<in> set ts. kindeg st v = Some (count_list ts v)} \<and>
    kunknown st' = kunknown st"
  using assms
proof (induction ts arbitrary: st)
  case Nil
  then show ?case by (auto simp: option.map_ident)
next
  case (Cons t ts)
  from Cons.prems obtain n where n: "kindeg st t = Some n" "count_list (t # ts) t \<le> n"
    by auto
  then obtain d where d: "n = Suc d" "count_list ts t \<le> d"
    by (cases n) auto
  define st1 where "st1 = st\<lparr>kindeg := (kindeg st)(t \<mapsto> d),
    kqueue := (if d = 0 then kqueue st @ [t] else kqueue st)\<rparr>"
  have step: "relax (t # ts) st = relax ts st1"
    using n d by (simp add: st1_def)
  have "\<forall>v \<in> set ts. \<exists>n. kindeg st1 v = Some n \<and> count_list ts v \<le> n"
    using Cons.prems d(2) by (auto simp: st1_def split: if_splits)
  from Cons.IH [OF this] obtain st' new where r: "relax ts st1 = Some st'"
    and deg: "\<forall>v. kindeg st' v = map_option (\<lambda>n. n - count_list ts v) (kindeg st1 v)"
    and q: "kqueue st' = kqueue st1 @ new" "distinct new"
      "set new = {v \<in> set ts. kindeg st1 v = Some (count_list ts v)}"
    and unk: "kunknown st' = kunknown st1"
    by blast
  have fresh: "d = 0 \<Longrightarrow> t \<notin> set ts"
    using d(2) by (simp add: count_list_0_iff)
  let ?new = "(if d = 0 then [t] else []) @ new"
  have "\<forall>v. kindeg st' v = map_option (\<lambda>n. n - count_list (t # ts) v) (kindeg st v)"
    using deg n d by (auto simp: st1_def)
  moreover have "kqueue st' = kqueue st @ ?new"
    using q(1) by (simp add: st1_def)
  moreover have "distinct ?new"
    using q(2,3) fresh by simp
  moreover have "set ?new = {v \<in> set (t # ts). kindeg st v = Some (count_list (t # ts) v)}"
  proof (rule set_eqI)
    fix v
    have st1: "kindeg st1 v = (if v = t then Some d else kindeg st v)"
      by (simp add: st1_def)
    show "v \<in> set ?new \<longleftrightarrow>
      v \<in> {v \<in> set (t # ts). kindeg st v = Some (count_list (t # ts) v)}"
    proof (cases "v = t")
      case True
      have "d = count_list ts t \<longleftrightarrow> d = 0 \<and> t \<notin> set ts \<or> d = count_list ts t \<and> t \<in> set ts"
        using d(2) by (auto simp: count_list_0_iff)
      with True q(3) st1 n(1) d(1) show ?thesis
        using fresh by auto
    next
      case False
      with q(3) st1 show ?thesis by auto
    qed
  qed
  moreover have "kunknown st' = kunknown st"
    using unk by (simp add: st1_def)
  ultimately show ?case
    using r step by auto
qed

subsection \<open>The contract of an index\<close>

locale edge_index =
  fixes succ :: "'a \<Rightarrow> 'a list" and edges :: "('a \<times> 'a) list"
  assumes succ_edges: "succ u = map snd (filter (\<lambda>e. fst e = u) edges)"
begin

definition pending :: "'a list \<Rightarrow> ('a \<times> 'a) list" where
  "pending visited = filter (\<lambda>e. fst e \<notin> set visited) edges"

lemma set_succ: "set (succ u) = set edges `` {u}"
  by (force simp: succ_edges)

lemma pending_snoc:
  assumes "u \<notin> set visited"
  shows "length (pending (visited @ [u])) + length (succ u) = length (pending visited)"
proof -
  have "length (filter (\<lambda>e. fst e \<notin> set visited \<and> fst e \<noteq> u) es) +
      length (filter (\<lambda>e. fst e = u) es) = length (filter (\<lambda>e. fst e \<notin> set visited) es)" for es
    using assms by (induction es) auto
  then show ?thesis
    by (simp add: pending_def succ_edges conj_commute)
qed

lemma bfs_enough:
  "length q + length (pending visited) \<le> fuel \<Longrightarrow> \<exists>vs. bfs fuel succ visited q = Some vs"
proof (induction fuel arbitrary: visited q)
  case 0
  then show ?case by simp
next
  case (Suc fuel)
  show ?case
  proof (cases q)
    case Nil
    then show ?thesis by simp
  next
    case (Cons u q')
    show ?thesis
    proof (cases "u \<in> set visited")
      case True
      with Cons Suc.prems Suc.IH [of q' visited] show ?thesis by simp
    next
      case False
      from pending_snoc [OF False] Cons Suc.prems
      have "length (q' @ succ u) + length (pending (visited @ [u])) \<le> fuel" by simp
      from Suc.IH [OF this] Cons False show ?thesis by simp
    qed
  qed
qed

lemma bfs_reachable:
  assumes "bfs fuel succ visited q = Some vs"
    and "\<forall>u \<in> set visited. set (succ u) \<subseteq> set visited \<union> set q"
  shows "set vs = (set edges)\<^sup>* `` (set visited \<union> set q)"
  using assms
proof (induction fuel g\<equiv>"succ" visited q rule: bfs.induct)
  case (1 fuel visited)
  then have "set edges `` set visited \<subseteq> set visited"
    by (auto simp: set_succ)
  then have "(set edges)\<^sup>* `` set visited = set visited"
    by (rule Image_closed_trancl)
  with 1 show ?case by simp
next
  case (2 visited u q)
  then show ?case by simp
next
  case (3 fuel visited u q)
  show ?case
  proof (cases "u \<in> set visited")
    case True
    with 3 have "set vs = (set edges)\<^sup>* `` (set visited \<union> set q)" by auto
    with True show ?thesis by (simp add: insert_absorb)
  next
    case False
    with 3 have "set vs = (set edges)\<^sup>* `` (set (visited @ [u]) \<union> set (q @ succ u))" by auto
    also have "\<dots> = (set edges)\<^sup>* `` (set visited \<union> set (u # q))"
      by (auto simp: set_succ intro: converse_rtrancl_into_rtrancl)
    finally show ?thesis .
  qed
qed

lemma bfs_correct:
  assumes "length starts + length edges \<le> fuel"
  shows "\<exists>vs. bfs fuel succ [] starts = Some vs \<and> set vs = (set edges)\<^sup>* `` set starts"
proof -
  have "length starts + length (pending []) \<le> fuel"
    using assms by (simp add: pending_def)
  from bfs_enough [OF this] obtain vs where vs: "bfs fuel succ [] starts = Some vs" ..
  from bfs_reachable [OF vs] vs show ?thesis by simp
qed

end

subsection \<open>The topological pass\<close>

locale node_graph = edge_index succ edges
  for succ :: "'a \<Rightarrow> 'a list" and edges :: "('a \<times> 'a) list" +
  fixes nodes :: "'a list"
  assumes distinct_nodes: "distinct nodes"
    and edges_nodes: "e \<in> set edges \<Longrightarrow> fst e \<in> set nodes \<and> snd e \<in> set nodes"
begin

text \<open>The in-degree of a node over the edges whose source is not processed yet.\<close>

definition indeg :: "'a list \<Rightarrow> 'a \<Rightarrow> nat" where
  "indeg P v = length (filter (\<lambda>e. snd e = v \<and> fst e \<notin> set P) edges)"

lemma indeg_snoc:
  assumes "u \<notin> set P"
  shows "indeg P v = indeg (P @ [u]) v + count_list (succ u) v"
proof -
  have "length (filter (\<lambda>e. snd e = v \<and> fst e \<notin> set P) es) =
      length (filter (\<lambda>e. snd e = v \<and> fst e \<notin> set P \<and> fst e \<noteq> u) es) +
      count_list (map snd (filter (\<lambda>e. fst e = u) es)) v" for es
    using assms by (induction es) auto
  then show ?thesis
    by (simp add: indeg_def succ_edges conj_ac)
qed

lemma indeg_zero: "indeg P v = 0 \<longleftrightarrow> (\<forall>u. (u, v) \<in> set edges \<longrightarrow> u \<in> set P)"
  by (auto simp: indeg_def filter_empty_conv)

text \<open>
  The invariant of the pass: the processed nodes \<open>P\<close> and the queue are distinct nodes, the
  degree table counts the edges from unprocessed sources, the nodes of degree zero are exactly
  the processed and the queued ones, and some rank increases along every edge into \<open>P\<close>.
\<close>

definition kinv :: "'a list \<Rightarrow> 'a kahn_state \<Rightarrow> bool" where
  "kinv P st \<longleftrightarrow> distinct (P @ kqueue st) \<and> set (P @ kqueue st) \<subseteq> set nodes \<and>
     (\<forall>v. kindeg st v = (if v \<in> set nodes then Some (indeg P v) else None)) \<and>
     (\<forall>v \<in> set nodes. indeg P v = 0 \<longleftrightarrow> v \<in> set (P @ kqueue st)) \<and>
     kunknown st = [] \<and>
     (\<exists>rank :: 'a \<Rightarrow> nat. \<forall>(u, v) \<in> set edges. v \<in> set P \<longrightarrow> u \<in> set P \<and> rank u < rank v)"

lemma rank_snoc:
  assumes rank: "\<forall>(u, v) \<in> set edges. v \<in> set P \<longrightarrow> u \<in> set P \<and> rank u < (rank v :: nat)"
    and u: "u \<notin> set P" "indeg P u = 0"
  shows "\<exists>rank' :: 'a \<Rightarrow> nat. \<forall>(w, v) \<in> set edges.
    v \<in> set (P @ [u]) \<longrightarrow> w \<in> set (P @ [u]) \<and> rank' w < rank' v"
proof -
  let ?rank = "rank(u := Suc (sum_list (map rank P)))"
  have "rank w \<le> sum_list (map rank P)" if "w \<in> set P" for w
    using that by (simp add: member_le_sum_list)
  then have "\<forall>(w, v) \<in> set edges. v \<in> set (P @ [u]) \<longrightarrow> w \<in> set (P @ [u]) \<and> ?rank w < ?rank v"
    using rank u by (fastforce simp: indeg_zero)
  then show ?thesis by blast
qed

lemma kinv_step:
  assumes inv: "kinv P st" and q: "kqueue st = u # q"
  shows "\<exists>st'. relax (succ u) (st\<lparr>kqueue := q\<rparr>) = Some st' \<and> kinv (P @ [u]) st'"
proof -
  from inv q have u: "u \<notin> set P" "u \<in> set nodes" "u \<notin> set q"
    by (auto simp: kinv_def)
  with inv q have u0: "indeg P u = 0" by (auto simp: kinv_def)
  have succ_nodes: "v \<in> set nodes" if "v \<in> set (succ u)" for v
    using that edges_nodes by (fastforce simp: set_succ)
  have "\<forall>t \<in> set (succ u). \<exists>n. kindeg (st\<lparr>kqueue := q\<rparr>) t = Some n \<and> count_list (succ u) t \<le> n"
    using inv succ_nodes indeg_snoc [OF u(1)] by (auto simp: kinv_def)
  from relax_spec [OF this] obtain st' new where r: "relax (succ u) (st\<lparr>kqueue := q\<rparr>) = Some st'"
    and deg: "\<And>v. kindeg st' v = map_option (\<lambda>n. n - count_list (succ u) v) (kindeg st v)"
    and qs: "kqueue st' = q @ new" "distinct new"
      "set new = {v \<in> set (succ u). kindeg st v = Some (count_list (succ u) v)}"
    and unk: "kunknown st' = kunknown st"
    by auto
  have new: "v \<in> set new \<longleftrightarrow> v \<in> set nodes \<and> indeg P v \<noteq> 0 \<and> indeg (P @ [u]) v = 0" for v
    using qs(3) inv succ_nodes [of v] indeg_snoc [OF u(1), of v]
    by (auto simp: kinv_def count_list_0_iff)
  have "distinct ((P @ [u]) @ kqueue st') \<and> set ((P @ [u]) @ kqueue st') \<subseteq> set nodes"
    using inv q qs new by (auto simp: kinv_def)
  moreover have "\<forall>v. kindeg st' v = (if v \<in> set nodes then Some (indeg (P @ [u]) v) else None)"
    using inv deg indeg_snoc [OF u(1)] by (auto simp: kinv_def)
  moreover have "\<forall>v \<in> set nodes. indeg (P @ [u]) v = 0 \<longleftrightarrow> v \<in> set ((P @ [u]) @ kqueue st')"
    using inv q qs(1) new indeg_snoc [OF u(1)] by (auto simp: kinv_def)
  moreover have "kunknown st' = []"
    using inv unk by (simp add: kinv_def)
  ultimately have "kinv (P @ [u]) st'"
    using inv rank_snoc [OF _ u(1) u0] unfolding kinv_def by blast
  with r show ?thesis by blast
qed

lemma kinv_length: "kinv P st \<Longrightarrow> length P + length (kqueue st) \<le> length nodes"
  using distinct_nodes card_mono [of "set nodes" "set (P @ kqueue st)"]
  by (auto simp: kinv_def distinct_length_card card_Un_disjoint)

lemma kinv_unknown: "kinv P st \<Longrightarrow> kunknown st = []"
  by (simp add: kinv_def)

lemma kahn_runs:
  assumes "kinv P st" and "length nodes \<le> length P + fuel"
  shows "\<exists>P' st'. kahn fuel succ (length P) st = Some (length P', []) \<and>
    kinv P' st' \<and> kqueue st' = []"
  using assms
proof (induction fuel arbitrary: P st)
  case 0
  with kinv_length [OF 0(1)] have "length (kqueue st) = 0" by linarith
  then have "kqueue st = []" by simp
  with 0(1) kinv_unknown [OF 0(1)] show ?case
    by (intro exI [of _ P] exI [of _ st]) (simp add: kahn.simps [of 0])
next
  case (Suc fuel)
  show ?case
  proof (cases "kqueue st")
    case Nil
    with Suc.prems(1) kinv_unknown [OF Suc.prems(1)] show ?thesis
      by (intro exI [of _ P] exI [of _ st]) (simp add: kahn.simps [of "Suc fuel"])
  next
    case (Cons u q)
    from kinv_step [OF Suc.prems(1) Cons] obtain st' where
      st': "relax (succ u) (st\<lparr>kqueue := q\<rparr>) = Some st'" "kinv (P @ [u]) st'" by blast
    from Suc.IH [OF st'(2)] Suc.prems(2) st'(1) Cons show ?thesis
      by (simp add: kahn.simps [of "Suc fuel" succ "length P" st])
  qed
qed

lemma kinv_final:
  assumes "kinv P st" and "kqueue st = []"
  shows "length P = length nodes \<longleftrightarrow> acyclic (set edges)"
proof
  assume "length P = length nodes"
  with assms distinct_nodes have P: "set P = set nodes"
    by (intro card_subset_eq) (simp_all add: kinv_def distinct_length_card)
  from assms(1) obtain rank :: "'a \<Rightarrow> nat" where
    "\<forall>(u, v) \<in> set edges. v \<in> set P \<longrightarrow> u \<in> set P \<and> rank u < rank v"
    by (auto simp: kinv_def)
  with P edges_nodes have "\<And>u v. (u, v) \<in> set edges \<Longrightarrow> rank u < rank v" by fastforce
  then have "set edges \<subseteq> measure rank" by auto
  then show "acyclic (set edges)"
    by (meson acyclic_subset wf_acyclic wf_measure)
next
  assume ac: "acyclic (set edges)"
  then have wf: "wf (set edges)" by (simp add: finite_acyclic_wf)
  have "set nodes \<subseteq> set P"
  proof
    fix v assume "v \<in> set nodes"
    with wf show "v \<in> set P"
    proof (induction v rule: wf_induct_rule)
      case (less v)
      then have "indeg P v = 0" using edges_nodes by (fastforce simp: indeg_zero)
      with less.prems assms show ?case by (auto simp: kinv_def)
    qed
  qed
  with assms distinct_nodes have "set P = set nodes" by (auto simp: kinv_def)
  with assms(1) distinct_nodes show "length P = length nodes"
    by (simp add: kinv_def distinct_length_card)
qed

theorem kahn_correct:
  assumes "kindeg st = (\<lambda>v. if v \<in> set nodes then Some (indeg [] v) else None)"
    and "distinct (kqueue st)" and "set (kqueue st) = {v \<in> set nodes. indeg [] v = 0}"
    and "kunknown st = []"
  shows "\<exists>n. kahn (length nodes) succ 0 st = Some (n, []) \<and>
    (n = length nodes \<longleftrightarrow> acyclic (set edges))"
proof -
  have "kinv [] st" using assms by (auto simp: kinv_def)
  from kahn_runs [OF this, of "length nodes"] kinv_final show ?thesis by auto
qed

end

end
