(* ===== verification/Workflow_IR.thy ===== *)
theory Workflow_IR
  imports Digraph_Search
begin

text \<open>
  The workflow intermediate representation, \<open>src-tauri/src/workflow_ir.rs\<close>: its data types and
  \<open>WorkflowIr::validate\<close>, the check every workflow passes before it is compiled or run.

  A \<open>serde_json::Value\<close> is the type parameter \<open>'v\<close>: validation never looks inside one. A
  \<open>HashSet\<close> or \<open>HashMap\<close> is a list or a map; where the code iterates over one, the order is
  the argument \<open>hash_order\<close>, of which only that it is a permutation may be assumed. The result of
  \<open>validate\<close> is wrapped in an option: \<open>None\<close> is a run that overflows \<open>usize\<close> in the in-degree
  table or does not finish, and \<open>validate_total\<close> shows that it never happens.
\<close>

subsection \<open>Data\<close>

definition WORKFLOW_IR_SCHEMA_VERSION :: string where
  "WORKFLOW_IR_SCHEMA_VERSION = ''1.0.0''"

definition WORKFLOW_COMPILER_MODEL :: string where
  "WORKFLOW_COMPILER_MODEL = ''gemma-4-e4b-qat''"

definition LEGACY_WORKFLOW_COMPILER_MODEL :: string where
  "LEGACY_WORKFLOW_COMPILER_MODEL = ''gemma-4-e2b-qat''"

datatype workflow_node_kind =
  KInput | KAgent | KRouter | KConditional | KLoop | KPermission | KMcpTool | KSystemAction
  | KOutput

record 'v input_node =
  input_id :: string
  input_label :: string
  input_output_key :: string
  input_input_schema :: 'v

record agent_node =
  agent_id :: string
  agent_label :: string
  agent_objective :: string
  agent_input_mappings :: "string \<rightharpoonup> string"
  agent_output_key :: string
  agent_system_timeout_ms :: "nat option"

record router_route =
  route_port :: string
  route_condition :: string

record router_node =
  router_id :: string
  router_label :: string
  router_expression :: string
  router_routes :: "router_route list"
  router_system_timeout_ms :: "nat option"

record conditional_node =
  conditional_id :: string
  conditional_label :: string
  conditional_condition :: string
  conditional_input_mapping :: "string option"
  conditional_system_timeout_ms :: "nat option"

record loop_node =
  loop_id :: string
  loop_label :: string
  loop_items_mapping :: string
  loop_item_variable :: string
  loop_system_timeout_ms :: "nat option"

datatype permission_kind = FileRead | FileWrite | Network | Process | PermMcpTool | Custom

datatype permission_denied_behavior = Fail | Branch

record permission_node =
  permission_id :: string
  permission_label :: string
  permission_permission :: permission_kind
  permission_reason :: string
  permission_on_denied :: permission_denied_behavior

record 'v mcp_tool_node =
  mcp_id :: string
  mcp_label :: string
  mcp_server_name :: string
  mcp_tool_name :: string
  mcp_arguments :: 'v
  mcp_input_schema :: "'v option"
  mcp_output_schema :: "'v option"
  mcp_system_timeout_ms :: "nat option"

datatype system_action_type = Shell | Python | Binary

record system_action_node =
  action_id :: string
  action_label :: string
  action_action_type :: system_action_type
  action_command :: string
  action_args :: "string list"
  action_working_directory :: "string option"
  action_system_timeout_ms :: "nat option"
  action_timeout_ms :: nat
  action_max_output_bytes :: nat

datatype workflow_completion_kind = CompletionResult | EmptyCollection

record 'v output_node =
  output_id :: string
  output_label :: string
  output_input_mapping :: string
  output_output_schema :: 'v
  output_completion_kind :: workflow_completion_kind

datatype 'v workflow_node =
  Input "'v input_node"
| Agent agent_node
| Router router_node
| Conditional conditional_node
| Loop loop_node
| Permission permission_node
| McpTool "'v mcp_tool_node"
| SystemAction system_action_node
| Output "'v output_node"

record workflow_edge =
  edge_id :: string
  source_node_id :: string
  source_port :: string
  target_node_id :: string
  target_port :: "string option"

record compiler_target =
  compiler_model :: string

record 'v workflow_ir =
  schema_version :: string
  workflow_id :: string
  workflow_version :: nat
  workflow_name :: string
  workflow_description :: string
  workflow_compiler :: compiler_target
  workflow_metadata :: "'v option"
  workflow_nodes :: "'v workflow_node list"
  workflow_edges :: "workflow_edge list"

fun node_id :: "'v workflow_node \<Rightarrow> string" where
  "node_id (Input n) = input_id n"
| "node_id (Agent n) = agent_id n"
| "node_id (Router n) = router_id n"
| "node_id (Conditional n) = conditional_id n"
| "node_id (Loop n) = loop_id n"
| "node_id (Permission n) = permission_id n"
| "node_id (McpTool n) = mcp_id n"
| "node_id (SystemAction n) = action_id n"
| "node_id (Output n) = output_id n"

fun node_kind :: "'v workflow_node \<Rightarrow> workflow_node_kind" where
  "node_kind (Input n) = KInput"
| "node_kind (Agent n) = KAgent"
| "node_kind (Router n) = KRouter"
| "node_kind (Conditional n) = KConditional"
| "node_kind (Loop n) = KLoop"
| "node_kind (Permission n) = KPermission"
| "node_kind (McpTool n) = KMcpTool"
| "node_kind (SystemAction n) = KSystemAction"
| "node_kind (Output n) = KOutput"

subsection \<open>Validation errors\<close>

text \<open>One constructor per message, with what the message quotes.\<close>

datatype ir_error =
  SchemaVersion | CompilerModel | EmptyWorkflowIdOrName | ZeroWorkflowVersion
| EmptyNodeId | DuplicateNodeId string
| DuplicateEdgeId string | DuplicateEdgeConnection string | SelfEdge string
| UnknownSource string | UnknownTarget string
| NoInputNode | NoOutputNode
| InputHasIncoming string | NeedsIncoming string | NeedsOutPort string string
| ZeroSystemTimeout string | McpNeedsNames string
| ActionNeedsCommand string | ActionZeroTimeout string | ActionZeroOutput string
| RouterTooFewRoutes string | RouterDuplicatePorts string | RouterEdgesMismatch string
| ConditionalNeedsCondition string | ExactPorts string string
| LoopNeedsItems string | LoopNeedsVariable string
| PermissionPorts string | PermissionNeedsDenied string
| OutputHasOutgoing string
| DagUnknownTarget string | GraphCyclic | NotReachable string | CannotReachOutput string

definition report :: "bool \<Rightarrow> ir_error \<Rightarrow> ir_error list" where
  "report b e = (if b then [e] else [])"

subsection \<open>The checks\<close>

definition validate_workflow_header :: "'v workflow_ir \<Rightarrow> ir_error list" where
  "validate_workflow_header w =
     report (schema_version w \<noteq> WORKFLOW_IR_SCHEMA_VERSION) SchemaVersion @
     report (compiler_model (workflow_compiler w) \<noteq> WORKFLOW_COMPILER_MODEL \<and>
             compiler_model (workflow_compiler w) \<noteq> LEGACY_WORKFLOW_COMPILER_MODEL) CompilerModel @
     report (blank (workflow_id w) \<or> blank (workflow_name w)) EmptyWorkflowIdOrName @
     report (workflow_version w = 0) ZeroWorkflowVersion"

text \<open>The first loop: collect the non-blank identifiers in a set, reporting repetitions.\<close>

fun scan_node_ids :: "string list \<Rightarrow> string list \<Rightarrow> string list \<times> ir_error list" where
  "scan_node_ids seen [] = (seen, [])"
| "scan_node_ids seen (i # is) =
     (if blank i then (case scan_node_ids seen is of (s, es) \<Rightarrow> (s, EmptyNodeId # es))
      else if i \<in> set seen then
        (case scan_node_ids seen is of (s, es) \<Rightarrow> (s, DuplicateNodeId i # es))
      else scan_node_ids (seen @ [i]) is)"

record edge_scan =
  seen_edge_ids :: "string set"
  seen_signatures :: "(string \<times> string \<times> string \<times> string option) set"
  scan_incoming :: "string \<rightharpoonup> nat"
  scan_outgoing :: "string \<rightharpoonup> workflow_edge list"
  scan_errors :: "ir_error list"

definition edge_signature :: "workflow_edge \<Rightarrow> string \<times> string \<times> string \<times> string option" where
  "edge_signature e = (source_node_id e, source_port e, target_node_id e, target_port e)"

definition bump :: "'k \<Rightarrow> ('k \<rightharpoonup> nat) \<Rightarrow> ('k \<rightharpoonup> nat)" where
  "bump k m = m(k \<mapsto> (case m k of None \<Rightarrow> 1 | Some n \<Rightarrow> Suc n))"

definition scan_edge :: "string list \<Rightarrow> workflow_edge \<Rightarrow> edge_scan \<Rightarrow> edge_scan" where
  "scan_edge known e s =
     \<lparr>seen_edge_ids = insert (edge_id e) (seen_edge_ids s),
      seen_signatures = insert (edge_signature e) (seen_signatures s),
      scan_incoming = bump (target_node_id e) (scan_incoming s),
      scan_outgoing = push_entry (source_node_id e) e (scan_outgoing s),
      scan_errors = scan_errors s @
        report (edge_id e \<in> seen_edge_ids s) (DuplicateEdgeId (edge_id e)) @
        report (edge_signature e \<in> seen_signatures s) (DuplicateEdgeConnection (edge_id e)) @
        report (source_node_id e = target_node_id e) (SelfEdge (edge_id e)) @
        report (source_node_id e \<notin> set known) (UnknownSource (edge_id e)) @
        report (target_node_id e \<notin> set known) (UnknownTarget (edge_id e))\<rparr>"

definition edge_scan_start :: edge_scan where
  "edge_scan_start = \<lparr>seen_edge_ids = {}, seen_signatures = {}, scan_incoming = Map.empty,
     scan_outgoing = Map.empty, scan_errors = []\<rparr>"

definition scan_edges :: "string list \<Rightarrow> workflow_edge list \<Rightarrow> edge_scan" where
  "scan_edges known es = fold (scan_edge known) es edge_scan_start"

definition require_incoming :: "string \<Rightarrow> nat \<Rightarrow> ir_error list" where
  "require_incoming i n = report (n = 0) (NeedsIncoming i)"

definition require_system_timeout :: "string \<Rightarrow> nat option \<Rightarrow> ir_error list" where
  "require_system_timeout i t = report (t = Some 0) (ZeroSystemTimeout i)"

definition require_single_port :: "string \<Rightarrow> workflow_edge list \<Rightarrow> string \<Rightarrow> ir_error list" where
  "require_single_port i es port =
     report (es = [] \<or> list_ex (\<lambda>e. source_port e \<noteq> port) es) (NeedsOutPort i port)"

definition require_exact_ports ::
  "string \<Rightarrow> workflow_edge list \<Rightarrow> string list \<Rightarrow> string \<Rightarrow> ir_error list" where
  "require_exact_ports i es expected message =
     report (set (map source_port es) \<noteq> set expected \<or> length es \<noteq> length expected)
       (ExactPorts i message)"

fun node_errors :: "nat \<Rightarrow> workflow_edge list \<Rightarrow> 'v workflow_node \<Rightarrow> ir_error list" where
  "node_errors n es (Input x) =
     report (n \<noteq> 0) (InputHasIncoming (input_id x)) @
     require_single_port (input_id x) es ''out''"
| "node_errors n es (Agent x) =
     require_incoming (agent_id x) n @
     require_single_port (agent_id x) es ''out'' @
     require_system_timeout (agent_id x) (agent_system_timeout_ms x)"
| "node_errors n es (McpTool x) =
     require_incoming (mcp_id x) n @
     require_single_port (mcp_id x) es ''out'' @
     require_system_timeout (mcp_id x) (mcp_system_timeout_ms x) @
     report (blank (mcp_server_name x) \<or> blank (mcp_tool_name x)) (McpNeedsNames (mcp_id x))"
| "node_errors n es (SystemAction x) =
     require_incoming (action_id x) n @
     require_single_port (action_id x) es ''out'' @
     require_system_timeout (action_id x) (action_system_timeout_ms x) @
     report (blank (action_command x)) (ActionNeedsCommand (action_id x)) @
     report (action_timeout_ms x = 0) (ActionZeroTimeout (action_id x)) @
     report (action_max_output_bytes x = 0) (ActionZeroOutput (action_id x))"
| "node_errors n es (Router x) =
     (let route_ports = set (map route_port (router_routes x));
          edge_ports = set (map source_port es) in
      require_incoming (router_id x) n @
      require_system_timeout (router_id x) (router_system_timeout_ms x) @
      report (length (router_routes x) < 2) (RouterTooFewRoutes (router_id x)) @
      report (card route_ports \<noteq> length (router_routes x)) (RouterDuplicatePorts (router_id x)) @
      report (route_ports \<noteq> edge_ports \<or> length es \<noteq> card route_ports)
        (RouterEdgesMismatch (router_id x)))"
| "node_errors n es (Conditional x) =
     require_incoming (conditional_id x) n @
     require_system_timeout (conditional_id x) (conditional_system_timeout_ms x) @
     report (blank (conditional_condition x)) (ConditionalNeedsCondition (conditional_id x)) @
     require_exact_ports (conditional_id x) es [''true'', ''false'']
       ''conditional nodes require one true edge and one false edge''"
| "node_errors n es (Loop x) =
     require_incoming (loop_id x) n @
     require_system_timeout (loop_id x) (loop_system_timeout_ms x) @
     report (blank (loop_items_mapping x)) (LoopNeedsItems (loop_id x)) @
     report (blank (loop_item_variable x)) (LoopNeedsVariable (loop_id x)) @
     require_exact_ports (loop_id x) es [''item'', ''done'']
       ''loop nodes require one item edge and one done edge''"
| "node_errors n es (Permission x) =
     (let ports = set (map source_port es) in
      require_incoming (permission_id x) n @
      report (''approved'' \<notin> ports \<or>
              list_ex (\<lambda>p. p \<noteq> ''approved'' \<and> p \<noteq> ''denied'') (map source_port es) \<or>
              card ports \<noteq> length es)
        (PermissionPorts (permission_id x)) @
      report (permission_on_denied x = Branch \<and> ''denied'' \<notin> ports)
        (PermissionNeedsDenied (permission_id x)))"
| "node_errors n es (Output x) =
     require_incoming (output_id x) n @
     report (es \<noteq> []) (OutputHasOutgoing (output_id x))"

text \<open>
  The graph part. An edge counts when both its ends are known; \<open>traverse\<close> is the search of the
  index of successors, here with the number of starts and edges as fuel.
\<close>

definition edge_pair :: "workflow_edge \<Rightarrow> string \<times> string" where
  "edge_pair e = (source_node_id e, target_node_id e)"

definition internal_edges :: "string list \<Rightarrow> workflow_edge list \<Rightarrow> workflow_edge list" where
  "internal_edges ids es =
     filter (\<lambda>e. source_node_id e \<in> set ids \<and> target_node_id e \<in> set ids) es"

definition adjacency :: "string list \<Rightarrow> workflow_edge list \<Rightarrow> string \<rightharpoonup> string list" where
  "adjacency ids es =
     fold (\<lambda>e. push_entry (source_node_id e) (target_node_id e)) (internal_edges ids es) Map.empty"

definition reverse_adjacency :: "string list \<Rightarrow> workflow_edge list \<Rightarrow> string \<rightharpoonup> string list" where
  "reverse_adjacency ids es =
     fold (\<lambda>e. push_entry (target_node_id e) (source_node_id e)) (internal_edges ids es) Map.empty"

definition indegree :: "string list \<Rightarrow> workflow_edge list \<Rightarrow> string \<rightharpoonup> nat" where
  "indegree ids es =
     fold (\<lambda>e. bump (target_node_id e)) (internal_edges ids es)
       (\<lambda>i. if i \<in> set ids then Some 0 else None)"

definition traverse :: "nat \<Rightarrow> string list \<Rightarrow> (string \<rightharpoonup> string list) \<Rightarrow> string list option" where
  "traverse fuel starts graph = bfs fuel (get_list graph) [] starts"

definition validate_dag_and_reachability ::
  "(string list \<Rightarrow> string list) \<Rightarrow> string list \<Rightarrow> string list \<Rightarrow> string list \<Rightarrow>
   workflow_edge list \<Rightarrow> ir_error list option" where
  "validate_dag_and_reachability hash_order ids inputs outputs es =
     (let deg = indegree ids es;
          start = \<lparr>kindeg = deg, kqueue = filter (\<lambda>i. deg i = Some 0) (hash_order ids),
                   kunknown = []\<rparr> in
      case kahn (length ids) (get_list (adjacency ids es)) 0 start of
        None \<Rightarrow> None
      | Some (visited_count, unknown) \<Rightarrow>
          (case (traverse (length inputs + length es) inputs (adjacency ids es),
                 traverse (length outputs + length es) outputs (reverse_adjacency ids es)) of
             (Some reachable, Some can_reach) \<Rightarrow>
               Some (map DagUnknownTarget unknown @
                 report (visited_count \<noteq> length ids) GraphCyclic @
                 concat (map (\<lambda>i. report (i \<notin> set reachable) (NotReachable i) @
                                  report (i \<notin> set can_reach) (CannotReachOutput i))
                   (hash_order ids)))
           | _ \<Rightarrow> None))"

fun is_input :: "'v workflow_node \<Rightarrow> bool" where
  "is_input (Input _) = True"
| "is_input _ = False"

fun is_output :: "'v workflow_node \<Rightarrow> bool" where
  "is_output (Output _) = True"
| "is_output _ = False"

definition ids_where :: "('v workflow_node \<Rightarrow> bool) \<Rightarrow> 'v workflow_ir \<Rightarrow> string list" where
  "ids_where p w = map node_id (filter p (workflow_nodes w))"

definition node_count :: "edge_scan \<Rightarrow> string \<Rightarrow> nat" where
  "node_count s i = (case scan_incoming s i of None \<Rightarrow> 0 | Some n \<Rightarrow> n)"

definition validate ::
  "(string list \<Rightarrow> string list) \<Rightarrow> 'v workflow_ir \<Rightarrow> (ir_error list + unit) option" where
  "validate hash_order w =
     (let ids = map node_id (workflow_nodes w);
          (node_ids, id_errors) = scan_node_ids [] ids;
          scan = scan_edges ids (workflow_edges w);
          inputs = ids_where is_input w;
          outputs = ids_where is_output w;
          errors = validate_workflow_header w @ id_errors @ scan_errors scan @
            report (inputs = []) NoInputNode @ report (outputs = []) NoOutputNode @
            concat (map (\<lambda>n. node_errors (node_count scan (node_id n))
              (get_list (scan_outgoing scan) (node_id n)) n) (workflow_nodes w));
          graph_errors =
            (if length node_ids = length (workflow_nodes w)
             then validate_dag_and_reachability hash_order node_ids inputs outputs
                    (workflow_edges w)
             else Some []) in
      case graph_errors of
        None \<Rightarrow> None
      | Some ges \<Rightarrow>
          Some (if errors @ ges = [] then Ok () else Err (errors @ ges)))"

subsection \<open>The specification\<close>

text \<open>
  What each kind of node asks of the edges into and out of it. A router's outgoing edges are in
  one-to-one correspondence with its routes, a conditional has exactly one \<open>true\<close> and one
  \<open>false\<close> edge, a loop one \<open>item\<close> and one \<open>done\<close> edge.
\<close>

definition timeout_ok :: "nat option \<Rightarrow> bool" where
  "timeout_ok t \<longleftrightarrow> t \<noteq> Some 0"

definition all_on_port :: "string \<Rightarrow> workflow_edge list \<Rightarrow> bool" where
  "all_on_port p out \<longleftrightarrow> out \<noteq> [] \<and> (\<forall>e \<in> set out. source_port e = p)"

fun node_ok :: "workflow_edge list \<Rightarrow> workflow_edge list \<Rightarrow> 'v workflow_node \<Rightarrow> bool" where
  "node_ok inn out (Input x) \<longleftrightarrow> inn = [] \<and> all_on_port ''out'' out"
| "node_ok inn out (Agent x) \<longleftrightarrow>
     inn \<noteq> [] \<and> all_on_port ''out'' out \<and> timeout_ok (agent_system_timeout_ms x)"
| "node_ok inn out (McpTool x) \<longleftrightarrow>
     inn \<noteq> [] \<and> all_on_port ''out'' out \<and> timeout_ok (mcp_system_timeout_ms x) \<and>
     \<not> blank (mcp_server_name x) \<and> \<not> blank (mcp_tool_name x)"
| "node_ok inn out (SystemAction x) \<longleftrightarrow>
     inn \<noteq> [] \<and> all_on_port ''out'' out \<and> timeout_ok (action_system_timeout_ms x) \<and>
     \<not> blank (action_command x) \<and> 0 < action_timeout_ms x \<and> 0 < action_max_output_bytes x"
| "node_ok inn out (Router x) \<longleftrightarrow>
     inn \<noteq> [] \<and> timeout_ok (router_system_timeout_ms x) \<and> 2 \<le> length (router_routes x) \<and>
     distinct (map route_port (router_routes x)) \<and>
     mset (map source_port out) = mset (map route_port (router_routes x))"
| "node_ok inn out (Conditional x) \<longleftrightarrow>
     inn \<noteq> [] \<and> timeout_ok (conditional_system_timeout_ms x) \<and>
     \<not> blank (conditional_condition x) \<and>
     mset (map source_port out) = {#''true'', ''false''#}"
| "node_ok inn out (Loop x) \<longleftrightarrow>
     inn \<noteq> [] \<and> timeout_ok (loop_system_timeout_ms x) \<and>
     \<not> blank (loop_items_mapping x) \<and> \<not> blank (loop_item_variable x) \<and>
     mset (map source_port out) = {#''item'', ''done''#}"
| "node_ok inn out (Permission x) \<longleftrightarrow>
     inn \<noteq> [] \<and>
     (mset (map source_port out) = {#''approved'', ''denied''#} \<or>
      mset (map source_port out) = {#''approved''#} \<and> permission_on_denied x = Fail)"
| "node_ok inn out (Output x) \<longleftrightarrow> inn \<noteq> [] \<and> out = []"

definition header_ok :: "'v workflow_ir \<Rightarrow> bool" where
  "header_ok w \<longleftrightarrow> schema_version w = WORKFLOW_IR_SCHEMA_VERSION \<and>
     compiler_model (workflow_compiler w) \<in>
       {WORKFLOW_COMPILER_MODEL, LEGACY_WORKFLOW_COMPILER_MODEL} \<and>
     \<not> blank (workflow_id w) \<and> \<not> blank (workflow_name w) \<and> 0 < workflow_version w"

definition edge_rel :: "'v workflow_ir \<Rightarrow> (string \<times> string) set" where
  "edge_rel w = edge_pair ` set (workflow_edges w)"

definition ids_of :: "'v workflow_ir \<Rightarrow> string list" where
  "ids_of w = map node_id (workflow_nodes w)"

definition edges_into :: "'v workflow_ir \<Rightarrow> string \<Rightarrow> workflow_edge list" where
  "edges_into w i = filter (\<lambda>e. target_node_id e = i) (workflow_edges w)"

definition edges_from :: "'v workflow_ir \<Rightarrow> string \<Rightarrow> workflow_edge list" where
  "edges_from w i = filter (\<lambda>e. source_node_id e = i) (workflow_edges w)"

definition nodes_wf :: "'v workflow_ir \<Rightarrow> bool" where
  "nodes_wf w \<longleftrightarrow> distinct (ids_of w) \<and> (\<forall>i \<in> set (ids_of w). \<not> blank i) \<and>
     ids_where is_input w \<noteq> [] \<and> ids_where is_output w \<noteq> [] \<and>
     (\<forall>n \<in> set (workflow_nodes w).
        node_ok (edges_into w (node_id n)) (edges_from w (node_id n)) n)"

definition edges_wf :: "'v workflow_ir \<Rightarrow> bool" where
  "edges_wf w \<longleftrightarrow> distinct (map edge_id (workflow_edges w)) \<and>
     distinct (map edge_signature (workflow_edges w)) \<and>
     (\<forall>e \<in> set (workflow_edges w). source_node_id e \<noteq> target_node_id e \<and>
        source_node_id e \<in> set (ids_of w) \<and> target_node_id e \<in> set (ids_of w))"

definition graph_wf :: "'v workflow_ir \<Rightarrow> bool" where
  "graph_wf w \<longleftrightarrow> acyclic (edge_rel w) \<and>
     (\<forall>i \<in> set (ids_of w).
        (\<exists>s \<in> set (ids_where is_input w). (s, i) \<in> (edge_rel w)\<^sup>*) \<and>
        (\<exists>t \<in> set (ids_where is_output w). (i, t) \<in> (edge_rel w)\<^sup>*))"

definition ir_well_formed :: "'v workflow_ir \<Rightarrow> bool" where
  "ir_well_formed w \<longleftrightarrow> header_ok w \<and> nodes_wf w \<and> edges_wf w \<and> graph_wf w"

subsection \<open>The scans agree with the specification\<close>

named_theorems ir_report \<open>when a check reports nothing\<close>

lemma report_Nil [ir_report]: "report b e = [] \<longleftrightarrow> \<not> b"
  by (simp add: report_def)

lemma header_ok_iff: "validate_workflow_header w = [] \<longleftrightarrow> header_ok w"
  by (auto simp: validate_workflow_header_def header_ok_def ir_report)

lemma scan_node_ids_collects:
  assumes "scan_node_ids seen is = (s, es)"
  shows "\<exists>new. s = seen @ new \<and> length new \<le> length is \<and> set new \<subseteq> set is \<and>
    (distinct seen \<longrightarrow> distinct s) \<and> (length new = length is \<longrightarrow> new = is) \<and>
    (es = [] \<longleftrightarrow> length new = length is)"
  using assms
proof (induction seen "is" arbitrary: s es rule: scan_node_ids.induct)
  case (1 seen)
  then show ?case by simp
next
  case (2 seen i "is")
  show ?case
  proof (cases "\<not> blank i \<and> i \<notin> set seen")
    case True
    with 2(3) 2(4) obtain new where new: "s = (seen @ [i]) @ new" "length new \<le> length is"
      "set new \<subseteq> set is" "distinct (seen @ [i]) \<longrightarrow> distinct s"
      "length new = length is \<longrightarrow> new = is" "es = [] \<longleftrightarrow> length new = length is"
      by (metis scan_node_ids.simps(2))
    with True show ?thesis by (intro exI [of _ "i # new"]) auto
  next
    case False
    then obtain s' es' where r: "scan_node_ids seen is = (s', es')" "s = s'" "es \<noteq> []"
      using 2(4) by (auto split: prod.splits if_splits)
    from False r(1) have "\<exists>new. s' = seen @ new \<and> length new \<le> length is \<and> set new \<subseteq> set is \<and>
      (distinct seen \<longrightarrow> distinct s')"
      using 2(1) 2(2) by (cases "blank i") blast+
    with r show ?thesis by fastforce
  qed
qed

lemma scan_node_ids_ok:
  "snd (scan_node_ids seen is) = [] \<longleftrightarrow>
     (\<forall>i \<in> set is. \<not> blank i) \<and> distinct is \<and> set is \<inter> set seen = {}"
  by (induction seen "is" rule: scan_node_ids.induct) (auto split: prod.splits if_splits)

definition collected_ids :: "string list \<Rightarrow> string list" where
  "collected_ids is = fst (scan_node_ids [] is)"

lemma collected_distinct: "distinct (collected_ids is)"
  using scan_node_ids_collects [of "[]" "is"]
  by (cases "scan_node_ids [] is") (auto simp: collected_ids_def)

lemma collected_full: "length (collected_ids is) = length is \<Longrightarrow> collected_ids is = is"
  using scan_node_ids_collects [of "[]" "is"]
  by (cases "scan_node_ids [] is") (auto simp: collected_ids_def)

lemma collected_length:
  "snd (scan_node_ids [] is) = [] \<longleftrightarrow> length (collected_ids is) = length is"
  using scan_node_ids_collects [of "[]" "is"]
  by (cases "scan_node_ids [] is") (auto simp: collected_ids_def)

lemma bump_count:
  "fold (\<lambda>x. bump (f x)) xs m k =
     (if \<exists>x \<in> set xs. f x = k
      then Some ((case m k of None \<Rightarrow> 0 | Some n \<Rightarrow> n) + length (filter (\<lambda>x. f x = k) xs))
      else m k)"
  by (induction xs arbitrary: m) (auto simp: bump_def filter_empty_conv split: option.splits)

lemma scan_edges_fields:
  "scan_outgoing (fold (scan_edge known) es s) =
     fold (\<lambda>e. push_entry (source_node_id e) e) es (scan_outgoing s)"
  "scan_incoming (fold (scan_edge known) es s) =
     fold (\<lambda>e. bump (target_node_id e)) es (scan_incoming s)"
  by (induction es arbitrary: s) (auto simp: scan_edge_def)

lemma scan_edges_errors:
  "scan_errors (fold (scan_edge known) es s) = [] \<longleftrightarrow>
     scan_errors s = [] \<and> distinct (map edge_id es) \<and>
     edge_id ` set es \<inter> seen_edge_ids s = {} \<and>
     distinct (map edge_signature es) \<and> edge_signature ` set es \<inter> seen_signatures s = {} \<and>
     (\<forall>e \<in> set es. source_node_id e \<noteq> target_node_id e \<and> source_node_id e \<in> set known \<and>
        target_node_id e \<in> set known)"
proof (induction es arbitrary: s)
  case (Cons e es)
  show ?case
    unfolding fold_simps comp_def Cons.IH by (auto simp: scan_edge_def ir_report)
qed simp

lemma scan_outgoing_edges:
  "get_list (scan_outgoing (scan_edges known (workflow_edges w))) i = edges_from w i"
  by (simp add: scan_edges_def scan_edges_fields get_list_fold_push edge_scan_start_def
      edges_from_def)

lemma node_count_edges:
  "node_count (scan_edges known (workflow_edges w)) i = length (edges_into w i)"
  by (auto simp: node_count_def scan_edges_def scan_edges_fields bump_count edge_scan_start_def
      edges_into_def filter_empty_conv)

lemma edges_wf_iff:
  "scan_errors (scan_edges (ids_of w) (workflow_edges w)) = [] \<longleftrightarrow> edges_wf w"
  by (simp add: scan_edges_def scan_edges_errors edge_scan_start_def edges_wf_def)

text \<open>Comparing port sets and lengths, as the code does, compares the ports as multisets.\<close>

lemma set_length_mset:
  assumes "distinct ys"
  shows "set xs = set ys \<and> length xs = length ys \<longleftrightarrow> mset xs = mset ys"
proof
  assume *: "set xs = set ys \<and> length xs = length ys"
  with assms have "distinct xs" by (metis card_distinct distinct_card)
  with * assms show "mset xs = mset ys" by (simp add: set_eq_iff_mset_eq_distinct)
next
  assume *: "mset xs = mset ys"
  then show "set xs = set ys \<and> length xs = length ys"
    by (metis mset_eq_setD mset_eq_length)
qed

lemma require_exact_ports_iff [ir_report]:
  "distinct expected \<Longrightarrow>
   require_exact_ports i es expected m = [] \<longleftrightarrow> mset (map source_port es) = mset expected"
  using set_length_mset [of expected "map source_port es"]
  by (auto simp: require_exact_ports_def report_Nil)

lemma require_simple_iff [ir_report]:
  "require_incoming i n = [] \<longleftrightarrow> n \<noteq> 0"
  "require_system_timeout i t = [] \<longleftrightarrow> timeout_ok t"
  "require_single_port i es p = [] \<longleftrightarrow> all_on_port p es"
  by (auto simp: require_incoming_def require_system_timeout_def require_single_port_def
      timeout_ok_def all_on_port_def report_Nil list_ex_iff)

lemma router_ports_iff:
  fixes es :: "workflow_edge list" and routes :: "router_route list"
  shows "card (set (map route_port routes)) = length routes \<and>
     set (map route_port routes) = set (map source_port es) \<and>
     length es = card (set (map route_port routes)) \<longleftrightarrow>
   distinct (map route_port routes) \<and> mset (map source_port es) = mset (map route_port routes)"
  using set_length_mset [of "map route_port routes" "map source_port es"]
  by (metis card_distinct distinct_card length_map)

lemma permission_ports_iff:
  fixes ports :: "string list"
  shows "''approved'' \<in> set ports \<and> (\<forall>p \<in> set ports. p = ''approved'' \<or> p = ''denied'') \<and>
     card (set ports) = length ports \<longleftrightarrow>
   mset ports = {#''approved'', ''denied''#} \<or> mset ports = {#''approved''#}"
  (is "?L \<longleftrightarrow> ?R")
proof -
  have two: "mset ports = {#''approved'', ''denied''#} \<longleftrightarrow>
      set ports = {''approved'', ''denied''} \<and> length ports = 2"
    using set_length_mset [of "[''approved'', ''denied'']" ports]
    by (simp add: numeral_2_eq_2 eq_commute)
  have one: "mset ports = {#''approved''#} \<longleftrightarrow> set ports = {''approved''} \<and> length ports = 1"
    using set_length_mset [of "[''approved'']" ports] by simp
  have "set ports = {''approved'', ''denied''} \<or> set ports = {''approved''}" if ?L
    using that by auto
  moreover have "card {''approved'', ''denied''} = 2" "card {''approved''} = 1"
    by simp_all
  ultimately show ?thesis
    unfolding one two by (smt (verit) insertCI insertE singletonD)
qed

lemma mset_denied: "mset ports = {#''approved''#} \<Longrightarrow> ''denied'' \<notin> set ports"
  "mset ports = {#''approved'', ''denied''#} \<Longrightarrow> ''denied'' \<in> set ports"
  by (auto simp flip: set_mset_mset)

lemma permission_errors_iff:
  "node_errors n es (Permission x) = [] \<longleftrightarrow> n \<noteq> 0 \<and>
     (mset (map source_port es) = {#''approved'', ''denied''#} \<or>
      mset (map source_port es) = {#''approved''#} \<and> permission_on_denied x = Fail)"
proof -
  have "node_errors n es (Permission x) = [] \<longleftrightarrow> n \<noteq> 0 \<and>
    (mset (map source_port es) = {#''approved'', ''denied''#} \<or>
     mset (map source_port es) = {#''approved''#}) \<and>
    (permission_on_denied x = Branch \<longrightarrow> ''denied'' \<in> set (map source_port es))"
    unfolding permission_ports_iff [symmetric] by (auto simp: ir_report list_ex_iff)
  then show ?thesis
    using mset_denied [of "map source_port es"] by (cases "permission_on_denied x") auto
qed

lemma router_errors_iff:
  "node_errors n es (Router x) = [] \<longleftrightarrow> n \<noteq> 0 \<and> timeout_ok (router_system_timeout_ms x) \<and>
     2 \<le> length (router_routes x) \<and> distinct (map route_port (router_routes x)) \<and>
     mset (map source_port es) = mset (map route_port (router_routes x))"
  unfolding router_ports_iff [symmetric] by (auto simp: ir_report Let_def)

lemma node_errors_iff: "node_errors (length inn) out n = [] \<longleftrightarrow> node_ok inn out n"
proof (cases n)
  case (Router x)
  then show ?thesis using router_errors_iff [of "length inn" out x] by simp
next
  case (Permission x)
  then show ?thesis using permission_errors_iff [of "length inn" out x] by simp
qed (auto simp: ir_report)

subsection \<open>The graph part\<close>

definition internal_pairs :: "string list \<Rightarrow> workflow_edge list \<Rightarrow> (string \<times> string) list" where
  "internal_pairs ids es = map edge_pair (internal_edges ids es)"

lemma internal_pairs_nodes:
  "e \<in> set (internal_pairs ids es) \<Longrightarrow> fst e \<in> set ids \<and> snd e \<in> set ids"
  by (auto simp: internal_pairs_def internal_edges_def edge_pair_def)

text \<open>
  The two indexes the code builds satisfy the contract of the search, the forward one together
  with the collected identifiers that of the topological pass.
\<close>

interpretation fwd: node_graph "get_list (adjacency (collected_ids is) es)"
  "internal_pairs (collected_ids is) es" "collected_ids is" for "is" es
  using internal_pairs_nodes collected_distinct
  by unfold_locales
    (auto simp: adjacency_def get_list_fold_push internal_pairs_def edge_pair_def filter_map
      comp_def)

interpretation bwd: edge_index "get_list (reverse_adjacency ids es)"
  "map prod.swap (internal_pairs ids es)" for ids es
  by unfold_locales
    (simp add: reverse_adjacency_def get_list_fold_push internal_pairs_def edge_pair_def
      filter_map comp_def)

lemma indegree_eq:
  "indegree (collected_ids is) es =
     (\<lambda>v. if v \<in> set (collected_ids is) then Some (fwd.indeg is es [] v) else None)"
proof
  fix v
  have "fwd.indeg is es [] v =
    length (filter (\<lambda>e. target_node_id e = v) (internal_edges (collected_ids is) es))"
    unfolding fwd.indeg_def by (simp add: internal_pairs_def edge_pair_def filter_map comp_def)
  moreover have "v \<in> set (collected_ids is)"
    if "e \<in> set (internal_edges (collected_ids is) es)" "target_node_id e = v" for e
    using that by (auto simp: internal_edges_def)
  ultimately show "indegree (collected_ids is) es v =
    (if v \<in> set (collected_ids is) then Some (fwd.indeg is es [] v) else None)"
    by (auto simp: indegree_def bump_count filter_empty_conv)
qed

lemma set_swap_converse: "set (map prod.swap xs) = (set xs)\<inverse>"
  by auto

lemma validate_dag_correct:
  fixes es :: "workflow_edge list" and xs :: "string list"
  defines "R \<equiv> set (internal_pairs (collected_ids xs) es)"
  assumes h: "permuting h"
  shows "\<exists>errs. validate_dag_and_reachability h (collected_ids xs) inputs outputs es = Some errs \<and>
    (errs = [] \<longleftrightarrow> acyclic R \<and>
      (\<forall>i \<in> set (collected_ids xs). i \<in> R\<^sup>* `` set inputs \<and> i \<in> (R\<inverse>)\<^sup>* `` set outputs))"
proof -
  let ?ids = "collected_ids xs"
  let ?deg = "indegree ?ids es"
  let ?start = "\<lparr>kindeg = ?deg, kqueue = filter (\<lambda>i. ?deg i = Some 0) (h ?ids), kunknown = []\<rparr>"
  have "distinct (kqueue ?start)"
    by (simp add: permuting_distinct [OF h] collected_distinct)
  moreover have "set (kqueue ?start) = {v \<in> set ?ids. fwd.indeg xs es [] v = 0}"
    by (auto simp: permuting_set [OF h] indegree_eq)
  ultimately obtain n where
    k: "kahn (length ?ids) (get_list (adjacency ?ids es)) 0 ?start = Some (n, [])"
      "n = length ?ids \<longleftrightarrow> acyclic R"
    using fwd.kahn_correct [of ?start xs es] by (auto simp: indegree_eq R_def)
  have len: "length (internal_pairs ?ids es) \<le> length es"
    by (simp add: internal_pairs_def internal_edges_def)
  obtain vs where vs: "traverse (length inputs + length es) inputs (adjacency ?ids es) = Some vs"
      "set vs = R\<^sup>* `` set inputs"
    using fwd.bfs_correct [of inputs xs es "length inputs + length es"] len
    by (auto simp: traverse_def R_def)
  obtain us where us: "traverse (length outputs + length es) outputs (reverse_adjacency ?ids es)
      = Some us" "set us = (R\<inverse>)\<^sup>* `` set outputs"
    using bwd.bfs_correct [of outputs ?ids es "length outputs + length es"] len
    by (auto simp: traverse_def R_def set_swap_converse simp del: set_map)
  show ?thesis
    using k vs us
    by (auto simp: validate_dag_and_reachability_def Let_def ir_report permuting_set [OF h])
qed

lemma validate_unfold:
  assumes "permuting h"
  shows "\<exists>r. validate h w = Some r \<and> (r = Ok () \<longleftrightarrow> ir_well_formed w)"
proof -
  let ?ids = "ids_of w"
  let ?col = "collected_ids ?ids"
  obtain c es where sc: "scan_node_ids [] ?ids = (c, es)" by force
  then have c: "c = ?col" and es: "es = [] \<longleftrightarrow> length ?col = length (workflow_nodes w)"
    using collected_length [of ?ids] by (auto simp: collected_ids_def ids_of_def)
  have es_wf: "es = [] \<longleftrightarrow> (\<forall>i \<in> set ?ids. \<not> blank i) \<and> distinct ?ids"
    using scan_node_ids_ok [of "[]" ?ids] sc by simp
  let ?R = "set (internal_pairs ?col (workflow_edges w))"
  obtain ges where g: "validate_dag_and_reachability h ?col (ids_where is_input w)
      (ids_where is_output w) (workflow_edges w) = Some ges"
    and ges: "ges = [] \<longleftrightarrow> acyclic ?R \<and> (\<forall>i \<in> set ?col.
      i \<in> ?R\<^sup>* `` set (ids_where is_input w) \<and> i \<in> (?R\<inverse>)\<^sup>* `` set (ids_where is_output w))"
    using validate_dag_correct [where xs = ?ids and inputs = "ids_where is_input w" and
        outputs = "ids_where is_output w" and es = "workflow_edges w", OF assms]
    by (elim exE conjE)
  have R: "?R = edge_rel w" if "edges_wf w" "?col = ?ids"
    using that by (auto simp: internal_pairs_def internal_edges_def edges_wf_def edge_rel_def)
  have graph: "ges = [] \<longleftrightarrow> graph_wf w" if "edges_wf w" "es = []"
  proof -
    from that(2) es have "length ?col = length ?ids" by (simp add: ids_of_def)
    then have col: "?col = ?ids" by (rule collected_full)
    from R [OF that(1) col] have R': "set (internal_pairs ?ids (workflow_edges w)) = edge_rel w"
      by (simp add: col)
    show ?thesis
      unfolding ges col R' graph_wf_def by (simp add: rtrancl_converse) blast
  qed
  define errors where "errors = validate_workflow_header w @ es @
      scan_errors (scan_edges ?ids (workflow_edges w)) @
      report (ids_where is_input w = []) NoInputNode @
      report (ids_where is_output w = []) NoOutputNode @
      concat (map (\<lambda>n. node_errors (length (edges_into w (node_id n)))
        (edges_from w (node_id n)) n) (workflow_nodes w))"
  have "errors = [] \<longleftrightarrow> header_ok w \<and> nodes_wf w \<and> edges_wf w"
    using es_wf
    by (auto simp: errors_def header_ok_iff edges_wf_iff nodes_wf_def ir_report node_errors_iff)
  moreover have "validate h w = Some (if errors @ (if es = [] then ges else []) = []
      then Ok () else Err (errors @ (if es = [] then ges else [])))"
    unfolding validate_def Let_def ids_of_def [symmetric] sc scan_outgoing_edges
      node_count_edges prod.case errors_def [symmetric]
    using c es g by simp
  moreover have "errors = [] \<Longrightarrow> es = []"
    by (simp add: errors_def)
  ultimately show ?thesis
    using graph by (auto simp: ir_well_formed_def)
qed

subsection \<open>Paths of a well-formed workflow\<close>

lemma successively_trancl:
  "successively (\<lambda>a b. (a, b) \<in> R) (a # p) \<Longrightarrow> b \<in> set p \<Longrightarrow> (a, b) \<in> R\<^sup>+"
proof (induction p arbitrary: a)
  case (Cons c p)
  then have "(a, c) \<in> R" "successively (\<lambda>a b. (a, b) \<in> R) (c # p)" by simp_all
  with Cons show ?case by (cases "b = c") (auto intro: trancl_into_trancl2)
qed simp

lemma acyclic_path_distinct:
  "acyclic R \<Longrightarrow> successively (\<lambda>a b. (a, b) \<in> R) p \<Longrightarrow> distinct p"
proof (induction p)
  case (Cons a p)
  have "a \<notin> set p"
    using successively_trancl [OF Cons.prems(2), of a] Cons.prems(1) by (auto simp: acyclic_def)
  with Cons show ?case by (cases p) auto
qed simp

lemma mset_map_nonempty: "mset (map f xs) = add_mset y M \<Longrightarrow> xs \<noteq> []"
  by auto

lemma node_ok_sink: "node_ok inn [] n \<Longrightarrow> is_output n"
  by (cases n) (auto simp: all_on_port_def)

lemma well_formed_sink:
  assumes "ir_well_formed w" and "i \<in> set (ids_of w)" and "\<nexists>j. (i, j) \<in> edge_rel w"
  shows "i \<in> set (ids_where is_output w)"
proof -
  from assms(2) obtain n where n: "n \<in> set (workflow_nodes w)" "i = node_id n"
    by (auto simp: ids_of_def)
  have "edges_from w i = []"
    using assms(3) by (auto simp: edges_from_def edge_rel_def edge_pair_def filter_empty_conv)
  with assms(1) n have "node_ok (edges_into w i) [] n"
    by (force simp: ir_well_formed_def nodes_wf_def)
  then have "is_output n" by (rule node_ok_sink)
  with n show ?thesis by (auto simp: ids_where_def)
qed

subsection \<open>Properties\<close>

text \<open>
  C1. \<open>WorkflowIr::validate\<close> accepts exactly the well-formed workflows, whatever order the hash
  tables iterate in: the header is right, identifiers are distinct and not blank, every node has
  the edges its kind asks for, the graph is acyclic, every node is reachable from an input and
  can reach an output.
\<close>

theorem validate_iff_well_formed:
  assumes "permuting hash_order"
  shows "validate hash_order w = Some (Ok ()) \<longleftrightarrow> ir_well_formed w"
  using validate_unfold [OF assms, of w] by auto

definition sample_ir :: "unit workflow_ir" where
  "sample_ir = \<lparr>schema_version = ''1.0.0'', workflow_id = ''w'', workflow_version = 1,
     workflow_name = ''n'', workflow_description = [],
     workflow_compiler = \<lparr>compiler_model = ''gemma-4-e4b-qat''\<rparr>, workflow_metadata = None,
     workflow_nodes =
       [Input \<lparr>input_id = ''a'', input_label = [], input_output_key = [], input_input_schema = ()\<rparr>,
        Permission \<lparr>permission_id = ''p'', permission_label = [], permission_permission = FileRead,
          permission_reason = [], permission_on_denied = Fail\<rparr>,
        Output \<lparr>output_id = ''z'', output_label = [], output_input_mapping = [],
          output_output_schema = (), output_completion_kind = CompletionResult\<rparr>],
     workflow_edges =
       [\<lparr>edge_id = ''e1'', source_node_id = ''a'', source_port = ''out'', target_node_id = ''p'',
          target_port = None\<rparr>,
        \<lparr>edge_id = ''e2'', source_node_id = ''p'', source_port = ''approved'',
          target_node_id = ''z'', target_port = None\<rparr>]\<rparr>"

lemma sample_ir_valid: "validate (\<lambda>xs. xs) sample_ir = Some (Ok ())"
  by code_simp

theorem validate_iff_well_formed_witness:
  "validate (\<lambda>xs. xs) sample_ir = Some (Ok ()) \<and> ir_well_formed sample_ir"
  using validate_iff_well_formed [OF permuting_id, of sample_ir] sample_ir_valid by simp

text \<open>
  C38. Validation always returns: for every input, well-formed or not, the in-degree table never
  underflows, both searches and the topological pass finish, and a verdict is produced.
\<close>

theorem validate_total:
  assumes "permuting hash_order"
  shows "\<exists>r. validate hash_order w = Some r"
  using validate_unfold [OF assms, of w] by blast

theorem validate_total_witness:
  "\<exists>r. validate rev (sample_ir\<lparr>workflow_edges := []\<rparr>) = Some r"
  by (rule validate_total) (simp add: permuting_def)

text \<open>
  C15. A validated workflow cannot loop or get stuck: every path along its edges visits distinct
  nodes, so it is no longer than the number of nodes, and a path that cannot be extended ends
  in an output node.
\<close>

theorem validated_paths_end:
  assumes "permuting hash_order" and "validate hash_order w = Some (Ok ())"
    and "path \<noteq> []" and "set path \<subseteq> set (ids_of w)"
    and "successively (\<lambda>a b. (a, b) \<in> edge_rel w) path"
  shows "distinct path \<and> length path \<le> length (workflow_nodes w) \<and>
    ((\<nexists>j. (last path, j) \<in> edge_rel w) \<longrightarrow> last path \<in> set (ids_where is_output w))"
proof -
  have wf: "ir_well_formed w"
    using validate_unfold [OF assms(1), of w] assms(2) by auto
  then have "acyclic (edge_rel w)" by (simp add: ir_well_formed_def graph_wf_def)
  then have d: "distinct path" using assms(5) by (rule acyclic_path_distinct)
  then have "length path \<le> length (ids_of w)"
    using card_mono [OF _ assms(4)] card_length [of "ids_of w"] by (simp add: distinct_card)
  moreover have "last path \<in> set (ids_of w)" using assms(3,4) by auto
  ultimately show ?thesis
    using d well_formed_sink [OF wf] by (simp add: ids_of_def)
qed

theorem validated_paths_end_witness:
  "distinct [''a'', ''p'', ''z''] \<and> ''z'' \<in> set (ids_where is_output sample_ir)"
proof -
  have rel: "edge_rel sample_ir = {(''a'', ''p''), (''p'', ''z'')}"
    by (simp add: edge_rel_def sample_ir_def edge_pair_def)
  have "set [''a'', ''p'', ''z''] \<subseteq> set (ids_of sample_ir)"
    by (simp add: ids_of_def sample_ir_def)
  moreover have "successively (\<lambda>a b. (a, b) \<in> edge_rel sample_ir) [''a'', ''p'', ''z'']"
    by (simp add: rel)
  ultimately show ?thesis
    using validated_paths_end [OF permuting_id sample_ir_valid, of "[''a'', ''p'', ''z'']"]
    by (simp add: rel)
qed

end
