(* ===== verification/Rust_Path.thy ===== *)
theory Rust_Path
  imports Rust_Prelude
begin

text \<open>
  \<open>std::path::Path\<close> on Unix, as far as the authority checks use it: the components of a path and
  \<open>Path::starts_with\<close>, which compares whole components. Repeated and trailing separators and
  inner \<open>.\<close> components disappear; a leading \<open>.\<close> and every \<open>..\<close> stay.
\<close>

datatype path_component = RootDir | CurDir | ParentDir | Normal string

definition path_part :: "string \<Rightarrow> path_component option" where
  "path_part p =
     (if p = [] \<or> p = ''.'' then None
      else if p = ''..'' then Some ParentDir
      else Some (Normal p))"

definition path_components :: "string \<Rightarrow> path_component list" where
  "path_components s =
     (let parts = split_char CHR ''/'' s; rest = List.map_filter path_part parts in
      if s = [] then []
      else if hd s = CHR ''/'' then RootDir # rest
      else if hd parts = ''.'' then CurDir # rest
      else rest)"

definition path_starts_with :: "string \<Rightarrow> string \<Rightarrow> bool" where
  "path_starts_with s base = prefix (path_components base) (path_components s)"

lemma path_starts_with_refl [simp]: "path_starts_with s s"
  by (simp add: path_starts_with_def)

lemma path_starts_with_trans:
  "path_starts_with a b \<Longrightarrow> path_starts_with b c \<Longrightarrow> path_starts_with a c"
  by (simp add: path_starts_with_def)

text \<open>A sibling whose name only extends the last component is not inside the folder.\<close>

lemma split_char_nonempty [simp]: "split_char d s \<noteq> []"
  by (induction s) (auto split: list.splits)

lemma split_char_append:
  "d \<notin> set a \<Longrightarrow> split_char d (a @ s) = (a @ hd (split_char d s)) # tl (split_char d s)"
  by (induction a) (auto split: list.splits)

lemma split_char_sep: "split_char d (a @ d # s) = split_char d a @ split_char d s"
proof (induction a)
  case (Cons c a)
  then show ?case by (cases "split_char d a") auto
qed simp

end
