(* ===== verification/Approval_Scopes.thy ===== *)
theory Approval_Scopes
  imports Rust_Path Transition_System
begin

text \<open>
  Reviewed approval scopes, \<open>src-tauri/src/approval_scopes.rs\<close>: reusable permissions a user has
  granted, kept in the table \<open>reviewed_approval_scopes\<close> beside an append-only audit table.

  The tables are lists of rows in insertion order. A transaction is a function from the tables to
  the tables or to an error; on an error nothing changes, as the dropped transaction rolls back.
  What the code takes from outside is an argument: the clock (\<open>now\<close>), the fresh identifier, the
  digest \<open>sha256\<close>, whether an insertion into either table succeeds (\<open>faults\<close>), and the order in
  which SQLite returns rows with equal \<open>reviewed_at_ms\<close> (\<open>tie_order\<close>). The column
  \<open>resource_budget_json\<close> is kept as the boolean it holds under \<open>untilRevoked\<close>, \<open>None\<close> where the
  text has none.
\<close>

subsection \<open>Data\<close>

record grant_row =
  g_grant_id :: string
  g_scope_kind :: string
  g_principal :: string
  g_project_id :: "string option"
  g_task_run_id :: "string option"
  g_action_class :: string
  g_canonical_resource :: string
  g_argument_class :: string
  g_expires_at_ms :: int
  g_max_uses :: int
  g_used_count :: int
  g_until_revoked :: "bool option"
  g_reviewed_at_ms :: int
  g_revoked_at_ms :: "int option"
  g_last_used_at_ms :: "int option"

datatype audit_event_type = Granted | Used | Denied | Expired | Revoked | MandatoryReconfirm

datatype audit_detail =
  GrantDetail string int int
| UseDetail string nat
| ReasonDetail string

record audit_row =
  a_grant_id :: "string option"
  a_task_run_id :: "string option"
  a_event_type :: audit_event_type
  a_action_class :: string
  a_canonical_resource_hash :: string
  a_detail :: audit_detail
  a_created_at_ms :: int

record scope_store =
  grants :: "grant_row list"
  audits :: "audit_row list"
  task_notices :: "(string \<times> string \<times> string) list"

record faults =
  insert_ok :: bool
  audit_ok :: bool
  notice_ok :: bool

datatype scope_error =
  AlwaysReconfirm | ScopeUnavailable | UnsupportedScope | TaskUnbound | ProjectUnbound
| ScopeNotFound | StorageFailure

record approval_request =
  ap_action_type :: string
  ap_principal :: "string option"
  ap_project_id :: "string option"
  ap_task_run_id :: "string option"
  ap_action_class :: string
  ap_argument_class :: string
  ap_canonical_resource :: "string option"
  ap_scope_trust_prefix :: "string option"
  ap_mandatory_reconfirm :: bool
  ap_approval_scope_kinds :: "string list"

record scope_selection =
  sel_enabled :: bool
  sel_duration_ms :: "nat option"
  sel_kind :: "string option"
  sel_max_uses :: "nat option"

subsection \<open>Classification\<close>

definition mandatory_actions :: "string list" where
  "mandatory_actions =
     [''terminal_execute'', ''shell_command'', ''execute_command'', ''delete_file'', ''trash'',
      ''credential_disclosure'', ''message_send'', ''message_post'', ''create_decision_pack'',
      ''draft_decision_pack_email'', ''create_conflict_free_calendar_event'',
      ''calendar_mutation_with_others'', ''external_private_export'', ''airlock_export'',
      ''telemetry_archive'', ''artifact_export'', ''browser_submit'', ''connector_write'']"

definition mandatory_reconfirmation :: "string \<Rightarrow> bool" where
  "mandatory_reconfirmation action =
     (to_ascii_lowercase (trim action) \<in> set mandatory_actions)"

text \<open>\<open>canonicalize\<close> asks the file system; it is the argument \<open>canon\<close>.\<close>

definition canonical_resource ::
  "(string \<Rightarrow> string option) \<Rightarrow> string option \<Rightarrow> string \<Rightarrow> string" where
  "canonical_resource canon path fallback =
     (case path of
        None \<Rightarrow> fallback
      | Some p \<Rightarrow> (case canon p of Some c \<Rightarrow> c | None \<Rightarrow> p))"

definition argument_class :: "string \<Rightarrow> string \<Rightarrow> string" where
  "argument_class action preview =
     (let normalized = to_ascii_lowercase (trim action) in
      if normalized = ''filesystem_read'' \<or> normalized = ''filesystem_write'' then normalized
      else normalized @ '':'' @
        (if length preview \<le> 255 then ''small''
         else if length preview \<le> 4095 then ''medium'' else ''large''))"

subsection \<open>The audit table\<close>

definition audit ::
  "(string \<Rightarrow> string) \<Rightarrow> int \<Rightarrow> faults \<Rightarrow> string option \<Rightarrow> string option \<Rightarrow> audit_event_type \<Rightarrow>
   string \<Rightarrow> string \<Rightarrow> audit_detail \<Rightarrow> scope_store \<Rightarrow> scope_error + scope_store" where
  "audit sha256 now f gid task event action resource detail st =
     and_then (ensure (audit_ok f) StorageFailure) (\<lambda>_.
       Ok (st\<lparr>audits := audits st @
         [\<lparr>a_grant_id = gid, a_task_run_id = task, a_event_type = event,
           a_action_class = action, a_canonical_resource_hash = sha256 resource,
           a_detail = detail, a_created_at_ms = now\<rparr>]\<rparr>))"

subsection \<open>Granting\<close>

definition FAR_FUTURE_MS :: int where
  "FAR_FUTURE_MS = 253402300799000"

definition u64_as_i64 :: "nat \<Rightarrow> int" where
  "u64_as_i64 n = (if int n \<le> i64_max then int n else int n - 2 ^ 64)"

definition clamp_int :: "int \<Rightarrow> int \<Rightarrow> int \<Rightarrow> int" where
  "clamp_int x lo hi = max lo (min hi x)"

definition max_duration :: "string \<Rightarrow> int \<Rightarrow> int option" where
  "max_duration kind now =
     (if kind = ''task'' then Some (24 * 60 * 60 * 1000)
      else if kind = ''project_path'' then Some (7 * 24 * 60 * 60 * 1000)
      else if kind = ''persistent'' then Some (saturating_sub FAR_FUTURE_MS now)
      else None)"

definition default_max_uses :: "string \<Rightarrow> nat" where
  "default_max_uses kind =
     (if kind = ''task'' then 25 else if kind = ''project_path'' then 100
      else if kind = ''persistent'' then 500 else 1)"

definition selected_kind :: "scope_selection \<Rightarrow> string" where
  "selected_kind sel =
     (case sel_kind sel of
        Some k \<Rightarrow> k
      | None \<Rightarrow> if sel_enabled sel then ''project_path'' else ''once'')"

definition grant_resource :: "approval_request \<Rightarrow> string" where
  "grant_resource ap =
     (let fs = ap_action_class ap = ''filesystem_read'' \<or> ap_action_class ap = ''filesystem_write'';
          first = (if fs then ap_scope_trust_prefix ap else ap_canonical_resource ap);
          second = (if fs then ap_canonical_resource ap else ap_scope_trust_prefix ap) in
      case first of Some r \<Rightarrow> r
      | None \<Rightarrow> (case second of Some r \<Rightarrow> r | None \<Rightarrow> ap_action_type ap))"

definition insert_grant :: "faults \<Rightarrow> grant_row \<Rightarrow> scope_store \<Rightarrow> scope_error + scope_store" where
  "insert_grant f g st =
     and_then (ensure (insert_ok f \<and> g_grant_id g \<notin> g_grant_id ` set (grants st)) StorageFailure)
       (\<lambda>_. Ok (st\<lparr>grants := grants st @ [g]\<rparr>))"

definition grant_expires :: "int \<Rightarrow> scope_selection \<Rightarrow> int \<Rightarrow> int" where
  "grant_expires now sel limit =
     (if selected_kind sel = ''persistent'' then FAR_FUTURE_MS
      else now + clamp_int (u64_as_i64 (case sel_duration_ms sel of
        None \<Rightarrow> 15 * 60 * 1000 | Some d \<Rightarrow> d)) 60000 limit)"

definition grant_max_uses :: "scope_selection \<Rightarrow> int" where
  "grant_max_uses sel =
     clamp_int (int (case sel_max_uses sel of
       None \<Rightarrow> default_max_uses (selected_kind sel) | Some n \<Rightarrow> n)) 1 10000"

definition reviewed_row ::
  "int \<Rightarrow> string \<Rightarrow> approval_request \<Rightarrow> scope_selection \<Rightarrow> int \<Rightarrow> grant_row" where
  "reviewed_row now fresh ap sel limit =
     \<lparr>g_grant_id = fresh, g_scope_kind = selected_kind sel,
      g_principal = (case ap_principal ap of None \<Rightarrow> ''local_principal'' | Some p \<Rightarrow> p),
      g_project_id = ap_project_id ap, g_task_run_id = ap_task_run_id ap,
      g_action_class = ap_action_class ap, g_canonical_resource = grant_resource ap,
      g_argument_class = ap_argument_class ap,
      g_expires_at_ms = grant_expires now sel limit,
      g_max_uses = grant_max_uses sel, g_used_count = 0,
      g_until_revoked = Some (selected_kind sel = ''persistent''), g_reviewed_at_ms = now,
      g_revoked_at_ms = None, g_last_used_at_ms = None\<rparr>"

definition grant ::
  "(string \<Rightarrow> string) \<Rightarrow> int \<Rightarrow> faults \<Rightarrow> string \<Rightarrow> approval_request \<Rightarrow> scope_selection \<Rightarrow>
   scope_store \<Rightarrow> scope_error + (string option \<times> scope_store)" where
  "grant sha256 now f fresh ap sel st =
     (let kind = selected_kind sel in
      if kind = ''once'' \<or> \<not> sel_enabled sel then Ok (None, st)
      else
        and_then (ensure (\<not> (ap_mandatory_reconfirm ap \<or>
          ap_action_class ap \<noteq> ''filesystem_read'' \<and>
          mandatory_reconfirmation (ap_action_type ap))) AlwaysReconfirm) (\<lambda>_.
        and_then (ensure (kind \<in> set (ap_approval_scope_kinds ap)) ScopeUnavailable) (\<lambda>_.
        and_then (ok_or (max_duration kind now) UnsupportedScope) (\<lambda>limit.
        and_then (ensure (\<not> (kind = ''task'' \<and> ap_task_run_id ap = None)) TaskUnbound) (\<lambda>_.
        and_then (ensure (\<not> (kind = ''project_path'' \<and>
          (ap_project_id ap = None \<or> ap_canonical_resource ap = None))) ProjectUnbound) (\<lambda>_.
        and_then (insert_grant f (reviewed_row now fresh ap sel limit) st) (\<lambda>st1.
        and_then (audit sha256 now f (Some fresh) (ap_task_run_id ap) Granted
          (ap_action_class ap) (grant_resource ap)
          (GrantDetail kind (grant_expires now sel limit) (grant_max_uses sel)) st1) (\<lambda>st2.
        Ok (Some fresh, st2)))))))))"

subsection \<open>Authorizing\<close>

record scope_call =
  c_principal :: string
  c_project_id :: "string option"
  c_task_run_id :: "string option"
  c_action_class :: string
  c_resource :: string
  c_argument_class :: string
  c_estimated_uses :: nat
  c_now :: int

definition select_rows ::
  "(grant_row list \<Rightarrow> grant_row list) \<Rightarrow> scope_call \<Rightarrow> grant_row list \<Rightarrow> grant_row list" where
  "select_rows tie_order c rows =
     sort_key (\<lambda>g. - g_reviewed_at_ms g) (tie_order
       (filter (\<lambda>g. g_principal g = c_principal c \<and> g_action_class g = c_action_class c \<and>
          g_argument_class g = c_argument_class c \<and> g_revoked_at_ms g = None \<and>
          g_expires_at_ms g > c_now c) rows))"

definition scope_matches :: "scope_call \<Rightarrow> grant_row \<Rightarrow> bool" where
  "scope_matches c g =
     (if g_scope_kind g = ''task'' then g_task_run_id g = c_task_run_id c
      else if g_scope_kind g = ''project_path'' then
        g_project_id g = c_project_id c \<and>
        path_starts_with (c_resource c) (g_canonical_resource g)
      else if g_scope_kind g = ''persistent'' then
        c_resource c = g_canonical_resource g \<or>
        path_starts_with (c_resource c) (g_canonical_resource g)
      else False)"

definition until_revoked :: "grant_row \<Rightarrow> bool" where
  "until_revoked g = (g_scope_kind g = ''persistent'' \<and> g_until_revoked g = Some True)"

definition within_use_budget :: "scope_call \<Rightarrow> grant_row \<Rightarrow> bool" where
  "within_use_budget c g =
     (until_revoked g \<or>
      saturating_add (g_used_count g) (int (c_estimated_uses c)) \<le> g_max_uses g)"

text \<open>The conditional \<open>UPDATE\<close>: the rows it changes, and how many.\<close>

definition use_row :: "scope_call \<Rightarrow> bool \<Rightarrow> string \<Rightarrow> grant_row \<Rightarrow> bool" where
  "use_row c unlimited gid g =
     (g_grant_id g = gid \<and> g_revoked_at_ms g = None \<and> g_expires_at_ms g > c_now c \<and>
      (unlimited \<or> g_used_count g + int (c_estimated_uses c) \<le> g_max_uses g))"

definition spend :: "scope_call \<Rightarrow> grant_row \<Rightarrow> grant_row" where
  "spend c g = g\<lparr>g_used_count := g_used_count g + int (c_estimated_uses c),
     g_last_used_at_ms := Some (c_now c)\<rparr>"

datatype attempt = Skip | Spent scope_store | Failed scope_error

definition attempt_row ::
  "(string \<Rightarrow> string) \<Rightarrow> faults \<Rightarrow> scope_call \<Rightarrow> grant_row \<Rightarrow> scope_store \<Rightarrow> attempt" where
  "attempt_row sha256 f c r st =
     (if scope_matches c r \<and> within_use_budget c r then
        (let hit = use_row c (until_revoked r) (g_grant_id r) in
         if \<not> list_ex hit (grants st) then Skip
         else
           (case audit sha256 (c_now c) f (Some (g_grant_id r)) (c_task_run_id c) Used
                (c_action_class c) (c_resource c)
                (UseDetail (g_scope_kind r) (c_estimated_uses c))
                (st\<lparr>grants := map (\<lambda>g. if hit g then spend c g else g) (grants st)\<rparr>) of
              Inl e \<Rightarrow> Failed e
            | Inr st' \<Rightarrow> Spent st'))
      else Skip)"

definition expired_grant :: "scope_call \<Rightarrow> grant_row list \<Rightarrow> string option" where
  "expired_grant c rows =
     (case sort_key (\<lambda>g. - g_expires_at_ms g)
         (filter (\<lambda>g. g_principal g = c_principal c \<and> g_action_class g = c_action_class c \<and>
            g_argument_class g = c_argument_class c \<and> g_revoked_at_ms g = None \<and>
            g_expires_at_ms g \<le> c_now c) rows) of
        [] \<Rightarrow> None
      | g # _ \<Rightarrow> Some (g_grant_id g))"

definition finish_denied ::
  "(string \<Rightarrow> string) \<Rightarrow> faults \<Rightarrow> scope_call \<Rightarrow> scope_store \<Rightarrow> scope_error + scope_store" where
  "finish_denied sha256 f c st =
     (let expired = expired_grant c (grants st) in
      and_then (audit sha256 (c_now c) f expired (c_task_run_id c)
        (if expired \<noteq> None then Expired else Denied) (c_action_class c) (c_resource c)
        (ReasonDetail (if expired \<noteq> None then ''scope_expired'' else ''no_matching_scope'')) st)
      (\<lambda>st'.
        Ok (case c_task_run_id c of
              None \<Rightarrow> st'
            | Some task \<Rightarrow>
                if notice_ok f then
                  st'\<lparr>task_notices := task_notices st' @
                    [(task, c_action_class c,
                      if expired \<noteq> None then ''expired'' else ''not_granted'')]\<rparr>
                else st')))"

fun try_rows ::
  "(string \<Rightarrow> string) \<Rightarrow> faults \<Rightarrow> scope_call \<Rightarrow> grant_row list \<Rightarrow> scope_store \<Rightarrow>
   scope_error + (bool \<times> scope_store)" where
  "try_rows sha256 f c [] st =
     and_then (finish_denied sha256 f c st) (\<lambda>st'. Ok (False, st'))"
| "try_rows sha256 f c (r # rs) st =
     (case attempt_row sha256 f c r st of
        Skip \<Rightarrow> try_rows sha256 f c rs st
      | Spent st' \<Rightarrow> Ok (True, st')
      | Failed e \<Rightarrow> Err e)"

definition authorize ::
  "(string \<Rightarrow> string) \<Rightarrow> (grant_row list \<Rightarrow> grant_row list) \<Rightarrow> faults \<Rightarrow> scope_call \<Rightarrow>
   scope_store \<Rightarrow> scope_error + (bool \<times> scope_store)" where
  "authorize sha256 tie_order f c st =
     (if mandatory_reconfirmation (c_action_class c) then
        and_then (audit sha256 (c_now c) f None (c_task_run_id c) MandatoryReconfirm
          (c_action_class c) (c_resource c) (ReasonDetail ''irreversible_or_high_impact'') st)
          (\<lambda>st'. Ok (False, st'))
      else try_rows sha256 f c (select_rows tie_order c (grants st)) st)"

subsection \<open>Revoking\<close>

definition revoke ::
  "(string \<Rightarrow> string) \<Rightarrow> int \<Rightarrow> faults \<Rightarrow> string \<Rightarrow> string option \<Rightarrow> scope_store \<Rightarrow>
   scope_error + scope_store" where
  "revoke sha256 now f gid reason st =
     (case filter (\<lambda>g. g_grant_id g = gid \<and> g_revoked_at_ms g = None) (grants st) of
        [] \<Rightarrow> Err ScopeNotFound
      | b # _ \<Rightarrow>
          audit sha256 now f (Some gid) (g_task_run_id b) Revoked (g_action_class b)
            (g_canonical_resource b)
            (ReasonDetail (case reason of None \<Rightarrow> ''manual_revocation'' | Some r \<Rightarrow> r))
            (st\<lparr>grants := map (\<lambda>g. if g_grant_id g = gid then g\<lparr>g_revoked_at_ms := Some now\<rparr> else g)
                            (grants st)\<rparr>))"

subsection \<open>The dashboard\<close>

record scope_filter =
  filter_project_id :: "string option"
  filter_task_run_id :: "string option"

definition grant_active :: "int \<Rightarrow> grant_row \<Rightarrow> bool" where
  "grant_active now g = (g_revoked_at_ms g = None \<and> g_expires_at_ms g > now)"

definition dashboard_grants :: "int \<Rightarrow> scope_filter \<Rightarrow> scope_store \<Rightarrow> (grant_row \<times> bool) list" where
  "dashboard_grants now flt st =
     map (\<lambda>g. (g, grant_active now g))
       (filter (\<lambda>g. (filter_project_id flt = None \<or> g_project_id g = filter_project_id flt) \<and>
                    (filter_task_run_id flt = None \<or> g_task_run_id g = filter_task_run_id flt))
         (take 250 (sort_key (\<lambda>g. - g_reviewed_at_ms g) (grants st))))"

subsection \<open>The invariant of the tables\<close>

text \<open>
  \<open>ledger\<close> adds up the uses the audit table records for a grant. The invariant says that
  identifiers are unique, that each row satisfies the table's checks and its scope is bound, that
  a row without the until-revoked flag never exceeds its budget, and that the audit table
  accounts for every use.
\<close>

definition detail_uses :: "audit_detail \<Rightarrow> int" where
  "detail_uses d = (case d of UseDetail _ n \<Rightarrow> int n | _ \<Rightarrow> 0)"

definition ledger :: "string \<Rightarrow> audit_row list \<Rightarrow> int" where
  "ledger gid as = sum_list (map (\<lambda>a. detail_uses (a_detail a))
     (filter (\<lambda>a. a_event_type a = Used \<and> a_grant_id a = Some gid) as))"

definition row_ok :: "grant_row \<Rightarrow> bool" where
  "row_ok g \<longleftrightarrow> g_scope_kind g \<in> {''task'', ''project_path'', ''persistent''} \<and>
     1 \<le> g_max_uses g \<and> g_max_uses g \<le> 10000 \<and> 0 \<le> g_used_count g \<and>
     (\<not> until_revoked g \<longrightarrow> g_used_count g \<le> g_max_uses g) \<and>
     (g_scope_kind g = ''task'' \<longrightarrow> g_task_run_id g \<noteq> None) \<and>
     (g_scope_kind g = ''project_path'' \<longrightarrow> g_project_id g \<noteq> None)"

definition store_inv :: "scope_store \<Rightarrow> bool" where
  "store_inv st \<longleftrightarrow> distinct (map g_grant_id (grants st)) \<and>
     (\<forall>g \<in> set (grants st). row_ok g \<and> g_used_count g = ledger (g_grant_id g) (audits st)) \<and>
     (\<forall>a \<in> set (audits st). a_event_type a = Used \<longrightarrow>
        (\<exists>g \<in> set (grants st). a_grant_id a = Some (g_grant_id g)))"

definition empty_store :: scope_store where
  "empty_store = \<lparr>grants = [], audits = [], task_notices = []\<rparr>"

lemma empty_store_inv: "store_inv empty_store"
  by (simp add: store_inv_def empty_store_def)

lemma ledger_append: "ledger gid (as @ [a]) =
  ledger gid as + (if a_event_type a = Used \<and> a_grant_id a = Some gid
    then detail_uses (a_detail a) else 0)"
  by (simp add: ledger_def)

lemma ledger_absent:
  "\<forall>a \<in> set as. a_event_type a = Used \<longrightarrow> a_grant_id a \<noteq> Some gid \<Longrightarrow> ledger gid as = 0"
  by (induction as) (auto simp: ledger_def)

text \<open>An audit of anything but a use keeps the invariant.\<close>

lemma audit_Ok:
  "audit sha now f gid task ev act res d st = Ok st' \<longleftrightarrow> audit_ok f \<and>
     st' = st\<lparr>audits := audits st @ [\<lparr>a_grant_id = gid, a_task_run_id = task, a_event_type = ev,
       a_action_class = act, a_canonical_resource_hash = sha res, a_detail = d,
       a_created_at_ms = now\<rparr>]\<rparr>"
  by (auto simp: audit_def result_simps)

lemma audit_inv:
  assumes "audit sha now f gid task ev act res d st = Ok st'" and "ev \<noteq> Used" and "store_inv st"
  shows "store_inv st'"
  using assms by (auto simp: audit_Ok store_inv_def ledger_append)

lemma audit_grants:
  "audit sha now f gid task ev act res d st = Ok st' \<Longrightarrow> grants st' = grants st"
  by (auto simp: audit_Ok)

subsection \<open>Granting keeps the invariant\<close>

lemma grant_cases:
  assumes "grant sha now f fresh ap sel st = Ok (r, st')"
  obtains (once) "r = None" "st' = st"
  | (granted) limit where "r = Some fresh" "selected_kind sel \<noteq> ''once''" "sel_enabled sel"
      "\<not> ap_mandatory_reconfirm ap"
      "ap_action_class ap = ''filesystem_read'' \<or> \<not> mandatory_reconfirmation (ap_action_type ap)"
      "selected_kind sel \<in> set (ap_approval_scope_kinds ap)"
      "max_duration (selected_kind sel) now = Some limit"
      "selected_kind sel = ''task'' \<longrightarrow> ap_task_run_id ap \<noteq> None"
      "selected_kind sel = ''project_path'' \<longrightarrow>
         ap_project_id ap \<noteq> None \<and> ap_canonical_resource ap \<noteq> None"
      "fresh \<notin> g_grant_id ` set (grants st)"
      "audit sha now f (Some fresh) (ap_task_run_id ap) Granted (ap_action_class ap)
         (grant_resource ap)
         (GrantDetail (selected_kind sel) (grant_expires now sel limit) (grant_max_uses sel))
         (st\<lparr>grants := grants st @ [reviewed_row now fresh ap sel limit]\<rparr>) = Ok st'"
proof (cases "selected_kind sel = ''once'' \<or> \<not> sel_enabled sel")
  case True
  with assms have "r = None \<and> st' = st" by (simp add: grant_def)
  with once show ?thesis by blast
next
  case False
  have id: "g_grant_id (reviewed_row now fresh ap sel limit) = fresh" for limit
    by (simp add: reviewed_row_def)
  from assms False obtain limit where
    l: "max_duration (selected_kind sel) now = Some limit"
      "\<not> ap_mandatory_reconfirm ap"
      "ap_action_class ap = ''filesystem_read'' \<or> \<not> mandatory_reconfirmation (ap_action_type ap)"
      "selected_kind sel \<in> set (ap_approval_scope_kinds ap)"
      "\<not> (selected_kind sel = ''task'' \<and> ap_task_run_id ap = None)"
      "\<not> (selected_kind sel = ''project_path'' \<and>
         (ap_project_id ap = None \<or> ap_canonical_resource ap = None))"
      "fresh \<notin> g_grant_id ` set (grants st)" "r = Some fresh"
      "audit sha now f (Some fresh) (ap_task_run_id ap) Granted (ap_action_class ap)
         (grant_resource ap)
         (GrantDetail (selected_kind sel) (grant_expires now sel limit) (grant_max_uses sel))
         (st\<lparr>grants := grants st @ [reviewed_row now fresh ap sel limit]\<rparr>) = Ok st'"
    by (simp add: grant_def Let_def and_then_eq_Ok ensure_eq_Ok ok_or_eq_Ok insert_grant_def id)
      blast
  show ?thesis
    using granted [OF l(8) _ _ l(2,3,4,1) _ _ l(7,9)] False l(5,6) by simp
qed

lemma max_duration_kind: "max_duration kind now = Some l \<Longrightarrow>
  kind \<in> {''task'', ''project_path'', ''persistent''}"
  by (auto simp: max_duration_def split: if_splits)

lemma grant_inv:
  assumes "grant sha now f fresh ap sel st = Ok (r, st')" and inv: "store_inv st"
  shows "store_inv st'"
  using assms(1)
proof (cases rule: grant_cases)
  case once
  with inv show ?thesis by simp
next
  case (granted limit)
  let ?row = "reviewed_row now fresh ap sel limit"
  have "ledger fresh (audits st) = 0"
  proof (rule ledger_absent, intro ballI impI notI)
    fix a assume "a \<in> set (audits st)" "a_event_type a = Used" "a_grant_id a = Some fresh"
    with inv obtain g where "g \<in> set (grants st)" "fresh = g_grant_id g"
      by (auto simp: store_inv_def)
    with granted(10) show False by blast
  qed
  moreover have "row_ok ?row"
    using max_duration_kind [OF granted(7)] granted(8,9)
    by (auto simp: row_ok_def until_revoked_def reviewed_row_def grant_max_uses_def
        clamp_int_def)
  moreover have "g_grant_id ?row = fresh" "g_used_count ?row = 0"
    by (simp_all add: reviewed_row_def)
  ultimately have "store_inv (st\<lparr>grants := grants st @ [?row]\<rparr>)"
    using inv granted(10) by (fastforce simp: store_inv_def)
  then show ?thesis by (intro audit_inv [OF granted(11)]) simp_all
qed

subsection \<open>Spending keeps the invariant\<close>

text \<open>
  A call works on rows it has read earlier. What it relies on is that the columns that never
  change (the scope, the until-revoked flag, the budget) still agree with the table.
\<close>

definition same_terms :: "grant_row \<Rightarrow> grant_row \<Rightarrow> bool" where
  "same_terms g r \<longleftrightarrow> g_grant_id g = g_grant_id r \<and> g_scope_kind g = g_scope_kind r \<and>
     g_until_revoked g = g_until_revoked r \<and> g_max_uses g = g_max_uses r \<and>
     g_principal g = g_principal r \<and> g_action_class g = g_action_class r \<and>
     g_argument_class g = g_argument_class r \<and> g_project_id g = g_project_id r \<and>
     g_task_run_id g = g_task_run_id r \<and> g_canonical_resource g = g_canonical_resource r \<and>
     g_expires_at_ms g = g_expires_at_ms r"

definition still_listed :: "grant_row \<Rightarrow> grant_row list \<Rightarrow> bool" where
  "still_listed r gs \<longleftrightarrow> (\<exists>g \<in> set gs. same_terms g r)"

lemma same_terms_refl [simp]: "same_terms g g"
  by (simp add: same_terms_def)

lemma same_terms_until: "same_terms g r \<Longrightarrow> until_revoked g = until_revoked r"
  by (simp add: same_terms_def until_revoked_def)

lemma same_terms_spend [simp]: "same_terms (spend c g) r = same_terms g r"
  by (simp add: same_terms_def spend_def)

lemma distinct_ids_eq:
  "distinct (map g_grant_id gs) \<Longrightarrow> g \<in> set gs \<Longrightarrow> h \<in> set gs \<Longrightarrow>
   g_grant_id g = g_grant_id h \<Longrightarrow> g = h"
  by (auto simp: distinct_map inj_on_def)

lemma attempt_Spent:
  assumes "attempt_row sha f c r st = Spent st'"
  shows "scope_matches c r \<and> within_use_budget c r \<and> audit_ok f \<and>
    (\<exists>g \<in> set (grants st). use_row c (until_revoked r) (g_grant_id r) g) \<and>
    grants st' = map (\<lambda>g. if use_row c (until_revoked r) (g_grant_id r) g then spend c g else g)
      (grants st) \<and>
    audits st' = audits st @ [\<lparr>a_grant_id = Some (g_grant_id r), a_task_run_id = c_task_run_id c,
      a_event_type = Used, a_action_class = c_action_class c,
      a_canonical_resource_hash = sha (c_resource c),
      a_detail = UseDetail (g_scope_kind r) (c_estimated_uses c), a_created_at_ms = c_now c\<rparr>] \<and>
    task_notices st' = task_notices st"
  using assms
  by (auto simp: attempt_row_def Let_def audit_def result_simps ensure_then list_ex_iff
      split: if_splits sum.splits)

lemma spend_one:
  assumes "distinct (map g_grant_id gs)" and "g \<in> set gs" and "use_row c u gid g"
  shows "map (\<lambda>h. if use_row c u gid h then spend c h else h) gs =
    map (\<lambda>h. if h = g then spend c h else h) gs"
  using assms distinct_ids_eq [OF assms(1)] by (intro map_cong) (auto simp: use_row_def)

lemma attempt_inv:
  assumes sp: "attempt_row sha f c r st = Spent st'" and inv: "store_inv st"
    and listed: "still_listed r (grants st)"
  shows "store_inv st'"
proof -
  note sp' = attempt_Spent [OF sp]
  then obtain g where g: "g \<in> set (grants st)" "use_row c (until_revoked r) (g_grant_id r) g"
    by blast
  have dist: "distinct (map g_grant_id (grants st))" using inv by (simp add: store_inv_def)
  obtain g' where "g' \<in> set (grants st)" "same_terms g' r"
    using listed by (auto simp: still_listed_def)
  then have terms: "same_terms g r"
    using g distinct_ids_eq [OF dist, of g g'] by (auto simp: use_row_def same_terms_def)
  have gs: "grants st' = map (\<lambda>h. if h = g then spend c h else h) (grants st)"
    using sp' spend_one [OF dist g] by simp
  have ids: "map g_grant_id (grants st') = map g_grant_id (grants st)"
    unfolding gs by (simp add: spend_def comp_def cong: if_cong)
  have "row_ok (spend c g)"
    using inv g same_terms_until [OF terms]
    by (auto simp: store_inv_def row_ok_def use_row_def spend_def until_revoked_def)
  moreover have led: "ledger k (audits st') = ledger k (audits st) +
      (if k = g_grant_id g then int (c_estimated_uses c) else 0)" for k
    using sp' g(2) by (auto simp: ledger_append detail_uses_def use_row_def)
  ultimately have rows: "row_ok h \<and> g_used_count h = ledger (g_grant_id h) (audits st')"
    if "h \<in> set (grants st')" for h
  proof (cases "h = spend c g")
    case True
    with \<open>row_ok (spend c g)\<close> inv g(1) led show ?thesis
      by (auto simp: store_inv_def spend_def)
  next
    case False
    with that have h: "h \<in> set (grants st)" "h \<noteq> g" by (auto simp: gs)
    with distinct_ids_eq [OF dist h(1) g(1)] inv led show ?thesis
      by (auto simp: store_inv_def)
  qed
  have "\<exists>h \<in> set (grants st'). a_grant_id a = Some (g_grant_id h)"
    if "a \<in> set (audits st')" "a_event_type a = Used" for a
  proof -
    have "a \<in> set (audits st) \<or> a_grant_id a = Some (g_grant_id g)"
      using that(1) sp' g(2) by (auto simp: use_row_def)
    with that(2) inv g(1) have "\<exists>h \<in> set (grants st). a_grant_id a = Some (g_grant_id h)"
      by (auto simp: store_inv_def)
    then show ?thesis
      using ids by (metis (no_types, lifting) image_eqI image_iff list.set_map)
  qed
  with inv rows ids show ?thesis by (simp add: store_inv_def)
qed

subsection \<open>Revoking and denying keep the invariant\<close>

lemma revoke_Ok:
  assumes "revoke sha now f gid reason st = Ok st'"
  shows "\<exists>b \<in> set (grants st). g_grant_id b = gid \<and> g_revoked_at_ms b = None \<and>
    (\<exists>d. audit sha now f (Some gid) (g_task_run_id b) Revoked (g_action_class b)
      (g_canonical_resource b) d
      (st\<lparr>grants := map (\<lambda>g. if g_grant_id g = gid then g\<lparr>g_revoked_at_ms := Some now\<rparr> else g)
        (grants st)\<rparr>) = Ok st')"
proof -
  obtain b bs where b: "filter (\<lambda>g. g_grant_id g = gid \<and> g_revoked_at_ms g = None) (grants st)
      = b # bs"
    using assms by (auto simp: revoke_def split: list.splits)
  then have "b \<in> set (filter (\<lambda>g. g_grant_id g = gid \<and> g_revoked_at_ms g = None) (grants st))"
    by simp
  then have "b \<in> set (grants st)" "g_grant_id b = gid" "g_revoked_at_ms b = None" by simp_all
  with b assms show ?thesis by (auto simp: revoke_def)
qed

lemma map_ids:
  "(\<And>g. g_grant_id (h g) = g_grant_id g) \<Longrightarrow> map g_grant_id (map h gs) = map g_grant_id gs"
  by simp

lemma store_inv_grants:
  "store_inv (st\<lparr>grants := gs\<rparr>) \<longleftrightarrow> distinct (map g_grant_id gs) \<and>
     (\<forall>g \<in> set gs. row_ok g \<and> g_used_count g = ledger (g_grant_id g) (audits st)) \<and>
     (\<forall>a \<in> set (audits st). a_event_type a = Used \<longrightarrow>
        (\<exists>g \<in> set gs. a_grant_id a = Some (g_grant_id g)))"
  by (simp add: store_inv_def)

lemma mark_revoked_inv:
  assumes "store_inv st"
  shows "store_inv (st\<lparr>grants := map (\<lambda>g. if g_grant_id g = gid
    then g\<lparr>g_revoked_at_ms := Some now\<rparr> else g) (grants st)\<rparr>)"
proof -
  let ?h = "\<lambda>g. if g_grant_id g = gid then g\<lparr>g_revoked_at_ms := Some now\<rparr> else g"
  have same: "g_grant_id (?h g) = g_grant_id g \<and> (row_ok (?h g) \<longleftrightarrow> row_ok g) \<and>
      g_used_count (?h g) = g_used_count g" for g :: grant_row
    by (simp add: row_ok_def until_revoked_def)
  have "map g_grant_id (map ?h (grants st)) = map g_grant_id (grants st)"
    by (rule map_ids) simp
  then have "distinct (map g_grant_id (map ?h (grants st)))"
    using assms unfolding store_inv_def by metis
  moreover have "\<forall>g \<in> set (map ?h (grants st)).
      row_ok g \<and> g_used_count g = ledger (g_grant_id g) (audits st)"
  proof
    fix g assume "g \<in> set (map ?h (grants st))"
    then obtain g0 where "g0 \<in> set (grants st)" "g = ?h g0" by auto
    with assms same [of g0] show "row_ok g \<and> g_used_count g = ledger (g_grant_id g) (audits st)"
      unfolding store_inv_def by metis
  qed
  moreover have "\<forall>a \<in> set (audits st). a_event_type a = Used \<longrightarrow>
      (\<exists>g \<in> set (map ?h (grants st)). a_grant_id a = Some (g_grant_id g))"
  proof (intro ballI impI)
    fix a assume "a \<in> set (audits st)" "a_event_type a = Used"
    with assms obtain g where "g \<in> set (grants st)" "a_grant_id a = Some (g_grant_id g)"
      by (auto simp: store_inv_def)
    with same [of g] show "\<exists>g \<in> set (map ?h (grants st)). a_grant_id a = Some (g_grant_id g)"
      by (intro bexI [of _ "?h g"]) auto
  qed
  ultimately show ?thesis unfolding store_inv_grants by blast
qed

lemma revoke_inv:
  assumes "revoke sha now f gid reason st = Ok st'" and "store_inv st"
  shows "store_inv st'"
  using revoke_Ok [OF assms(1)] mark_revoked_inv [OF assms(2)] by (auto intro: audit_inv)

lemma append_audit_inv:
  assumes "store_inv st" and "grants st' = grants st" and "audits st' = audits st @ [a]"
    and "a_event_type a \<noteq> Used"
  shows "store_inv st'"
  using assms by (auto simp: store_inv_def ledger_append)

lemma finish_denied_frame:
  assumes "finish_denied sha f c st = Ok st'"
  shows "grants st' = grants st \<and> (\<exists>a. audits st' = audits st @ [a] \<and> a_event_type a \<noteq> Used)"
proof -
  from assms obtain st1 where st1: "audit sha (c_now c) f (expired_grant c (grants st))
      (c_task_run_id c) (if expired_grant c (grants st) \<noteq> None then Expired else Denied)
      (c_action_class c) (c_resource c)
      (ReasonDetail (if expired_grant c (grants st) \<noteq> None then ''scope_expired''
        else ''no_matching_scope'')) st = Ok st1"
    and st': "st' = (case c_task_run_id c of None \<Rightarrow> st1
      | Some task \<Rightarrow> if notice_ok f then st1\<lparr>task_notices := task_notices st1 @
          [(task, c_action_class c, if expired_grant c (grants st) \<noteq> None then ''expired''
            else ''not_granted'')]\<rparr> else st1)"
    unfolding finish_denied_def Let_def and_then_eq_Ok by auto
  have "grants st' = grants st1 \<and> audits st' = audits st1"
    unfolding st' by (simp split: option.splits)
  with st1 show ?thesis by (auto simp: audit_Ok)
qed

lemma finish_denied_inv:
  "finish_denied sha f c st = Ok st' \<Longrightarrow> store_inv st \<Longrightarrow> store_inv st'"
  using finish_denied_frame append_audit_inv by blast

subsection \<open>Interleaved calls\<close>

text \<open>
  Several callers run at the same time. A state is the store with the calls in progress, each
  with the rows it has read and not tried yet; a step is one transaction of one caller. Reading
  the rows and spending from one are different steps, so another caller can spend or revoke in
  between.
\<close>

type_synonym calls = "(scope_call \<times> grant_row list) list"

inductive scope_step ::
  "(string \<Rightarrow> string) \<Rightarrow> scope_store \<times> calls \<Rightarrow> scope_store \<times> calls \<Rightarrow> bool"
  for sha256 :: "string \<Rightarrow> string" where
  do_grant: "grant sha256 now f fresh ap sel st = Ok (r, st') \<Longrightarrow>
    scope_step sha256 (st, cs) (st', cs)"
| do_revoke: "revoke sha256 now f gid reason st = Ok st' \<Longrightarrow>
    scope_step sha256 (st, cs) (st', cs)"
| do_mandatory: "mandatory_reconfirmation (c_action_class c) \<Longrightarrow>
    authorize sha256 tie_order f c st = Ok (b, st') \<Longrightarrow> scope_step sha256 (st, cs) (st', cs)"
| do_select: "\<not> mandatory_reconfirmation (c_action_class c) \<Longrightarrow>
    permuting tie_order \<Longrightarrow>
    scope_step sha256 (st, cs) (st, (c, select_rows tie_order c (grants st)) # cs)"
| do_skip: "attempt_row sha256 f c r st = Skip \<Longrightarrow>
    scope_step sha256 (st, cs1 @ (c, r # rs) # cs2) (st, cs1 @ (c, rs) # cs2)"
| do_spend: "attempt_row sha256 f c r st = Spent st' \<Longrightarrow>
    scope_step sha256 (st, cs1 @ (c, r # rs) # cs2) (st', cs1 @ cs2)"
| do_fail: "scope_step sha256 (st, cs1 @ (c, rs) # cs2) (st, cs1 @ cs2)"
| do_deny: "finish_denied sha256 f c st = Ok st' \<Longrightarrow>
    scope_step sha256 (st, cs1 @ (c, []) # cs2) (st', cs1 @ cs2)"

definition sys_inv :: "scope_store \<times> calls \<Rightarrow> bool" where
  "sys_inv s \<longleftrightarrow> store_inv (fst s) \<and>
     (\<forall>(c, rs) \<in> set (snd s). \<forall>r \<in> set rs. still_listed r (grants (fst s)))"

text \<open>How a row may change: its terms stay, its count grows, and a revoked row is frozen.\<close>

definition row_le :: "grant_row \<Rightarrow> grant_row \<Rightarrow> bool" where
  "row_le g h \<longleftrightarrow> same_terms h g \<and> g_used_count g \<le> g_used_count h \<and>
     (g_revoked_at_ms g \<noteq> None \<longrightarrow> g_revoked_at_ms h \<noteq> None \<and> g_used_count h = g_used_count g)"

definition rows_le :: "grant_row list \<Rightarrow> grant_row list \<Rightarrow> bool" where
  "rows_le gs hs \<longleftrightarrow> (\<forall>g \<in> set gs. \<exists>h \<in> set hs. row_le g h)"

lemma row_le_refl [simp]: "row_le g g"
  by (simp add: row_le_def)

lemma row_le_trans: "row_le g h \<Longrightarrow> row_le h k \<Longrightarrow> row_le g k"
  by (auto simp: row_le_def same_terms_def)

lemma rows_le_refl: "rows_le gs gs"
  unfolding rows_le_def using row_le_refl by blast

lemma rows_le_append: "rows_le gs (gs @ hs)"
  unfolding rows_le_def set_append using row_le_refl by blast

lemma rows_le_trans: "rows_le gs hs \<Longrightarrow> rows_le hs ks \<Longrightarrow> rows_le gs ks"
  unfolding rows_le_def by (meson row_le_trans)

lemma rows_le_listed: "rows_le gs hs \<Longrightarrow> still_listed r gs \<Longrightarrow> still_listed r hs"
  unfolding rows_le_def still_listed_def row_le_def same_terms_def by metis

lemma rows_le_map: "(\<And>g. g \<in> set gs \<Longrightarrow> row_le g (h g)) \<Longrightarrow> rows_le gs (map h gs)"
  by (auto simp: rows_le_def)

lemma grant_rows_le:
  assumes "grant sha now f fresh ap sel st = Ok (r, st')"
  shows "rows_le (grants st) (grants st')"
  using assms
proof (cases rule: grant_cases)
  case once
  then show ?thesis by (simp add: rows_le_refl)
next
  case (granted limit)
  from audit_grants [OF granted(11)] show ?thesis by (simp add: rows_le_append)
qed

lemma revoke_rows_le:
  assumes "revoke sha now f gid reason st = Ok st'"
  shows "rows_le (grants st) (grants st')"
proof -
  have "grants st' = map (\<lambda>g. if g_grant_id g = gid then g\<lparr>g_revoked_at_ms := Some now\<rparr> else g)
      (grants st)"
    using revoke_Ok [OF assms] by (auto dest: audit_grants)
  moreover have "row_le g (if g_grant_id g = gid then g\<lparr>g_revoked_at_ms := Some now\<rparr> else g)"
    for g :: grant_row by (simp add: row_le_def same_terms_def)
  ultimately show ?thesis by (simp add: rows_le_map)
qed

lemma attempt_rows_le:
  assumes "attempt_row sha f c r st = Spent st'"
  shows "rows_le (grants st) (grants st')"
proof -
  let ?h = "\<lambda>g. if use_row c (until_revoked r) (g_grant_id r) g then spend c g else g"
  have "row_le g (?h g)" for g
    by (simp add: row_le_def use_row_def) (simp add: spend_def)
  then show ?thesis using attempt_Spent [OF assms] by (simp add: rows_le_map)
qed

lemma mandatory_authorize:
  assumes "authorize sha tie_order f c st = Ok (b, st')"
    and "mandatory_reconfirmation (c_action_class c)"
  shows "\<not> b \<and> audit sha (c_now c) f None (c_task_run_id c) MandatoryReconfirm (c_action_class c)
    (c_resource c) (ReasonDetail ''irreversible_or_high_impact'') st = Ok st'"
  using assms by (auto simp: authorize_def result_simps)

lemma scope_step_rows_le:
  "scope_step sha s t \<Longrightarrow> rows_le (grants (fst s)) (grants (fst t))"
proof (induction rule: scope_step.induct)
  case (do_mandatory c tie_order f st b st' cs)
  then show ?case by (auto dest!: mandatory_authorize audit_grants simp: rows_le_refl)
next
  case (do_deny f c st st' cs1 cs2)
  then show ?case using finish_denied_frame by (fastforce simp: rows_le_refl)
qed (auto simp: rows_le_refl intro: grant_rows_le revoke_rows_le attempt_rows_le)

lemma scope_step_store_inv:
  "scope_step sha s t \<Longrightarrow> sys_inv s \<Longrightarrow> store_inv (fst t)"
proof (induction rule: scope_step.induct)
  case (do_mandatory c tie_order f st b st' cs)
  then show ?case by (auto dest!: mandatory_authorize audit_inv simp: sys_inv_def)
next
  case (do_spend f c r st st' cs1 rs cs2)
  then show ?case by (auto simp: sys_inv_def intro: attempt_inv)
qed (auto simp: sys_inv_def intro: grant_inv revoke_inv finish_denied_inv)

lemma select_rows_set:
  assumes "permuting tie_order"
  shows "set (select_rows tie_order c gs) = {g \<in> set gs. g_principal g = c_principal c \<and>
    g_action_class g = c_action_class c \<and> g_argument_class g = c_argument_class c \<and>
    g_revoked_at_ms g = None \<and> g_expires_at_ms g > c_now c}"
  by (simp add: select_rows_def permuting_set [OF assms])

lemma select_rows_listed:
  assumes "permuting tie_order" and "r \<in> set (select_rows tie_order c gs)"
  shows "still_listed r gs"
  unfolding still_listed_def
  by (rule bexI [of _ r]) (use assms select_rows_set [OF assms(1)] in auto)

lemma scope_step_calls:
  "scope_step sha s t \<Longrightarrow> (c, rs) \<in> set (snd t) \<Longrightarrow> r \<in> set rs \<Longrightarrow>
   (\<exists>rs'. (c, rs') \<in> set (snd s) \<and> r \<in> set rs') \<or> still_listed r (grants (fst s))"
  by (induction rule: scope_step.induct) (auto intro: select_rows_listed)

lemma scope_step_inv:
  assumes "sys_inv s" and "scope_step sha s t"
  shows "sys_inv t"
proof -
  have "still_listed r (grants (fst t))" if "(c, rs) \<in> set (snd t)" "r \<in> set rs" for c rs r
  proof -
    have "still_listed r (grants (fst s))"
      using scope_step_calls [OF assms(2) that] assms(1) by (auto simp: sys_inv_def)
    then show ?thesis by (rule rows_le_listed [OF scope_step_rows_le [OF assms(2)]])
  qed
  with scope_step_store_inv [OF assms(2,1)] show ?thesis by (auto simp: sys_inv_def)
qed

interpretation scopes: monotone_system "scope_step sha" sys_inv
  "\<lambda>s t. rows_le (grants (fst s)) (grants (fst t))" for sha
  by unfold_locales (auto intro: scope_step_inv scope_step_rows_le rows_le_refl rows_le_trans)

subsection \<open>A whole call\<close>

lemma try_rows_cases:
  assumes "try_rows sha f c rs st = Ok (b, st')"
  shows "(\<not> b \<and> finish_denied sha f c st = Ok st') \<or>
    (b \<and> (\<exists>r \<in> set rs. attempt_row sha f c r st = Spent st'))"
  using assms
  by (induction rs) (auto simp: result_simps split: attempt.splits)

text \<open>A call made on its own is a run of the interleaved system.\<close>

lemma try_rows_run:
  "try_rows sha f c rs st = Ok (b, st') \<Longrightarrow> (scope_step sha)\<^sup>*\<^sup>* (st, (c, rs) # cs) (st', cs)"
proof (induction rs)
  case Nil
  then have "scope_step sha (st, [] @ (c, []) # cs) (st', [] @ cs)"
    by (intro do_deny) (auto simp: result_simps)
  then show ?case by auto
next
  case (Cons r rs)
  show ?case
  proof (cases "attempt_row sha f c r st")
    case Skip
    from do_skip [OF Skip, of "[]" rs cs] Cons.IH Cons.prems Skip show ?thesis
      by (auto intro: converse_rtranclp_into_rtranclp)
  next
    case (Spent st'')
    from do_spend [OF Spent, of "[]" rs cs] Cons.prems Spent show ?thesis by auto
  next
    case (Failed e)
    with Cons.prems show ?thesis by simp
  qed
qed

lemma attempt_fresh:
  assumes inv: "store_inv st" and r: "r \<in> set (grants st)" "g_revoked_at_ms r = None"
      "c_now c < g_expires_at_ms r"
    and m: "scope_matches c r" "within_use_budget c r" and "c_estimated_uses c \<le> u32_max"
  shows "use_row c (until_revoked r) (g_grant_id r) r"
proof (cases "until_revoked r")
  case True
  with r show ?thesis by (simp add: use_row_def)
next
  case False
  from inv r(1) have "row_ok r" by (simp add: store_inv_def)
  with False assms(7) have "in_i64 (g_used_count r + int (c_estimated_uses c))"
    by (simp add: row_ok_def in_i64_def i64_min_def i64_max_def u32_max_def)
  with False r m(2) show ?thesis
    by (simp add: use_row_def within_use_budget_def saturating_add_def clamp_id)
qed

lemma try_rows_succeeds:
  assumes "audit_ok f"
    and "\<exists>r \<in> set rs. scope_matches c r \<and> within_use_budget c r \<and>
      (\<exists>g \<in> set (grants st). use_row c (until_revoked r) (g_grant_id r) g)"
  shows "\<exists>st'. try_rows sha f c rs st = Ok (True, st')"
  using assms(2)
proof (induction rs)
  case (Cons r rs)
  show ?case
  proof (cases "attempt_row sha f c r st")
    case Skip
    then have "\<not> (scope_matches c r \<and> within_use_budget c r \<and>
        (\<exists>g \<in> set (grants st). use_row c (until_revoked r) (g_grant_id r) g))"
      using assms(1)
      by (auto simp: attempt_row_def Let_def list_ex_iff split: if_splits sum.splits)
    with Cons Skip show ?thesis by auto
  next
    case (Failed e)
    then have False
      using assms(1)
      by (auto simp: attempt_row_def Let_def audit_def ensure_then split: if_splits sum.splits)
    then show ?thesis ..
  qed auto
qed simp

lemma authorize_spends:
  assumes "store_inv st" and "permuting tie_order" and "c_estimated_uses c \<le> u32_max"
    and "authorize sha256 tie_order f c st = Ok (True, st')"
  shows "\<not> mandatory_reconfirmation (c_action_class c) \<and>
    (\<exists>g \<in> set (grants st). g_principal g = c_principal c \<and> g_action_class g = c_action_class c \<and>
      g_argument_class g = c_argument_class c \<and> g_revoked_at_ms g = None \<and>
      c_now c < g_expires_at_ms g \<and> scope_matches c g \<and>
      (until_revoked g \<or> g_used_count g + int (c_estimated_uses c) \<le> g_max_uses g) \<and>
      grants st' = map (\<lambda>h. if h = g then spend c h else h) (grants st) \<and>
      (\<exists>a. audits st' = audits st @ [a] \<and> a_event_type a = Used \<and>
         a_grant_id a = Some (g_grant_id g)))"
proof -
  have nm: "\<not> mandatory_reconfirmation (c_action_class c)"
    using mandatory_authorize [OF assms(4)] by blast
  with assms(4) have "try_rows sha256 f c (select_rows tie_order c (grants st)) st = Ok (True, st')"
    by (simp add: authorize_def)
  from try_rows_cases [OF this] obtain r where
    r: "r \<in> set (select_rows tie_order c (grants st))" "attempt_row sha256 f c r st = Spent st'"
    by auto
  have row: "r \<in> set (grants st)" "g_principal r = c_principal c" "g_action_class r = c_action_class c"
    "g_argument_class r = c_argument_class c" "g_revoked_at_ms r = None"
    "c_now c < g_expires_at_ms r"
    using r(1) select_rows_set [OF assms(2)] by auto
  note sp = attempt_Spent [OF r(2)]
  have use: "use_row c (until_revoked r) (g_grant_id r) r"
    using attempt_fresh [OF assms(1) row(1,5,6) _ _ assms(3)] sp by blast
  have "distinct (map g_grant_id (grants st))" using assms(1) by (simp add: store_inv_def)
  from spend_one [OF this row(1) use] sp
  have "grants st' = map (\<lambda>h. if h = r then spend c h else h) (grants st)" by simp
  with nm row sp use show ?thesis
    by (intro conjI bexI [of _ r]) (simp_all add: use_row_def)
qed

lemma authorize_denies:
  assumes "authorize sha256 tie_order f c st = Ok (b, st')"
    and "\<not> b \<or> mandatory_reconfirmation (c_action_class c)"
  shows "\<not> b \<and> grants st' = grants st \<and>
    (\<exists>a. audits st' = audits st @ [a] \<and> a_event_type a \<noteq> Used)"
proof (cases "mandatory_reconfirmation (c_action_class c)")
  case True
  from mandatory_authorize [OF assms(1) True] show ?thesis by (auto simp: audit_Ok)
next
  case False
  with assms have "try_rows sha256 f c (select_rows tie_order c (grants st)) st = Ok (b, st')"
    by (simp add: authorize_def)
  from try_rows_cases [OF this] False assms(2) finish_denied_frame show ?thesis by blast
qed

text \<open>A call of \<open>authorize\<close> that returns is a run of single transactions of the interleaved system.\<close>

lemma authorize_is_run:
  assumes "permuting tie_order" and "authorize sha256 tie_order f c st = Ok (b, st')"
  shows "(scope_step sha256)\<^sup>*\<^sup>* (st, calls) (st', calls)"
proof (cases "mandatory_reconfirmation (c_action_class c)")
  case True
  from do_mandatory [OF True assms(2)] show ?thesis by blast
next
  case False
  with assms(2) have t: "try_rows sha256 f c (select_rows tie_order c (grants st)) st = Ok (b, st')"
    by (simp add: authorize_def)
  from do_select [OF False assms(1)] try_rows_run [OF t] show ?thesis
    by (meson converse_rtranclp_into_rtranclp)
qed

subsection \<open>Properties\<close>

text \<open>
  C23. No overspending under concurrency: however grants, revocations and the read and write
  transactions of any number of authorization calls interleave, a use-bounded grant's counter
  never passes its budget (at most 10000), and the counter equals the uses the audit table
  records for that grant.
\<close>

theorem no_overspend:
  assumes "(scope_step sha256)\<^sup>*\<^sup>* (empty_store, []) (st, calls)" and "g \<in> set (grants st)"
  shows "g_used_count g = ledger (g_grant_id g) (audits st) \<and>
    (\<not> until_revoked g \<longrightarrow> g_used_count g \<le> g_max_uses g \<and> g_max_uses g \<le> 10000)"
proof -
  have "sys_inv (empty_store, [])" by (simp add: sys_inv_def empty_store_inv)
  with assms(1) have "sys_inv (st, calls)" by (rule scopes.run_inv)
  with assms(2) show ?thesis by (auto simp: sys_inv_def store_inv_def row_ok_def)
qed

definition sample_approval :: approval_request where
  "sample_approval = \<lparr>ap_action_type = ''filesystem_write'', ap_principal = None,
     ap_project_id = Some ''p1'', ap_task_run_id = Some ''t1'',
     ap_action_class = ''filesystem_write'', ap_argument_class = ''filesystem_write'',
     ap_canonical_resource = Some ''/work/docs/a.md'', ap_scope_trust_prefix = Some ''/work/docs'',
     ap_mandatory_reconfirm = False, ap_approval_scope_kinds = [''project_path'']\<rparr>"

definition sample_selection :: scope_selection where
  "sample_selection = \<lparr>sel_enabled = True, sel_duration_ms = None, sel_kind = None,
     sel_max_uses = Some 2\<rparr>"

definition no_faults :: faults where
  "no_faults = \<lparr>insert_ok = True, audit_ok = True, notice_ok = True\<rparr>"

definition sample_call :: scope_call where
  "sample_call = \<lparr>c_principal = ''local_principal'', c_project_id = Some ''p1'',
     c_task_run_id = None, c_action_class = ''filesystem_write'',
     c_resource = ''/work/docs/sub/b.md'', c_argument_class = ''filesystem_write'',
     c_estimated_uses = 2, c_now = 2000\<rparr>"

definition sample_store :: scope_store where
  "sample_store = (case grant (\<lambda>s. s) 1000 no_faults ''trustgrant_1'' sample_approval
     sample_selection empty_store of Inl _ \<Rightarrow> empty_store | Inr (_, st) \<Rightarrow> st)"

lemma sample_not_mandatory: "\<not> mandatory_reconfirmation ''filesystem_write''"
  by code_simp

lemmas sample_simps = sample_approval_def sample_selection_def no_faults_def empty_store_def
  sample_not_mandatory selected_kind_def max_duration_def ensure_def ok_or_def insert_grant_def
  audit_def

lemma sample_grant: "grant (\<lambda>s. s) 1000 no_faults ''trustgrant_1'' sample_approval
    sample_selection empty_store = Ok (Some ''trustgrant_1'', sample_store)"
  by (simp add: sample_store_def grant_def Let_def sample_simps)

lemma sample_run: "(scope_step (\<lambda>s. s))\<^sup>*\<^sup>* (empty_store, []) (sample_store, [])"
  by (intro r_into_rtranclp do_grant) (rule sample_grant)

lemma sample_store_inv: "store_inv sample_store"
  using scopes.run_inv [OF sample_run] by (simp add: sys_inv_def empty_store_inv)

definition sample_row :: grant_row where
  "sample_row = reviewed_row 1000 ''trustgrant_1'' sample_approval sample_selection 604800000"

lemma sample_store_rows: "grants sample_store = [sample_row]"
  by (simp add: sample_store_def sample_row_def grant_def Let_def sample_simps)

lemma sample_row_eq:
  "sample_row = \<lparr>g_grant_id = ''trustgrant_1'', g_scope_kind = ''project_path'',
     g_principal = ''local_principal'', g_project_id = Some ''p1'', g_task_run_id = Some ''t1'',
     g_action_class = ''filesystem_write'', g_canonical_resource = ''/work/docs'',
     g_argument_class = ''filesystem_write'', g_expires_at_ms = 901000, g_max_uses = 2,
     g_used_count = 0, g_until_revoked = Some False, g_reviewed_at_ms = 1000,
     g_revoked_at_ms = None, g_last_used_at_ms = None\<rparr>"
  by (simp add: sample_row_def reviewed_row_def sample_approval_def sample_selection_def
      grant_resource_def grant_expires_def grant_max_uses_def selected_kind_def clamp_int_def
      u64_as_i64_def i64_max_def)

lemma sample_path: "path_starts_with ''/work/docs/sub/b.md'' ''/work/docs''"
  by code_simp

lemma sample_authorized:
  "\<exists>st'. authorize (\<lambda>s. s) (\<lambda>gs. gs) no_faults sample_call sample_store = Ok (True, st')"
  by (simp add: authorize_def select_rows_def sample_store_rows sample_row_eq sample_call_def
      sample_not_mandatory attempt_row_def scope_matches_def sample_path within_use_budget_def
      until_revoked_def use_row_def no_faults_def audit_def ensure_def saturating_add_def
      clamp_i64_def i64_min_def i64_max_def Let_def)

theorem no_overspend_witness:
  "g_used_count sample_row = ledger ''trustgrant_1'' (audits sample_store) \<and>
   g_max_uses sample_row = 2 \<and> g_used_count sample_row \<le> g_max_uses sample_row"
proof -
  have "sample_row \<in> set (grants sample_store)" by (simp add: sample_store_rows)
  from no_overspend [OF sample_run this] show ?thesis
    by (simp add: sample_row_eq until_revoked_def)
qed

text \<open>
  C24. When \<open>authorize\<close> says yes, the store held a grant for exactly this principal, action class
  and argument class, neither revoked nor expired, whose scope covers the resource and whose
  budget allows the estimated uses; the action is not one that always needs confirmation; only
  that row's counter changes, by the estimated uses; and one \<open>used\<close> event is recorded. A scope of
  kind \<open>task\<close> covers every resource of its task.
\<close>

theorem authorize_true:
  assumes "store_inv st" and "permuting tie_order" and "c_estimated_uses c \<le> u32_max"
    and "authorize sha256 tie_order f c st = Ok (True, st')"
  shows "\<not> mandatory_reconfirmation (c_action_class c) \<and>
    (\<exists>g \<in> set (grants st). g_principal g = c_principal c \<and> g_action_class g = c_action_class c \<and>
      g_argument_class g = c_argument_class c \<and> g_revoked_at_ms g = None \<and>
      c_now c < g_expires_at_ms g \<and> scope_matches c g \<and>
      (until_revoked g \<or> g_used_count g + int (c_estimated_uses c) \<le> g_max_uses g) \<and>
      grants st' = map (\<lambda>h. if h = g then spend c h else h) (grants st) \<and>
      (\<exists>a. audits st' = audits st @ [a] \<and> a_event_type a = Used \<and>
         a_grant_id a = Some (g_grant_id g)))"
  using assms by (rule authorize_spends)

theorem authorize_true_witness:
  "\<exists>st'. authorize (\<lambda>s. s) (\<lambda>gs. gs) no_faults sample_call sample_store = Ok (True, st') \<and>
     grants st' = [spend sample_call sample_row]"
proof -
  obtain st' where st':
    "authorize (\<lambda>s. s) (\<lambda>gs. gs) no_faults sample_call sample_store = Ok (True, st')"
    using sample_authorized by blast
  have "c_estimated_uses sample_call \<le> u32_max" by (simp add: sample_call_def u32_max_def)
  from authorize_true [OF sample_store_inv permuting_id this st'] st' show ?thesis
    by (auto simp: sample_store_rows)
qed

text \<open>
  C25. A revocation is final: once \<open>revoke\<close> has succeeded, whatever runs afterwards (calls that
  read the grant before the revocation included), the grant is still revoked and its use counter
  is what it was at the revocation.
\<close>

theorem revoked_is_final:
  assumes "sys_inv (st, calls)" and "revoke sha256 now f gid reason st = Ok st1"
    and "(scope_step sha256)\<^sup>*\<^sup>* (st1, calls) (st2, calls2)"
    and "g \<in> set (grants st)" and "g_grant_id g = gid"
  shows "\<exists>h \<in> set (grants st2). g_grant_id h = gid \<and> g_revoked_at_ms h \<noteq> None \<and>
    g_used_count h = g_used_count g"
proof -
  have "sys_inv (st1, calls)"
    by (rule scope_step_inv [OF assms(1) do_revoke [OF assms(2)]])
  with assms(3) have le: "rows_le (grants st1) (grants st2)"
    using scopes.run_le by fastforce
  have "grants st1 = map (\<lambda>g. if g_grant_id g = gid then g\<lparr>g_revoked_at_ms := Some now\<rparr> else g)
      (grants st)"
    using revoke_Ok [OF assms(2)] by (auto dest: audit_grants)
  with assms(4,5) have "g\<lparr>g_revoked_at_ms := Some now\<rparr> \<in> set (grants st1)" by force
  with le obtain h where "h \<in> set (grants st2)" "row_le (g\<lparr>g_revoked_at_ms := Some now\<rparr>) h"
    by (auto simp: rows_le_def)
  with assms(5) show ?thesis by (intro bexI [of _ h]) (auto simp: row_le_def same_terms_def)
qed

theorem revoked_is_final_witness:
  "\<exists>st1. revoke (\<lambda>s. s) 1500 no_faults ''trustgrant_1'' None sample_store = Ok st1 \<and>
     (\<exists>h \<in> set (grants st1). g_grant_id h = ''trustgrant_1'' \<and> g_revoked_at_ms h \<noteq> None)"
proof -
  have "\<exists>st1. revoke (\<lambda>s. s) 1500 no_faults ''trustgrant_1'' None sample_store = Ok st1"
    by (simp add: revoke_def sample_store_rows sample_row_eq no_faults_def audit_def ensure_def)
  then obtain st1 where st1:
    "revoke (\<lambda>s. s) 1500 no_faults ''trustgrant_1'' None sample_store = Ok st1" by blast
  have "sys_inv (sample_store, [])" by (simp add: sys_inv_def sample_store_inv)
  from revoked_is_final [OF this st1 rtranclp.rtrancl_refl, of sample_row] st1 show ?thesis
    by (auto simp: sample_store_rows sample_row_eq)
qed

text \<open>
  C39. A covered action is let through: if the store holds an unrevoked, unexpired grant for the
  call whose scope covers the resource and whose budget allows the uses, the action is not one
  that always needs confirmation, and the audit table can be written, then \<open>authorize\<close> answers
  yes, in whatever order the candidate rows come.
\<close>

theorem authorize_complete:
  assumes "store_inv st" and "permuting tie_order" and "c_estimated_uses c \<le> u32_max"
    and "audit_ok f" and "\<not> mandatory_reconfirmation (c_action_class c)"
    and "g \<in> set (grants st)" and "g_principal g = c_principal c"
    and "g_action_class g = c_action_class c" and "g_argument_class g = c_argument_class c"
    and "g_revoked_at_ms g = None" and "c_now c < g_expires_at_ms g" and "scope_matches c g"
    and "g_used_count g + int (c_estimated_uses c) \<le> g_max_uses g"
  shows "\<exists>st'. authorize sha256 tie_order f c st = Ok (True, st')"
proof -
  have "row_ok g" using assms(1,6) by (simp add: store_inv_def)
  with assms(13) have "in_i64 (g_used_count g + int (c_estimated_uses c))"
    by (simp add: row_ok_def in_i64_def i64_min_def i64_max_def)
  with assms(13) have budget: "within_use_budget c g"
    by (simp add: within_use_budget_def saturating_add_def clamp_id)
  have "use_row c (until_revoked g) (g_grant_id g) g"
    by (rule attempt_fresh [OF assms(1,6,10,11,12) budget assms(3)])
  moreover have "g \<in> set (select_rows tie_order c (grants st))"
    using assms by (simp add: select_rows_set)
  ultimately have "\<exists>r \<in> set (select_rows tie_order c (grants st)). scope_matches c r \<and>
      within_use_budget c r \<and> (\<exists>h \<in> set (grants st). use_row c (until_revoked r) (g_grant_id r) h)"
    using assms(6,12) budget by blast
  from try_rows_succeeds [OF assms(4) this] assms(5) show ?thesis by (simp add: authorize_def)
qed

theorem authorize_complete_witness:
  "\<exists>st'. authorize (\<lambda>s. s) rev no_faults sample_call sample_store = Ok (True, st')"
proof (rule authorize_complete [where g = sample_row])
  show "store_inv sample_store" by (rule sample_store_inv)
  show "permuting (rev :: grant_row list \<Rightarrow> grant_row list)" by (simp add: permuting_def)
qed (simp_all add: sample_call_def u32_max_def no_faults_def sample_not_mandatory
    sample_store_rows sample_row_eq scope_matches_def sample_path)

text \<open>
  A denial leaves the grants alone: when \<open>authorize\<close> says no, the table of grants is
  unchanged and exactly one event, not a \<open>used\<close> one, is appended to the audit table; and an
  action that always needs confirmation is always denied.
\<close>

theorem authorize_denied:
  assumes "authorize sha256 tie_order f c st = Ok (b, st')"
    and "\<not> b \<or> mandatory_reconfirmation (c_action_class c)"
  shows "\<not> b \<and> grants st' = grants st \<and>
    (\<exists>a. audits st' = audits st @ [a] \<and> a_event_type a \<noteq> Used)"
  using assms by (rule authorize_denies)

theorem authorize_denied_witness:
  "\<exists>st'. authorize (\<lambda>s. s) (\<lambda>gs. gs) no_faults
       (sample_call\<lparr>c_action_class := ''delete_file''\<rparr>) sample_store = Ok (False, st') \<and>
     grants st' = grants sample_store"
proof -
  have m: "mandatory_reconfirmation ''delete_file''" by code_simp
  then have "\<exists>st'. authorize (\<lambda>s. s) (\<lambda>gs. gs) no_faults
       (sample_call\<lparr>c_action_class := ''delete_file''\<rparr>) sample_store = Ok (False, st')"
    by (simp add: authorize_def no_faults_def audit_def ensure_def)
  then obtain st' where st': "authorize (\<lambda>s. s) (\<lambda>gs. gs) no_faults
       (sample_call\<lparr>c_action_class := ''delete_file''\<rparr>) sample_store = Ok (False, st')" by blast
  from authorize_denied [OF st'] st' show ?thesis by simp
qed

text \<open>
  A grant is bounded: what \<open>grant\<close> stores is one new row with the fresh identifier, unused
  and unrevoked, of an available scope kind; a task grant lives between one minute and a day, a
  project grant between one minute and a week, and only a persistent one is marked until-revoked.
\<close>

theorem grant_bounds:
  assumes "grant sha256 now f fresh ap sel st = Ok (Some gid, st')"
  shows "\<exists>g. grants st' = grants st @ [g] \<and> g_grant_id g = gid \<and> gid = fresh \<and>
    g_used_count g = 0 \<and> g_revoked_at_ms g = None \<and> 1 \<le> g_max_uses g \<and> g_max_uses g \<le> 10000 \<and>
    g_scope_kind g \<in> set (ap_approval_scope_kinds ap) \<and> \<not> ap_mandatory_reconfirm ap \<and>
    (until_revoked g \<longleftrightarrow> g_scope_kind g = ''persistent'') \<and>
    (g_scope_kind g = ''task'' \<longrightarrow> g_task_run_id g \<noteq> None \<and>
       now + 60000 \<le> g_expires_at_ms g \<and> g_expires_at_ms g \<le> now + 86400000) \<and>
    (g_scope_kind g = ''project_path'' \<longrightarrow> g_project_id g \<noteq> None \<and>
       now + 60000 \<le> g_expires_at_ms g \<and> g_expires_at_ms g \<le> now + 604800000)"
  using assms
proof (cases rule: grant_cases)
  case (granted limit)
  from audit_grants [OF granted(11)] granted show ?thesis
    by (auto simp: reviewed_row_def grant_expires_def grant_max_uses_def clamp_int_def
        until_revoked_def max_duration_def split: if_splits)
qed simp

theorem grant_bounds_witness:
  "\<exists>g. grants sample_store = [g] \<and> g_expires_at_ms g \<le> 1000 + 604800000 \<and> g_max_uses g \<le> 10000"
  using grant_bounds [OF sample_grant] by (auto simp: sample_store_rows sample_row_eq)

end
