(* ===== verification/Network_Policy.thy ===== *)
theory Network_Policy
  imports Rust_Prelude "HOL-Library.Word"
begin

text \<open>
  The destination policy of the native network boundaries, \<open>src-tauri/src/network_policy.rs\<close>:
  a URL is put in canonical form and refused unless it is unambiguous, its name is resolved, and
  every address of the answer must be public, or the exact granted loopback port. An approval
  binds origin, transport, class and the complete answer set.

  The \<open>url\<close> crate and the textual form of IP addresses are arguments of the model (\<open>url_lib\<close>,
  \<open>ip_text\<close>), as are SHA-256 and the resolver, whose answer is a list of addresses, a failure or
  a timeout. The text of a \<open>NetworkPolicyError\<close> is not kept, only its code.
\<close>

unbundle bit_operations_syntax

type_synonym u8 = "8 word"
type_synonym u16 = "16 word"

subsection \<open>Addresses and their classes\<close>

datatype ipv4 = IPv4 u8 u8 u8 u8

datatype ipv6 = IPv6 u16 u16 u16 u16 u16 u16 u16 u16

datatype ip_addr = V4 ipv4 | V6 ipv6

datatype ip_security_class =
  PublicIp | Loopback | Unspecified | Private | LinkLocal | Multicast | CarrierGradeNat | Reserved

fun class_label :: "ip_security_class \<Rightarrow> string" where
  "class_label PublicIp = ''public''"
| "class_label Loopback = ''loopback''"
| "class_label Unspecified = ''unspecified''"
| "class_label Private = ''private''"
| "class_label LinkLocal = ''link_local''"
| "class_label Multicast = ''multicast''"
| "class_label CarrierGradeNat = ''carrier_grade_nat''"
| "class_label Reserved = ''reserved_or_metadata''"

text \<open>The predicates of \<open>std::net::Ipv4Addr\<close> the code uses.\<close>

fun v4_is_unspecified :: "ipv4 \<Rightarrow> bool" where
  "v4_is_unspecified (IPv4 a b c d) = (a = 0 \<and> b = 0 \<and> c = 0 \<and> d = 0)"

fun v4_is_loopback :: "ipv4 \<Rightarrow> bool" where
  "v4_is_loopback (IPv4 a b c d) = (a = 127)"

fun v4_is_private :: "ipv4 \<Rightarrow> bool" where
  "v4_is_private (IPv4 a b c d) =
     (a = 10 \<or> (a = 172 \<and> 16 \<le> b \<and> b \<le> 31) \<or> (a = 192 \<and> b = 168))"

fun v4_is_link_local :: "ipv4 \<Rightarrow> bool" where
  "v4_is_link_local (IPv4 a b c d) = (a = 169 \<and> b = 254)"

fun v4_is_multicast :: "ipv4 \<Rightarrow> bool" where
  "v4_is_multicast (IPv4 a b c d) = (224 \<le> a \<and> a \<le> 239)"

fun classify_ipv4 :: "ipv4 \<Rightarrow> ip_security_class" where
  "classify_ipv4 (IPv4 a b c d) =
     (let ip = IPv4 a b c d in
      if v4_is_unspecified ip then Unspecified
      else if v4_is_loopback ip then Loopback
      else if v4_is_private ip then Private
      else if v4_is_link_local ip then LinkLocal
      else if v4_is_multicast ip then Multicast
      else if a = 100 \<and> 64 \<le> b \<and> b \<le> 127 then CarrierGradeNat
      else if a = 0 \<or> (a = 192 \<and> b = 0 \<and> c = 0) \<or> (a = 192 \<and> b = 0 \<and> c = 2) \<or>
              (a = 192 \<and> b = 88 \<and> c = 99) \<or> (a = 198 \<and> (b = 18 \<or> b = 19)) \<or>
              (a = 198 \<and> b = 51 \<and> c = 100) \<or> (a = 203 \<and> b = 0 \<and> c = 113) \<or> 240 \<le> a
      then Reserved
      else PublicIp)"

fun v6_segments :: "ipv6 \<Rightarrow> u16 list" where
  "v6_segments (IPv6 a b c d e f g h) = [a, b, c, d, e, f, g, h]"

definition v6_is_unspecified :: "ipv6 \<Rightarrow> bool" where
  "v6_is_unspecified ip = (v6_segments ip = [0, 0, 0, 0, 0, 0, 0, 0])"

definition v6_is_loopback :: "ipv6 \<Rightarrow> bool" where
  "v6_is_loopback ip = (v6_segments ip = [0, 0, 0, 0, 0, 0, 0, 1])"

fun v6_is_multicast :: "ipv6 \<Rightarrow> bool" where
  "v6_is_multicast (IPv6 a b c d e f g h) = (a AND 0xff00 = 0xff00)"

fun to_ipv4_mapped :: "ipv6 \<Rightarrow> ipv4 option" where
  "to_ipv4_mapped (IPv6 a b c d e f g h) =
     (if a = 0 \<and> b = 0 \<and> c = 0 \<and> d = 0 \<and> e = 0 \<and> f = 0xffff
      then Some (IPv4 (ucast (drop_bit 8 g)) (ucast g) (ucast (drop_bit 8 h)) (ucast h))
      else None)"

fun classify_ipv6 :: "ipv6 \<Rightarrow> ip_security_class" where
  "classify_ipv6 (IPv6 a b c d e f g h) =
     (let ip = IPv6 a b c d e f g h in
      if v6_is_unspecified ip then Unspecified
      else if v6_is_loopback ip then Loopback
      else if v6_is_multicast ip then Multicast
      else
        (case to_ipv4_mapped ip of
           Some mapped \<Rightarrow> classify_ipv4 mapped
         | None \<Rightarrow>
             if a AND 0xfe00 = 0xfc00 then Private
             else if a AND 0xffc0 = 0xfe80 then LinkLocal
             else if (a = 0x0064 \<and> b = 0xff9b \<and> c = 0 \<and> d = 0 \<and> e = 0 \<and> f = 0) \<or>
                     (a = 0x0064 \<and> b = 0xff9b \<and> c = 1) \<or>
                     (a = 0x2001 \<and> b AND 0xfe00 = 0) \<or>
                     a = 0x2002 \<or>
                     a AND 0xff00 = 0x3f00 \<or>
                     (a = 0x2001 \<and> b = 0x0db8)
             then Reserved
             else if a AND 0xe000 \<noteq> 0x2000 then Reserved
             else PublicIp))"

fun classify_ip :: "ip_addr \<Rightarrow> ip_security_class" where
  "classify_ip (V4 a) = classify_ipv4 a"
| "classify_ip (V6 a) = classify_ipv6 a"

text \<open>The order of \<open>IpAddr\<close>, which a \<open>BTreeSet\<close> sorts by: version, then the parts in turn.\<close>

fun ip_key :: "ip_addr \<Rightarrow> nat list" where
  "ip_key (V4 (IPv4 a b c d)) = [4, unat a, unat b, unat c, unat d]"
| "ip_key (V6 (IPv6 a b c d e f g h)) =
     [6, unat a, unat b, unat c, unat d, unat e, unat f, unat g, unat h]"

definition btree_collect :: "ip_addr list \<Rightarrow> ip_addr list" where
  "btree_collect xs = sort_key ip_key (remdups xs)"

subsection \<open>Destinations\<close>

datatype destination_transport = RemoteMcpHttp | RemoteMcpSse | NativeBrowser

fun transport_str :: "destination_transport \<Rightarrow> string" where
  "transport_str RemoteMcpHttp = ''remote_mcp_http''"
| "transport_str RemoteMcpSse = ''remote_mcp_sse''"
| "transport_str NativeBrowser = ''native_browser''"

record local_origin_grant =
  exact_loopback_port :: nat

datatype resolved_destination_class = Public | ExactLoopback

fun destination_class_str :: "resolved_destination_class \<Rightarrow> string" where
  "destination_class_str Public = ''public''"
| "destination_class_str ExactLoopback = ''exact_loopback''"

datatype network_policy_error = Invalid | Blocked | Changed

fun error_code :: "network_policy_error \<Rightarrow> string" where
  "error_code Invalid = ''destination_invalid''"
| "error_code Blocked = ''destination_blocked''"
| "error_code Changed = ''destination_policy_changed''"

record 'u url_lib =
  url_parse :: "string \<Rightarrow> 'u option"
  url_username :: "'u \<Rightarrow> string"
  url_password :: "'u \<Rightarrow> string option"
  url_fragment :: "'u \<Rightarrow> string option"
  url_path :: "'u \<Rightarrow> string"
  url_scheme :: "'u \<Rightarrow> string"
  url_host_str :: "'u \<Rightarrow> string option"
  url_port :: "'u \<Rightarrow> nat option"
  url_port_or_known_default :: "'u \<Rightarrow> nat option"
  url_set_port_none :: "'u \<Rightarrow> 'u option"
  url_as_str :: "'u \<Rightarrow> string"
  url_origin_ascii :: "'u \<Rightarrow> string"

record ip_text =
  ip_parse :: "string \<Rightarrow> ip_addr option"
  ip_to_string :: "ip_addr \<Rightarrow> string"

record 'u canonical_parts =
  cp_url :: 'u
  cp_canonical_url :: string
  cp_canonical_origin :: string
  cp_host :: string
  cp_port :: nat
  cp_transport :: destination_transport
  cp_local_origin_grant :: "local_origin_grant option"

record 'u canonical_destination =
  cd_url :: 'u
  cd_canonical_url :: string
  cd_canonical_origin :: string
  cd_host :: string
  cd_port :: nat
  cd_transport :: destination_transport
  cd_resolved_addresses :: "ip_addr list"
  cd_destination_class :: resolved_destination_class
  cd_local_origin_grant :: "local_origin_grant option"
  cd_binding_fingerprint :: string

definition MAX_DESTINATION_URL_BYTES :: nat where
  "MAX_DESTINATION_URL_BYTES = 8 * 1024"

definition MAX_DESTINATION_PATH_BYTES :: nat where
  "MAX_DESTINATION_PATH_BYTES = 4 * 1024"

subsection \<open>Canonical form\<close>

definition raw_authority :: "string \<Rightarrow> network_policy_error + string" where
  "raw_authority endpoint =
     and_then (ok_or (split_once_str ''://'' endpoint) Invalid) (\<lambda>(_, remainder).
       let authority = takeWhile (\<lambda>c. c \<notin> set ''/?#'') remainder in
       and_then (ensure (authority \<noteq> []) Invalid) (\<lambda>_. Ok authority))"

definition raw_host :: "string \<Rightarrow> network_policy_error + string" where
  "raw_host authority =
     (case authority of
        CHR ''['' # r \<Rightarrow>
          (if CHR '']'' \<in> set r then Ok (takeWhile (\<lambda>c. c \<noteq> CHR '']'') r) else Err Invalid)
      | _ \<Rightarrow> Ok (takeWhile (\<lambda>c. c \<noteq> CHR '':'') authority))"

definition validate_canonical_host ::
  "ip_text \<Rightarrow> string \<Rightarrow> string \<Rightarrow> network_policy_error + unit" where
  "validate_canonical_host ipt raw canonical =
     and_then (ensure (\<not> (raw = [] \<or> ends_with raw ''.'' \<or> starts_with raw ''.'' \<or>
       contains_str raw ''..'' \<or> CHR ''_'' \<in> set raw)) Invalid) (\<lambda>_.
     case ip_parse ipt canonical of
       None \<Rightarrow> Ok ()
     | Some ip \<Rightarrow>
         ensure (to_ascii_lowercase raw = to_ascii_lowercase (ip_to_string ipt ip)) Invalid)"

definition is_metadata_hostname :: "string \<Rightarrow> bool" where
  "is_metadata_hostname host =
     (host \<in> set [''metadata.google.internal'', ''instance-data.ec2.internal'',
        ''metadata.azure.internal'', ''metadata.oraclecloud.com'', ''metadata.packet.net'',
        ''metadata.tencentyun.com''] \<or>
      ends_with host ''.metadata.google.internal'')"

definition canonicalize_destination ::
  "'u url_lib \<Rightarrow> ip_text \<Rightarrow> string \<Rightarrow> destination_transport \<Rightarrow> local_origin_grant option \<Rightarrow>
   network_policy_error + 'u canonical_parts" where
  "canonicalize_destination ul ipt endpoint0 transport grant =
     (let endpoint = trim endpoint0 in
      and_then (ensure (\<not> (endpoint = [] \<or> length endpoint > MAX_DESTINATION_URL_BYTES)) Invalid)
        (\<lambda>_.
      and_then (raw_authority endpoint) (\<lambda>authority.
      and_then (ensure (\<not> (\<not> is_ascii_str authority \<or> CHR ''%'' \<in> set authority \<or>
        CHR 0x5C \<in> set authority)) Invalid) (\<lambda>_.
      and_then (ok_or (url_parse ul endpoint) Invalid) (\<lambda>url.
      and_then (ensure (\<not> (url_username ul url \<noteq> [] \<or> url_password ul url \<noteq> None \<or>
        CHR ''@'' \<in> set authority)) Invalid) (\<lambda>_.
      and_then (ensure (url_fragment ul url = None) Invalid) (\<lambda>_.
      and_then (ensure (length (url_path ul url) \<le> MAX_DESTINATION_PATH_BYTES) Invalid) (\<lambda>_.
      let scheme = url_scheme ul url in
      and_then (ensure (scheme = ''http'' \<or> scheme = ''https'') Invalid) (\<lambda>_.
      and_then (ensure (\<not> (transport = NativeBrowser \<and> scheme \<noteq> ''https'')) Blocked) (\<lambda>_.
      and_then (ensure (\<not> (scheme = ''http'' \<and> grant = None)) Blocked) (\<lambda>_.
      and_then (ok_or (url_host_str ul url) Invalid) (\<lambda>host0.
      let host = to_ascii_lowercase host0 in
      and_then (raw_host authority) (\<lambda>raw.
      and_then (validate_canonical_host ipt raw host) (\<lambda>_.
      and_then (ensure (\<not> (is_metadata_hostname host \<or> host = ''localhost'' \<or>
        ends_with host ''.localhost'')) Blocked) (\<lambda>_.
      and_then (ok_or (url_port_or_known_default ul url) Invalid) (\<lambda>port.
      and_then (ensure (port \<noteq> 0) Invalid) (\<lambda>_.
      and_then (case grant of
          None \<Rightarrow> Ok ()
        | Some g \<Rightarrow> ensure (\<not> (exact_loopback_port g = 0 \<or> exact_loopback_port g \<noteq> port)) Blocked)
        (\<lambda>_.
      and_then (if (scheme = ''https'' \<and> url_port ul url = Some 443) \<or>
            (scheme = ''http'' \<and> url_port ul url = Some 80)
          then ok_or (url_set_port_none ul url) Invalid else Ok url) (\<lambda>url'.
      Ok \<lparr>cp_url = url', cp_canonical_url = url_as_str ul url',
          cp_canonical_origin = url_origin_ascii ul url', cp_host = host, cp_port = port,
          cp_transport = transport, cp_local_origin_grant = grant\<rparr>)))))))))))))))))))"

subsection \<open>Resolution\<close>

definition ensure_address_allowed ::
  "ip_addr \<Rightarrow> nat \<Rightarrow> local_origin_grant option \<Rightarrow> network_policy_error + resolved_destination_class"
where
  "ensure_address_allowed address port grant =
     (let class = classify_ip address in
      if class = PublicIp then (if grant \<noteq> None then Err Blocked else Ok Public)
      else if class = Loopback \<and> (case grant of None \<Rightarrow> False | Some g \<Rightarrow> exact_loopback_port g = port)
      then Ok ExactLoopback
      else Err Blocked)"

fun class_of_all ::
  "nat \<Rightarrow> local_origin_grant option \<Rightarrow> resolved_destination_class option \<Rightarrow> ip_addr list \<Rightarrow>
   network_policy_error + resolved_destination_class option" where
  "class_of_all port grant acc [] = Ok acc"
| "class_of_all port grant acc (a # as) =
     and_then (ensure_address_allowed a port grant) (\<lambda>class.
     and_then (ensure (\<not> (acc \<noteq> None \<and> acc \<noteq> Some class)) Blocked) (\<lambda>_.
     class_of_all port grant (Some class) as))"

definition fingerprint_bytes ::
  "ip_text \<Rightarrow> string \<Rightarrow> destination_transport \<Rightarrow> resolved_destination_class \<Rightarrow> ip_addr list \<Rightarrow>
   string" where
  "fingerprint_bytes ipt origin transport class addresses =
     origin @ [CHR 0x00] @ transport_str transport @ [CHR 0x00] @ destination_class_str class @
     concat (map (\<lambda>a. CHR 0x00 # ip_to_string ipt a) addresses)"

definition destination_binding_fingerprint ::
  "(string \<Rightarrow> string) \<Rightarrow> ip_text \<Rightarrow> string \<Rightarrow> destination_transport \<Rightarrow> resolved_destination_class \<Rightarrow>
   ip_addr list \<Rightarrow> string" where
  "destination_binding_fingerprint sha256_hex ipt origin transport class addresses =
     sha256_hex (fingerprint_bytes ipt origin transport class addresses)"

definition finish_resolution ::
  "(string \<Rightarrow> string) \<Rightarrow> ip_text \<Rightarrow> 'u canonical_parts \<Rightarrow> ip_addr list \<Rightarrow>
   network_policy_error + 'u canonical_destination" where
  "finish_resolution sha256_hex ipt canonical answer =
     (let addresses = btree_collect answer in
      and_then (ensure (addresses \<noteq> []) Blocked) (\<lambda>_.
      and_then (class_of_all (cp_port canonical) (cp_local_origin_grant canonical) None addresses)
        (\<lambda>found.
      and_then (ok_or found Blocked) (\<lambda>class.
      Ok \<lparr>cd_url = cp_url canonical, cd_canonical_url = cp_canonical_url canonical,
          cd_canonical_origin = cp_canonical_origin canonical, cd_host = cp_host canonical,
          cd_port = cp_port canonical, cd_transport = cp_transport canonical,
          cd_resolved_addresses = addresses, cd_destination_class = class,
          cd_local_origin_grant = cp_local_origin_grant canonical,
          cd_binding_fingerprint = destination_binding_fingerprint sha256_hex ipt
            (cp_canonical_origin canonical) (cp_transport canonical) class addresses\<rparr>))))"

text \<open>
  What the resolver does within the deadline: it answers, fails, keeps silent or, on its own
  thread, ends without sending an answer.
\<close>

datatype dns_answer = Answers "ip_addr list" | LookupFailed | TimedOut | Disconnected

fun dns_result :: "dns_answer \<Rightarrow> network_policy_error + ip_addr list" where
  "dns_result (Answers xs) = Ok xs"
| "dns_result LookupFailed = Err Blocked"
| "dns_result TimedOut = Err Blocked"
| "dns_result Disconnected = Err Blocked"

record 'u net_env =
  env_url :: "'u url_lib"
  env_ip :: ip_text
  env_sha :: "string \<Rightarrow> string"

definition resolve_destination ::
  "'u net_env \<Rightarrow> (string \<Rightarrow> nat \<Rightarrow> dns_answer) \<Rightarrow> string \<Rightarrow> destination_transport \<Rightarrow>
   local_origin_grant option \<Rightarrow> network_policy_error + 'u canonical_destination" where
  "resolve_destination env dns endpoint transport grant =
     and_then (canonicalize_destination (env_url env) (env_ip env) endpoint transport grant)
       (\<lambda>canonical.
     and_then (dns_result (dns (cp_host canonical) (cp_port canonical))) (\<lambda>addresses.
     finish_resolution (env_sha env) (env_ip env) canonical addresses))"

text \<open>
  The blocking variant runs the same lookup on a thread and waits for its answer; the thread's
  end without an answer is one more way to be blocked.
\<close>

definition resolve_destination_blocking ::
  "'u net_env \<Rightarrow> (string \<Rightarrow> nat \<Rightarrow> dns_answer) \<Rightarrow> string \<Rightarrow> destination_transport \<Rightarrow>
   local_origin_grant option \<Rightarrow> network_policy_error + 'u canonical_destination" where
  "resolve_destination_blocking env dns endpoint transport grant =
     and_then (canonicalize_destination (env_url env) (env_ip env) endpoint transport grant)
       (\<lambda>canonical.
     let host = cp_host canonical; port = cp_port canonical in
     and_then (dns_result (dns host port)) (\<lambda>addresses.
     finish_resolution (env_sha env) (env_ip env) canonical addresses))"

subsection \<open>Rechecking an approval\<close>

definition ensure_same_policy_binding ::
  "'u canonical_destination \<Rightarrow> 'u canonical_destination \<Rightarrow> network_policy_error + unit" where
  "ensure_same_policy_binding approved current =
     ensure (\<not> (cd_canonical_origin approved \<noteq> cd_canonical_origin current \<or>
        cd_transport approved \<noteq> cd_transport current \<or>
        cd_destination_class approved \<noteq> cd_destination_class current \<or>
        cd_resolved_addresses approved \<noteq> cd_resolved_addresses current \<or>
        cd_binding_fingerprint approved \<noteq> cd_binding_fingerprint current)) Changed"

definition revalidate_destination ::
  "'u net_env \<Rightarrow> (string \<Rightarrow> nat \<Rightarrow> dns_answer) \<Rightarrow> 'u canonical_destination \<Rightarrow>
   network_policy_error + 'u canonical_destination" where
  "revalidate_destination env dns approved =
     and_then (resolve_destination env dns (cd_canonical_url approved) (cd_transport approved)
       (cd_local_origin_grant approved)) (\<lambda>current.
     and_then (ensure_same_policy_binding approved current) (\<lambda>_. Ok current))"

definition validate_redirect_destination ::
  "'u net_env \<Rightarrow> (string \<Rightarrow> nat \<Rightarrow> dns_answer) \<Rightarrow> 'u canonical_destination \<Rightarrow> string \<Rightarrow>
   network_policy_error + 'u canonical_destination" where
  "validate_redirect_destination env dns approved redirect_url =
     and_then (resolve_destination env dns redirect_url (cd_transport approved)
       (cd_local_origin_grant approved)) (\<lambda>redirected.
     and_then (ensure (cd_canonical_origin redirected = cd_canonical_origin approved) Changed) (\<lambda>_.
     and_then (ensure_same_policy_binding approved redirected) (\<lambda>_. Ok redirected)))"

definition validate_browser_navigation_blocking ::
  "'u net_env \<Rightarrow> (string \<Rightarrow> nat \<Rightarrow> dns_answer) \<Rightarrow> 'u canonical_destination \<Rightarrow> string \<Rightarrow>
   network_policy_error + 'u canonical_destination" where
  "validate_browser_navigation_blocking env dns approved navigation_url =
     and_then (ensure (cd_transport approved = NativeBrowser) Changed) (\<lambda>_.
     and_then (resolve_destination_blocking env dns navigation_url NativeBrowser None) (\<lambda>current.
     and_then (ensure (cd_canonical_origin current = cd_canonical_origin approved) Changed) (\<lambda>_.
     and_then (ensure_same_policy_binding approved current) (\<lambda>_. Ok current))))"

definition validate_connected_peer ::
  "'u canonical_destination \<Rightarrow> (ip_addr \<times> nat) option \<Rightarrow> network_policy_error + unit" where
  "validate_connected_peer approved peer0 =
     and_then (ok_or peer0 Blocked) (\<lambda>(ip, port).
     and_then (ensure (\<not> (port \<noteq> cd_port approved \<or> ip \<notin> set (cd_resolved_addresses approved)))
       Changed) (\<lambda>_.
     and_then (ensure_address_allowed ip (cd_port approved) (cd_local_origin_grant approved))
       (\<lambda>_. Ok ())))"

subsection \<open>The IPv4 classes as address blocks\<close>

text \<open>
  The registry the octet comparisons stand for: an address is public exactly when it lies in
  none of these blocks, each a network address with its prefix length.
\<close>

fun v4_value :: "ipv4 \<Rightarrow> nat" where
  "v4_value (IPv4 a b c d) = ((unat a * 256 + unat b) * 256 + unat c) * 256 + unat d"

definition in_block :: "ipv4 \<Rightarrow> ipv4 \<times> nat \<Rightarrow> bool" where
  "in_block ip blk = (v4_value ip div 2 ^ (32 - snd blk) = v4_value (fst blk) div 2 ^ (32 - snd blk))"

definition special_blocks :: "(ipv4 \<times> nat) list" where
  "special_blocks =
     [(IPv4 0 0 0 0, 8), (IPv4 10 0 0 0, 8), (IPv4 100 64 0 0, 10), (IPv4 127 0 0 0, 8),
      (IPv4 169 254 0 0, 16), (IPv4 172 16 0 0, 12), (IPv4 192 0 0 0, 24), (IPv4 192 0 2 0, 24),
      (IPv4 192 88 99 0, 24), (IPv4 192 168 0 0, 16), (IPv4 198 18 0 0, 15),
      (IPv4 198 51 100 0, 24), (IPv4 203 0 113 0, 24), (IPv4 224 0 0 0, 4), (IPv4 240 0 0 0, 4)]"

lemma u8_bound: "unat (x :: u8) < 256"
  using unsigned_less [of x, where 'a = nat] by simp

lemma unat_u8_eq: "unat (x :: u8) = unat y \<longleftrightarrow> x = y"
  by (simp add: word_unat_eq_iff)

lemma shift_octet: "(x * 256 + unat (d :: u8)) div 256 = x"
  using u8_bound [of d] by simp

lemma v4_value_shift:
  "v4_value (IPv4 a b c d) div 2 ^ 8 = (unat a * 256 + unat b) * 256 + unat c"
  "v4_value (IPv4 a b c d) div 2 ^ 16 = unat a * 256 + unat b"
  "v4_value (IPv4 a b c d) div 2 ^ 24 = unat a"
proof -
  have "(2 :: nat) ^ 16 = 256 * 256" "(2 :: nat) ^ 24 = 256 * (256 * 256)" by simp_all
  then show "v4_value (IPv4 a b c d) div 2 ^ 16 = unat a * 256 + unat b"
    "v4_value (IPv4 a b c d) div 2 ^ 24 = unat a"
    by (simp_all only: v4_value.simps div_mult2_eq shift_octet)
  show "v4_value (IPv4 a b c d) div 2 ^ 8 = (unat a * 256 + unat b) * 256 + unat c"
    using shift_octet [of "(unat a * 256 + unat b) * 256 + unat c" d] by simp
qed

lemma v4_value_split:
  "v4_value ip div 2 ^ 17 = v4_value ip div 2 ^ 16 div 2"
  "v4_value ip div 2 ^ 20 = v4_value ip div 2 ^ 16 div 16"
  "v4_value ip div 2 ^ 22 = v4_value ip div 2 ^ 16 div 64"
  "v4_value ip div 2 ^ 28 = v4_value ip div 2 ^ 24 div 16"
  by (simp_all add: div_mult2_eq [symmetric])

lemma octet_pair_eq: "x * 256 + unat (b :: u8) = y * 256 + unat q \<longleftrightarrow> x = y \<and> b = q"
proof -
  have "x = y" if "x * 256 + unat b = y * 256 + unat q"
    using that shift_octet [of x b] shift_octet [of y q] by simp
  then show ?thesis using unat_u8_eq [of b q] by auto
qed

lemma octet_pair_div:
  fixes b q :: u8
  assumes "256 = k * m" and "0 < k"
  shows "(x * 256 + unat b) div k = (y * 256 + unat q) div k \<longleftrightarrow>
    x = y \<and> unat b div k = unat q div k"
proof -
  have shift: "(z * 256 + n) div k = z * m + n div k" for z n :: nat
  proof -
    have "z * 256 + n = n + z * (k * m)" unfolding assms(1) by simp
    also have "\<dots> = n + k * (z * m)" by (simp only: ac_simps)
    finally have "z * 256 + n = n + k * (z * m)" .
    then show ?thesis using assms(2) by (simp only: div_mult_self2)
  qed
  have "unat b div k < m" "unat q div k < m"
    using u8_bound [of b] u8_bound [of q] assms
    by (simp_all add: less_mult_imp_div_less mult.commute)
  then have "(x * m + unat b div k) div m = x" "(y * m + unat q div k) div m = y" by simp_all
  then show ?thesis unfolding shift by auto
qed

lemma in_block_prefix:
  "in_block (IPv4 a b c d) (IPv4 p q r s, 4) \<longleftrightarrow> unat a div 16 = unat p div 16"
  "in_block (IPv4 a b c d) (IPv4 p q r s, 8) \<longleftrightarrow> a = p"
  "in_block (IPv4 a b c d) (IPv4 p q r s, 10) \<longleftrightarrow> a = p \<and> unat b div 64 = unat q div 64"
  "in_block (IPv4 a b c d) (IPv4 p q r s, 12) \<longleftrightarrow> a = p \<and> unat b div 16 = unat q div 16"
  "in_block (IPv4 a b c d) (IPv4 p q r s, 15) \<longleftrightarrow> a = p \<and> unat b div 2 = unat q div 2"
  "in_block (IPv4 a b c d) (IPv4 p q r s, 16) \<longleftrightarrow> a = p \<and> b = q"
  "in_block (IPv4 a b c d) (IPv4 p q r s, 24) \<longleftrightarrow> a = p \<and> b = q \<and> c = r"
proof -
  have n: "(32 :: nat) - 4 = 28" "(32 :: nat) - 8 = 24" "(32 :: nat) - 10 = 22"
    "(32 :: nat) - 12 = 20" "(32 :: nat) - 15 = 17" "(32 :: nat) - 16 = 16" "(32 :: nat) - 24 = 8"
    by simp_all
  note defs = in_block_def fst_conv snd_conv n v4_value_split v4_value_shift
  show "in_block (IPv4 a b c d) (IPv4 p q r s, 4) \<longleftrightarrow> unat a div 16 = unat p div 16"
    by (simp only: defs)
  show "in_block (IPv4 a b c d) (IPv4 p q r s, 8) \<longleftrightarrow> a = p"
    by (simp only: defs unat_u8_eq)
  show "in_block (IPv4 a b c d) (IPv4 p q r s, 16) \<longleftrightarrow> a = p \<and> b = q"
    by (simp only: defs octet_pair_eq unat_u8_eq)
  show "in_block (IPv4 a b c d) (IPv4 p q r s, 24) \<longleftrightarrow> a = p \<and> b = q \<and> c = r"
    by (simp only: defs octet_pair_eq unat_u8_eq conj_assoc)
  show "in_block (IPv4 a b c d) (IPv4 p q r s, 10) \<longleftrightarrow> a = p \<and> unat b div 64 = unat q div 64"
    using octet_pair_div [of 64 4 "unat a" b "unat p" q] by (simp only: defs unat_u8_eq) simp
  show "in_block (IPv4 a b c d) (IPv4 p q r s, 12) \<longleftrightarrow> a = p \<and> unat b div 16 = unat q div 16"
    using octet_pair_div [of 16 16 "unat a" b "unat p" q] by (simp only: defs unat_u8_eq) simp
  show "in_block (IPv4 a b c d) (IPv4 p q r s, 15) \<longleftrightarrow> a = p \<and> unat b div 2 = unat q div 2"
    using octet_pair_div [of 2 128 "unat a" b "unat p" q] by (simp only: defs unat_u8_eq) simp
qed

lemma octet_ranges:
  fixes a b :: u8
  shows "unat b div 64 = Suc 0 \<longleftrightarrow> 64 \<le> b \<and> b \<le> 127"
    and "unat b div 16 = Suc 0 \<longleftrightarrow> 16 \<le> b \<and> b \<le> 31"
    and "unat b div 2 = 9 \<longleftrightarrow> b = 18 \<or> b = 19"
    and "unat a div 16 = 14 \<longleftrightarrow> 224 \<le> a \<and> a \<le> 239"
    and "unat a div 16 = 15 \<longleftrightarrow> 240 \<le> a"
  using u8_bound [of a] u8_bound [of b]
  by (simp_all add: word_le_nat_alt word_unat_eq_iff) arith+

lemma classify_ipv4_public:
  "classify_ipv4 ip = PublicIp \<longleftrightarrow> (\<forall>blk \<in> set special_blocks. \<not> in_block ip blk)"
proof (cases ip)
  case (IPv4 a b c d)
  show ?thesis
    unfolding IPv4 special_blocks_def
    by (simp add: in_block_prefix octet_ranges Let_def)
qed


text \<open>An IPv4 address written as an IPv6 one is classified as the address it stands for.\<close>

fun to_ipv6_mapped :: "ipv4 \<Rightarrow> ipv6" where
  "to_ipv6_mapped (IPv4 a b c d) =
     IPv6 0 0 0 0 0 0xffff (push_bit 8 (ucast a) OR ucast b) (push_bit 8 (ucast c) OR ucast d)"

lemma octet_join:
  fixes x y :: u8
  shows "ucast (drop_bit 8 (push_bit 8 (ucast x) OR ucast y :: u16)) = x"
    and "ucast (push_bit 8 (ucast x) OR ucast y :: u16) = y"
  by (rule bit_word_eqI; auto simp: bit_simps dest: bit_imp_le_length)+

lemma to_ipv4_mapped_inverse: "to_ipv4_mapped (to_ipv6_mapped ip) = Some ip"
  by (cases ip) (simp add: octet_join del: drop_bit_or)

lemma classify_ip_mapped: "classify_ip (V6 (to_ipv6_mapped ip)) = classify_ip (V4 ip)"
  using to_ipv4_mapped_inverse [of ip]
  by (cases ip) (simp add: v6_is_unspecified_def v6_is_loopback_def Let_def)

lemma classify_ipv6_public:
  assumes "classify_ipv6 (IPv6 a b c d e f g h) = PublicIp"
    and "to_ipv4_mapped (IPv6 a b c d e f g h) = None"
  shows "a AND 0xe000 = 0x2000"
  using assms by (simp add: Let_def del: to_ipv4_mapped.simps split: if_splits)

subsection \<open>What a resolution guarantees\<close>

definition address_ok :: "nat \<Rightarrow> local_origin_grant option \<Rightarrow> ip_addr \<Rightarrow> bool" where
  "address_ok port grant a =
     (case grant of
        None \<Rightarrow> classify_ip a = PublicIp
      | Some g \<Rightarrow> classify_ip a = Loopback \<and> exact_loopback_port g = port)"

definition granted_class :: "local_origin_grant option \<Rightarrow> resolved_destination_class" where
  "granted_class grant = (case grant of None \<Rightarrow> Public | Some _ \<Rightarrow> ExactLoopback)"

lemma ensure_address_allowed_iff:
  "ensure_address_allowed a port grant = Ok cl \<longleftrightarrow> address_ok port grant a \<and> cl = granted_class grant"
  by (auto simp: ensure_address_allowed_def address_ok_def granted_class_def Let_def
      split: option.splits)

lemma ensure_address_allowed_Ok:
  "address_ok port grant a \<Longrightarrow> ensure_address_allowed a port grant = Ok (granted_class grant)"
  by (simp add: ensure_address_allowed_iff)

lemma class_of_all_Ok:
  "acc \<in> {None, Some (granted_class grant)} \<Longrightarrow>
   class_of_all port grant acc as = Ok r \<longleftrightarrow>
     (\<forall>a \<in> set as. address_ok port grant a) \<and> r = (if as = [] then acc else Some (granted_class grant))"
proof (induction as arbitrary: acc)
  case (Cons a as)
  have "class_of_all port grant (Some (granted_class grant)) as = Ok r \<longleftrightarrow>
      (\<forall>a \<in> set as. address_ok port grant a) \<and> r = Some (granted_class grant)"
    using Cons.IH [of "Some (granted_class grant)"] by auto
  then show ?case
    using Cons.prems by (auto simp: result_simps ensure_address_allowed_iff)
qed auto

lemma set_btree_collect [simp]: "set (btree_collect xs) = set xs"
  by (simp add: btree_collect_def)

lemma btree_collect_Nil [simp]: "btree_collect xs = [] \<longleftrightarrow> xs = []"
  by (metis set_btree_collect set_empty)

lemma inj_ip_key: "inj ip_key"
proof (rule injI)
  fix x y
  assume "ip_key x = ip_key y"
  then show "x = y"
    by (cases x rule: ip_key.cases; cases y rule: ip_key.cases) (auto simp: word_unat_eq_iff)
qed

lemma btree_collect_eq_iff: "btree_collect xs = btree_collect ys \<longleftrightarrow> set xs = set ys"
proof
  assume "set xs = set ys"
  have sd: "distinct (btree_collect zs)" for zs
    by (simp add: btree_collect_def)
  have "map ip_key (btree_collect xs) = map ip_key (btree_collect ys)"
  proof (rule sorted_distinct_set_unique)
    show "sorted (map ip_key (btree_collect xs))" "sorted (map ip_key (btree_collect ys))"
      by (simp_all add: btree_collect_def)
    show "distinct (map ip_key (btree_collect xs))" "distinct (map ip_key (btree_collect ys))"
      using sd inj_on_subset [OF inj_ip_key subset_UNIV] by (simp_all add: distinct_map)
    show "set (map ip_key (btree_collect xs)) = set (map ip_key (btree_collect ys))"
      using \<open>set xs = set ys\<close> by simp
  qed
  then show "btree_collect xs = btree_collect ys"
    using inj_ip_key by (simp add: inj_map_eq_map)
qed (metis set_btree_collect)

definition destination_of ::
  "(string \<Rightarrow> string) \<Rightarrow> ip_text \<Rightarrow> 'u canonical_parts \<Rightarrow> ip_addr list \<Rightarrow> 'u canonical_destination" where
  "destination_of sha256_hex ipt c xs =
     (let class = granted_class (cp_local_origin_grant c) in
      \<lparr>cd_url = cp_url c, cd_canonical_url = cp_canonical_url c,
       cd_canonical_origin = cp_canonical_origin c, cd_host = cp_host c, cd_port = cp_port c,
       cd_transport = cp_transport c, cd_resolved_addresses = btree_collect xs,
       cd_destination_class = class, cd_local_origin_grant = cp_local_origin_grant c,
       cd_binding_fingerprint = destination_binding_fingerprint sha256_hex ipt
         (cp_canonical_origin c) (cp_transport c) class (btree_collect xs)\<rparr>)"

lemma finish_resolution_Ok:
  "finish_resolution sha ipt c xs = Ok d \<longleftrightarrow>
     xs \<noteq> [] \<and> (\<forall>a \<in> set xs. address_ok (cp_port c) (cp_local_origin_grant c) a) \<and>
     d = destination_of sha ipt c xs"
  by (auto simp: finish_resolution_def destination_of_def Let_def result_simps class_of_all_Ok)

lemma dns_result_Ok: "dns_result a = Ok xs \<longleftrightarrow> a = Answers xs"
  by (cases a) auto

lemma resolve_blocking_eq: "resolve_destination_blocking = resolve_destination"
  by (intro ext) (simp add: resolve_destination_blocking_def resolve_destination_def Let_def)

lemma resolve_Ok:
  "resolve_destination env dns endpoint transport grant = Ok d \<longleftrightarrow>
     (\<exists>c xs. canonicalize_destination (env_url env) (env_ip env) endpoint transport grant = Ok c \<and>
        dns (cp_host c) (cp_port c) = Answers xs \<and> xs \<noteq> [] \<and>
        (\<forall>a \<in> set xs. address_ok (cp_port c) (cp_local_origin_grant c) a) \<and>
        d = destination_of (env_sha env) (env_ip env) c xs)"
  by (auto simp: resolve_destination_def result_simps finish_resolution_Ok dns_result_Ok)

lemma unit_Ok: "r = Ok u \<Longrightarrow> r = Ok ()"
  by simp

lemma grant_port_Ok:
  "(case grant of None \<Rightarrow> Ok ()
     | Some g \<Rightarrow> ensure (\<not> (exact_loopback_port g = 0 \<or> exact_loopback_port g \<noteq> port)) Blocked) = Ok x \<Longrightarrow>
   case grant of None \<Rightarrow> True | Some g \<Rightarrow> exact_loopback_port g = port"
  by (simp add: ensure_eq_Ok split: option.splits)

lemma canonicalize_Ok:
  assumes "canonicalize_destination ul ipt endpoint transport grant = Ok c"
  obtains u host port u' authority raw h0 where "url_parse ul (trim endpoint) = Some u"
    and "\<not> (url_username ul u \<noteq> [] \<or> url_password ul u \<noteq> None \<or> CHR ''@'' \<in> set authority)"
    and "url_fragment ul u = None"
    and "url_scheme ul u = ''http'' \<or> url_scheme ul u = ''https''"
    and "\<not> (transport = NativeBrowser \<and> url_scheme ul u \<noteq> ''https'')"
    and "\<not> (url_scheme ul u = ''http'' \<and> grant = None)"
    and "\<not> (is_metadata_hostname host \<or> host = ''localhost'' \<or> ends_with host ''.localhost'')"
    and "url_host_str ul u = Some h0" "host = to_ascii_lowercase h0"
    and "raw_authority (trim endpoint) = Ok authority" "raw_host authority = Ok raw"
    and "validate_canonical_host ipt raw host = Ok ()"
    and "url_port_or_known_default ul u = Some port" "port \<noteq> 0"
    and "case grant of None \<Rightarrow> True | Some g \<Rightarrow> exact_loopback_port g = port"
    and "c = \<lparr>cp_url = u', cp_canonical_url = url_as_str ul u',
          cp_canonical_origin = url_origin_ascii ul u', cp_host = host, cp_port = port,
          cp_transport = transport, cp_local_origin_grant = grant\<rparr>"
  using assms unfolding canonicalize_destination_def Let_def and_then_eq_Ok ensure_eq_Ok ok_or_eq_Ok
    sum.inject
  apply (elim exE conjE)
  apply (rule that)
  apply (assumption | rule refl | erule grant_port_Ok unit_Ok sym)+
  done

lemma canonicalize_kept:
  assumes "canonicalize_destination ul ipt endpoint transport grant = Ok c"
  shows "cp_transport c = transport" "cp_local_origin_grant c = grant"
  using assms by (elim canonicalize_Ok; simp)+

lemma resolve_granted:
  "resolve_destination env dns endpoint transport grant = Ok d \<longleftrightarrow>
     (\<exists>c xs. canonicalize_destination (env_url env) (env_ip env) endpoint transport grant = Ok c \<and>
        dns (cp_host c) (cp_port c) = Answers xs \<and> xs \<noteq> [] \<and>
        (\<forall>a \<in> set xs. address_ok (cp_port c) grant a) \<and>
        d = destination_of (env_sha env) (env_ip env) c xs)"
  unfolding resolve_Ok by (simp cong: conj_cong add: canonicalize_kept(2))

lemma resolve_kept:
  assumes "resolve_destination env dns endpoint transport grant = Ok d"
  shows "cd_transport d = transport" "cd_local_origin_grant d = grant"
    and "cd_destination_class d = granted_class grant"
    and "\<forall>a \<in> set (cd_resolved_addresses d). address_ok (cd_port d) grant a"
    and "cd_resolved_addresses d \<noteq> []"
  using assms
  by (auto simp: resolve_Ok destination_of_def Let_def dest: canonicalize_kept)

lemma canonicalize_policy:
  assumes "canonicalize_destination ul ipt endpoint transport grant = Ok c"
  shows "\<exists>u. url_parse ul (trim endpoint) = Some u \<and> url_scheme ul u \<in> {''http'', ''https''} \<and>
      url_username ul u = [] \<and> url_password ul u = None \<and> url_fragment ul u = None \<and>
      (url_scheme ul u = ''http'' \<longrightarrow> grant \<noteq> None \<and> transport \<noteq> NativeBrowser)"
    and "cp_port c \<noteq> 0" and "\<forall>g. grant = Some g \<longrightarrow> exact_loopback_port g = cp_port c"
    and "\<not> is_metadata_hostname (cp_host c)" and "cp_host c \<noteq> ''localhost''"
    and "\<not> ends_with (cp_host c) ''.localhost''"
    and "\<forall>ip. ip_parse ipt (cp_host c) = Some ip \<longrightarrow>
      (\<exists>authority raw. raw_authority (trim endpoint) = Ok authority \<and> raw_host authority = Ok raw \<and>
         to_ascii_lowercase raw = to_ascii_lowercase (ip_to_string ipt ip))"
  using assms
  by (elim canonicalize_Ok; auto simp: validate_canonical_host_def result_simps split: option.splits)+

subsection \<open>Rechecks keep the approved binding\<close>

definition same_binding :: "'u canonical_destination \<Rightarrow> 'u canonical_destination \<Rightarrow> bool" where
  "same_binding a b \<longleftrightarrow>
     cd_canonical_origin a = cd_canonical_origin b \<and> cd_transport a = cd_transport b \<and>
     cd_destination_class a = cd_destination_class b \<and>
     cd_resolved_addresses a = cd_resolved_addresses b \<and>
     cd_binding_fingerprint a = cd_binding_fingerprint b"

lemma ensure_same_policy_binding_Ok:
  "ensure_same_policy_binding a b = Ok u \<longleftrightarrow> same_binding a b"
  unfolding ensure_same_policy_binding_def same_binding_def ensure_eq_Ok by blast

lemma redirect_Ok:
  "validate_redirect_destination env dns approved url = Ok d \<longleftrightarrow>
     resolve_destination env dns url (cd_transport approved) (cd_local_origin_grant approved) = Ok d \<and>
     same_binding approved d"
  unfolding validate_redirect_destination_def and_then_eq_Ok ensure_eq_Ok ensure_same_policy_binding_Ok
  by (auto simp: same_binding_def)

lemma navigation_Ok:
  "validate_browser_navigation_blocking env dns approved url = Ok d \<longleftrightarrow>
     cd_transport approved = NativeBrowser \<and>
     resolve_destination env dns url NativeBrowser None = Ok d \<and> same_binding approved d"
  unfolding validate_browser_navigation_blocking_def and_then_eq_Ok ensure_eq_Ok
    ensure_same_policy_binding_Ok resolve_blocking_eq
  by (auto simp: same_binding_def)

text \<open>A sequence of rechecks, each with the resolver's behaviour of its own moment.\<close>

fun follow ::
  "('q \<Rightarrow> 'u canonical_destination \<Rightarrow> network_policy_error + 'u canonical_destination) \<Rightarrow>
   'q list \<Rightarrow> 'u canonical_destination \<Rightarrow> network_policy_error + 'u canonical_destination" where
  "follow check [] d = Ok d"
| "follow check (q # qs) d = and_then (check q d) (follow check qs)"

locale recheck =
  fixes check :: "'q \<Rightarrow> 'u canonical_destination \<Rightarrow> network_policy_error + 'u canonical_destination"
  assumes check_binds: "check q d = Ok d' \<Longrightarrow> same_binding d d'"
    and check_grant: "check q d = Ok d' \<Longrightarrow>
      \<forall>a \<in> set (cd_resolved_addresses d').
        address_ok (cd_port d') (cd_local_origin_grant d') a"
begin

lemma follow_binds: "follow check qs d = Ok d' \<Longrightarrow> same_binding d d'"
proof (induction qs arbitrary: d)
  case (Cons q qs)
  then obtain d1 where d1: "check q d = Ok d1" "follow check qs d1 = Ok d'"
    by (auto simp: and_then_eq_Ok)
  then show ?case
    using check_binds [OF d1(1)] Cons.IH [OF d1(2)] by (simp add: same_binding_def)
qed (simp add: same_binding_def)

lemma follow_addresses:
  "follow check qs d = Ok d' \<Longrightarrow> qs \<noteq> [] \<Longrightarrow>
   \<forall>a \<in> set (cd_resolved_addresses d'). address_ok (cd_port d') (cd_local_origin_grant d') a"
proof (induction qs arbitrary: d)
  case (Cons q qs)
  then obtain d1 where d1: "check q d = Ok d1" "follow check qs d1 = Ok d'"
    by (auto simp: and_then_eq_Ok)
  show ?case
  proof (cases "qs = []")
    case True
    then show ?thesis using d1 check_grant [OF d1(1)] by simp
  next
    case False
    then show ?thesis using Cons.IH [OF d1(2)] by simp
  qed
qed simp

end

lemma resolve_addresses:
  assumes "resolve_destination env dns endpoint transport grant = Ok d"
  shows "\<forall>a \<in> set (cd_resolved_addresses d). address_ok (cd_port d) (cd_local_origin_grant d) a"
  using resolve_kept [OF assms] by simp

interpretation revalidations: recheck "\<lambda>dns d. revalidate_destination env dns d" for env
  by unfold_locales
    (auto simp: revalidate_destination_def result_simps ensure_same_policy_binding_Ok
      intro: bspec [OF resolve_addresses])

interpretation redirects: recheck "\<lambda>(dns, url) d. validate_redirect_destination env dns d url" for env
  by unfold_locales
    (auto simp: redirect_Ok intro: bspec [OF resolve_addresses])

interpretation navigations:
  recheck "\<lambda>(dns, url) d. validate_browser_navigation_blocking env dns d url" for env
  by unfold_locales
    (auto simp: navigation_Ok intro: bspec [OF resolve_addresses])

subsection \<open>Properties\<close>

text \<open>A small URL reader and resolver, to show that the hypotheses below can hold.\<close>

definition demo_after_scheme :: "string \<Rightarrow> string" where
  "demo_after_scheme u = (case split_once_str ''://'' u of None \<Rightarrow> [] | Some (_, r) \<Rightarrow> r)"

definition demo_scheme :: "string \<Rightarrow> string" where
  "demo_scheme u = takeWhile (\<lambda>c. c \<noteq> CHR '':'') u"

definition demo_host :: "string \<Rightarrow> string" where
  "demo_host u = takeWhile (\<lambda>c. c \<notin> set '':/'') (demo_after_scheme u)"

definition demo_urls :: "string url_lib" where
  "demo_urls = \<lparr>url_parse = Some, url_username = (\<lambda>_. []), url_password = (\<lambda>_. None),
     url_fragment = (\<lambda>_. None), url_path = (\<lambda>_. ''/mcp''), url_scheme = demo_scheme,
     url_host_str = (\<lambda>u. Some (demo_host u)), url_port = (\<lambda>_. None),
     url_port_or_known_default = (\<lambda>u. Some (if demo_scheme u = ''http'' then 8080 else 443)),
     url_set_port_none = Some, url_as_str = (\<lambda>u. u),
     url_origin_ascii = (\<lambda>u. demo_scheme u @ ''://'' @ demo_host u)\<rparr>"

definition demo_ip_text :: ip_text where
  "demo_ip_text = \<lparr>ip_parse = (\<lambda>s. if s = ''127.0.0.1'' then Some (V4 (IPv4 127 0 0 1)) else None),
     ip_to_string = (\<lambda>ip. if ip = V4 (IPv4 127 0 0 1) then ''127.0.0.1'' else ''address'')\<rparr>"

definition demo_env :: "string net_env" where
  "demo_env = \<lparr>env_url = demo_urls, env_ip = demo_ip_text, env_sha = (\<lambda>s. s)\<rparr>"

definition demo_dns :: "string \<Rightarrow> nat \<Rightarrow> dns_answer" where
  "demo_dns h p = (if h = ''127.0.0.1'' then Answers [V4 (IPv4 127 0 0 1)]
     else if h = ''intranet'' then Answers [V4 (IPv4 10 0 0 5)]
     else Answers [V4 (IPv4 93 184 216 34), V4 (IPv4 8 8 8 8), V4 (IPv4 93 184 216 34)])"

definition demo_destination :: "string canonical_destination" where
  "demo_destination = \<lparr>cd_url = ''https://example.com/mcp'', cd_canonical_url = ''https://example.com/mcp'',
     cd_canonical_origin = ''https://example.com'', cd_host = ''example.com'', cd_port = 443,
     cd_transport = NativeBrowser,
     cd_resolved_addresses = [V4 (IPv4 8 8 8 8), V4 (IPv4 93 184 216 34)],
     cd_destination_class = Public, cd_local_origin_grant = None,
     cd_binding_fingerprint = fingerprint_bytes demo_ip_text ''https://example.com'' NativeBrowser Public
       [V4 (IPv4 8 8 8 8), V4 (IPv4 93 184 216 34)]\<rparr>"

lemma demo_resolves:
  "resolve_destination demo_env demo_dns ''https://example.com/mcp'' NativeBrowser None =
     Ok demo_destination"
  by code_simp

lemma demo_loopback:
  "is_ok (resolve_destination demo_env demo_dns ''http://127.0.0.1:8080/mcp'' RemoteMcpHttp
     (Some \<lparr>exact_loopback_port = 8080\<rparr>))"
  by code_simp

lemma demo_revalidates: "revalidate_destination demo_env demo_dns demo_destination = Ok demo_destination"
  by code_simp

text \<open>
  The octet comparisons of \<open>classify_ipv4\<close> are the special-purpose registry: an IPv4 address
  is public exactly when it lies in none of the listed blocks, and an IPv4 address carried in an
  IPv6 one gets the class of the address it stands for.
\<close>

theorem classify_special_blocks:
  "(classify_ip (V4 ip) = PublicIp \<longleftrightarrow> (\<forall>blk \<in> set special_blocks. \<not> in_block ip blk)) \<and>
   classify_ip (V6 (to_ipv6_mapped ip)) = classify_ip (V4 ip)"
  using classify_ip_mapped [of ip] classify_ipv4_public [of ip] by simp

theorem classify_special_blocks_witness:
  "\<not> in_block (IPv4 8 8 8 8) (IPv4 10 0 0 0, 8) \<and>
   classify_ip (V6 (to_ipv6_mapped (IPv4 10 0 0 1))) = Private"
proof
  have "classify_ip (V4 (IPv4 8 8 8 8)) = PublicIp" by code_simp
  then have "\<forall>blk \<in> set special_blocks. \<not> in_block (IPv4 8 8 8 8) blk"
    using classify_special_blocks [of "IPv4 8 8 8 8"] by blast
  then show "\<not> in_block (IPv4 8 8 8 8) (IPv4 10 0 0 0, 8)" by (simp add: special_blocks_def)
  have "classify_ip (V4 (IPv4 10 0 0 1)) = Private" by code_simp
  then show "classify_ip (V6 (to_ipv6_mapped (IPv4 10 0 0 1))) = Private"
    using classify_special_blocks [of "IPv4 10 0 0 1"] by metis
qed

text \<open>
  A destination resolves exactly when its URL is canonical, the resolver answers in time with
  at least one address, and every address of the answer is public where there is no local grant
  or loopback on the granted port where there is one; the result is then determined, with all the
  addresses of the answer, once each and in order.
\<close>

theorem resolve_iff:
  "resolve_destination env dns endpoint transport grant = Ok d \<longleftrightarrow>
     (\<exists>c xs. canonicalize_destination (env_url env) (env_ip env) endpoint transport grant = Ok c \<and>
        dns (cp_host c) (cp_port c) = Answers xs \<and> xs \<noteq> [] \<and>
        (\<forall>a \<in> set xs. case grant of
             None \<Rightarrow> classify_ip a = PublicIp
           | Some g \<Rightarrow> classify_ip a = Loopback \<and> exact_loopback_port g = cp_port c) \<and>
        d = destination_of (env_sha env) (env_ip env) c xs)"
  unfolding address_ok_def [symmetric] by (rule resolve_granted)

theorem resolve_iff_witness:
  "\<exists>c xs. canonicalize_destination demo_urls demo_ip_text ''https://example.com/mcp'' NativeBrowser None = Ok c \<and>
     dns_result (demo_dns (cp_host c) (cp_port c)) = Ok xs \<and> list_all (\<lambda>a. classify_ip a = PublicIp) xs"
proof -
  obtain c xs where
    "canonicalize_destination (env_url demo_env) (env_ip demo_env) ''https://example.com/mcp''
       NativeBrowser None = Ok c"
    "demo_dns (cp_host c) (cp_port c) = Answers xs" "\<forall>a \<in> set xs. classify_ip a = PublicIp"
    using iffD1 [OF resolve_iff demo_resolves] unfolding option.case by blast
  then show ?thesis by (intro exI [of _ c] exI [of _ xs]) (simp add: demo_env_def list_all_iff)
qed

text \<open>
  C29. No address outside the public Internet is ever reached without a local grant: every address
  of a resolved destination is public (an IPv4 one lies in no special block), and with a grant
  every address is loopback on exactly the granted, non-zero port.
\<close>

theorem resolved_addresses_safe:
  assumes "resolve_destination env dns endpoint transport grant = Ok d"
    and "a \<in> set (cd_resolved_addresses d)"
  shows "case grant of
      None \<Rightarrow> classify_ip a = PublicIp \<and>
        (\<forall>v. a = V4 v \<longrightarrow> (\<forall>blk \<in> set special_blocks. \<not> in_block v blk))
    | Some g \<Rightarrow> classify_ip a = Loopback \<and> cd_port d = exact_loopback_port g \<and> cd_port d \<noteq> 0"
proof (cases grant)
  case None
  then have "classify_ip a = PublicIp"
    using resolve_kept(4) [OF assms(1)] assms(2) by (simp add: address_ok_def)
  then show ?thesis
    using None by (auto simp: classify_ipv4_public)
next
  case (Some g)
  from assms(1) obtain c xs
    where c: "canonicalize_destination (env_url env) (env_ip env) endpoint transport grant = Ok c"
      and "d = destination_of (env_sha env) (env_ip env) c xs"
    by (auto simp: resolve_Ok)
  then have "cd_port d = cp_port c" by (simp add: destination_of_def Let_def)
  moreover have "cp_port c \<noteq> 0" using c by (rule canonicalize_Ok) simp
  ultimately show ?thesis
    using Some resolve_kept(4) [OF assms(1)] assms(2) by (simp add: address_ok_def)
qed

theorem resolved_addresses_safe_witness:
  "\<not> in_block (IPv4 93 184 216 34) (IPv4 10 0 0 0, 8)"
  using resolved_addresses_safe [OF demo_resolves, of "V4 (IPv4 93 184 216 34)"]
  by (simp add: demo_destination_def special_blocks_def)

text \<open>
  A canonical destination has an HTTP or HTTPS URL without credentials or fragment; plain HTTP
  needs a local grant and is never used for the browser; its port is not zero and is the granted
  one where there is a grant; its host is neither localhost nor a metadata service, and a host
  that is an address is written in the address's own form.
\<close>

theorem canonicalize_safe:
  assumes "canonicalize_destination ul ipt endpoint transport grant = Ok c"
  shows "(\<exists>u. url_parse ul (trim endpoint) = Some u \<and> url_scheme ul u \<in> {''http'', ''https''} \<and>
      url_username ul u = [] \<and> url_password ul u = None \<and> url_fragment ul u = None \<and>
      (url_scheme ul u = ''http'' \<longrightarrow> grant \<noteq> None \<and> transport \<noteq> NativeBrowser)) \<and>
    cp_port c \<noteq> 0 \<and> (\<forall>g. grant = Some g \<longrightarrow> exact_loopback_port g = cp_port c) \<and>
    \<not> is_metadata_hostname (cp_host c) \<and> cp_host c \<noteq> ''localhost'' \<and>
    \<not> ends_with (cp_host c) ''.localhost'' \<and>
    (\<forall>ip. ip_parse ipt (cp_host c) = Some ip \<longrightarrow>
      (\<exists>authority raw. raw_authority (trim endpoint) = Ok authority \<and> raw_host authority = Ok raw \<and>
         to_ascii_lowercase raw = to_ascii_lowercase (ip_to_string ipt ip)))"
  using canonicalize_policy [OF assms] by blast

theorem canonicalize_safe_witness:
  "\<exists>c. canonicalize_destination demo_urls demo_ip_text ''http://127.0.0.1:8080/mcp'' RemoteMcpHttp
      (Some \<lparr>exact_loopback_port = 8080\<rparr>) = Ok c \<and> cp_port c = 8080"
proof -
  have "is_ok (canonicalize_destination demo_urls demo_ip_text ''http://127.0.0.1:8080/mcp'' RemoteMcpHttp
      (Some \<lparr>exact_loopback_port = 8080\<rparr>))"
    by code_simp
  then obtain c where c: "canonicalize_destination demo_urls demo_ip_text ''http://127.0.0.1:8080/mcp''
      RemoteMcpHttp (Some \<lparr>exact_loopback_port = 8080\<rparr>) = Ok c"
    by (auto simp: is_ok_iff)
  with canonicalize_safe [OF c] show ?thesis by simp
qed

text \<open>
  C33. DNS rebinding is refused: after any number of revalidations, each with whatever the resolver
  then answers, the destination still has the approved origin, transport, class, fingerprint and
  address list, and the last answer had exactly the approved addresses, all of them still allowed.
\<close>

theorem revalidations_keep_binding:
  assumes "follow (\<lambda>dns d. revalidate_destination env dns d) answers approved = Ok current"
    and "answers \<noteq> []"
  shows "same_binding approved current \<and>
    (\<forall>a \<in> set (cd_resolved_addresses approved).
      address_ok (cd_port current) (cd_local_origin_grant current) a)"
  using revalidations.follow_binds [OF assms(1)] revalidations.follow_addresses [OF assms]
  by (simp_all add: same_binding_def)

theorem revalidations_keep_binding_witness:
  "list_all (address_ok 443 None) (cd_resolved_addresses demo_destination)"
proof -
  have "follow (\<lambda>dns d. revalidate_destination demo_env dns d) [demo_dns, demo_dns] demo_destination =
      Ok demo_destination"
    by (simp add: demo_revalidates)
  from revalidations_keep_binding [OF this] show ?thesis
    by (simp add: demo_destination_def list_all_iff)
qed

text \<open>
  A connected socket is accepted only when its peer is one of the approved addresses on the
  approved port, so a destination that was resolved and then connected to is the one that was
  approved; and every approved address is accepted.
\<close>

theorem peer_pinned:
  assumes "resolve_destination env dns endpoint transport grant = Ok d"
  shows "validate_connected_peer d peer = Ok () \<longleftrightarrow>
    (\<exists>ip. peer = Some (ip, cd_port d) \<and> ip \<in> set (cd_resolved_addresses d))"
  using resolve_kept [OF assms]
  by (cases peer) (auto simp: validate_connected_peer_def result_simps ensure_address_allowed_iff)

theorem peer_pinned_witness:
  "validate_connected_peer demo_destination (Some (V4 (IPv4 8 8 8 8), 443)) = Ok () \<and>
   validate_connected_peer demo_destination (Some (V4 (IPv4 8 8 4 4), 443)) \<noteq> Ok ()"
  using peer_pinned [OF demo_resolves, of "Some (V4 (IPv4 8 8 8 8), 443)"]
    peer_pinned [OF demo_resolves, of "Some (V4 (IPv4 8 8 4 4), 443)"]
  by (simp add: demo_destination_def)

text \<open>
  A redirect, or a navigation of the browser, is followed only inside the approval: the new
  destination has the approved binding and is resolved under the approved transport and grant;
  a browser navigation never reaches a loopback address.
\<close>

theorem redirect_stays_approved:
  "(validate_redirect_destination env dns approved url = Ok d \<longleftrightarrow>
      resolve_destination env dns url (cd_transport approved) (cd_local_origin_grant approved) = Ok d \<and>
      same_binding approved d) \<and>
   (validate_browser_navigation_blocking env dns approved url = Ok d \<longleftrightarrow>
      cd_transport approved = NativeBrowser \<and>
      resolve_destination env dns url NativeBrowser None = Ok d \<and> same_binding approved d) \<and>
   (validate_browser_navigation_blocking env dns approved url = Ok d \<longrightarrow>
      (\<forall>a \<in> set (cd_resolved_addresses approved). classify_ip a = PublicIp))"
proof (intro conjI impI)
  assume "validate_browser_navigation_blocking env dns approved url = Ok d"
  then have "resolve_destination env dns url NativeBrowser None = Ok d" "same_binding approved d"
    by (simp_all only: navigation_Ok)
  then show "\<forall>a \<in> set (cd_resolved_addresses approved). classify_ip a = PublicIp"
    using resolve_kept(4) [of env dns url NativeBrowser None d]
    by (simp add: same_binding_def address_ok_def)
qed (rule redirect_Ok navigation_Ok)+

theorem redirect_stays_approved_witness:
  "validate_redirect_destination demo_env demo_dns demo_destination ''https://example.com/mcp'' =
     Ok demo_destination \<and>
   list_all (\<lambda>a. classify_ip a = PublicIp) (cd_resolved_addresses demo_destination)"
proof
  have s: "same_binding demo_destination demo_destination" by (simp add: same_binding_def)
  have t: "cd_transport demo_destination = NativeBrowser" "cd_local_origin_grant demo_destination = None"
    by (simp_all add: demo_destination_def)
  show "validate_redirect_destination demo_env demo_dns demo_destination ''https://example.com/mcp'' =
     Ok demo_destination"
    using redirect_stays_approved [of demo_env demo_dns demo_destination "''https://example.com/mcp''"
        demo_destination] s t demo_resolves by simp
  show "list_all (\<lambda>a. classify_ip a = PublicIp) (cd_resolved_addresses demo_destination)"
    unfolding list_all_iff
    using redirect_stays_approved [of demo_env demo_dns demo_destination "''https://example.com/mcp''"
        demo_destination] s t demo_resolves by blast
qed

end
