(* ===== verification/Official_Page.thy ===== *)
theory Official_Page
  imports Network_Policy
begin

text \<open>
  The reader of official pages, \<open>src-tauri/src/tools/official_page.rs\<close>, a client of the network
  policy: it resolves a URL once, follows redirects inside that approval only, checks the peer of
  every response, and returns a bounded text.

  Beside the arguments of the network policy, the HTTP client is an argument: \<open>send\<close> gives the
  response to the n-th request, or a failure, and \<open>dns_at\<close> the resolver's behaviour at that time.
  The extraction of readable text from a page (the scraper crate) is the function \<open>readable\<close>, the
  digest of the content \<open>page_digest\<close>. JSON decoding, the event log, the wording of errors and
  the access time are left out. Every run also yields the trace of the requests it sent.
\<close>

definition MAX_REDIRECTS :: nat where
  "MAX_REDIRECTS = 4"

definition MAX_RESPONSE_BYTES :: nat where
  "MAX_RESPONSE_BYTES = 512 * 1024"

definition MAX_CONTENT_CHARS :: nat where
  "MAX_CONTENT_CHARS = 80000"

definition MAX_FALLBACK_URLS :: nat where
  "MAX_FALLBACK_URLS = 2"

record fetch_request =
  fr_url :: string
  fr_fallback_urls :: "string list"
  fr_max_content_chars :: nat

datatype fetch_error =
  OutsideContract | InvalidUrl | Policy network_policy_error | NotPublic | NoClient | SendFailed
| RedirectLimit | InvalidRedirect | HttpStatus nat | TooLarge | NotReadable | BodyFailed | Empty
| CouldNotRead | NoneRead fetch_error

record http_response =
  r_peer :: "(ip_addr \<times> nat) option"
  r_status :: nat
  r_location :: "string option"
  r_content_length :: "nat option"
  r_content_type :: "string option"
  r_chunks :: "string option list"

record page_receipt =
  rc_requested_url :: string
  rc_selected_url :: string
  rc_attempted_urls :: "string list"
  rc_fallback_used :: bool
  rc_final_url :: string
  rc_status_code :: nat
  rc_content_type :: string
  rc_content :: string
  rc_content_sha256 :: string
  rc_content_bytes :: nat
  rc_content_truncated :: bool

record 'u page_env =
  pe_net :: "'u net_env"
  url_join :: "'u \<Rightarrow> string \<Rightarrow> 'u option"
  url_without_fragment :: "'u \<Rightarrow> 'u"
  client_ok :: "'u canonical_destination \<Rightarrow> bool"
  dns_at :: "nat \<Rightarrow> string \<Rightarrow> nat \<Rightarrow> dns_answer"
  send :: "nat \<Rightarrow> 'u \<Rightarrow> http_response option"
  readable :: "string \<Rightarrow> string \<Rightarrow> string"
  page_digest :: "string \<Rightarrow> string"

subsection \<open>The request\<close>

definition normalize_public_https_url :: "'u page_env \<Rightarrow> string \<Rightarrow> fetch_error + string" where
  "normalize_public_https_url env raw0 =
     (let raw = trim raw0; ul = env_url (pe_net env) in
      and_then (ok_or (url_parse ul raw) InvalidUrl) (\<lambda>parsed.
      and_then (ensure (\<not> (url_scheme ul parsed \<noteq> ''https'' \<or> url_host_str ul parsed = None \<or>
        url_username ul parsed \<noteq> [] \<or> url_password ul parsed \<noteq> None \<or> length raw > 8192)) OutsideContract)
        (\<lambda>_. Ok (url_as_str ul (url_without_fragment env parsed)))))"

fun collect_fallbacks ::
  "'u page_env \<Rightarrow> string list \<Rightarrow> string list \<Rightarrow> string list \<Rightarrow> fetch_error + string list" where
  "collect_fallbacks env seen acc [] = Ok acc"
| "collect_fallbacks env seen acc (raw # rest) =
     and_then (normalize_public_https_url env raw) (\<lambda>u.
     if u \<in> set seen then collect_fallbacks env seen acc rest
     else collect_fallbacks env (u # seen) (acc @ [u]) rest)"

definition validate_registration :: "'u page_env \<Rightarrow> fetch_request \<Rightarrow> fetch_error + fetch_request" where
  "validate_registration env r =
     and_then (ensure (\<not> (\<not> (1000 \<le> fr_max_content_chars r \<and> fr_max_content_chars r \<le> MAX_CONTENT_CHARS) \<or>
       length (fr_fallback_urls r) > MAX_FALLBACK_URLS)) OutsideContract) (\<lambda>_.
     and_then (normalize_public_https_url env (fr_url r)) (\<lambda>u.
     and_then (collect_fallbacks env [u] [] (fr_fallback_urls r)) (\<lambda>fallbacks.
     Ok (r\<lparr>fr_url := u, fr_fallback_urls := fallbacks\<rparr>))))"

subsection \<open>The body\<close>

fun read_bounded_body :: "string \<Rightarrow> string option list \<Rightarrow> fetch_error + string" where
  "read_bounded_body bytes [] = Ok bytes"
| "read_bounded_body bytes (None # rest) = Err BodyFailed"
| "read_bounded_body bytes (Some chunk # rest) =
     (if length bytes + length chunk > MAX_RESPONSE_BYTES then Err TooLarge
      else read_bounded_body (bytes @ chunk) rest)"

text \<open>\<open>char_indices\<close>: the first byte of a character tells its length.\<close>

definition utf8_len :: "char \<Rightarrow> nat" where
  "utf8_len c = (let n = (of_char c :: nat) in if n < 128 then 1 else if n < 224 then 2 else if n < 240 then 3 else 4)"

function truncate_end :: "nat \<Rightarrow> nat \<Rightarrow> nat \<Rightarrow> string \<Rightarrow> nat" where
  "truncate_end mx chars index [] = index"
| "truncate_end mx chars index (c # s) =
     (if chars = mx \<or> index + utf8_len c > mx then index
      else truncate_end mx (chars + 1) (index + utf8_len c) (drop (utf8_len c - 1) s))"
  by pat_completeness auto
termination
  by (relation "measure (\<lambda>(mx, chars, index, s). length s)") auto

definition truncate_chars :: "string \<Rightarrow> nat \<Rightarrow> string \<times> bool" where
  "truncate_chars content max_chars =
     (let e = truncate_end max_chars 0 0 content in
      if e = length content then (content, False) else (take e content, True))"

subsection \<open>Fetching\<close>

definition is_redirection :: "nat \<Rightarrow> bool" where
  "is_redirection status = (300 \<le> status \<and> status < 400)"

definition is_success :: "nat \<Rightarrow> bool" where
  "is_success status = (200 \<le> status \<and> status < 300)"

definition lift_policy :: "network_policy_error + 'a \<Rightarrow> fetch_error + 'a" where
  "lift_policy r = (case r of Inl e \<Rightarrow> Inl (Policy e) | Inr x \<Rightarrow> Inr x)"

definition finish_page ::
  "'u page_env \<Rightarrow> string \<Rightarrow> nat \<Rightarrow> 'u canonical_destination \<Rightarrow> http_response \<Rightarrow> fetch_error + page_receipt" where
  "finish_page env url max_content_chars current response =
     and_then (ensure (is_success (r_status response)) (HttpStatus (r_status response))) (\<lambda>_.
     and_then (ensure (\<not> (case r_content_length response of None \<Rightarrow> False | Some n \<Rightarrow> n > MAX_RESPONSE_BYTES))
       TooLarge) (\<lambda>_.
     let content_type = to_ascii_lowercase
       (case r_content_type response of None \<Rightarrow> ''text/plain'' | Some t \<Rightarrow> t) in
     and_then (ensure (\<not> (\<not> contains_str content_type ''text/html'' \<and>
       \<not> contains_str content_type ''application/xhtml+xml'' \<and> \<not> contains_str content_type ''text/plain''))
       NotReadable) (\<lambda>_.
     and_then (read_bounded_body [] (r_chunks response)) (\<lambda>bytes.
     let (content, content_truncated) = truncate_chars (readable env content_type bytes) max_content_chars in
     and_then (ensure (\<not> blank content) Empty) (\<lambda>_.
     Ok \<lparr>rc_requested_url = url, rc_selected_url = url, rc_attempted_urls = [url], rc_fallback_used = False,
         rc_final_url = cd_canonical_url current, rc_status_code = r_status response,
         rc_content_type = content_type, rc_content = content,
         rc_content_sha256 = page_digest env content, rc_content_bytes = length content,
         rc_content_truncated = content_truncated\<rparr>)))))"

type_synonym 'u trace = "('u canonical_destination \<times> http_response option) list"

text \<open>\<open>for redirect_index in 0..=MAX_REDIRECTS\<close>, numbered on from request \<open>k\<close>.\<close>

fun fetch_loop ::
  "'u page_env \<Rightarrow> string \<Rightarrow> nat \<Rightarrow> 'u canonical_destination \<Rightarrow> nat \<Rightarrow> nat list \<Rightarrow> 'u canonical_destination \<Rightarrow>
   'u trace \<times> (fetch_error + page_receipt)" where
  "fetch_loop env url mx approved k [] current = ([], Err CouldNotRead)"
| "fetch_loop env url mx approved k (redirect_index # rest) current =
     (case send env k (cd_url current) of
        None \<Rightarrow> ([(current, None)], Err SendFailed)
      | Some response \<Rightarrow>
          (case validate_connected_peer current (r_peer response) of
             Inl e \<Rightarrow> ([(current, Some response)], Err (Policy e))
           | Inr _ \<Rightarrow>
               if is_redirection (r_status response) then
                 (if redirect_index = MAX_REDIRECTS then ([(current, Some response)], Err RedirectLimit)
                  else
                    case Option.bind (r_location response) (url_join env (cd_url current)) of
                      None \<Rightarrow> ([(current, Some response)], Err InvalidRedirect)
                    | Some next \<Rightarrow>
                        (case validate_redirect_destination (pe_net env) (dns_at env (Suc k)) approved
                            (url_as_str (env_url (pe_net env)) next) of
                           Inl e \<Rightarrow> ([(current, Some response)], Err (Policy e))
                         | Inr current' \<Rightarrow>
                             (let (tr, r) = fetch_loop env url mx approved (Suc k) rest current' in
                              ((current, Some response) # tr, r))))
               else ([(current, Some response)], finish_page env url mx current response)))"

definition fetch_candidate ::
  "'u page_env \<Rightarrow> nat \<Rightarrow> string \<Rightarrow> nat \<Rightarrow> 'u trace \<times> (fetch_error + page_receipt)" where
  "fetch_candidate env k url max_content_chars =
     (case resolve_destination (pe_net env) (dns_at env k) url NativeBrowser None of
        Inl e \<Rightarrow> ([], Err (Policy e))
      | Inr approved \<Rightarrow>
          if cd_destination_class approved \<noteq> Public then ([], Err NotPublic)
          else if \<not> client_ok env approved then ([], Err NoClient)
          else fetch_loop env url max_content_chars approved k [0..<Suc MAX_REDIRECTS] approved)"

fun try_candidates ::
  "'u page_env \<Rightarrow> fetch_request \<Rightarrow> nat \<Rightarrow> string list \<Rightarrow> fetch_error option \<Rightarrow> string list \<Rightarrow>
   'u trace \<times> (fetch_error + page_receipt)" where
  "try_candidates env r k attempted last_error [] =
     ([], let e = (case last_error of None \<Rightarrow> CouldNotRead | Some e \<Rightarrow> e) in
        Err (if fr_fallback_urls r = [] then e else NoneRead e))"
| "try_candidates env r k attempted last_error (candidate # rest) =
     (let (tr, res) = fetch_candidate env k candidate (fr_max_content_chars r);
          attempted' = attempted @ [candidate] in
      case res of
        Inr receipt \<Rightarrow>
          (tr, Ok (receipt\<lparr>rc_requested_url := fr_url r, rc_selected_url := candidate,
             rc_fallback_used := (candidate \<noteq> fr_url r), rc_attempted_urls := attempted'\<rparr>))
      | Inl e \<Rightarrow>
          (let (tr', res') = try_candidates env r (k + length tr + 1) attempted' (Some e) rest in (tr @ tr', res')))"

definition fetch_page :: "'u page_env \<Rightarrow> fetch_request \<Rightarrow> 'u trace \<times> (fetch_error + page_receipt)" where
  "fetch_page env r = try_candidates env r 0 [] None (fr_url r # fr_fallback_urls r)"

subsection \<open>Bounds\<close>

lemma utf8_len_pos: "0 < utf8_len c"
  by (simp add: utf8_len_def Let_def)

lemma truncate_end_le: "index \<le> mx \<Longrightarrow> truncate_end mx chars index s \<le> mx"
  by (induction mx chars index s rule: truncate_end.induct) auto

lemma truncate_prefix:
  assumes "truncate_chars content mx = (out, b)"
  shows "length out \<le> mx" "\<exists>rest. content = out @ rest" "b \<longleftrightarrow> truncate_end mx 0 0 content \<noteq> length content"
proof -
  let ?e = "truncate_end mx 0 0 content"
  have e: "out = take ?e content" "b \<longleftrightarrow> ?e \<noteq> length content"
    using assms by (auto simp: truncate_chars_def Let_def split: if_splits)
  have le: "?e \<le> mx" by (rule truncate_end_le) simp
  show "length out \<le> mx" using e le by simp
  show "\<exists>rest. content = out @ rest" using e by (metis append_take_drop_id)
  show "b \<longleftrightarrow> ?e \<noteq> length content" by (rule e)
qed

lemma read_bounded_body_Ok:
  "read_bounded_body bytes chunks = Ok out \<Longrightarrow>
     out = bytes @ concat (map the chunks) \<and> None \<notin> set chunks \<and> length out \<le> max (length bytes) MAX_RESPONSE_BYTES"
  by (induction bytes chunks rule: read_bounded_body.induct) (auto split: if_splits)

lemma finish_page_Ok:
  assumes "finish_page env url mx current response = Ok receipt"
  obtains bytes where "is_success (r_status response)" "read_bounded_body [] (r_chunks response) = Ok bytes"
    "rc_final_url receipt = cd_canonical_url current"
    "rc_content receipt = fst (truncate_chars (readable env (rc_content_type receipt) bytes) mx)"
    "rc_content_bytes receipt = length (rc_content receipt)"
    "rc_content_sha256 receipt = page_digest env (rc_content receipt)" "\<not> blank (rc_content receipt)"
proof -
  define ty where "ty = to_ascii_lowercase (case r_content_type response of None \<Rightarrow> ''text/plain'' | Some t \<Rightarrow> t)"
  from assms obtain bytes where b: "read_bounded_body [] (r_chunks response) = Ok bytes"
    by (auto simp: finish_page_def Let_def and_then_eq_Ok)
  obtain content t where c: "truncate_chars (readable env ty bytes) mx = (content, t)" by fastforce
  show thesis
    using assms b c unfolding finish_page_def Let_def ty_def [symmetric]
    by (intro that [of bytes]) (auto simp: and_then_eq_Ok ensure_eq_Ok)
qed

subsection \<open>Requests stay inside the approval\<close>

text \<open>
  What a run leaves behind: every request goes to a destination with the approved binding, and a
  page comes from the last of them, whose peer was accepted.
\<close>

definition answered_by :: "'u page_env \<Rightarrow> string \<Rightarrow> nat \<Rightarrow> 'u trace \<Rightarrow> page_receipt \<Rightarrow> bool" where
  "answered_by env url mx tr receipt \<longleftrightarrow>
     (\<exists>pre d resp. tr = pre @ [(d, Some resp)] \<and> validate_connected_peer d (r_peer resp) = Ok () \<and>
        finish_page env url mx d resp = Ok receipt)"

definition inside :: "'u canonical_destination \<Rightarrow> 'u trace \<Rightarrow> bool" where
  "inside approved tr \<longleftrightarrow> (\<forall>(d, resp) \<in> set tr. same_binding approved d)"

lemma answered_by_Cons: "answered_by env url mx tr receipt \<Longrightarrow> answered_by env url mx (x # tr) receipt"
  unfolding answered_by_def by (metis append_Cons)

lemma answered_by_appended: "answered_by env url mx tr receipt \<Longrightarrow> answered_by env url mx (pre @ tr) receipt"
  by (induction pre) (auto intro: answered_by_Cons)

text \<open>One round of the loop either ends it or moves on to an accepted redirect.\<close>

lemma fetch_loop_round:
  assumes "fetch_loop env url mx approved k (i # rest) current = (tr, res)"
  obtains (stop) resp where "tr = [(current, resp)]"
      "\<And>receipt. res = Ok receipt \<Longrightarrow> answered_by env url mx [(current, resp)] receipt"
    | (step) resp cur' tr' where "same_binding approved cur'"
      "fetch_loop env url mx approved (Suc k) rest cur' = (tr', res)" "tr = (current, resp) # tr'"
proof (cases "send env k (cd_url current)")
  case None
  then show thesis using assms by (intro stop [of None]) auto
next
  case send: (Some response)
  show thesis
  proof (cases "validate_connected_peer current (r_peer response)")
    case (Inl e)
    then show thesis using assms send by (intro stop [of "Some response"]) auto
  next
    case peer: (Inr u)
    consider (page) "\<not> is_redirection (r_status response)"
      | (refused) "\<exists>e. (tr, res) = ([(current, Some response)], Err e)"
      | (moved) cur' where "same_binding approved cur'"
        "(tr, res) = (let (tr', r) = fetch_loop env url mx approved (Suc k) rest cur' in
           ((current, Some response) # tr', r))"
      using assms send peer
      by (auto simp: redirect_Ok split: if_splits option.splits sum.splits)
    then show thesis
    proof cases
      case page
      then show thesis using assms send peer
        by (intro stop [of "Some response"]) (auto simp: answered_by_def)
    next
      case refused
      then show thesis by (intro stop [of "Some response"]) auto
    next
      case moved
      then show thesis by (auto simp: Let_def split: prod.splits intro: step)
    qed
  qed
qed

lemma fetch_loop_inside:
  assumes "same_binding approved current" "fetch_loop env url mx approved k rounds current = (tr, res)"
  shows "inside approved tr \<and> length tr \<le> length rounds \<and>
    (\<forall>receipt. res = Ok receipt \<longrightarrow> answered_by env url mx tr receipt)"
  using assms
proof (induction rounds arbitrary: k current tr res)
  case (Cons i rounds)
  from Cons.prems(2) show ?case
  proof (cases rule: fetch_loop_round)
    case (stop resp)
    then show ?thesis using Cons.prems(1) by (simp add: inside_def)
  next
    case (step resp cur' tr')
    then show ?thesis
      using Cons.prems(1) Cons.IH [OF step(1,2)] by (auto simp: inside_def intro: answered_by_Cons)
  qed
qed (simp add: inside_def)

definition approved_for :: "'u page_env \<Rightarrow> string \<Rightarrow> 'u canonical_destination \<Rightarrow> bool" where
  "approved_for env url approved \<longleftrightarrow>
     (\<exists>k. resolve_destination (pe_net env) (dns_at env k) url NativeBrowser None = Ok approved) \<and>
     cd_destination_class approved = Public"

lemma approved_public: "approved_for env url approved \<Longrightarrow> a \<in> set (cd_resolved_addresses approved) \<Longrightarrow> classify_ip a = PublicIp"
  using resolve_kept(4) by (fastforce simp: approved_for_def address_ok_def)

lemma fetch_candidate_inside:
  assumes "fetch_candidate env k url mx = (tr, res)"
  shows "length tr \<le> Suc MAX_REDIRECTS"
    and "tr \<noteq> [] \<Longrightarrow> \<exists>approved. approved_for env url approved \<and> inside approved tr"
    and "res = Ok receipt \<Longrightarrow> answered_by env url mx tr receipt"
proof -
  consider (none) e where "tr = []" "res = Err e"
    | (loop) approved where "approved_for env url approved"
      "fetch_loop env url mx approved k [0..<Suc MAX_REDIRECTS] approved = (tr, res)"
    using assms unfolding fetch_candidate_def approved_for_def
    by (auto split: sum.splits if_splits simp del: upt_Suc)
  then have "length tr \<le> Suc MAX_REDIRECTS \<and>
      (tr \<noteq> [] \<longrightarrow> (\<exists>approved. approved_for env url approved \<and> inside approved tr)) \<and>
      (res = Ok receipt \<longrightarrow> answered_by env url mx tr receipt)"
  proof cases
    case loop
    have "same_binding approved approved" by (simp add: same_binding_def)
    from fetch_loop_inside [OF this loop(2)] loop(1) show ?thesis by auto
  qed auto
  then show "length tr \<le> Suc MAX_REDIRECTS"
    "tr \<noteq> [] \<Longrightarrow> \<exists>approved. approved_for env url approved \<and> inside approved tr"
    "res = Ok receipt \<Longrightarrow> answered_by env url mx tr receipt" by blast+
qed

definition within :: "'u page_env \<Rightarrow> string list \<Rightarrow> 'u trace \<Rightarrow> bool" where
  "within env urls tr \<longleftrightarrow> (\<forall>(d, resp) \<in> set tr. \<exists>url \<in> set urls. \<exists>approved.
     approved_for env url approved \<and> same_binding approved d)"

lemma fetch_candidate_within: "fetch_candidate env k url mx = (tr, res) \<Longrightarrow> within env [url] tr"
  using fetch_candidate_inside(2) [of env k url mx tr res]
  by (cases "tr = []") (fastforce simp: within_def inside_def)+

lemma within_append: "within env urls (tr @ tr') \<longleftrightarrow> within env urls tr \<and> within env urls tr'"
  unfolding within_def by (simp add: ball_Un)

lemma within_mono: "within env urls tr \<Longrightarrow> set urls \<subseteq> set urls' \<Longrightarrow> within env urls' tr"
  unfolding within_def by fast

text \<open>The receipt of a candidate, as the driver completes it.\<close>

definition completed :: "fetch_request \<Rightarrow> string list \<Rightarrow> string \<Rightarrow> page_receipt \<Rightarrow> page_receipt" where
  "completed r attempted candidate receipt =
     receipt\<lparr>rc_requested_url := fr_url r, rc_selected_url := candidate,
       rc_fallback_used := (candidate \<noteq> fr_url r), rc_attempted_urls := attempted\<rparr>"

lemma try_candidates_inside:
  assumes "try_candidates env r k attempted last_error candidates = (tr, res)"
  shows "length tr \<le> Suc MAX_REDIRECTS * length candidates \<and> within env candidates tr \<and>
    (\<forall>receipt. res = Ok receipt \<longrightarrow> (\<exists>before candidate after rc0. candidates = before @ candidate # after \<and>
       answered_by env candidate (fr_max_content_chars r) tr rc0 \<and>
       receipt = completed r (attempted @ before @ [candidate]) candidate rc0))"
  using assms
proof (induction candidates arbitrary: k attempted last_error tr res)
  case (Cons candidate rest)
  obtain tr1 res1 where c: "fetch_candidate env k candidate (fr_max_content_chars r) = (tr1, res1)" by fastforce
  note len = fetch_candidate_inside(1) [OF c] and win = fetch_candidate_within [OF c]
    and ans = fetch_candidate_inside(3) [OF c]
  show ?case
  proof (cases res1)
    case (Inr rc0)
    then have tr: "tr = tr1" "res = Ok (completed r (attempted @ [candidate]) candidate rc0)"
      using Cons.prems c by (auto simp: completed_def)
    show ?thesis
    proof (intro conjI allI impI)
      show "length tr \<le> Suc MAX_REDIRECTS * length (candidate # rest)" using len tr by simp
      show "within env (candidate # rest) tr" using win tr by (auto elim: within_mono)
      fix receipt assume "res = Ok receipt"
      then show "\<exists>before candidate' after rc0. candidate # rest = before @ candidate' # after \<and>
          answered_by env candidate' (fr_max_content_chars r) tr rc0 \<and>
          receipt = completed r (attempted @ before @ [candidate']) candidate' rc0"
        using ans [OF Inr] tr by (intro exI [of _ "[]"] exI [of _ candidate] exI [of _ rest] exI [of _ rc0]) simp
    qed
  next
    case (Inl e)
    obtain tr2 res2 where t: "try_candidates env r (k + length tr1 + 1) (attempted @ [candidate]) (Some e) rest =
        (tr2, res2)" by fastforce
    with Inl have tr: "tr = tr1 @ tr2" "res = res2" using Cons.prems c by auto
    note ih = Cons.IH [OF t]
    show ?thesis
    proof (intro conjI allI impI)
      show "length tr \<le> Suc MAX_REDIRECTS * length (candidate # rest)" using len ih tr by simp
      show "within env (candidate # rest) tr"
        using win ih tr by (auto simp: within_append elim: within_mono)
      fix receipt assume "res = Ok receipt"
      with ih tr obtain before cand after rc0 where "rest = before @ cand # after"
        "answered_by env cand (fr_max_content_chars r) tr2 rc0"
        "receipt = completed r ((attempted @ [candidate]) @ before @ [cand]) cand rc0" by blast
      then show "\<exists>before candidate' after rc0. candidate # rest = before @ candidate' # after \<and>
          answered_by env candidate' (fr_max_content_chars r) tr rc0 \<and>
          receipt = completed r (attempted @ before @ [candidate']) candidate' rc0"
        using tr by (intro exI [of _ "candidate # before"] exI [of _ cand] exI [of _ after] exI [of _ rc0])
          (simp add: answered_by_appended)
    qed
  qed
qed (auto simp: within_def Let_def)

lemma collect_fallbacks_length:
  "collect_fallbacks env seen acc raws = Ok out \<Longrightarrow> length out \<le> length acc + length raws"
  by (induction env seen acc raws rule: collect_fallbacks.induct)
    (fastforce simp: and_then_eq_Ok split: if_splits)+

lemma validate_registration_Ok:
  assumes "validate_registration env r0 = Ok r"
  shows "fr_max_content_chars r = fr_max_content_chars r0" "fr_max_content_chars r \<le> MAX_CONTENT_CHARS"
    "length (fr_fallback_urls r) \<le> MAX_FALLBACK_URLS"
  using assms collect_fallbacks_length
  by (fastforce simp: validate_registration_def and_then_eq_Ok ensure_eq_Ok)+

subsection \<open>Properties\<close>

lemma peer_Ok:
  "validate_connected_peer d peer = Ok () \<Longrightarrow>
     \<exists>ip. peer = Some (ip, cd_port d) \<and> ip \<in> set (cd_resolved_addresses d)"
  by (cases peer) (auto simp: validate_connected_peer_def result_simps)

text \<open>A run with one redirect, to show that the hypotheses below can hold.\<close>

definition demo_send :: "nat \<Rightarrow> string \<Rightarrow> http_response option" where
  "demo_send k u = Some \<lparr>r_peer = Some (V4 (IPv4 8 8 8 8), 443), r_status = (if k = 0 then 302 else 200),
     r_location = (if k = 0 then Some ''https://example.com/new'' else None), r_content_length = None,
     r_content_type = Some ''Text/Plain'', r_chunks = [Some ''Road '', Some ''freight'']\<rparr>"

definition demo_page_env :: "string page_env" where
  "demo_page_env = \<lparr>pe_net = demo_env, url_join = (\<lambda>_ l. Some l), url_without_fragment = (\<lambda>u. u),
     client_ok = (\<lambda>_. True), dns_at = (\<lambda>_. demo_dns), send = demo_send, readable = (\<lambda>_ b. b),
     page_digest = (\<lambda>s. s)\<rparr>"

definition demo_fetch :: fetch_request where
  "demo_fetch = \<lparr>fr_url = ''https://example.com/mcp'', fr_fallback_urls = [], fr_max_content_chars = 1000\<rparr>"

definition demo_receipt :: page_receipt where
  "demo_receipt = \<lparr>rc_requested_url = ''https://example.com/mcp'', rc_selected_url = ''https://example.com/mcp'',
     rc_attempted_urls = [''https://example.com/mcp''], rc_fallback_used = False,
     rc_final_url = ''https://example.com/new'', rc_status_code = 200, rc_content_type = ''text/plain'',
     rc_content = ''Road freight'', rc_content_sha256 = ''Road freight'', rc_content_bytes = 12,
     rc_content_truncated = False\<rparr>"

lemma demo_redirect:
  "validate_redirect_destination demo_env demo_dns demo_destination ''https://example.com/new'' =
     Ok (demo_destination\<lparr>cd_url := ''https://example.com/new'', cd_canonical_url := ''https://example.com/new''\<rparr>)"
  by code_simp

lemma demo_peer:
  "validate_connected_peer demo_destination (Some (V4 (IPv4 8 8 8 8), 443)) = Ok ()"
  "validate_connected_peer (demo_destination\<lparr>cd_url := u, cd_canonical_url := u\<rparr>) (Some (V4 (IPv4 8 8 8 8), 443)) = Ok ()"
proof -
  show "validate_connected_peer demo_destination (Some (V4 (IPv4 8 8 8 8), 443)) = Ok ()" by code_simp
  then show "validate_connected_peer (demo_destination\<lparr>cd_url := u, cd_canonical_url := u\<rparr>)
      (Some (V4 (IPv4 8 8 8 8), 443)) = Ok ()"
    by (simp add: validate_connected_peer_def)
qed

lemma demo_url: "cd_url demo_destination = ''https://example.com/mcp''" "cd_destination_class demo_destination = Public"
  by (simp_all add: demo_destination_def)

lemma demo_text:
  "to_ascii_lowercase ''Text/Plain'' = ''text/plain''" "contains_str ''text/plain'' ''text/plain''"
  "\<not> blank ''Road freight''"
  by code_simp+

lemma demo_finish:
  "finish_page demo_page_env u 1000 (demo_destination\<lparr>cd_url := v, cd_canonical_url := v\<rparr>)
     \<lparr>r_peer = q, r_status = 200, r_location = l, r_content_length = None, r_content_type = Some ''Text/Plain'',
      r_chunks = [Some ''Road '', Some ''freight'']\<rparr> =
   Ok \<lparr>rc_requested_url = u, rc_selected_url = u, rc_attempted_urls = [u], rc_fallback_used = False,
     rc_final_url = v, rc_status_code = 200, rc_content_type = ''text/plain'',
     rc_content = ''Road freight'', rc_content_sha256 = ''Road freight'', rc_content_bytes = 12,
     rc_content_truncated = False\<rparr>"
  by (simp add: finish_page_def Let_def ensure_def is_success_def demo_text MAX_RESPONSE_BYTES_def
      demo_page_env_def truncate_chars_def utf8_len_def del: contains_str.simps)

lemma demo_fetched: "snd (fetch_page demo_page_env demo_fetch) = Ok demo_receipt"
proof -
  have e: "pe_net demo_page_env = demo_env" "dns_at demo_page_env k = demo_dns" "client_ok demo_page_env d"
    "send demo_page_env = demo_send" "url_join demo_page_env u l = Some l" for k d u l
    by (simp_all add: demo_page_env_def)
  have u: "url_as_str (env_url demo_env) x = x" for x by (simp add: demo_env_def demo_urls_def)
  have "snd (fetch_candidate demo_page_env 0 ''https://example.com/mcp'' 1000) =
      Ok (demo_receipt\<lparr>rc_requested_url := ''https://example.com/mcp''\<rparr>)"
    by (simp add: fetch_candidate_def e u demo_resolves demo_url upt_conv_Cons MAX_REDIRECTS_def demo_send_def demo_peer
        is_redirection_def demo_redirect demo_finish demo_receipt_def case_prod_beta Let_def)
  then show ?thesis
    by (simp add: fetch_page_def demo_fetch_def case_prod_beta Let_def demo_receipt_def)
qed

lemma demo_registered: "validate_registration demo_page_env demo_fetch = Ok demo_fetch"
proof -
  have "trim ''https://example.com/mcp'' = ''https://example.com/mcp''"
    "url_scheme demo_urls ''https://example.com/mcp'' = ''https''" by code_simp+
  then show ?thesis
    by (simp add: validate_registration_def demo_fetch_def ensure_def MAX_CONTENT_CHARS_def
        normalize_public_https_url_def demo_page_env_def demo_env_def Let_def demo_urls_def ok_or_def)
qed

text \<open>
  C34. Whatever the servers and the resolver answer, and whether or not a page is read, every request
  goes to a destination with the approved binding of one of the listed URLs, all of whose addresses
  are public; and a page that is returned was served, with a success status, by a peer that is one
  of the approved addresses, at the URL the receipt names as final.
\<close>

theorem pages_from_public_peers:
  assumes "fetch_page env r = (tr, res)"
  shows "(\<forall>(d, resp) \<in> set tr. \<exists>url \<in> set (fr_url r # fr_fallback_urls r). \<exists>approved.
      approved_for env url approved \<and> same_binding approved d \<and>
      (\<forall>a \<in> set (cd_resolved_addresses d). classify_ip a = PublicIp)) \<and>
    (\<forall>receipt. res = Ok receipt \<longrightarrow> (\<exists>pre d resp ip. tr = pre @ [(d, Some resp)] \<and>
      r_peer resp = Some (ip, cd_port d) \<and> ip \<in> set (cd_resolved_addresses d) \<and> classify_ip ip = PublicIp \<and>
      is_success (r_status resp) \<and> rc_final_url receipt = cd_canonical_url d))"
proof (intro conjI allI impI)
  note t = try_candidates_inside [OF assms [unfolded fetch_page_def]]
  have w: "within env (fr_url r # fr_fallback_urls r) tr" using t by blast
  have pub: "classify_ip a = PublicIp"
    if "approved_for env url approved" "same_binding approved d" "a \<in> set (cd_resolved_addresses d)"
    for url approved d a
    using approved_public [OF that(1)] that(2,3) by (simp add: same_binding_def)
  show all: "\<forall>(d, resp) \<in> set tr. \<exists>url \<in> set (fr_url r # fr_fallback_urls r). \<exists>approved.
      approved_for env url approved \<and> same_binding approved d \<and>
      (\<forall>a \<in> set (cd_resolved_addresses d). classify_ip a = PublicIp)"
    using w pub unfolding within_def by (fast dest: bspec)
  fix receipt assume "res = Ok receipt"
  with t obtain url rc0 atts where
    a: "answered_by env url (fr_max_content_chars r) tr rc0" "receipt = completed r atts url rc0" by blast
  then obtain pre d resp where l: "tr = pre @ [(d, Some resp)]" "validate_connected_peer d (r_peer resp) = Ok ()"
    "finish_page env url (fr_max_content_chars r) d resp = Ok rc0" unfolding answered_by_def by blast
  from peer_Ok [OF l(2)] obtain ip where ip: "r_peer resp = Some (ip, cd_port d)" "ip \<in> set (cd_resolved_addresses d)"
    by blast
  have "classify_ip ip = PublicIp" using bspec [OF all, of "(d, Some resp)"] l(1) ip(2) by auto
  moreover have "is_success (r_status resp)" "rc_final_url receipt = cd_canonical_url d"
    using l(3) a(2) by (auto elim: finish_page_Ok simp: completed_def)
  ultimately show "\<exists>pre d resp ip. tr = pre @ [(d, Some resp)] \<and>
      r_peer resp = Some (ip, cd_port d) \<and> ip \<in> set (cd_resolved_addresses d) \<and> classify_ip ip = PublicIp \<and>
      is_success (r_status resp) \<and> rc_final_url receipt = cd_canonical_url d"
    using l(1) ip by blast
qed

theorem pages_from_public_peers_witness:
  "\<exists>pre d resp. fetch_page demo_page_env demo_fetch = (pre @ [(d, Some resp)], Ok demo_receipt) \<and>
     cd_canonical_url d = ''https://example.com/new'' \<and> is_success (r_status resp)"
proof -
  obtain tr where f: "fetch_page demo_page_env demo_fetch = (tr, Ok demo_receipt)"
    using demo_fetched by (metis prod.collapse)
  obtain pre d resp where "tr = pre @ [(d, Some resp)]" "is_success (r_status resp)"
    "rc_final_url demo_receipt = cd_canonical_url d"
    using pages_from_public_peers [OF f] by blast
  then show ?thesis using f by (auto simp: demo_receipt_def)
qed

text \<open>
  Once a request is registered its cost is bounded: at most five requests per URL and fifteen in
  all, and a page of at most the requested, and 80000, bytes, which is not blank and is a prefix of
  the text extracted from a body of at most 512 KiB; the receipt records its size and digest, and the URLs tried up
  to the one it comes from.
\<close>

theorem pages_bounded:
  assumes "validate_registration env r0 = Ok r" and "fetch_page env r = (tr, res)"
  shows "length tr \<le> 5 * length (fr_url r # fr_fallback_urls r) \<and> length tr \<le> 15 \<and>
    (\<forall>receipt. res = Ok receipt \<longrightarrow>
      length (rc_content receipt) \<le> fr_max_content_chars r0 \<and> length (rc_content receipt) \<le> 80000 \<and>
      \<not> blank (rc_content receipt) \<and>
      (\<exists>bytes rest. length bytes \<le> 512 * 1024 \<and>
         readable env (rc_content_type receipt) bytes = rc_content receipt @ rest) \<and>
      rc_content_bytes receipt = length (rc_content receipt) \<and>
      rc_content_sha256 receipt = page_digest env (rc_content receipt) \<and>
      (\<exists>after. fr_url r # fr_fallback_urls r = rc_attempted_urls receipt @ after \<and>
         last (rc_attempted_urls receipt) = rc_selected_url receipt))"
proof (intro conjI allI impI)
  note t = try_candidates_inside [OF assms(2) [unfolded fetch_page_def]]
  note v = validate_registration_Ok [OF assms(1)]
  show n: "length tr \<le> 5 * length (fr_url r # fr_fallback_urls r)" using t by (simp add: MAX_REDIRECTS_def)
  then show "length tr \<le> 15" using v(3) by (simp add: MAX_FALLBACK_URLS_def)
  fix receipt assume "res = Ok receipt"
  with t obtain before url after rc0 where
    c: "fr_url r # fr_fallback_urls r = before @ url # after" "answered_by env url (fr_max_content_chars r) tr rc0"
      "receipt = completed r (before @ [url]) url rc0" by auto
  then obtain d resp where "finish_page env url (fr_max_content_chars r) d resp = Ok rc0"
    unfolding answered_by_def by blast
  then obtain bytes where b: "read_bounded_body [] (r_chunks resp) = Ok bytes"
    "rc_content receipt = fst (truncate_chars (readable env (rc_content_type receipt) bytes) (fr_max_content_chars r))"
    "rc_content_bytes receipt = length (rc_content receipt)"
    "rc_content_sha256 receipt = page_digest env (rc_content receipt)" "\<not> blank (rc_content receipt)"
    using c(3) by (auto elim!: finish_page_Ok simp: completed_def)
  note p = truncate_prefix [OF surjective_pairing, of "readable env (rc_content_type receipt) bytes" "fr_max_content_chars r",
      folded b(2)]
  show "length (rc_content receipt) \<le> fr_max_content_chars r0" "length (rc_content receipt) \<le> 80000"
    using p(1) v(1,2) by (simp_all add: MAX_CONTENT_CHARS_def)
  show "\<exists>bytes rest. length bytes \<le> 512 * 1024 \<and> readable env (rc_content_type receipt) bytes = rc_content receipt @ rest"
    using p(2) read_bounded_body_Ok [OF b(1)] by (auto simp: MAX_RESPONSE_BYTES_def)
  show "\<exists>after. fr_url r # fr_fallback_urls r = rc_attempted_urls receipt @ after \<and>
      last (rc_attempted_urls receipt) = rc_selected_url receipt"
    using c(1,3) by (simp add: completed_def)
  show "\<not> blank (rc_content receipt)" "rc_content_bytes receipt = length (rc_content receipt)"
    "rc_content_sha256 receipt = page_digest env (rc_content receipt)" by (rule b)+
qed

theorem pages_bounded_witness:
  "length (fst (fetch_page demo_page_env demo_fetch)) \<le> 5 \<and> length (rc_content demo_receipt) \<le> 1000"
proof -
  obtain tr where f: "fetch_page demo_page_env demo_fetch = (tr, Ok demo_receipt)"
    using demo_fetched by (metis prod.collapse)
  from pages_bounded [OF demo_registered f] show ?thesis
    using f by (simp add: demo_fetch_def)
qed

end
