(* ===== verification/Schedule_Expression.thy ===== *)
theory Schedule_Expression
  imports Rust_Prelude
begin

text \<open>
  Schedule expressions, \<open>src-tauri/src/schedule_expression.rs\<close>: one-time, hourly, daily, interval
  and five-field cron schedules, each mapped with a reference instant to the next run.

  Instants are \<open>i64\<close> milliseconds of the Unix epoch. A \<open>NaiveDateTime\<close> is the number of
  milliseconds of wall-clock time since 1970-01-01, a \<open>NaiveDate\<close> the number of days, so adding a
  duration is addition and date and time of day are quotient and remainder. The time zone data
  base and the calendar of chrono are arguments: a \<open>zone\<close> gives the wall clock of an instant and
  the instants of a wall clock, a \<open>chrono\<close> gives the calendar fields of a day, the supported
  ranges, the zone names and the machine's zone. An addition that leaves chrono's range, which
  panics, and a \<open>TimeDelta::days\<close> out of bounds, which panics too, are the error \<open>Panic\<close>.
\<close>

datatype schedule_error =
  EmptyExpression | ManualRun | InvalidOnce | OncePast | InvalidTimezone | InvalidReference
| InvalidDailyTime | NoDailyRun | InvalidCronReference | NoCronRun | InvalidCronStep | InvalidCronField
| CronOutOfRange | IntervalSyntax | IntervalAmount | IntervalNotPositive | IntervalUnitUnknown
| IntervalTooLarge | DateOutOfRange | NoIntervalRun | DailyNotNumeric | DailyOutOfRange | CannotAlign
| EmptyCronTerm | CronDescending | InvalidTimestamp | Unsupported | Panic

subsection \<open>Time\<close>

definition minute_ms :: int where "minute_ms = 60000"
definition hour_ms :: int where "hour_ms = 3600000"
definition day_ms :: int where "day_ms = 86400000"

datatype local_result = Single int | Ambiguous int int | NoLocal

record zone =
  wall :: "int \<Rightarrow> int"
  from_local :: "int \<Rightarrow> local_result"

record chrono =
  utc_ok :: "int \<Rightarrow> bool"
  naive_ok :: "int \<Rightarrow> bool"
  civil :: "int \<Rightarrow> int \<times> nat \<times> nat"
  from_ymd :: "int \<Rightarrow> nat \<Rightarrow> nat \<Rightarrow> int option"
  weekday_from_sunday :: "int \<Rightarrow> nat"
  tz_parse :: "string \<Rightarrow> zone option"
  local_zone :: zone

definition utc_add :: "chrono \<Rightarrow> int \<Rightarrow> int \<Rightarrow> schedule_error + int" where
  "utc_add C t d = (if utc_ok C (t + d) then Ok (t + d) else Err Panic)"

definition naive_add :: "chrono \<Rightarrow> int \<Rightarrow> int \<Rightarrow> schedule_error + int" where
  "naive_add C w d = (if naive_ok C (w + d) then Ok (w + d) else Err Panic)"

definition duration_days :: "int \<Rightarrow> schedule_error + int" where
  "duration_days n = (if \<bar>n * day_ms\<bar> \<le> i64_max then Ok (n * day_ms) else Err Panic)"

definition wall_minute :: "int \<Rightarrow> nat" where "wall_minute w = nat (w div minute_ms mod 60)"
definition wall_hour :: "int \<Rightarrow> nat" where "wall_hour w = nat (w div hour_ms mod 24)"
definition wall_date :: "int \<Rightarrow> int" where "wall_date w = w div day_ms"

definition wall_day :: "chrono \<Rightarrow> int \<Rightarrow> nat" where
  "wall_day C w = snd (snd (civil C (wall_date w)))"

definition wall_month :: "chrono \<Rightarrow> int \<Rightarrow> nat" where
  "wall_month C w = fst (snd (civil C (wall_date w)))"

definition wall_weekday :: "chrono \<Rightarrow> int \<Rightarrow> nat" where
  "wall_weekday C w = weekday_from_sunday C (wall_date w)"

text \<open>\<open>and_hms_opt(hour, minute, 0)\<close>.\<close>

definition and_hms_opt :: "int \<Rightarrow> nat \<Rightarrow> nat \<Rightarrow> int option" where
  "and_hms_opt date h mi =
     (if h < 24 \<and> mi < 60 then Some (date * day_ms + int h * hour_ms + int mi * minute_ms) else None)"

subsection \<open>Intervals\<close>

datatype interval_unit = Minute | Hour | Day | Week | Month | Quarter | Year

record interval_schedule =
  amount :: int
  unit :: interval_unit

datatype calendar_interval = Days int | Months nat

definition trim_end_s :: "string \<Rightarrow> string" where
  "trim_end_s s = rev (dropWhile (\<lambda>c. c = CHR ''s'') (rev s))"

definition unit_of :: "string \<Rightarrow> interval_unit option" where
  "unit_of u =
     (if u = ''minute'' \<or> u = ''min'' then Some Minute
      else if u = ''hour'' \<or> u = ''hr'' then Some Hour
      else if u = ''day'' then Some Day
      else if u = ''week'' then Some Week
      else if u = ''month'' then Some Month
      else if u = ''quarter'' then Some Quarter
      else if u = ''year'' then Some Year
      else None)"

definition parse_interval_schedule :: "string \<Rightarrow> schedule_error + interval_schedule" where
  "parse_interval_schedule rest =
     and_then (case split_whitespace rest of
         [u] \<Rightarrow> Ok (1, u)
       | [a, u] \<Rightarrow> and_then (ok_or (parse_i64 a) IntervalAmount) (\<lambda>a. Ok (a, u))
       | _ \<Rightarrow> Err IntervalSyntax) (\<lambda>(a, raw_unit).
     and_then (ensure (\<not> a \<le> 0) IntervalNotPositive) (\<lambda>_.
     and_then (ok_or (unit_of (trim_end_s raw_unit)) IntervalUnitUnknown) (\<lambda>u.
     Ok \<lparr>amount = a, unit = u\<rparr>)))"

definition checked_interval_amount :: "int \<Rightarrow> int \<Rightarrow> schedule_error + int" where
  "checked_interval_amount a multiplier =
     (case checked_i64 (a * multiplier) of
        None \<Rightarrow> Err IntervalTooLarge
      | Some v \<Rightarrow> if v > 0 then Ok v else Err IntervalTooLarge)"

definition in_i32 :: "int \<Rightarrow> bool" where
  "in_i32 x = (-2147483648 \<le> x \<and> x \<le> 2147483647)"

definition add_months_clamped :: "chrono \<Rightarrow> int \<Rightarrow> int \<Rightarrow> schedule_error + int" where
  "add_months_clamped C local months =
     (let (y, mo, d) = civil C (wall_date local) in
      and_then (ok_or (checked_i64 (y * 12 + (int mo - 1) + months)) DateOutOfRange) (\<lambda>month_index.
      let year = month_index div 12; month = nat (month_index mod 12 + 1) in
      and_then (ensure (in_i32 year) DateOutOfRange) (\<lambda>_.
      and_then (if month = 12
          then and_then (ensure (in_i32 (year + 1)) DateOutOfRange) (\<lambda>_.
            ok_or (from_ymd C (year + 1) 1 1) DateOutOfRange)
          else ok_or (from_ymd C year (month + 1) 1) DateOutOfRange) (\<lambda>first_next_month.
      and_then (if naive_ok C ((first_next_month - 1) * day_ms)
          then Ok (snd (snd (civil C (first_next_month - 1)))) else Err Panic) (\<lambda>last_day.
      and_then (ok_or (from_ymd C year month (min d last_day)) DateOutOfRange) (\<lambda>date.
      Ok (date * day_ms + local mod day_ms)))))))"

definition shifted_calendar_local ::
  "chrono \<Rightarrow> int \<Rightarrow> int \<Rightarrow> calendar_interval \<Rightarrow> schedule_error + int" where
  "shifted_calendar_local C local a interval =
     (case interval of
        Days ds \<Rightarrow>
          and_then (checked_interval_amount a ds) (\<lambda>n.
          and_then (duration_days n) (\<lambda>d.
          if naive_ok C (local + d) then Ok (local + d) else Err DateOutOfRange))
      | Months ms \<Rightarrow>
          and_then (checked_interval_amount a (int ms)) (\<lambda>total. add_months_clamped C local total))"

text \<open>
  The loop over \<open>offset in 0..=120\<close>: the first later instant of the wall clock, of the wall clock
  one minute on, and so forth.
\<close>

definition first_later :: "int \<Rightarrow> local_result \<Rightarrow> int option" where
  "first_later after r =
     (case r of
        Single t \<Rightarrow> if t > after then Some t else None
      | Ambiguous a b \<Rightarrow> if a > after then Some a else if b > after then Some b else None
      | NoLocal \<Rightarrow> None)"

fun resolve_offsets ::
  "chrono \<Rightarrow> zone \<Rightarrow> int \<Rightarrow> int \<Rightarrow> int list \<Rightarrow> schedule_error + int" where
  "resolve_offsets C z local after [] = Err NoIntervalRun"
| "resolve_offsets C z local after (k # ks) =
     and_then (naive_add C local (k * minute_ms)) (\<lambda>candidate.
       case first_later after (from_local z candidate) of
         Some t \<Rightarrow> Ok t
       | None \<Rightarrow> resolve_offsets C z local after ks)"

definition resolve_timezone_local_after :: "chrono \<Rightarrow> zone \<Rightarrow> int \<Rightarrow> int \<Rightarrow> schedule_error + int" where
  "resolve_timezone_local_after C z local after = resolve_offsets C z local after (map int [0..<121])"

definition next_calendar_interval_run_after_in_timezone ::
  "chrono \<Rightarrow> int \<Rightarrow> zone \<Rightarrow> int \<Rightarrow> calendar_interval \<Rightarrow> schedule_error + int" where
  "next_calendar_interval_run_after_in_timezone C after z a interval =
     and_then (ensure (utc_ok C after) InvalidReference) (\<lambda>_.
     and_then (shifted_calendar_local C (wall z after) a interval) (\<lambda>shifted.
     resolve_timezone_local_after C z shifted after))"

definition local_datetime :: "chrono \<Rightarrow> int \<Rightarrow> schedule_error + int" where
  "local_datetime C t = (if utc_ok C t then Ok t else Err InvalidTimestamp)"


definition interval_run ::
  "(int \<Rightarrow> calendar_interval \<Rightarrow> schedule_error + int) \<Rightarrow> int \<Rightarrow> interval_schedule \<Rightarrow> schedule_error + int" where
  "interval_run calendar after s =
     (case unit s of
        Minute \<Rightarrow> Ok (saturating_add after (saturating_mul (amount s) minute_ms))
      | Hour \<Rightarrow> Ok (saturating_add after (saturating_mul (amount s) hour_ms))
      | Day \<Rightarrow> calendar (amount s) (Days 1)
      | Week \<Rightarrow> calendar (amount s) (Days 7)
      | Month \<Rightarrow> calendar (amount s) (Months 1)
      | Quarter \<Rightarrow> calendar (amount s) (Months 3)
      | Year \<Rightarrow> calendar (amount s) (Months 12))"


definition next_interval_run_after_in_timezone ::
  "chrono \<Rightarrow> string \<Rightarrow> zone \<Rightarrow> int \<Rightarrow> schedule_error + int" where
  "next_interval_run_after_in_timezone C rest z after =
     and_then (parse_interval_schedule rest)
       (interval_run (next_calendar_interval_run_after_in_timezone C after z) after)"

subsection \<open>Daily runs\<close>


text \<open>In a gap of the wall clock, the first of the next 120 minutes that exists.\<close>

fun gap_search :: "chrono \<Rightarrow> zone \<Rightarrow> int \<Rightarrow> int \<Rightarrow> int list \<Rightarrow> schedule_error + int option" where
  "gap_search C z local after [] = Ok None"
| "gap_search C z local after (k # ks) =
     and_then (naive_add C local (k * minute_ms)) (\<lambda>shifted.
       case from_local z shifted of
         Single t \<Rightarrow> if t > after then Ok (Some t) else gap_search C z local after ks
       | _ \<Rightarrow> gap_search C z local after ks)"

definition resolve_daily_timezone_candidate ::
  "chrono \<Rightarrow> zone \<Rightarrow> int \<Rightarrow> int \<Rightarrow> schedule_error + int option" where
  "resolve_daily_timezone_candidate C z local after =
     (case from_local z local of
        Single t \<Rightarrow> Ok (if t > after then Some t else None)
      | Ambiguous a b \<Rightarrow> Ok (if a > after then Some a else None)
      | NoLocal \<Rightarrow> gap_search C z local after (map int [1..<121]))"

fun daily_in_timezone ::
  "chrono \<Rightarrow> zone \<Rightarrow> int \<Rightarrow> int \<Rightarrow> nat \<Rightarrow> nat \<Rightarrow> int list \<Rightarrow> schedule_error + int" where
  "daily_in_timezone C z date after h mi [] = Err NoDailyRun"
| "daily_in_timezone C z date after h mi (k # ks) =
     and_then (if naive_ok C ((date + k) * day_ms) then Ok (date + k) else Err Panic) (\<lambda>dt.
     and_then (ok_or (and_hms_opt dt h mi) InvalidDailyTime) (\<lambda>naive.
     and_then (resolve_daily_timezone_candidate C z naive after) (\<lambda>found.
       case found of Some t \<Rightarrow> Ok t | None \<Rightarrow> daily_in_timezone C z date after h mi ks)))"

definition next_daily_run_after_in_timezone ::
  "chrono \<Rightarrow> zone \<Rightarrow> int \<Rightarrow> nat \<Rightarrow> nat \<Rightarrow> schedule_error + int" where
  "next_daily_run_after_in_timezone C z after h mi =
     daily_in_timezone C z (wall_date (wall z after)) after h mi (map int [0..<3])"




subsection \<open>Cron fields\<close>

text \<open>The matcher of the routines, with \<open>*\<close>, \<open>*/n\<close> and lists of numbers.\<close>

fun routine_items :: "nat \<Rightarrow> nat \<Rightarrow> nat \<Rightarrow> bool \<Rightarrow> string list \<Rightarrow> schedule_error + bool" where
  "routine_items v lo hi matched [] = Ok matched"
| "routine_items v lo hi matched (item # items) =
     and_then (ok_or (parse_u32 item) InvalidCronField) (\<lambda>parsed.
     and_then (ensure (\<not> (parsed < lo \<or> parsed > hi)) CronOutOfRange) (\<lambda>_.
     routine_items v lo hi (matched \<or> parsed = v) items))"

definition routine_cron_field :: "string \<Rightarrow> nat \<Rightarrow> nat \<Rightarrow> nat \<Rightarrow> schedule_error + bool" where
  "routine_cron_field raw v lo hi =
     (if raw = ''*'' then Ok True
      else case strip_prefix ''*/'' raw of
        Some st \<Rightarrow>
          and_then (ok_or (parse_u32 st) InvalidCronStep) (\<lambda>step.
          Ok (step > 0 \<and> (v - lo) mod step = 0))
      | None \<Rightarrow> routine_items v lo hi False (split_char (CHR '','') raw))"

text \<open>\<open>a? && b?\<close>: the second field is read only when the first one matches.\<close>

definition and_also :: "schedule_error + bool \<Rightarrow> schedule_error + bool \<Rightarrow> schedule_error + bool" where
  "and_also a b = and_then a (\<lambda>x. if x then b else Ok False)"

definition routine_cron_matches ::
  "string list \<Rightarrow> nat \<Rightarrow> nat \<Rightarrow> nat \<Rightarrow> nat \<Rightarrow> nat \<Rightarrow> schedule_error + bool" where
  "routine_cron_matches fs mi h d mo wd =
     and_also (routine_cron_field (fs ! 0) mi 0 59)
    (and_also (routine_cron_field (fs ! 1) h 0 23)
    (and_also (routine_cron_field (fs ! 2) d 1 31)
    (and_also (routine_cron_field (fs ! 3) mo 1 12)
              (routine_cron_field (fs ! 4) wd 0 6))))"

text \<open>The matcher of the local schedules, with ranges and steps.\<close>

definition parse_cron_number :: "string \<Rightarrow> nat \<Rightarrow> nat \<Rightarrow> bool \<Rightarrow> schedule_error + nat" where
  "parse_cron_number raw lo hi sunday_alias =
     and_then (ok_or (parse_u32 raw) InvalidCronField) (\<lambda>v0.
     let v = (if sunday_alias \<and> v0 = 7 then 0 else v0) in
     and_then (ensure (\<not> (v < lo \<or> v > hi \<or> (\<not> sunday_alias \<and> v = 7 \<and> hi = 7))) CronOutOfRange)
       (\<lambda>_. Ok v))"

definition step_ok :: "nat option \<Rightarrow> nat \<Rightarrow> nat \<Rightarrow> bool" where
  "step_ok step v start = (case step of None \<Rightarrow> True | Some k \<Rightarrow> (v - start) mod k = 0)"

definition cron_term_matches ::
  "string \<Rightarrow> nat \<Rightarrow> nat \<Rightarrow> nat \<Rightarrow> bool \<Rightarrow> schedule_error + bool" where
  "cron_term_matches term v lo hi sunday_alias =
     and_then (ensure (term \<noteq> []) EmptyCronTerm) (\<lambda>_.
     and_then (case split_once (CHR ''/'') term of
         Some (base, st) \<Rightarrow>
           and_then (ok_or (parse_u32 st) InvalidCronStep) (\<lambda>step.
           and_then (ensure (step \<noteq> 0) InvalidCronStep) (\<lambda>_. Ok (base, Some step)))
       | None \<Rightarrow> Ok (term, None)) (\<lambda>(base, step).
     if base = ''*'' then Ok (step_ok step v lo)
     else case split_once (CHR ''-'') base of
       Some (s, e) \<Rightarrow>
         and_then (parse_cron_number s lo hi sunday_alias) (\<lambda>start.
         and_then (parse_cron_number e lo hi sunday_alias) (\<lambda>fin.
         and_then (ensure (\<not> start > fin) CronDescending) (\<lambda>_.
         Ok (v \<ge> start \<and> v \<le> fin \<and> step_ok step v start))))
     | None \<Rightarrow>
         and_then (parse_cron_number base lo hi sunday_alias) (\<lambda>start.
         Ok (case step of Some k \<Rightarrow> v \<ge> start \<and> (v - start) mod k = 0 | None \<Rightarrow> v = start))))"

fun cron_terms :: "nat \<Rightarrow> nat \<Rightarrow> nat \<Rightarrow> bool \<Rightarrow> string list \<Rightarrow> schedule_error + bool" where
  "cron_terms v lo hi sunday_alias [] = Ok False"
| "cron_terms v lo hi sunday_alias (t # ts) =
     and_then (cron_term_matches (trim t) v lo hi sunday_alias) (\<lambda>b.
     if b then Ok True else cron_terms v lo hi sunday_alias ts)"

definition cron_field_matches ::
  "string \<Rightarrow> nat \<Rightarrow> nat \<Rightarrow> nat \<Rightarrow> bool \<Rightarrow> schedule_error + bool" where
  "cron_field_matches field v lo hi sunday_alias =
     cron_terms v lo hi sunday_alias (split_char (CHR '','') field)"

definition cron_matches :: "chrono \<Rightarrow> string list \<Rightarrow> int \<Rightarrow> schedule_error + bool" where
  "cron_matches C fs w =
     and_also (cron_field_matches (fs ! 0) (wall_minute w) 0 59 False)
    (and_also (cron_field_matches (fs ! 1) (wall_hour w) 0 23 False)
    (and_also (cron_field_matches (fs ! 2) (wall_day C w) 1 31 False)
    (and_also (cron_field_matches (fs ! 3) (wall_month C w) 1 12 False)
              (cron_field_matches (fs ! 4) (wall_weekday C w) 0 7 True))))"

subsection \<open>Cron runs\<close>

definition cron_horizon :: nat where
  "cron_horizon = 366 * 24 * 60"

text \<open>
  The minute by minute search of both variants: \<open>n\<close> candidates from \<open>t\<close> on, the last of them
  followed by one more addition, as in the loop.
\<close>

fun minute_search ::
  "chrono \<Rightarrow> (int \<Rightarrow> schedule_error + bool) \<Rightarrow> nat \<Rightarrow> int \<Rightarrow> schedule_error + int" where
  "minute_search C matches 0 t = Err NoCronRun"
| "minute_search C matches (Suc n) t =
     and_then (matches t) (\<lambda>b.
     if b then Ok t
     else and_then (utc_add C t minute_ms) (\<lambda>t'. minute_search C matches n t'))"

definition is_first_timezone_occurrence :: "zone \<Rightarrow> int \<Rightarrow> bool" where
  "is_first_timezone_occurrence z t =
     (case from_local z (wall z t) of Ambiguous a b \<Rightarrow> a = t | _ \<Rightarrow> True)"

definition routine_candidate :: "chrono \<Rightarrow> string list \<Rightarrow> zone \<Rightarrow> int \<Rightarrow> schedule_error + bool" where
  "routine_candidate C fs z t =
     and_also
       (let w = wall z t in
        routine_cron_matches fs (wall_minute w) (wall_hour w) (wall_day C w) (wall_month C w)
          (wall_weekday C w))
       (Ok (is_first_timezone_occurrence z t))"

text \<open>On UTC, setting seconds and nanoseconds to zero always succeeds.\<close>

definition next_cron_run_after_in_timezone ::
  "chrono \<Rightarrow> string list \<Rightarrow> zone \<Rightarrow> int \<Rightarrow> schedule_error + int" where
  "next_cron_run_after_in_timezone C fs z after =
     and_then (utc_add C after minute_ms) (\<lambda>t.
     minute_search C (routine_candidate C fs z) cron_horizon (t - t mod minute_ms))"

text \<open>
  On a local time, \<open>with_second\<close> and \<open>with_nanosecond\<close> go through the wall clock and fail where
  it is not unique.
\<close>

definition with_wall :: "zone \<Rightarrow> (int \<Rightarrow> int) \<Rightarrow> int \<Rightarrow> int option" where
  "with_wall z f t = (case from_local z (f (wall z t)) of Single t' \<Rightarrow> Some t' | _ \<Rightarrow> None)"

definition align_minute :: "zone \<Rightarrow> int \<Rightarrow> int option" where
  "align_minute z t =
     Option.bind (with_wall z (\<lambda>w. w - w mod minute_ms + w mod 1000) t)
       (with_wall z (\<lambda>w. w - w mod 1000))"

definition next_cron_run_after :: "chrono \<Rightarrow> string list \<Rightarrow> int \<Rightarrow> schedule_error + int" where
  "next_cron_run_after C fs after =
     and_then (local_datetime C after) (\<lambda>t0.
     and_then (utc_add C t0 minute_ms) (\<lambda>t.
     and_then (ok_or (align_minute (local_zone C) t) CannotAlign) (\<lambda>candidate.
     minute_search C (\<lambda>t. cron_matches C fs (wall (local_zone C) t)) cron_horizon candidate)))"

subsection \<open>Expressions\<close>






subsection \<open>Runs lie in the future\<close>

text \<open>
  The searches over wall clock candidates share one contract: what they return is an instant that
  was tested to be later than the reference. \<open>later\<close> states it for a result.
\<close>

definition later :: "int \<Rightarrow> schedule_error + int \<Rightarrow> bool" where
  "later after r = (case r of Inl _ \<Rightarrow> True | Inr t \<Rightarrow> after < t)"

lemma later_simps [simp]: "later after (Inl e)" "later after (Inr t) \<longleftrightarrow> after < t"
  by (simp_all add: later_def)

lemma later_and_then [simp]: "later after (and_then r f) \<longleftrightarrow> (\<forall>x. r = Ok x \<longrightarrow> later after (f x))"
  by (cases r) auto



lemma gap_search_later: "gap_search C z local after ks = Ok (Some t) \<Longrightarrow> after < t"
proof (induction ks)
  case (Cons k ks)
  then obtain shifted where "naive_add C local (k * minute_ms) = Ok shifted"
    by (auto simp: and_then_eq_Ok)
  with Cons show ?case by (cases "from_local z shifted") (auto split: if_splits)
qed simp

lemma daily_candidate_later:
  "resolve_daily_timezone_candidate C z local after = Ok (Some t) \<Longrightarrow> after < t"
  by (auto simp: resolve_daily_timezone_candidate_def gap_search_later
      split: local_result.splits if_splits)

lemma later_daily_in_timezone: "later after (daily_in_timezone C z date after h mi ks)"
  by (induction ks) (auto simp: daily_candidate_later split: option.splits)








lemma minute_search_Ok:
  "minute_search C m n t = Ok r \<longleftrightarrow>
     (\<exists>k < n. r = t + int k * minute_ms \<and> m r = Ok True \<and>
        (\<forall>j < k. m (t + int j * minute_ms) = Ok False \<and> utc_ok C (t + int (Suc j) * minute_ms)))"
proof (induction n arbitrary: t)
  case (Suc n)
  define c where "c j = t + int j * minute_ms" for j
  have c: "c 0 = t" "c (Suc 0) = t + minute_ms" by (simp_all add: c_def)
  have IH: "minute_search C m n (c (Suc 0)) = Ok r \<longleftrightarrow>
      (\<exists>k < n. r = c (Suc k) \<and> m r = Ok True \<and> (\<forall>j < k. m (c (Suc j)) = Ok False \<and> utc_ok C (c (Suc (Suc j)))))"
    using Suc.IH [of "c (Suc 0)"] by (simp add: c_def algebra_simps)
  have ex: "(\<exists>k < Suc n. P k) \<longleftrightarrow> P 0 \<or> (\<exists>k < n. P (Suc k))" for P
    by (metis less_Suc_eq_0_disj Suc_less_eq zero_less_Suc)
  have all: "(\<forall>j < Suc k. P j) \<longleftrightarrow> P 0 \<and> (\<forall>j < k. P (Suc j))" for P and k :: nat
    by (metis less_Suc_eq_0_disj Suc_less_eq zero_less_Suc)
  have "minute_search C m (Suc n) t = Ok r \<longleftrightarrow>
      m (c 0) = Ok True \<and> r = c 0 \<or>
      m (c 0) = Ok False \<and> utc_ok C (c (Suc 0)) \<and> minute_search C m n (c (Suc 0)) = Ok r"
    by (cases "m t") (auto simp: utc_add_def c)
  then show ?case
    unfolding c_def [symmetric] ex all IH by blast
qed simp





subsection \<open>What a cron field denotes\<close>

datatype cron_term =
  AnyValue "nat option" | FromTo nat nat "nat option" | FromStep nat nat | Exactly nat

definition parse_cron_term :: "string \<Rightarrow> nat \<Rightarrow> nat \<Rightarrow> bool \<Rightarrow> schedule_error + cron_term" where
  "parse_cron_term term lo hi sunday_alias =
     and_then (ensure (term \<noteq> []) EmptyCronTerm) (\<lambda>_.
     and_then (case split_once (CHR ''/'') term of
         Some (base, st) \<Rightarrow>
           and_then (ok_or (parse_u32 st) InvalidCronStep) (\<lambda>step.
           and_then (ensure (step \<noteq> 0) InvalidCronStep) (\<lambda>_. Ok (base, Some step)))
       | None \<Rightarrow> Ok (term, None)) (\<lambda>(base, step).
     if base = ''*'' then Ok (AnyValue step)
     else case split_once (CHR ''-'') base of
       Some (s, e) \<Rightarrow>
         and_then (parse_cron_number s lo hi sunday_alias) (\<lambda>start.
         and_then (parse_cron_number e lo hi sunday_alias) (\<lambda>fin.
         and_then (ensure (start \<le> fin) CronDescending) (\<lambda>_. Ok (FromTo start fin step))))
     | None \<Rightarrow>
         and_then (parse_cron_number base lo hi sunday_alias) (\<lambda>start.
         Ok (case step of Some k \<Rightarrow> FromStep start k | None \<Rightarrow> Exactly start))))"

text \<open>The values of a term, as arithmetic progressions within the range of the field.\<close>

fun cron_values :: "nat \<Rightarrow> cron_term \<Rightarrow> nat set" where
  "cron_values lo (AnyValue None) = {v. lo \<le> v}"
| "cron_values lo (AnyValue (Some k)) = {v. \<exists>i. v = lo + i * k}"
| "cron_values lo (FromTo s e None) = {s..e}"
| "cron_values lo (FromTo s e (Some k)) = {v. v \<le> e \<and> (\<exists>i. v = s + i * k)}"
| "cron_values lo (FromStep s k) = {v. \<exists>i. v = s + i * k}"
| "cron_values lo (Exactly s) = {s}"

lemma progression: "s \<le> v \<and> k dvd v - s \<longleftrightarrow> (\<exists>i. v = s + i * k)" for v s k :: nat
proof
  assume "s \<le> v \<and> k dvd v - s"
  then obtain i where "s \<le> v" "v - s = k * i" by (auto elim: dvdE)
  then have "v = s + i * k" by (simp add: mult.commute)
  then show "\<exists>i. v = s + i * k" by blast
qed auto

lemma term_denotes:
  assumes "lo \<le> v"
  shows "cron_term_matches term v lo hi al =
    and_then (parse_cron_term term lo hi al) (\<lambda>t. Ok (v \<in> cron_values lo t))"
proof -
  have any: "step_ok step v lo \<longleftrightarrow> v \<in> cron_values lo (AnyValue step)" for step
    using assms progression [of lo v] by (auto simp: step_ok_def split: option.splits)
  have range: "s \<le> v \<and> v \<le> e \<and> step_ok step v s \<longleftrightarrow> v \<in> cron_values lo (FromTo s e step)" for s e step
    by (cases step) (auto simp: step_ok_def progression [symmetric])
  have one: "(case step of Some k \<Rightarrow> s \<le> v \<and> (v - s) mod k = 0 | None \<Rightarrow> v = s) \<longleftrightarrow>
      v \<in> cron_values lo (case step of Some k \<Rightarrow> FromStep s k | None \<Rightarrow> Exactly s)" for s step
    using progression [of s v] by (auto split: option.splits)
  have assoc: "and_then (and_then r f) g = and_then r (\<lambda>x. and_then (f x) g)"
    for r :: "schedule_error + 'b" and f :: "'b \<Rightarrow> schedule_error + 'c" and g :: "'c \<Rightarrow> schedule_error + 'd"
    by (cases r) auto
  show ?thesis
    unfolding cron_term_matches_def parse_cron_term_def assoc
    by (intro arg_cong2 [where f = and_then] refl ext)
      (auto simp: assoc any range one not_less split: prod.splits option.splits)
qed

subsection \<open>The two matchers agree\<close>

lemma parse_u32_chars:
  assumes "parse_u32 x = Some n"
  shows "x \<noteq> []" "\<forall>c \<in> set x. is_ascii_digit c \<or> c = CHR ''+''"
  using assms
  by (auto simp: parse_u32_def parse_unsigned_def all_digits_def Let_def list_all_iff
      split: list.splits if_splits)

lemma number_char: "is_ascii_digit c \<or> c = CHR ''+'' \<Longrightarrow>
    solid c \<and> c \<noteq> CHR ''/'' \<and> c \<noteq> CHR ''-'' \<and> c \<noteq> CHR '','' \<and> c \<noteq> CHR ''*''"
  by (auto simp: is_ascii_digit_def solid_def ascii_ws_def Let_def)

lemma split_once_none: "d \<notin> set x \<Longrightarrow> split_once d x = None"
  by (induction x) auto

lemma number_term:
  assumes "parse_u32 x = Some n"
  shows "trim x = x" "CHR ''/'' \<notin> set x" "CHR ''-'' \<notin> set x" "CHR '','' \<notin> set x" "x \<noteq> ''*''"
    and "solid (last x)"
proof -
  have ok: "\<forall>c \<in> set x. solid c \<and> c \<noteq> CHR ''/'' \<and> c \<noteq> CHR ''-'' \<and> c \<noteq> CHR '','' \<and> c \<noteq> CHR ''*''"
    using parse_u32_chars(2) [OF assms] number_char by blast
  then show "CHR ''/'' \<notin> set x" "CHR ''-'' \<notin> set x" "CHR '','' \<notin> set x" by blast+
  show "x \<noteq> ''*''" using ok by force
  show "solid (last x)" using ok parse_u32_chars(1) [OF assms] last_in_set by blast
  show "trim x = x"
    using ok parse_u32_chars(1) [OF assms] last_in_set hd_in_set by (intro trim_id) blast+
qed

lemma cron_term_number:
  assumes "parse_u32 x = Some n" "lo \<le> n" "n \<le> hi" "hi \<noteq> 7"
  shows "cron_term_matches (trim x) v lo hi False = Ok (v = n)"
  using assms parse_u32_chars(1) [OF assms(1)] number_term [OF assms(1)]
  by (simp add: cron_term_matches_def split_once_none parse_cron_number_def ensure_def ok_or_def)

lemma routine_items_Ok:
  "routine_items v lo hi m items = Ok b \<longleftrightarrow>
     (\<forall>x \<in> set items. \<exists>n. parse_u32 x = Some n \<and> lo \<le> n \<and> n \<le> hi) \<and>
     b = (m \<or> (\<exists>x \<in> set items. parse_u32 x = Some v))"
  by (induction items arbitrary: m) (auto simp: result_simps not_less)

lemma cron_terms_numbers:
  assumes "\<forall>x \<in> set items. \<exists>n. parse_u32 x = Some n \<and> lo \<le> n \<and> n \<le> hi" "hi \<noteq> 7"
  shows "cron_terms v lo hi False items = Ok (\<exists>x \<in> set items. parse_u32 x = Some v)"
  using assms(1)
proof (induction items)
  case (Cons x items)
  then obtain n where "parse_u32 x = Some n" "lo \<le> n" "n \<le> hi" by auto
  with Cons assms(2) show ?case by (auto simp: cron_term_number)
qed simp

lemma star_step_term:
  assumes "parse_u32 st = Some k" "0 < k"
  shows "cron_field_matches (''*/'' @ st) v lo hi al = Ok ((v - lo) mod k = 0)"
proof -
  note st = number_term [OF assms(1)] parse_u32_chars(1) [OF assms(1)]
  have "CHR '','' \<notin> set (''*/'' @ st)" using st(4) by simp
  moreover have "trim (''*/'' @ st) = ''*/'' @ st"
    using st by (intro trim_id) (simp_all add: solid_def ascii_ws_def)
  moreover have "split_once (CHR ''/'') (''*/'' @ st) = Some (''*'', st)" by simp
  ultimately show ?thesis
    using assms
    by (simp add: cron_field_matches_def split_char_none cron_term_matches_def ensure_def ok_or_def
        step_ok_def)
qed

lemma routine_agrees:
  assumes "routine_cron_field raw v lo hi = Ok b" "hi \<noteq> 7" "\<forall>k. strip_prefix ''*/'' raw = Some k \<longrightarrow> parse_u32 k \<noteq> Some 0"
  shows "cron_field_matches raw v lo hi False = Ok b"
proof (cases "raw = ''*''")
  case True
  then have "b = True" using assms(1) by (simp add: routine_cron_field_def)
  then show ?thesis
    by (simp add: True cron_field_matches_def cron_term_matches_def trim_id solid_def ascii_ws_def
        ensure_def step_ok_def)
next
  case False
  show ?thesis
  proof (cases "strip_prefix ''*/'' raw")
    case (Some st)
    with assms(1) False obtain k where k: "parse_u32 st = Some k" and b: "b = (k > 0 \<and> (v - lo) mod k = 0)"
      by (auto simp: routine_cron_field_def result_simps)
    have "0 < k" using assms(3) Some k by (cases k) auto
    with k b Some show ?thesis
      using star_step_term [OF k, of v lo hi False] by (simp add: strip_prefix_Some)
  next
    case None
    with assms(1) False have "routine_items v lo hi False (split_char (CHR '','') raw) = Ok b"
      by (simp add: routine_cron_field_def)
    then show ?thesis
      using assms(2) by (simp add: routine_items_Ok cron_field_matches_def cron_terms_numbers)
  qed
qed

subsection \<open>Daily and monthly runs\<close>

text \<open>
  What the code relies on of chrono: an instant found for a wall clock shows that wall clock, and
  a day made from year, month and day has that year, month and day.
\<close>

definition zone_faithful :: "zone \<Rightarrow> bool" where
  "zone_faithful z \<longleftrightarrow> (\<forall>w t. from_local z w = Single t \<longrightarrow> wall z t = w) \<and>
     (\<forall>w a b. from_local z w = Ambiguous a b \<longrightarrow> wall z a = w \<and> wall z b = w)"

definition calendar_faithful :: "chrono \<Rightarrow> bool" where
  "calendar_faithful C \<longleftrightarrow> (\<forall>y m d n. from_ymd C y m d = Some n \<longrightarrow> civil C n = (y, m, d))"

definition daily_wall :: "zone \<Rightarrow> int \<Rightarrow> int \<Rightarrow> bool" where
  "daily_wall z w t \<longleftrightarrow> wall z t = w \<or>
     (from_local z w = NoLocal \<and> (\<exists>j. 1 \<le> j \<and> j \<le> 120 \<and> wall z t = w + j * minute_ms))"

lemma gap_search_wall:
  assumes "zone_faithful z" "gap_search C z local after ks = Ok (Some t)"
  shows "\<exists>j \<in> set ks. wall z t = local + j * minute_ms"
  using assms(2)
proof (induction ks)
  case (Cons k ks)
  then obtain shifted where sh: "naive_add C local (k * minute_ms) = Ok shifted"
    by (auto simp: and_then_eq_Ok)
  then have "shifted = local + k * minute_ms" by (simp add: naive_add_def split: if_splits)
  with Cons sh assms(1) show ?case
    by (cases "from_local z shifted") (auto simp: zone_faithful_def split: if_splits)
qed simp

lemma daily_candidate_wall:
  assumes "zone_faithful z" "resolve_daily_timezone_candidate C z local after = Ok (Some t)"
  shows "daily_wall z local t"
proof (cases "from_local z local")
  case NoLocal
  then have "gap_search C z local after (map int [1..<121]) = Ok (Some t)"
    using assms(2) by (simp add: resolve_daily_timezone_candidate_def)
  then obtain j where "j \<in> set (map int [1..<121])" "wall z t = local + j * minute_ms"
    using gap_search_wall [OF assms(1)] by blast
  then show ?thesis using NoLocal by (auto simp: daily_wall_def intro!: exI [of _ j])
qed (use assms in \<open>auto simp: resolve_daily_timezone_candidate_def daily_wall_def zone_faithful_def
    split: if_splits\<close>)

lemma daily_in_timezone_wall:
  assumes "zone_faithful z" "daily_in_timezone C z date after h mi ks = Ok t"
  shows "\<exists>k \<in> set ks. daily_wall z ((date + k) * day_ms + int h * hour_ms + int mi * minute_ms) t"
  using assms(2)
proof (induction ks)
  case (Cons k ks)
  then obtain w found where w: "and_hms_opt (date + k) h mi = Some w"
    and found: "resolve_daily_timezone_candidate C z w after = Ok found"
      "(case found of Some t \<Rightarrow> Ok t | None \<Rightarrow> daily_in_timezone C z date after h mi ks) = Ok t"
    by (auto simp: and_then_eq_Ok ok_or_eq_Ok split: if_splits)
  have wd: "w = (date + k) * day_ms + int h * hour_ms + int mi * minute_ms"
    using w by (simp add: and_hms_opt_def split: if_splits)
  show ?case
  proof (cases found)
    case None
    then show ?thesis using found(2) Cons.IH by auto
  next
    case (Some t')
    then have "daily_wall z w t" using found daily_candidate_wall [OF assms(1)] by simp
    then show ?thesis by (auto simp: wd)
  qed
qed simp

lemma add_months_Ok:
  assumes "calendar_faithful C" "add_months_clamped C local months = Ok w"
    and "civil C (wall_date local) = (y, mo, d)"
  shows "\<exists>y' mo' d'. civil C (wall_date w) = (y', mo', d') \<and> d' \<le> d \<and> 1 \<le> mo' \<and> mo' \<le> 12 \<and>
    y' * 12 + int mo' = y * 12 + int mo + months \<and> w mod day_ms = local mod day_ms"
proof -
  let ?i = "y * 12 + (int mo - 1) + months"
  from assms(2,3) obtain last_day date where
    date: "from_ymd C (?i div 12) (nat (?i mod 12 + 1)) (min d last_day) = Some date"
    and w: "w = date * day_ms + local mod day_ms"
    by (auto simp: add_months_clamped_def Let_def and_then_eq_Ok ok_or_eq_Ok checked_i64_Some)
  have "civil C date = (?i div 12, nat (?i mod 12 + 1), min d last_day)"
    using assms(1) date unfolding calendar_faithful_def by blast
  moreover have "wall_date w = date"
    using pos_mod_bound [of day_ms local] pos_mod_sign [of day_ms local]
    by (simp add: w wall_date_def day_ms_def)
  moreover have "w mod day_ms = local mod day_ms" by (simp add: w)
  moreover have "?i div 12 * 12 + int (nat (?i mod 12 + 1)) = ?i + 1"
    by simp
  moreover have "1 \<le> nat (?i mod 12 + 1)" "nat (?i mod 12 + 1) \<le> 12"
    using pos_mod_bound [of 12 ?i] pos_mod_sign [of 12 ?i] by linarith+
  ultimately show ?thesis by auto
qed

subsection \<open>Properties\<close>

text \<open>A zone one hour ahead and a calendar of thirty-day months, for the examples.\<close>

definition demo_zone :: zone where
  "demo_zone = \<lparr>wall = (\<lambda>t. t + 3600000), from_local = (\<lambda>w. Single (w - 3600000))\<rparr>"

definition fold_zone :: zone where
  "fold_zone = \<lparr>wall = (\<lambda>t. if t < 3600000 then t else t - 3600000),
     from_local = (\<lambda>w. if 0 \<le> w \<and> w < 3600000 then Ambiguous w (w + 3600000)
       else if w < 0 then Single w else Single (w + 3600000))\<rparr>"

definition demo_chrono :: chrono where
  "demo_chrono = \<lparr>utc_ok = (\<lambda>_. True), naive_ok = (\<lambda>_. True),
     civil = (\<lambda>n. (n div 360, nat (n mod 360 div 30 + 1), nat (n mod 30 + 1))),
     from_ymd = (\<lambda>y m d. if 1 \<le> m \<and> m \<le> 12 \<and> 1 \<le> d \<and> d \<le> 30
       then Some (y * 360 + (int m - 1) * 30 + (int d - 1)) else None),
     weekday_from_sunday = (\<lambda>n. nat ((n + 4) mod 7)),
     tz_parse = (\<lambda>s. if s = ''Europe/Paris'' then Some demo_zone else None),
     local_zone = fold_zone\<rparr>"

lemma demo_zone_faithful: "zone_faithful demo_zone"
  by (simp add: zone_faithful_def demo_zone_def)

lemma thirty_day_fields:
  assumes "0 \<le> m" "m < 12" "0 \<le> d" "d < (30 :: int)"
  shows "(y * 360 + m * 30 + d) div 360 = y" "(y * 360 + m * 30 + d) mod 360 div 30 = m"
    "(y * 360 + m * 30 + d) mod 30 = d"
proof -
  have e: "y * 360 + m * 30 + d = (m * 30 + d) + y * 360" "y * 360 + m * 30 + d = d + (y * 12 + m) * 30"
    by simp_all
  have r: "0 \<le> m * 30 + d" "m * 30 + d < 360" using assms by simp_all
  show "(y * 360 + m * 30 + d) div 360 = y" unfolding e(1) using r by simp
  have "(y * 360 + m * 30 + d) mod 360 = m * 30 + d" unfolding e(1) using r by simp
  then show "(y * 360 + m * 30 + d) mod 360 div 30 = m" using assms by simp
  show "(y * 360 + m * 30 + d) mod 30 = d"
    unfolding e(2) mod_mult_self1 using assms by simp
qed

lemma demo_calendar_faithful: "calendar_faithful demo_chrono"
proof -
  have "civil demo_chrono n = (y, m, d)" if n: "from_ymd demo_chrono y m d = Some n" for y m d n
  proof -
    have r: "0 \<le> int m - 1" "int m - 1 < 12" "0 \<le> int d - 1" "int d - 1 < 30"
      and n: "n = y * 360 + (int m - 1) * 30 + (int d - 1)"
      using n by (simp_all add: demo_chrono_def split: if_splits)
    show ?thesis
      unfolding n using thirty_day_fields [OF r] by (simp only: demo_chrono_def chrono.simps) simp
  qed
  then show ?thesis by (simp add: calendar_faithful_def)
qed



text \<open>
  A cron routine runs at the first whole minute after the reference instant at which all five
  fields match the wall clock and the wall clock is not the second pass of a repeated hour,
  looking 366 days ahead; none of the minutes before matches.
\<close>

theorem cron_first_match:
  "next_cron_run_after_in_timezone C fs z after = Ok t \<longleftrightarrow>
     utc_ok C (after + 60000) \<and>
     (\<exists>k < 527040. t = (after div 60000 + 1) * 60000 + int k * 60000 \<and> routine_candidate C fs z t = Ok True \<and>
        (\<forall>j < k. routine_candidate C fs z ((after div 60000 + 1) * 60000 + int j * 60000) = Ok False \<and>
           utc_ok C ((after div 60000 + 1) * 60000 + int (Suc j) * 60000)))"
proof -
  let ?s = "(after div 60000 + 1) * 60000"
  have "after + minute_ms - (after + minute_ms) mod minute_ms = ?s"
    by (simp add: minus_mod_eq_mult_div algebra_simps minute_ms_def)
  then have "next_cron_run_after_in_timezone C fs z after = Ok t \<longleftrightarrow>
      utc_ok C (after + 60000) \<and> minute_search C (routine_candidate C fs z) 527040 ?s = Ok t"
    unfolding next_cron_run_after_in_timezone_def cron_horizon_def utc_add_def
    by (cases "utc_ok C (after + minute_ms)") (simp_all add: minute_ms_def [symmetric] del: mod_add_self2)
  then show ?thesis by (simp only: minute_search_Ok minute_ms_def)
qed

theorem cron_first_match_witness:
  "next_cron_run_after_in_timezone demo_chrono [''*/2'', ''*'', ''*'', ''*'', ''*''] demo_zone 5 = Ok 120000"
proof -
  let ?c = "routine_candidate demo_chrono [''*/2'', ''*'', ''*'', ''*'', ''*''] demo_zone"
  have "?c 60000 = Ok False" "?c 120000 = Ok True"
    by (simp_all add: routine_candidate_def demo_zone_def demo_chrono_def wall_minute_def wall_hour_def
        minute_ms_def routine_cron_matches_def routine_cron_field_def parse_u32_def parse_unsigned_def
        all_digits_def is_ascii_digit_def digit_val_def u32_max_def and_also_def ok_or_def
        is_first_timezone_occurrence_def numeral_2_eq_2)
  then show ?thesis
    unfolding cron_first_match by (intro conjI exI [of _ 1]) (simp_all add: demo_chrono_def)
qed

text \<open>
  A cron term denotes a set of values: it is read without regard to the value it is tested
  on, and what it then accepts is the single value, range or arithmetic progression it names.
\<close>

theorem cron_term_denotes:
  assumes "lo \<le> v"
  shows "cron_term_matches term v lo hi sunday_alias =
    and_then (parse_cron_term term lo hi sunday_alias) (\<lambda>t. Ok (v \<in> cron_values lo t))"
  by (rule term_denotes [OF assms])

lemma parse_range_example: "parse_cron_term ''10-40/15'' 0 59 False = Ok (FromTo 10 40 (Some 15))"
  by (simp add: parse_cron_term_def parse_cron_number_def parse_u32_def parse_unsigned_def all_digits_def
      is_ascii_digit_def digit_val_def u32_max_def ok_or_def ensure_def Let_def)

theorem cron_term_denotes_witness:
  "cron_term_matches ''10-40/15'' 40 0 59 False = Ok True \<and> cron_term_matches ''10-40/15'' 30 0 59 False = Ok False"
proof -
  have a: "40 \<in> cron_values 0 (FromTo 10 40 (Some 15))" by (auto intro: exI [of _ 2])
  have b: "30 \<notin> cron_values 0 (FromTo 10 40 (Some 15))" by simp presburger
  show ?thesis
    using cron_term_denotes [of 0 40 "''10-40/15''" 59 False] cron_term_denotes [of 0 30 "''10-40/15''" 59 False]
      a b by (simp only: parse_range_example and_then.simps)
qed

text \<open>
  The two cron matchers of the file agree: whenever the routine matcher decides a field with a
  positive step, the general matcher of the local schedules gives the same answer.
\<close>

theorem cron_matchers_agree:
  assumes "routine_cron_field raw v lo hi = Ok b" "hi \<noteq> 7"
    and "\<forall>k. strip_prefix ''*/'' raw = Some k \<longrightarrow> parse_u32 k \<noteq> Some 0"
  shows "cron_field_matches raw v lo hi False = Ok b"
  by (rule routine_agrees [OF assms])

theorem cron_matchers_agree_witness: "cron_field_matches ''5,20,59'' 20 0 59 False = Ok True"
  by (rule cron_matchers_agree)
    (simp_all add: routine_cron_field_def parse_u32_def parse_unsigned_def all_digits_def
      is_ascii_digit_def digit_val_def u32_max_def ok_or_def ensure_def)

text \<open>
  A daily routine runs later than the reference, today or within two days, when the wall clock
  shows the asked hour and minute; where that time does not exist on the day, at one of the next
  120 minutes.
\<close>

theorem daily_run_time:
  assumes "zone_faithful z" "next_daily_run_after_in_timezone C z after h mi = Ok t"
  shows "after < t \<and> (\<exists>k \<in> {0, 1, 2}. daily_wall z
    ((wall z after div 86400000 + k) * 86400000 + int h * 3600000 + int mi * 60000) t)"
proof -
  have "after < t"
    using later_daily_in_timezone [of after C z "wall_date (wall z after)" h mi "map int [0..<3]"] assms(2)
    by (simp add: next_daily_run_after_in_timezone_def)
  moreover have "set (map int [0..<3]) = {0, 1, 2}" by (auto simp: upt_rec)
  ultimately show ?thesis
    using daily_in_timezone_wall [OF assms(1) assms(2) [unfolded next_daily_run_after_in_timezone_def]]
    by (simp only: wall_date_def day_ms_def hour_ms_def minute_ms_def simp_thms)
qed

theorem daily_run_time_witness: "\<exists>k \<in> {0, 1, 2 :: int}. daily_wall demo_zone (k * 86400000 + 32400000) 28800000"
proof -
  have "next_daily_run_after_in_timezone demo_chrono demo_zone 0 9 0 = Ok 28800000"
    by (simp add: next_daily_run_after_in_timezone_def upt_rec demo_chrono_def demo_zone_def and_hms_opt_def
        wall_date_def day_ms_def hour_ms_def ok_or_def resolve_daily_timezone_candidate_def)
  from daily_run_time [OF demo_zone_faithful this] show ?thesis
    by (simp add: demo_zone_def)
qed

text \<open>
  Adding months moves the calendar by exactly that many months, keeps the time of day and
  never moves to a later day of the month than the original one.
\<close>

theorem add_months_exact:
  assumes "calendar_faithful C" "add_months_clamped C local months = Ok w"
    and "civil C (wall_date local) = (y, mo, d)"
  shows "\<exists>y' mo' d'. civil C (wall_date w) = (y', mo', d') \<and> d' \<le> d \<and> 1 \<le> mo' \<and> mo' \<le> 12 \<and>
    y' * 12 + int mo' = y * 12 + int mo + months \<and> w mod day_ms = local mod day_ms"
  by (rule add_months_Ok [OF assms])

theorem add_months_exact_witness:
  "\<exists>y' mo' d'. civil demo_chrono (wall_date 2592000005) = (y', mo', d') \<and> y' * 12 + int mo' = 2"
proof -
  have a: "add_months_clamped demo_chrono 5 1 = Ok 2592000005"
    by (simp add: add_months_clamped_def demo_chrono_def wall_date_def day_ms_def checked_i64_def in_i64_def
        i64_min_def i64_max_def in_i32_def ok_or_def ensure_def)
  have c: "civil demo_chrono (wall_date 5) = (0, 1, 1)"
    by (simp add: demo_chrono_def wall_date_def day_ms_def)
  from add_months_exact [OF demo_calendar_faithful a c] show ?thesis by auto
qed

text \<open>
  Three inputs the code rejects although they are meaningful: the weekday range \<open>5-7\<close>, whose
  Sunday is read as 0 so that the range seems to descend; a number of days beyond the range of
  a chrono duration, which panics instead of being reported; and, on the local clock, any cron
  schedule asked for during the hour a clock change repeats.
\<close>

theorem schedule_rejections:
  "cron_term_matches ''5-7'' v 0 7 True = Err CronDescending \<and>
   (utc_ok C after \<longrightarrow> next_interval_run_after_in_timezone C ''106751991168 days'' z after = Err Panic) \<and>
   (utc_ok C after \<longrightarrow> utc_ok C (after + 60000) \<longrightarrow>
    from_local (local_zone C) (let w = wall (local_zone C) (after + 60000) in w - w mod 60000 + w mod 1000) =
      Ambiguous a b \<longrightarrow>
    next_cron_run_after C fs after = Err CannotAlign)"
proof (intro conjI impI)
  show "cron_term_matches ''5-7'' v 0 7 True = Err CronDescending"
    by (simp add: cron_term_matches_def parse_cron_number_def parse_u32_def parse_unsigned_def all_digits_def
        is_ascii_digit_def digit_val_def u32_max_def ok_or_def ensure_def Let_def)
  have "parse_interval_schedule ''106751991168 days'' = Ok \<lparr>amount = 106751991168, unit = Day\<rparr>"
    by (simp add: parse_interval_schedule_def split_whitespace_def Let_def ascii_ws_def ws2_def ws3_def
        parse_i64_def all_digits_def is_ascii_digit_def digit_val_def checked_i64_def in_i64_def i64_min_def
        i64_max_def ok_or_def ensure_def trim_end_s_def unit_of_def)
  then show "next_interval_run_after_in_timezone C ''106751991168 days'' z after = Err Panic"
    if "utc_ok C after"
    using that
    by (simp add: next_interval_run_after_in_timezone_def interval_run_def ensure_def checked_i64_def
        next_calendar_interval_run_after_in_timezone_def shifted_calendar_local_def in_i64_def i64_min_def
        checked_interval_amount_def duration_days_def day_ms_def i64_max_def)
next
  assume "utc_ok C after" "utc_ok C (after + 60000)"
    "from_local (local_zone C) (let w = wall (local_zone C) (after + 60000) in w - w mod 60000 + w mod 1000) =
      Ambiguous a b"
  then show "next_cron_run_after C fs after = Err CannotAlign"
    by (simp add: next_cron_run_after_def local_datetime_def utc_add_def align_minute_def with_wall_def
        minute_ms_def ok_or_def Let_def)
qed

theorem schedule_rejections_witness:
  "next_cron_run_after demo_chrono [''*'', ''*'', ''*'', ''*'', ''*''] 600000 = Err CannotAlign"
  using schedule_rejections [of 0 demo_chrono 600000 demo_zone 660000 4260000
      "[''*'', ''*'', ''*'', ''*'', ''*'']"]
  by (simp add: demo_chrono_def fold_zone_def)

end
