(* ===== verification/Workbook_Address.thy ===== *)
theory Workbook_Address
  imports Rust_Prelude
begin

text \<open>
  Cell addresses, ranges and sheet qualifiers of the workbook compiler,
  \<open>src-tauri/src/artifacts/workbooks/address.rs\<close>, with the range predicates and the formula
  reference budget of \<open>src-tauri/src/artifacts/workbooks/validation.rs\<close> that rest on them.

  Rows and columns are \<open>u32\<close> values; the subtraction in \<open>width\<close> and \<open>cell_count\<close> wraps, as in a
  release build. The matches of the regular expression in \<open>extract_formula_references\<close> are an
  argument (\<open>captures_iter\<close>), one record per match. The wording of error messages is not kept.
\<close>

subsection \<open>Addresses and ranges\<close>

definition MAX_ROWS :: nat where
  "MAX_ROWS = 1048576"

definition MAX_COLUMNS :: nat where
  "MAX_COLUMNS = 16384"

record cell_address =
  row :: nat
  column :: nat

record cell_range =
  range_start :: cell_address
  range_end :: cell_address

datatype address_error = NoRow | NotA1 | BadRow | OutOfBounds | SheetQualifier | BadRange | BadSheet

definition contains :: "cell_range \<Rightarrow> cell_address \<Rightarrow> bool" where
  "contains r a =
     (row a \<ge> row (range_start r) \<and> row a \<le> row (range_end r) \<and>
      column a \<ge> column (range_start r) \<and> column a \<le> column (range_end r))"

text \<open>\<open>end - start + 1\<close> on \<open>u32\<close>.\<close>

definition u32_span :: "nat \<Rightarrow> nat \<Rightarrow> nat" where
  "u32_span lo hi = nat ((int hi - int lo + 1) mod 2 ^ 32)"

definition width :: "cell_range \<Rightarrow> nat" where
  "width r = u32_span (column (range_start r)) (column (range_end r))"

definition cell_count :: "cell_range \<Rightarrow> nat" where
  "cell_count r = width r * u32_span (row (range_start r)) (row (range_end r))"

text \<open>\<open>checked_mul(26).and_then(checked_add(letter))\<close> over the letters of a column.\<close>

definition letter_value :: "char \<Rightarrow> nat" where
  "letter_value c = (let u = (if is_ascii_lowercase c then of_char c - 32 else of_char c) in u - 65 + 1)"

fun column_index :: "nat \<Rightarrow> string \<Rightarrow> nat option" where
  "column_index acc [] = Some acc"
| "column_index acc (c # s) =
     (if acc * 26 > u32_max \<or> acc * 26 + letter_value c > u32_max then None
      else column_index (acc * 26 + letter_value c) s)"

definition parse_cell_address :: "string \<Rightarrow> address_error + cell_address" where
  "parse_cell_address raw =
     (let normalized = filter (\<lambda>c. c \<noteq> CHR ''$'') (trim raw) in
      and_then (ensure (list_ex is_ascii_digit normalized) NoRow) (\<lambda>_.
      let col = takeWhile (\<lambda>c. \<not> is_ascii_digit c) normalized;
          rw = dropWhile (\<lambda>c. \<not> is_ascii_digit c) normalized in
      and_then (ensure (\<not> (col = [] \<or> length col > 3 \<or> \<not> list_all is_ascii_alphabetic col \<or>
        rw = [] \<or> \<not> list_all is_ascii_digit rw)) NotA1) (\<lambda>_.
      and_then (ok_or (column_index 0 col) OutOfBounds) (\<lambda>ci.
      and_then (ok_or (parse_u32 rw) BadRow) (\<lambda>ri.
      and_then (ensure (\<not> (ri = 0 \<or> ri > MAX_ROWS \<or> ci = 0 \<or> ci > MAX_COLUMNS)) OutOfBounds) (\<lambda>_.
      Ok \<lparr>row = ri, column = ci\<rparr>))))))"

text \<open>\<open>split(':')\<close> yields the parts in turn; the end is the whole text when there is one part.\<close>

definition parse_local_range :: "string \<Rightarrow> address_error + cell_range" where
  "parse_local_range raw =
     and_then (ensure (CHR ''!'' \<notin> set raw) SheetQualifier) (\<lambda>_.
     let parts = split_char (CHR '':'') raw in
     and_then (parse_cell_address (hd parts)) (\<lambda>s.
     and_then (parse_cell_address (if length parts > 1 then parts ! 1 else raw)) (\<lambda>e.
     and_then (ensure (\<not> (length parts > 2 \<or> row e < row s \<or> column e < column s)) BadRange) (\<lambda>_.
     Ok \<lparr>range_start = s, range_end = e\<rparr>))))"

text \<open>The scan for the first \<open>!\<close> outside quotes: the text before it and after it.\<close>

fun find_sheet_separator :: "bool \<Rightarrow> string \<Rightarrow> (string \<times> string) option" where
  "find_sheet_separator quoted [] = None"
| "find_sheet_separator quoted [c] =
     (if c = CHR 0x27 then None
      else if c = CHR ''!'' \<and> \<not> quoted then Some ([], []) else None)"
| "find_sheet_separator quoted (c # d # s) =
     (if c = CHR 0x27 then
        (if quoted \<and> d = CHR 0x27
         then map_option (\<lambda>(a, b). (c # d # a, b)) (find_sheet_separator quoted s)
         else map_option (\<lambda>(a, b). (c # a, b)) (find_sheet_separator (\<not> quoted) (d # s)))
      else if c = CHR ''!'' \<and> \<not> quoted then Some ([], d # s)
      else map_option (\<lambda>(a, b). (c # a, b)) (find_sheet_separator quoted (d # s)))"

text \<open>\<open>replace("''", "'")\<close> and \<open>replace('\'', "''")\<close>.\<close>

fun undouble :: "string \<Rightarrow> string" where
  "undouble [] = []"
| "undouble [c] = [c]"
| "undouble (c # d # s) =
     (if c = CHR 0x27 \<and> d = CHR 0x27 then c # undouble s else c # undouble (d # s))"

fun double_quotes :: "string \<Rightarrow> string" where
  "double_quotes [] = []"
| "double_quotes (c # s) = (if c = CHR 0x27 then c # c # double_quotes s else c # double_quotes s)"

definition unquote_sheet_name :: "string \<Rightarrow> address_error + string" where
  "unquote_sheet_name raw =
     (let t = trim raw in
      if starts_with t [CHR 0x27] \<or> ends_with t [CHR 0x27] then
        (if length t < 2 \<or> \<not> starts_with t [CHR 0x27] \<or> \<not> ends_with t [CHR 0x27] then Err BadSheet
         else Ok (undouble (take (length t - 2) (drop 1 t))))
      else Ok t)"

definition split_qualified_range :: "string \<Rightarrow> string \<Rightarrow> address_error + string \<times> cell_range" where
  "split_qualified_range raw default_sheet =
     (let trimmed = trim raw;
          (sheet0, rng) = (case find_sheet_separator False trimmed of
             Some (a, b) \<Rightarrow> (a, b) | None \<Rightarrow> (default_sheet, trimmed)) in
      and_then (unquote_sheet_name sheet0) (\<lambda>sheet.
      and_then (parse_local_range rng) (\<lambda>r. Ok (sheet, r))))"

text \<open>The \<open>while column > 0\<close> loop pushes the letters from the last to the first.\<close>

fun column_letters :: "nat \<Rightarrow> string" where
  "column_letters c =
     (if c > 0 then char_of (65 + (c - 1) mod 26) # column_letters ((c - 1) div 26) else [])"

declare column_letters.simps [simp del]

definition column_name :: "nat \<Rightarrow> string" where
  "column_name c = rev (column_letters c)"

definition a1 :: "cell_address \<Rightarrow> string" where
  "a1 a = column_name (column a) @ decimal (row a)"

definition quote_sheet_name :: "string \<Rightarrow> string" where
  "quote_sheet_name name = [CHR 0x27] @ double_quotes name @ [CHR 0x27]"

subsection \<open>Formulas\<close>

record captures =
  cap_quoted_sheet :: "string option"
  cap_sheet :: "string option"
  cap_start :: string
  cap_end :: "string option"
  cap_next_byte :: "char option"

definition reference_of :: "string \<Rightarrow> captures \<Rightarrow> address_error + string \<times> cell_range" where
  "reference_of default_sheet cap =
     (let sheet = (case cap_quoted_sheet cap of
            Some q \<Rightarrow> undouble q
          | None \<Rightarrow> (case cap_sheet cap of Some s \<Rightarrow> s | None \<Rightarrow> default_sheet));
          e = (case cap_end cap of Some e \<Rightarrow> e | None \<Rightarrow> cap_start cap) in
      and_then (parse_cell_address (cap_start cap)) (\<lambda>s.
      and_then (parse_cell_address e) (\<lambda>e.
      Ok (sheet, \<lparr>range_start = s, range_end = e\<rparr>))))"

definition is_call :: "captures \<Rightarrow> bool" where
  "is_call cap = (cap_quoted_sheet cap = None \<and> cap_sheet cap = None \<and>
     cap_next_byte cap = Some (CHR ''(''))"

fun collect_results :: "('e + 'a) list \<Rightarrow> 'e + 'a list" where
  "collect_results [] = Ok []"
| "collect_results (r # rs) = and_then r (\<lambda>x. and_then (collect_results rs) (\<lambda>xs. Ok (x # xs)))"

definition extract_formula_references ::
  "(string \<Rightarrow> captures list) \<Rightarrow> string \<Rightarrow> string \<Rightarrow> address_error + (string \<times> cell_range) list" where
  "extract_formula_references captures_iter formula default_sheet =
     collect_results (map (reference_of default_sheet)
       (filter (\<lambda>cap. \<not> is_call cap) (captures_iter formula)))"

definition ascii_upper :: "char \<Rightarrow> char" where
  "ascii_upper c = (if is_ascii_lowercase c then char_of ((of_char c :: nat) - 32) else c)"

text \<open>\<open>chars().filter(|c| !c.is_whitespace())\<close> on the UTF-8 bytes.\<close>

fun drop_whitespace :: "string \<Rightarrow> string" where
  "drop_whitespace (a # b # c # s) =
     (if ascii_ws a then drop_whitespace (b # c # s)
      else if ws2 a b then drop_whitespace (c # s)
      else if ws3 a b c then drop_whitespace s
      else a # drop_whitespace (b # c # s))"
| "drop_whitespace [a, b] =
     (if ascii_ws a then drop_whitespace [b] else if ws2 a b then [] else a # drop_whitespace [b])"
| "drop_whitespace [a] = (if ascii_ws a then [] else [a])"
| "drop_whitespace [] = []"

definition active_calls :: "string list" where
  "active_calls = [''WEBSERVICE('', ''FILTERXML('', ''RTD('', ''DDE('', ''CALL('', ''EXEC('',
     ''REGISTER.ID('', ''EVALUATE('', ''GET.CELL('', ''GET.WORKSPACE('', ''HYPERLINK('', ''_XLL.'']"

definition formula_is_external_or_active :: "string \<Rightarrow> bool" where
  "formula_is_external_or_active formula =
     (let uppercase = map ascii_upper (drop_whitespace formula) in
      CHR ''['' \<in> set formula \<or> CHR '']'' \<in> set formula \<or> CHR ''|'' \<in> set formula \<or>
      list_ex (contains_str uppercase) active_calls)"

subsection \<open>Range checks of the workbook validator\<close>

record worksheet_bounds =
  row_count :: nat
  column_count :: nat

definition require_within_bounds :: "cell_range \<Rightarrow> worksheet_bounds \<Rightarrow> bool" where
  "require_within_bounds r b =
     (\<not> (row (range_end r) > row_count b \<or> column (range_end r) > column_count b))"

definition ranges_overlap :: "cell_range \<Rightarrow> cell_range \<Rightarrow> bool" where
  "ranges_overlap l r =
     (row (range_start l) \<le> row (range_end r) \<and> row (range_start r) \<le> row (range_end l) \<and>
      column (range_start l) \<le> column (range_end r) \<and> column (range_start r) \<le> column (range_end l))"

datatype budget_error = BadReference address_error | FormulaCount | FormulaBudget | WorkbookBudget

definition MAX_REFERENCED_CELLS_PER_FORMULA :: nat where
  "MAX_REFERENCED_CELLS_PER_FORMULA = 100000"

definition MAX_REFERENCED_CELLS_PER_WORKBOOK :: nat where
  "MAX_REFERENCED_CELLS_PER_WORKBOOK = 2000000"

definition MAX_FORMULAS_PER_WORKBOOK :: nat where
  "MAX_FORMULAS_PER_WORKBOOK = 2048"

definition checked_add_u64 :: "nat \<Rightarrow> nat \<Rightarrow> nat option" where
  "checked_add_u64 a b = (if a + b \<le> u64_max then Some (a + b) else None)"

fun sum_cells :: "nat \<Rightarrow> (string \<times> cell_range) list \<Rightarrow> budget_error + nat" where
  "sum_cells acc [] = Ok acc"
| "sum_cells acc ((_, r) # rs) =
     and_then (ok_or (checked_add_u64 acc (cell_count r)) FormulaBudget) (\<lambda>acc. sum_cells acc rs)"

fun lift_reference_error :: "address_error + 'a \<Rightarrow> budget_error + 'a" where
  "lift_reference_error (Inl e) = Inl (BadReference e)"
| "lift_reference_error (Inr x) = Inr x"

text \<open>The loop over the formulas of the workbook, given as pairs of sheet and expression.\<close>

fun formula_reference_budget ::
  "(string \<Rightarrow> captures list) \<Rightarrow> nat \<Rightarrow> nat \<Rightarrow> (string \<times> string) list \<Rightarrow> budget_error + unit" where
  "formula_reference_budget captures_iter formula_count aggregate [] = Ok ()"
| "formula_reference_budget captures_iter formula_count aggregate ((sheet, formula) # rest) =
     and_then (ensure (\<not> formula_count + 1 > MAX_FORMULAS_PER_WORKBOOK) FormulaCount) (\<lambda>_.
     and_then (lift_reference_error (extract_formula_references captures_iter formula sheet)) (\<lambda>refs.
     and_then (sum_cells 0 refs) (\<lambda>per_formula.
     and_then (ensure (\<not> per_formula > MAX_REFERENCED_CELLS_PER_FORMULA) FormulaBudget) (\<lambda>_.
     and_then (ok_or (checked_add_u64 aggregate per_formula) WorkbookBudget) (\<lambda>aggregate'.
     and_then (ensure (\<not> aggregate' > MAX_REFERENCED_CELLS_PER_WORKBOOK) WorkbookBudget) (\<lambda>_.
     formula_reference_budget captures_iter (formula_count + 1) aggregate' rest))))))"

subsection \<open>Columns as numbers in bijective base 26\<close>

lemma column_name_step:
  "column_name c = (if c = 0 then [] else column_name ((c - 1) div 26) @ [char_of (65 + (c - 1) mod 26)])"
  unfolding column_name_def by (subst column_letters.simps) simp

lemma letter_char:
  assumes "k < (26 :: nat)"
  shows "is_ascii_uppercase (char_of (65 + k))" and "letter_value (char_of (65 + k)) = k + 1"
  using assms
  by (simp_all add: is_ascii_uppercase_def is_ascii_lowercase_def letter_value_def Let_def)

lemma column_index_append:
  "column_index acc (s @ [c]) =
     (case column_index acc s of
        None \<Rightarrow> None
      | Some v \<Rightarrow> if v * 26 > u32_max \<or> v * 26 + letter_value c > u32_max then None
                  else Some (v * 26 + letter_value c))"
  by (induction s arbitrary: acc) auto

lemma column_index_name: "c \<le> u32_max \<Longrightarrow> column_index 0 (column_name c) = Some c"
proof (induction c rule: less_induct)
  case (less c)
  show ?case
  proof (cases "c = 0")
    case True
    then show ?thesis by (simp add: column_name_step [of 0])
  next
    case False
    let ?q = "(c - 1) div 26" and ?k = "(c - 1) mod 26"
    have "?q * 26 + ?k = c - 1" by simp
    with False have eq: "?q * 26 + (?k + 1) = c" by linarith
    have "?q < c" using False by simp
    then have "column_index 0 (column_name ?q) = Some ?q" using less by simp
    moreover have "letter_value (char_of (65 + ?k)) = ?k + 1" by (rule letter_char) simp
    ultimately show ?thesis
      using False less.prems eq by (subst column_name_step) (simp add: column_index_append)
  qed
qed

lemma column_name_upper: "list_all is_ascii_uppercase (column_name c)"
proof (induction c rule: less_induct)
  case (less c)
  then show ?case by (subst column_name_step) (auto simp: letter_char)
qed

lemma column_name_length: "c \<le> MAX_COLUMNS \<Longrightarrow> length (column_name c) \<le> 3"
proof -
  assume "c \<le> MAX_COLUMNS"
  then have "(c - 1) div 26 \<le> 630" by (simp add: MAX_COLUMNS_def)
  then have "((c - 1) div 26 - 1) div 26 \<le> 24" by simp
  then have "(((c - 1) div 26 - 1) div 26 - 1) div 26 = 0" by simp
  then show ?thesis
    by (subst column_name_step, subst column_name_step, subst column_name_step) (simp add: column_name_step [of 0])
qed

lemma column_name_nonempty: "0 < c \<Longrightarrow> column_name c \<noteq> []"
  by (subst column_name_step) simp

text \<open>What the characters of an address are not.\<close>

lemma upper_char:
  assumes "is_ascii_uppercase c"
  shows "\<not> is_ascii_digit c" "is_ascii_alphabetic c" "c \<noteq> CHR ''$''" "c \<noteq> CHR ''!''" "c \<noteq> CHR '':''"
    "c \<noteq> CHR 0x27" "solid c"
  using assms
  by (auto simp: is_ascii_uppercase_def is_ascii_digit_def is_ascii_alphabetic_def solid_def
      ascii_ws_def Let_def)

lemma digit_char_facts:
  assumes "is_ascii_digit c"
  shows "c \<noteq> CHR ''$''" "c \<noteq> CHR ''!''" "c \<noteq> CHR '':''" "c \<noteq> CHR 0x27" "solid c"
  using assms by (auto simp: is_ascii_digit_def solid_def ascii_ws_def Let_def)

definition address_ok :: "cell_address \<Rightarrow> bool" where
  "address_ok a = (1 \<le> row a \<and> row a \<le> MAX_ROWS \<and> 1 \<le> column a \<and> column a \<le> MAX_COLUMNS)"

lemma a1_chars:
  "c \<in> set (a1 a) \<Longrightarrow> is_ascii_uppercase c \<or> is_ascii_digit c"
  using column_name_upper decimal_digits by (auto simp: a1_def list_all_iff)

lemma a1_no_separator: "CHR ''!'' \<notin> set (a1 a)" "CHR '':'' \<notin> set (a1 a)" "CHR ''$'' \<notin> set (a1 a)"
  using a1_chars upper_char digit_char_facts by blast+

lemma a1_ends:
  shows "a1 a \<noteq> []" "solid (hd (a1 a))" "solid (last (a1 a))"
proof -
  show ne: "a1 a \<noteq> []" by (simp add: a1_def)
  then show "solid (hd (a1 a))" "solid (last (a1 a))"
    using a1_chars [of "hd (a1 a)" a] a1_chars [of "last (a1 a)" a] upper_char(7) digit_char_facts(5)
    by auto
qed

lemma a1_split:
  shows "takeWhile (\<lambda>c. \<not> is_ascii_digit c) (a1 a) = column_name (column a)"
    and "dropWhile (\<lambda>c. \<not> is_ascii_digit c) (a1 a) = decimal (row a)"
proof -
  have "\<forall>c \<in> set (column_name (column a)). \<not> is_ascii_digit c"
    using column_name_upper [of "column a"] upper_char(1) by (auto simp: list_all_iff)
  moreover have "is_ascii_digit (hd (decimal (row a)))"
    using decimal_digits [of "row a"] by (simp add: list_all_iff)
  ultimately show "takeWhile (\<lambda>c. \<not> is_ascii_digit c) (a1 a) = column_name (column a)"
    and "dropWhile (\<lambda>c. \<not> is_ascii_digit c) (a1 a) = decimal (row a)"
    by (cases "decimal (row a)"; simp add: a1_def takeWhile_append dropWhile_append)+
qed

lemma parse_a1:
  assumes "address_ok a"
  shows "parse_cell_address (a1 a) = Ok a"
proof -
  have norm: "filter (\<lambda>c. c \<noteq> CHR ''$'') (trim (a1 a)) = a1 a"
    using a1_no_separator(3) a1_ends by (auto simp: trim_id intro: filter_True)
  have "list_ex is_ascii_digit (a1 a)"
    using decimal_digits [of "row a"] decimal_nonempty [of "row a"]
    by (cases "decimal (row a)") (auto simp: a1_def)
  moreover have "list_all is_ascii_alphabetic (column_name (column a))"
    using column_name_upper [of "column a"] upper_char(2) by (simp add: list_all_iff)
  moreover have "column_index 0 (column_name (column a)) = Some (column a)"
    using assms by (intro column_index_name) (simp add: address_ok_def MAX_COLUMNS_def u32_max_def)
  moreover have "parse_u32 (decimal (row a)) = Some (row a)"
    using assms unfolding parse_u32_def
    by (intro parse_unsigned_decimal) (simp add: address_ok_def MAX_ROWS_def u32_max_def)
  ultimately show ?thesis
    using assms column_name_length [of "column a"] column_name_nonempty [of "column a"]
      decimal_digits [of "row a"]
    by (simp add: parse_cell_address_def norm a1_split Let_def ensure_def ok_or_def address_ok_def
        list_ex_iff)
qed

lemma parse_address_ok: "parse_cell_address raw = Ok a \<Longrightarrow> address_ok a"
  by (auto simp: parse_cell_address_def Let_def result_simps address_ok_def)

subsection \<open>Sheet qualifiers\<close>

lemma undouble_double: "undouble (double_quotes n) = n"
proof (induction n)
  case (Cons c n)
  then show ?case by (cases "double_quotes n") auto
qed simp

lemma find_separator_quoted:
  "find_sheet_separator True (double_quotes n @ CHR 0x27 # CHR ''!'' # r) =
     Some (double_quotes n @ [CHR 0x27], r)"
proof (induction n)
  case Nil
  then show ?case by (cases r) auto
next
  case (Cons c n)
  then show ?case by (cases "double_quotes n @ CHR 0x27 # CHR ''!'' # r") auto
qed

lemma find_separator_name:
  "find_sheet_separator False (quote_sheet_name n @ CHR ''!'' # r) = Some (quote_sheet_name n, r)"
  using find_separator_quoted [of n r]
  by (cases "double_quotes n @ CHR 0x27 # CHR ''!'' # r") (auto simp: quote_sheet_name_def)

lemma solid_quote: "solid (CHR 0x27)"
  by (simp add: solid_def ascii_ws_def)

lemma unquote_quoted: "unquote_sheet_name (quote_sheet_name n) = Ok n"
proof -
  have "trim (quote_sheet_name n) = quote_sheet_name n"
    by (rule trim_id) (simp_all add: quote_sheet_name_def solid_quote)
  then show ?thesis
    by (simp add: unquote_sheet_name_def quote_sheet_name_def starts_with_def ends_with_def
        undouble_double)
qed

lemma parse_range_a1:
  assumes "address_ok s" "address_ok e" "row s \<le> row e" "column s \<le> column e"
  shows "parse_local_range (a1 s @ CHR '':'' # a1 e) = Ok \<lparr>range_start = s, range_end = e\<rparr>"
  using assms a1_no_separator
  by (simp add: parse_local_range_def split_char_first split_char_none parse_a1 ensure_def)

subsection \<open>Counting cells\<close>

definition range_ok :: "cell_range \<Rightarrow> bool" where
  "range_ok r = (row (range_start r) \<le> row (range_end r) \<and> column (range_start r) \<le> column (range_end r) \<and>
     address_ok (range_start r) \<and> address_ok (range_end r))"

lemma parse_range_ok: "parse_local_range raw = Ok r \<Longrightarrow> range_ok r"
  by (auto simp: parse_local_range_def Let_def result_simps range_ok_def dest: parse_address_ok)

definition cell_set :: "cell_range \<Rightarrow> (nat \<times> nat) set" where
  "cell_set r = {(i, j). contains r \<lparr>row = i, column = j\<rparr>}"

lemma cell_set_box:
  "cell_set r = {row (range_start r)..row (range_end r)} \<times> {column (range_start r)..column (range_end r)}"
  by (auto simp: cell_set_def contains_def)

lemma u32_span_ok: "lo \<le> hi \<Longrightarrow> hi < 4294967296 \<Longrightarrow> 0 < lo \<Longrightarrow> u32_span lo hi = Suc hi - lo"
  by (simp add: u32_span_def nat_diff_distrib)

lemma cell_count_card: "range_ok r \<Longrightarrow> cell_count r = card (cell_set r)"
  by (simp add: cell_set_box card_cartesian_product cell_count_def width_def range_ok_def address_ok_def
      u32_span_ok MAX_ROWS_def MAX_COLUMNS_def)

lemma overlap_iff:
  assumes "range_ok l" "range_ok r"
  shows "ranges_overlap l r \<longleftrightarrow> cell_set l \<inter> cell_set r \<noteq> {}"
proof -
  have "{a..b} \<inter> {c..d} \<noteq> {} \<longleftrightarrow> a \<le> d \<and> c \<le> b" if "a \<le> b" "c \<le> d" for a b c d :: nat
    using that by auto
  then show ?thesis
    using assms by (auto simp: cell_set_box Times_Int_Times ranges_overlap_def range_ok_def)
qed

lemma sum_cells_Ok: "sum_cells acc rs = Ok n \<Longrightarrow> n = acc + sum_list (map (cell_count \<circ> snd) rs)"
  by (induction acc rs rule: sum_cells.induct) (fastforce simp: result_simps checked_add_u64_def split: if_splits)+

definition referenced_cells :: "(string \<Rightarrow> captures list) \<Rightarrow> string \<times> string \<Rightarrow> nat" where
  "referenced_cells ci sf =
     (case extract_formula_references ci (snd sf) (fst sf) of
        Inl _ \<Rightarrow> 0 | Inr refs \<Rightarrow> sum_list (map (\<lambda>(_, r). card (cell_set r)) refs))"

definition references_ok :: "(string \<Rightarrow> captures list) \<Rightarrow> string \<times> string \<Rightarrow> bool" where
  "references_ok ci sf =
     (case extract_formula_references ci (snd sf) (fst sf) of
        Inl _ \<Rightarrow> True | Inr refs \<Rightarrow> list_all (\<lambda>(_, r). range_ok r) refs)"

lemma sum_cells_card:
  assumes "sum_cells 0 refs = Ok n" and "list_all (\<lambda>(_, r). range_ok r) refs"
  shows "n = sum_list (map (\<lambda>(_, r). card (cell_set r)) refs)"
proof -
  have "map (cell_count \<circ> snd) refs = map (\<lambda>(_, r). card (cell_set r)) refs"
    using assms(2) by (auto simp: list_all_iff cell_count_card)
  with sum_cells_Ok [OF assms(1)] show ?thesis by (simp only: add_0)
qed

lemma lift_reference_Ok: "lift_reference_error r = Ok x \<longleftrightarrow> r = Ok x"
  by (cases r) auto

lemma budget_step:
  assumes "formula_reference_budget ci n agg (sf # fs) = Ok ()" and "references_ok ci sf"
  shows "n < MAX_FORMULAS_PER_WORKBOOK" "referenced_cells ci sf \<le> MAX_REFERENCED_CELLS_PER_FORMULA"
    "agg + referenced_cells ci sf \<le> MAX_REFERENCED_CELLS_PER_WORKBOOK"
    "formula_reference_budget ci (n + 1) (agg + referenced_cells ci sf) fs = Ok ()"
proof -
  obtain sheet formula where sf: "sf = (sheet, formula)" by (cases sf)
  from assms(1) obtain refs k where
    n: "\<not> n + 1 > MAX_FORMULAS_PER_WORKBOOK" and
    refs: "extract_formula_references ci formula sheet = Ok refs" and k: "sum_cells 0 refs = Ok k" and
    b: "\<not> k > MAX_REFERENCED_CELLS_PER_FORMULA" "\<not> agg + k > MAX_REFERENCED_CELLS_PER_WORKBOOK" and
    rest: "formula_reference_budget ci (n + 1) (agg + k) fs = Ok ()"
    unfolding sf
    by (auto simp: result_simps lift_reference_Ok checked_add_u64_def split: if_splits)
  from refs assms(2) have "list_all (\<lambda>(_, r). range_ok r) refs"
    by (simp add: references_ok_def sf)
  then have "k = referenced_cells ci sf"
    using sum_cells_card [OF k] refs by (simp add: referenced_cells_def sf)
  with n b rest show "n < MAX_FORMULAS_PER_WORKBOOK" "referenced_cells ci sf \<le> MAX_REFERENCED_CELLS_PER_FORMULA"
    "agg + referenced_cells ci sf \<le> MAX_REFERENCED_CELLS_PER_WORKBOOK"
    "formula_reference_budget ci (n + 1) (agg + referenced_cells ci sf) fs = Ok ()"
    by simp_all
qed

lemma budget_sound:
  assumes "formula_reference_budget ci n agg fs = Ok ()" and "\<forall>sf \<in> set fs. references_ok ci sf"
    and "n \<le> MAX_FORMULAS_PER_WORKBOOK" "agg \<le> MAX_REFERENCED_CELLS_PER_WORKBOOK"
  shows "n + length fs \<le> MAX_FORMULAS_PER_WORKBOOK \<and>
    (\<forall>sf \<in> set fs. referenced_cells ci sf \<le> MAX_REFERENCED_CELLS_PER_FORMULA) \<and>
    agg + sum_list (map (referenced_cells ci) fs) \<le> MAX_REFERENCED_CELLS_PER_WORKBOOK"
  using assms
proof (induction fs arbitrary: n agg)
  case (Cons sf fs)
  note step = budget_step [OF Cons.prems(1), unfolded list.set]
  have ok: "references_ok ci sf" using Cons.prems(2) by simp
  show ?case
    using Cons.IH [OF step(4) [OF ok]] Cons.prems(2) step(1-3) [OF ok] by (simp add: add.assoc)
qed simp

subsection \<open>Properties\<close>

lemmas parse_eval = parse_cell_address_def trim_id solid_def ascii_ws_def is_ascii_digit_def
  is_ascii_alphabetic_def is_ascii_lowercase_def is_ascii_uppercase_def letter_value_def u32_max_def
  parse_u32_def parse_unsigned_def all_digits_def digit_val_def ensure_def ok_or_def
  MAX_ROWS_def MAX_COLUMNS_def Let_def

lemma parse_examples:
  "parse_cell_address ''A1'' = Ok \<lparr>row = 1, column = 1\<rparr>"
  "parse_cell_address ''B1'' = Ok \<lparr>row = 1, column = 2\<rparr>"
  "parse_cell_address ''B2'' = Ok \<lparr>row = 2, column = 2\<rparr>"
  "parse_cell_address ''$C$4'' = Ok \<lparr>row = 4, column = 3\<rparr>"
  "parse_cell_address ''B20'' = Ok \<lparr>row = 20, column = 2\<rparr>"
  "parse_cell_address ''A1048576'' = Ok \<lparr>row = 1048576, column = 1\<rparr>"
  by (simp_all add: parse_eval)

text \<open>
  Printing a valid cell address in A1 notation and parsing the text gives the address back,
  and whatever the parser accepts is a valid address, so the two are inverse on valid addresses.
\<close>

theorem a1_round_trip:
  "(parse_cell_address (a1 a) = Ok a \<longleftrightarrow>
     1 \<le> row a \<and> row a \<le> 1048576 \<and> 1 \<le> column a \<and> column a \<le> 16384) \<and>
   ((\<exists>raw. parse_cell_address raw = Ok a) \<longleftrightarrow> parse_cell_address (a1 a) = Ok a)"
  using parse_a1 [of a] parse_address_ok [of _ a]
  unfolding address_ok_def MAX_ROWS_def MAX_COLUMNS_def by blast

text \<open>
  A range qualified with any sheet name whatsoever, quotes, exclamation marks and white space
  included, is read back as that name and that range.
\<close>

theorem qualified_range_round_trip:
  assumes "address_ok s" "address_ok e" "row s \<le> row e" "column s \<le> column e"
  shows "split_qualified_range (quote_sheet_name name @ CHR ''!'' # a1 s @ CHR '':'' # a1 e) default_sheet =
    Ok (name, \<lparr>range_start = s, range_end = e\<rparr>)"
proof -
  let ?t = "quote_sheet_name name @ CHR ''!'' # a1 s @ CHR '':'' # a1 e"
  have "last ?t = last (a1 e)" using a1_ends(1) [of e] by simp
  then have "trim ?t = ?t"
    using a1_ends(3) [of e] by (intro trim_id) (simp_all add: quote_sheet_name_def solid_quote)
  then show ?thesis
    using parse_range_a1 [OF assms]
    by (simp add: split_qualified_range_def find_separator_name unquote_quoted)
qed

theorem qualified_range_round_trip_witness:
  "split_qualified_range (quote_sheet_name ''Q1!'' @ CHR ''!'' # a1 \<lparr>row = 2, column = 2\<rparr> @ CHR '':'' #
     a1 \<lparr>row = 4, column = 28\<rparr>) ''Other'' =
   Ok (''Q1!'', \<lparr>range_start = \<lparr>row = 2, column = 2\<rparr>, range_end = \<lparr>row = 4, column = 28\<rparr>\<rparr>)"
  by (rule qualified_range_round_trip) (simp_all add: address_ok_def MAX_ROWS_def MAX_COLUMNS_def)

text \<open>
  For the ranges the range parser accepts, the cell count is the number of cells the range
  contains and two ranges overlap exactly when they share a cell.
\<close>

theorem parsed_ranges_count:
  assumes "parse_local_range raw = Ok r" and "parse_local_range raw' = Ok r'"
  shows "cell_count r = card {(i, j). contains r \<lparr>row = i, column = j\<rparr>} \<and>
    (ranges_overlap r r' \<longleftrightarrow> (\<exists>i j. contains r \<lparr>row = i, column = j\<rparr> \<and> contains r' \<lparr>row = i, column = j\<rparr>))"
  using cell_count_card [OF parse_range_ok [OF assms(1)]]
    overlap_iff [OF parse_range_ok [OF assms(1)] parse_range_ok [OF assms(2)]]
  by (auto simp: cell_set_def)

theorem parsed_ranges_count_witness:
  "card {(i, j). contains \<lparr>range_start = \<lparr>row = 2, column = 2\<rparr>, range_end = \<lparr>row = 4, column = 3\<rparr>\<rparr>
     \<lparr>row = i, column = j\<rparr>} = 6"
proof -
  have "parse_local_range ''B2:$C$4'' =
      Ok \<lparr>range_start = \<lparr>row = 2, column = 2\<rparr>, range_end = \<lparr>row = 4, column = 3\<rparr>\<rparr>"
    by (simp add: parse_local_range_def parse_examples ensure_def)
  from parsed_ranges_count [OF this this] show ?thesis
    by (simp add: cell_count_def width_def u32_span_def)
qed

text \<open>
  The formula budget bounds the work of evaluating a workbook: when the loop accepts the
  formulas and no reference is written backwards, there are at most 2048 formulas, none refers to
  more than 100000 cells and all together refer to at most 2000000.
\<close>

theorem formula_budget_bounds:
  assumes "formula_reference_budget ci 0 0 fs = Ok ()" and "\<forall>sf \<in> set fs. references_ok ci sf"
  shows "length fs \<le> 2048 \<and> (\<forall>sf \<in> set fs. referenced_cells ci sf \<le> 100000) \<and>
    sum_list (map (referenced_cells ci) fs) \<le> 2000000"
  using budget_sound [OF assms]
  by (simp add: MAX_FORMULAS_PER_WORKBOOK_def MAX_REFERENCED_CELLS_PER_FORMULA_def
      MAX_REFERENCED_CELLS_PER_WORKBOOK_def)

definition demo_captures :: "string \<Rightarrow> captures list" where
  "demo_captures formula =
     [\<lparr>cap_quoted_sheet = None, cap_sheet = None, cap_start = ''A1'', cap_end = Some ''B20'',
       cap_next_byte = Some (CHR '')'')\<rparr>]"

lemmas budget_eval = extract_formula_references_def reference_of_def is_call_def parse_examples
  ensure_def ok_or_def checked_add_u64_def cell_count_def width_def u32_span_def u64_max_def
  MAX_FORMULAS_PER_WORKBOOK_def MAX_REFERENCED_CELLS_PER_FORMULA_def
  MAX_REFERENCED_CELLS_PER_WORKBOOK_def

theorem formula_budget_bounds_witness:
  "referenced_cells demo_captures (''Sheet1'', ''SUM(A1:B20)'') \<le> 100000"
proof -
  let ?fs = "[(''Sheet1'', ''SUM(A1:B20)'')]"
  have b: "formula_reference_budget demo_captures 0 0 ?fs = Ok ()"
    by (simp add: budget_eval demo_captures_def)
  have r: "\<forall>sf \<in> set ?fs. references_ok demo_captures sf"
    by (simp add: budget_eval demo_captures_def references_ok_def range_ok_def address_ok_def
        MAX_ROWS_def MAX_COLUMNS_def)
  show ?thesis using formula_budget_bounds [OF b r] by simp
qed





end
