(* ===== verification/Office_Zip.thy ===== *)
theory Office_Zip
  imports Rust_Prelude
begin

text \<open>
  The bounded ZIP reader and the deterministic store-only writer of the OOXML packages,
  \<open>src-tauri/src/foundation/office_zip.rs\<close>.

  Bytes are characters, integers are \<open>nat\<close>; \<open>usize\<close> has 64 bits, and no sum of file offsets and
  32-bit fields reaches that, so the \<open>checked_add\<close>s of offsets cannot fail and are plain sums.
  CRC-32 and the inflater are arguments: \<open>crc\<close> maps data to its checksum, \<open>inflate\<close> reads at most
  a given number of bytes of the decompressed stream or fails. A \<open>BTreeMap\<close> is the list of its
  entries in order when it is written and a finite map when it is read.
\<close>

datatype zip_error =
  NoEndRecord | MultiDisk | Truncated | BadDirectory | BadCentral | Unsupported | ExpansionLimit
| NameTruncated | NameNotUtf8 | UnsafeName | Duplicate | BadLocal | Disagree | NamesDisagree
| EntryTruncated | BadLength | InflateFailed | BadCrc | TrailingBytes | BadCount | TooLarge | ClassicBounds

definition MAX_ENTRIES :: nat where
  "MAX_ENTRIES = 4096"

definition MAX_UNCOMPRESSED_BYTES :: nat where
  "MAX_UNCOMPRESSED_BYTES = 256 * 1024 * 1024"

definition MAX_ENTRY_UNCOMPRESSED_BYTES :: nat where
  "MAX_ENTRY_UNCOMPRESSED_BYTES = 64 * 1024 * 1024"

subsection \<open>Little-endian fields\<close>

abbreviation byte :: "nat \<Rightarrow> char" where
  "byte n \<equiv> char_of (n mod 256)"

definition push_u16 :: "nat \<Rightarrow> string" where
  "push_u16 v = [byte v, byte (v div 256)]"

definition push_u32 :: "nat \<Rightarrow> string" where
  "push_u32 v = [byte v, byte (v div 256), byte (v div 65536), byte (v div 16777216)]"

definition le_u16 :: "string \<Rightarrow> nat \<Rightarrow> zip_error + nat" where
  "le_u16 bytes offset =
     (case drop offset bytes of a # b # _ \<Rightarrow> Ok (of_char a + 256 * of_char b) | _ \<Rightarrow> Err Truncated)"

definition le_u32 :: "string \<Rightarrow> nat \<Rightarrow> zip_error + nat" where
  "le_u32 bytes offset =
     (case drop offset bytes of
        a # b # c # d # _ \<Rightarrow>
          Ok (of_char a + 256 * of_char b + 65536 * of_char c + 16777216 * of_char d)
      | _ \<Rightarrow> Err Truncated)"

text \<open>\<open>str::from_utf8\<close>: the well-formed byte sequences of the Unicode standard.\<close>

definition cont :: "char \<Rightarrow> bool" where
  "cont c = (128 \<le> (of_char c :: nat) \<and> (of_char c :: nat) \<le> 191)"

fun utf8_valid :: "string \<Rightarrow> bool" where
  "utf8_valid [] = True"
| "utf8_valid (a # s) =
     (let n = (of_char a :: nat) in
      if n < 128 then utf8_valid s
      else if 194 \<le> n \<and> n \<le> 223 then (case s of b # r \<Rightarrow> cont b \<and> utf8_valid r | _ \<Rightarrow> False)
      else if 224 \<le> n \<and> n \<le> 239 then
        (case s of b # c # r \<Rightarrow>
             cont b \<and> cont c \<and> (n = 224 \<longrightarrow> 160 \<le> (of_char b :: nat)) \<and>
             (n = 237 \<longrightarrow> (of_char b :: nat) \<le> 159) \<and> utf8_valid r
           | _ \<Rightarrow> False)
      else if 240 \<le> n \<and> n \<le> 244 then
        (case s of b # c # d # r \<Rightarrow>
             cont b \<and> cont c \<and> cont d \<and> (n = 240 \<longrightarrow> 144 \<le> (of_char b :: nat)) \<and>
             (n = 244 \<longrightarrow> (of_char b :: nat) \<le> 143) \<and> utf8_valid r
           | _ \<Rightarrow> False)
      else False)"

definition unsafe_name :: "string \<Rightarrow> bool" where
  "unsafe_name name =
     (name = [] \<or> starts_with name ''/'' \<or> starts_with name [CHR 0x5C] \<or> contains_str name ''..'' \<or>
      CHR 0x5C \<in> set name \<or> list_ex (\<lambda>c. (of_char c :: nat) < 0x20) name)"

definition validate_entry_name :: "string \<Rightarrow> zip_error + unit" where
  "validate_entry_name name = (if unsafe_name name then Err UnsafeName else Ok ())"

subsection \<open>Reading\<close>

definition eocd_signature :: string where
  "eocd_signature = [CHR 0x50, CHR 0x4b, CHR 0x05, CHR 0x06]"

fun eocd_scan :: "string \<Rightarrow> nat list \<Rightarrow> zip_error + nat" where
  "eocd_scan bytes [] = Err NoEndRecord"
| "eocd_scan bytes (index # rest) =
     (if take 4 (drop index bytes) = eocd_signature then
        and_then (if index + 22 > length bytes then Err MultiDisk
            else and_then (le_u16 bytes (index + 4)) (\<lambda>d.
              if d \<noteq> 0 then Err MultiDisk
              else and_then (le_u16 bytes (index + 6)) (\<lambda>d.
                if d \<noteq> 0 then Err MultiDisk else Ok ()))) (\<lambda>_.
        and_then (le_u16 bytes (index + 20)) (\<lambda>comment_length.
        if index + (22 + comment_length) \<noteq> length bytes then eocd_scan bytes rest
        else Ok index))
      else eocd_scan bytes rest)"

definition find_eocd :: "string \<Rightarrow> zip_error + nat" where
  "find_eocd bytes =
     (if length bytes < 22 then Err NoEndRecord
      else eocd_scan bytes (rev [length bytes - 65557..<length bytes - 4 + 1]))"

definition decode_deflate_bounded ::
  "(string \<Rightarrow> nat \<Rightarrow> string option) \<Rightarrow> string \<Rightarrow> nat \<Rightarrow> zip_error + string" where
  "decode_deflate_bounded inflate src expected =
     and_then (ensure (\<not> expected > MAX_ENTRY_UNCOMPRESSED_BYTES) ExpansionLimit) (\<lambda>_.
     and_then (ok_or (inflate src (expected + 1)) InflateFailed) (\<lambda>output.
     and_then (ensure (length output = expected) BadLength) (\<lambda>_. Ok output)))"

definition read_local_entry ::
  "(string \<Rightarrow> nat \<Rightarrow> string option) \<Rightarrow> string \<Rightarrow> nat \<Rightarrow> string \<Rightarrow> nat \<Rightarrow> nat \<Rightarrow> nat \<Rightarrow> nat \<Rightarrow>
   zip_error + string" where
  "read_local_entry inflate bytes offset central_name central_flags compression compressed uncompressed =
     and_then (le_u32 bytes offset) (\<lambda>sig.
     and_then (ensure (sig = 0x04034b50) BadLocal) (\<lambda>_.
     and_then (le_u16 bytes (offset + 6)) (\<lambda>local_flags.
     and_then (le_u16 bytes (offset + 8)) (\<lambda>local_method.
     and_then (ensure (\<not> (local_flags \<noteq> central_flags \<or> local_method \<noteq> compression)) Disagree) (\<lambda>_.
     and_then (le_u16 bytes (offset + 26)) (\<lambda>name_len.
     and_then (le_u16 bytes (offset + 28)) (\<lambda>extra_len.
     let name_start = offset + 30; name_end = name_start + name_len in
     and_then (ensure (\<not> (name_end > length bytes \<or>
       take name_len (drop name_start bytes) \<noteq> central_name)) NamesDisagree) (\<lambda>_.
     let data_start = name_end + extra_len; data_end = data_start + compressed in
     and_then (ensure (\<not> data_end > length bytes) EntryTruncated) (\<lambda>_.
     let source = take compressed (drop data_start bytes) in
     and_then (if compression = 0 then Ok source else decode_deflate_bounded inflate source uncompressed)
       (\<lambda>data.
     and_then (ensure (length data = uncompressed) BadLength) (\<lambda>_. Ok data)))))))))))"

record central_header =
  h_flags :: nat
  h_method :: nat
  h_crc :: nat
  h_compressed :: nat
  h_uncompressed :: nat
  h_name_len :: nat
  h_extra_len :: nat
  h_comment_len :: nat
  h_local_offset :: nat

definition read_central :: "string \<Rightarrow> nat \<Rightarrow> zip_error + central_header" where
  "read_central bytes cursor =
     and_then (le_u32 bytes cursor) (\<lambda>sig.
     and_then (ensure (sig = 0x02014b50) BadCentral) (\<lambda>_.
     and_then (le_u16 bytes (cursor + 8)) (\<lambda>flags.
     and_then (le_u16 bytes (cursor + 10)) (\<lambda>compression.
     and_then (le_u32 bytes (cursor + 16)) (\<lambda>crc32.
     and_then (le_u32 bytes (cursor + 20)) (\<lambda>compressed.
     and_then (le_u32 bytes (cursor + 24)) (\<lambda>uncompressed.
     and_then (le_u16 bytes (cursor + 28)) (\<lambda>name_len.
     and_then (le_u16 bytes (cursor + 30)) (\<lambda>extra_len.
     and_then (le_u16 bytes (cursor + 32)) (\<lambda>comment_len.
     and_then (le_u32 bytes (cursor + 42)) (\<lambda>local_offset.
     Ok \<lparr>h_flags = flags, h_method = compression, h_crc = crc32, h_compressed = compressed,
         h_uncompressed = uncompressed, h_name_len = name_len, h_extra_len = extra_len,
         h_comment_len = comment_len, h_local_offset = local_offset\<rparr>)))))))))))"

text \<open>The lowest bit of the flags marks an encrypted entry.\<close>

definition supported :: "central_header \<Rightarrow> bool" where
  "supported h = (\<not> (odd (h_flags h) \<or> \<not> (h_method h = 0 \<or> h_method h = 8)))"

definition within_limits :: "central_header \<Rightarrow> nat \<Rightarrow> bool" where
  "within_limits h expanded =
     (\<not> (h_uncompressed h > MAX_ENTRY_UNCOMPRESSED_BYTES \<or> expanded > MAX_UNCOMPRESSED_BYTES \<or>
        (h_compressed h > 0 \<and> h_uncompressed h div max (h_compressed h) 1 > 500)))"

fun read_entries ::
  "(string \<Rightarrow> nat \<Rightarrow> string option) \<Rightarrow> (string \<Rightarrow> nat) \<Rightarrow> string \<Rightarrow> nat \<Rightarrow> nat \<Rightarrow> nat \<Rightarrow> nat \<Rightarrow>
   (string \<rightharpoonup> string) \<Rightarrow> zip_error + nat \<times> (string \<rightharpoonup> string)" where
  "read_entries inflate crc bytes directory_end 0 cursor expanded entries = Ok (cursor, entries)"
| "read_entries inflate crc bytes directory_end (Suc n) cursor expanded0 entries =
     and_then (read_central bytes cursor) (\<lambda>h.
     and_then (ensure (supported h) Unsupported) (\<lambda>_.
     let expanded = expanded0 + h_uncompressed h in
     and_then (ensure (expanded \<le> u64_max) ExpansionLimit) (\<lambda>_.
     and_then (ensure (within_limits h expanded) ExpansionLimit) (\<lambda>_.
     let name_start = cursor + 46; name_end = name_start + h_name_len h in
     and_then (ensure (\<not> name_end > length bytes) NameTruncated) (\<lambda>_.
     let name = take (h_name_len h) (drop name_start bytes) in
     and_then (ensure (utf8_valid name) NameNotUtf8) (\<lambda>_.
     and_then (validate_entry_name name) (\<lambda>_.
     and_then (ensure (entries name = None) Duplicate) (\<lambda>_.
     and_then (read_local_entry inflate bytes (h_local_offset h) name (h_flags h) (h_method h)
       (h_compressed h) (h_uncompressed h)) (\<lambda>data.
     and_then (ensure (crc data = h_crc h) BadCrc) (\<lambda>_.
     let cursor' = name_end + (h_extra_len h + h_comment_len h) in
     and_then (ensure (\<not> cursor' > directory_end) TrailingBytes) (\<lambda>_.
     read_entries inflate crc bytes directory_end n cursor' expanded (entries(name \<mapsto> data)))))))))))))"

definition read_zip ::
  "(string \<Rightarrow> nat \<Rightarrow> string option) \<Rightarrow> (string \<Rightarrow> nat) \<Rightarrow> string \<Rightarrow> zip_error + (string \<rightharpoonup> string)" where
  "read_zip inflate crc bytes =
     and_then (find_eocd bytes) (\<lambda>eocd.
     and_then (le_u16 bytes (eocd + 10)) (\<lambda>entry_count.
     and_then (le_u32 bytes (eocd + 12)) (\<lambda>central_size.
     and_then (le_u32 bytes (eocd + 16)) (\<lambda>central_offset.
     and_then (ensure (\<not> (entry_count = 0 \<or> entry_count > MAX_ENTRIES \<or>
       central_offset + central_size \<noteq> eocd)) BadDirectory) (\<lambda>_.
     and_then (read_entries inflate crc bytes (central_offset + central_size) entry_count central_offset 0
       Map.empty) (\<lambda>(cursor, entries).
     and_then (ensure (cursor = central_offset + central_size) TrailingBytes) (\<lambda>_. Ok entries)))))))"

subsection \<open>Writing\<close>

definition local_record :: "nat \<Rightarrow> string \<Rightarrow> string \<Rightarrow> string" where
  "local_record crc name data =
     push_u32 0x04034b50 @ push_u16 20 @ push_u16 0x0800 @ push_u16 0 @ push_u16 0 @ push_u16 0x0021 @
     push_u32 crc @ push_u32 (length data) @ push_u32 (length data) @ push_u16 (length name) @
     push_u16 0 @ name @ data"

definition central_record :: "nat \<Rightarrow> string \<Rightarrow> string \<Rightarrow> nat \<Rightarrow> string" where
  "central_record crc name data offset =
     push_u32 0x02014b50 @ push_u16 20 @ push_u16 20 @ push_u16 0x0800 @ push_u16 0 @ push_u16 0 @
     push_u16 0x0021 @ push_u32 crc @ push_u32 (length data) @ push_u32 (length data) @
     push_u16 (length name) @ push_u16 0 @ push_u16 0 @ push_u16 0 @ push_u16 0 @ push_u32 0 @
     push_u32 offset @ name"

definition end_record :: "nat \<Rightarrow> nat \<Rightarrow> nat \<Rightarrow> string" where
  "end_record entry_count directory_size offset =
     push_u32 0x06054b50 @ push_u16 0 @ push_u16 0 @ push_u16 entry_count @ push_u16 entry_count @
     push_u32 directory_size @ push_u32 offset @ push_u16 0"

fun write_entries ::
  "(string \<Rightarrow> nat) \<Rightarrow> string \<Rightarrow> string \<Rightarrow> (string \<times> string) list \<Rightarrow> zip_error + string \<times> string" where
  "write_entries crc output directory [] = Ok (output, directory)"
| "write_entries crc output directory ((name, data) # rest) =
     and_then (validate_entry_name name) (\<lambda>_.
     and_then (ensure (length data \<le> u32_max) TooLarge) (\<lambda>_.
     and_then (ensure (length output \<le> u32_max) ClassicBounds) (\<lambda>_.
     write_entries crc (output @ local_record (crc data) name data)
       (directory @ central_record (crc data) name data (length output)) rest)))"

definition write_store_zip ::
  "(string \<Rightarrow> nat) \<Rightarrow> (string \<times> string) list \<Rightarrow> zip_error + string" where
  "write_store_zip crc entries =
     and_then (ensure (\<not> (entries = [] \<or> length entries > MAX_ENTRIES)) BadCount) (\<lambda>_.
     let expanded = sum_list (map (length \<circ> snd) entries) in
     and_then (ensure (expanded \<le> u64_max) TooLarge) (\<lambda>_.
     and_then (ensure (\<not> expanded > MAX_UNCOMPRESSED_BYTES) TooLarge) (\<lambda>_.
     and_then (write_entries crc [] [] entries) (\<lambda>(output, directory).
     and_then (ensure (length output \<le> u32_max) ClassicBounds) (\<lambda>_.
     and_then (ensure (length directory \<le> u32_max) ClassicBounds) (\<lambda>_.
     Ok (output @ directory @ end_record (length entries) (length directory) (length output))))))))"

subsection \<open>Fields of fixed width\<close>

text \<open>
  What the reader relies on of a field: written at some place it is read back there, whatever
  stands before and behind it.
\<close>

locale byte_field =
  fixes put :: "nat \<Rightarrow> string" and get :: "string \<Rightarrow> nat \<Rightarrow> zip_error + nat" and width :: nat
  assumes put_length: "length (put v) = width"
    and get_put: "v < 256 ^ width \<Longrightarrow> get (put v @ r) 0 = Ok v"
    and get_skip: "length p \<le> k \<Longrightarrow> get (p @ r) k = get r (k - length p)"
begin

lemma get_at: "v < 256 ^ width \<Longrightarrow> get (p @ put v @ r) (length p) = Ok v"
  using get_skip [of p "length p"] get_put by simp

lemma get_start: "get (p @ r) (length p) = get r 0"
  using get_skip [of p "length p" r] by simp

lemma get_inside: "get (p @ r) (length p + k) = get r k"
  using get_skip [of p "length p + k" r] by simp

end

lemma byte_value: "(of_char (byte v) :: nat) = v mod 256"
  by simp

interpretation u16: byte_field push_u16 le_u16 2
proof
  show "v < 256 ^ 2 \<Longrightarrow> le_u16 (push_u16 v @ r) 0 = Ok v" for v r
    by (simp add: push_u16_def le_u16_def)
qed (simp_all add: push_u16_def le_u16_def)

lemma base_256: "v < 4294967296 \<Longrightarrow>
    v mod 256 + 256 * (v div 256 mod 256) + 65536 * (v div 65536 mod 256) + 16777216 * (v div 16777216 mod 256) = v"
  for v :: nat
proof -
  assume v: "v < 4294967296"
  let ?a = "v div 256" and ?b = "v div 256 div 256" and ?c = "v div 256 div 256 div 256"
  have d: "v div 65536 = ?b" "v div 16777216 = ?c" by (simp_all add: div_mult2_eq [symmetric])
  have "?c < 256" using v by (simp add: div_mult2_eq [symmetric])
  then have "?c mod 256 = ?c" by simp
  moreover have "v = v mod 256 + 256 * ?a" "?a = ?a mod 256 + 256 * ?b" "?b = ?b mod 256 + 256 * ?c"
    by (simp_all only: mod_mult_div_eq)
  ultimately show ?thesis unfolding d by linarith
qed

interpretation u32: byte_field push_u32 le_u32 4
proof
  show "v < 256 ^ 4 \<Longrightarrow> le_u32 (push_u32 v @ r) 0 = Ok v" for v r
    using base_256 [of v] by (simp add: push_u32_def le_u32_def)
qed (simp_all add: push_u32_def le_u32_def)

lemmas field_length [simp] = u16.put_length u32.put_length
lemmas byte_field_simps = u16.get_start u32.get_start u16.get_skip u32.get_skip u16.get_put u32.get_put u16.get_inside u32.get_inside

subsection \<open>The records of the writer are read back\<close>

lemma record_lengths [simp]:
  "length (local_record c name data) = 30 + length name + length data"
  "length (central_record c name data off) = 46 + length name"
  "length (end_record n k off) = 22"
  by (simp_all add: local_record_def central_record_def end_record_def)

definition writable :: "(string \<Rightarrow> nat) \<Rightarrow> string \<times> string \<Rightarrow> bool" where
  "writable crc e = (crc (snd e) < 4294967296 \<and> length (fst e) < 65536 \<and>
     length (snd e) \<le> MAX_ENTRY_UNCOMPRESSED_BYTES \<and> utf8_valid (fst e) \<and> \<not> unsafe_name (fst e))"

definition header_of :: "nat \<Rightarrow> string \<Rightarrow> string \<Rightarrow> nat \<Rightarrow> central_header" where
  "header_of c name data off =
     \<lparr>h_flags = 0x0800, h_method = 0, h_crc = c, h_compressed = length data, h_uncompressed = length data,
      h_name_len = length name, h_extra_len = 0, h_comment_len = 0, h_local_offset = off\<rparr>"

lemma read_central_record:
  assumes "c < 4294967296" "length data < 4294967296" "length name < 65536" "off < 4294967296"
  shows "read_central (pre @ central_record c name data off @ post) (length pre) =
    Ok (header_of c name data off)"
  using assms
  by (simp add: read_central_def central_record_def header_of_def byte_field_simps ensure_def)

definition local_head :: "nat \<Rightarrow> string \<Rightarrow> string \<Rightarrow> string" where
  "local_head c name data =
     push_u32 0x04034b50 @ push_u16 20 @ push_u16 0x0800 @ push_u16 0 @ push_u16 0 @ push_u16 0x0021 @
     push_u32 c @ push_u32 (length data) @ push_u32 (length data) @ push_u16 (length name) @ push_u16 0"

lemma local_head: "local_record c name data = local_head c name data @ name @ data"
  "length (local_head c name data) = 30"
  by (simp_all add: local_record_def local_head_def)

lemma local_fields:
  assumes "length name < 65536"
  shows "le_u32 (pre @ local_head c name data @ r) (length pre) = Ok 0x04034b50"
    "le_u16 (pre @ local_head c name data @ r) (length pre + 6) = Ok 0x0800"
    "le_u16 (pre @ local_head c name data @ r) (length pre + 8) = Ok 0"
    "le_u16 (pre @ local_head c name data @ r) (length pre + 26) = Ok (length name)"
    "le_u16 (pre @ local_head c name data @ r) (length pre + 28) = Ok 0"
  using assms by (simp_all add: local_head_def byte_field_simps)

lemma read_local_record:
  assumes "length name < 65536"
  shows "read_local_entry inflate (pre @ local_record c name data @ post) (length pre) name 0x0800 0
    (length data) (length data) = Ok data"
proof -
  let ?B = "pre @ local_head c name data @ name @ data @ post"
  have d: "drop (length pre + 30) ?B = name @ data @ post"
    using local_head(2) [of c name data] by simp
  have d2: "drop (length pre + 30 + length name) ?B = data @ post"
    using local_head(2) [of c name data] by simp
  have l: "length ?B = length pre + 30 + length name + length data + length post"
    using local_head(2) [of c name data] by simp
  show ?thesis
    unfolding local_head(1) append_assoc read_local_entry_def Let_def
    by (simp only: local_fields [OF assms] and_then.simps add_0_right d d2 l) (simp add: ensure_def)
qed

subsection \<open>Finding the end record\<close>

lemma end_fields:
  assumes "n < 65536" "k < 4294967296" "off < 4294967296"
  shows "le_u16 (pre @ end_record n k off) (length pre + 4) = Ok 0"
    "le_u16 (pre @ end_record n k off) (length pre + 6) = Ok 0"
    "le_u16 (pre @ end_record n k off) (length pre + 10) = Ok n"
    "le_u32 (pre @ end_record n k off) (length pre + 12) = Ok k"
    "le_u32 (pre @ end_record n k off) (length pre + 16) = Ok off"
    "le_u16 (pre @ end_record n k off) (length pre + 20) = Ok 0"
  using assms u16.get_put [of 0 "[]"] by (simp_all add: end_record_def byte_field_simps)

text \<open>
  No other place of the end record looks like its signature, as long as the directory lies below
  80 MiB: the top bytes of its size and offset are then less than five.
\<close>

lemma no_inner_signature:
  assumes "n1 \<notin> {CHR 0x50, CHR 0x4b}" "s3 \<notin> {CHR 0x05, CHR 0x06, CHR 0x4b, CHR 0x50}"
    "o3 \<notin> {CHR 0x05, CHR 0x06, CHR 0x4b}" "k \<in> set [1..<19]"
  shows "take 4 (drop k [CHR 0x50, CHR 0x4b, CHR 0x05, CHR 0x06, CHR 0x00, CHR 0x00, CHR 0x00, CHR 0x00,
    n0, n1, n0, n1, s0, s1, s2, s3, o0, o1, o2, o3, CHR 0x00, CHR 0x00]) \<noteq> eocd_signature"
proof -
  have "[1..<19] = [1, 2, 3, 4, 5, 6, 7, 8, 9, 10, 11, 12, 13, 14, 15, 16, 17, 18]" by (simp add: upt_rec)
  then have "k = 1 \<or> k = 2 \<or> k = 3 \<or> k = 4 \<or> k = 5 \<or> k = 6 \<or> k = 7 \<or> k = 8 \<or> k = 9 \<or> k = 10 \<or>
      k = 11 \<or> k = 12 \<or> k = 13 \<or> k = 14 \<or> k = 15 \<or> k = 16 \<or> k = 17 \<or> k = 18"
    using assms(4) by simp
  then show ?thesis
    using assms(1-3) by (elim disjE) (simp_all add: eocd_signature_def)
qed

lemma byte_eq: "char_of m = c \<longleftrightarrow> m mod 256 = (of_char c :: nat)" for m :: nat
  by (simp add: char_of_eq_iff take_bit_eq_mod)

lemma end_record_inner:
  assumes "n \<le> 4096" "k < 0x05000000" "off < 0x05000000" "i \<in> set [1..<19]"
  shows "take 4 (drop i (end_record n k off)) \<noteq> eocd_signature"
proof -
  have n: "byte (n div 256) \<notin> {CHR 0x50, CHR 0x4b}"
    using assms(1) by (auto simp: byte_eq)
  have k: "byte (k div 16777216) \<notin> {CHR 0x05, CHR 0x06, CHR 0x4b, CHR 0x50}"
    using assms(2) by (auto simp: byte_eq)
  have o: "byte (off div 16777216) \<notin> {CHR 0x05, CHR 0x06, CHR 0x4b}"
    using assms(3) by (auto simp: byte_eq)
  have "end_record n k off = [CHR 0x50, CHR 0x4b, CHR 0x05, CHR 0x06, CHR 0x00, CHR 0x00, CHR 0x00, CHR 0x00,
      byte n, byte (n div 256), byte n, byte (n div 256), byte k, byte (k div 256), byte (k div 65536),
      byte (k div 16777216), byte off, byte (off div 256), byte (off div 65536), byte (off div 16777216),
      CHR 0x00, CHR 0x00]"
    by (simp add: end_record_def push_u16_def push_u32_def byte_eq)
  then show ?thesis using no_inner_signature [OF n k o assms(4)] by simp
qed

lemma end_record_signature: "take 4 (end_record n k off) = eocd_signature"
  by (simp add: end_record_def push_u32_def eocd_signature_def byte_eq)

lemma eocd_scan_skip:
  "(\<forall>i \<in> set xs. take 4 (drop i bytes) \<noteq> eocd_signature) \<Longrightarrow> eocd_scan bytes (xs @ ys) = eocd_scan bytes ys"
  by (induction xs) auto

lemma find_end_record:
  assumes "n \<le> 4096" "k < 0x05000000" "off < 0x05000000"
  shows "find_eocd (pre @ end_record n k off) = Ok (length pre)"
proof -
  let ?B = "pre @ end_record n k off" and ?e = "length pre"
  have b: "length ?B = ?e + 22" by simp
  let ?inner = "rev (map ((+) ?e) [1..<19])" and ?rest = "rev [length ?B - 65557..<?e]"
  have "[length ?B - 65557..<length ?B - 4 + 1] = [length ?B - 65557..<?e] @ [?e..<?e + 19]"
    using upt_add_eq_append [of "length ?B - 65557" ?e 19] b by (simp add: add.commute)
  also have "[?e..<?e + 19] = ?e # map ((+) ?e) [1..<19]"
    by (simp add: upt_conv_Cons map_add_upt [symmetric] add.commute)
  finally have order: "rev [length ?B - 65557..<length ?B - 4 + 1] = ?inner @ ?e # ?rest" by simp
  have "\<forall>i \<in> set ?inner. take 4 (drop i ?B) \<noteq> eocd_signature"
  proof
    fix i
    assume "i \<in> set ?inner"
    then obtain j where "j \<in> set [1..<19]" "i = ?e + j" unfolding set_rev set_map by blast
    then show "take 4 (drop i ?B) \<noteq> eocd_signature" using end_record_inner [OF assms, of j] by simp
  qed
  then have "eocd_scan ?B (?inner @ ?e # ?rest) = eocd_scan ?B (?e # ?rest)"
    by (rule eocd_scan_skip)
  moreover have "eocd_scan ?B (?e # ?rest) = Ok ?e"
    using assms end_fields [of n k off pre] end_record_signature [of n k off] by simp
  ultimately show ?thesis
    unfolding find_eocd_def order by simp
qed

subsection \<open>The round trip\<close>

type_synonym placement = "string \<times> string \<times> nat"

fun placed :: "nat \<Rightarrow> (string \<times> string) list \<Rightarrow> placement list" where
  "placed off [] = []"
| "placed off ((n, d) # es) = (n, d, off) # placed (off + (30 + length n + length d)) es"

definition locals :: "(string \<Rightarrow> nat) \<Rightarrow> (string \<times> string) list \<Rightarrow> string" where
  "locals crc es = concat (map (\<lambda>(n, d). local_record (crc d) n d) es)"

definition centrals :: "(string \<Rightarrow> nat) \<Rightarrow> placement list \<Rightarrow> string" where
  "centrals crc ps = concat (map (\<lambda>(n, d, off). central_record (crc d) n d off) ps)"

lemma locals_simps [simp]:
  "locals crc [] = []" "locals crc ((n, d) # es) = local_record (crc d) n d @ locals crc es"
  by (simp_all add: locals_def)

lemma centrals_simps [simp]:
  "centrals crc [] = []"
  "centrals crc ((n, d, off) # ps) = central_record (crc d) n d off @ centrals crc ps"
  by (simp_all add: centrals_def)

lemma length_placed [simp]: "length (placed off es) = length es"
  by (induction off es rule: placed.induct) auto

lemma placed_entries: "map (\<lambda>(n, d, off). (n, d)) (placed off es) = es"
  by (induction off es rule: placed.induct) auto

lemma placed_entry: "(n, d, off) \<in> set (placed o' es) \<Longrightarrow> (n, d) \<in> set es"
  by (induction o' es rule: placed.induct) auto

lemma write_entries_Ok:
  "write_entries crc out dir es = Ok r \<Longrightarrow>
     r = (out @ locals crc es, dir @ centrals crc (placed (length out) es))"
  by (induction crc out dir es rule: write_entries.induct) (auto simp: result_simps validate_entry_name_def)

lemma placed_located:
  "(n, d, off) \<in> set (placed (length out) es) \<Longrightarrow>
     \<exists>p q. out @ locals crc es = p @ local_record (crc d) n d @ q \<and> length p = off"
proof (induction es arbitrary: out)
  case (Cons e es)
  obtain n' d' where e: "e = (n', d')" by (cases e)
  from Cons.prems consider "(n, d, off) = (n', d', length out)"
    | "(n, d, off) \<in> set (placed (length (out @ local_record (crc d') n' d')) es)"
    by (auto simp: e)
  then show ?case
  proof cases
    case 1
    then show ?thesis by (auto simp: e)
  next
    case 2
    from Cons.IH [OF this] show ?thesis by (simp add: e)
  qed
qed simp

definition readable :: "(string \<Rightarrow> nat) \<Rightarrow> string \<Rightarrow> placement \<Rightarrow> bool" where
  "readable crc bytes q = (case q of (n, d, off) \<Rightarrow> writable crc (n, d) \<and> off < 4294967296 \<and>
     (\<exists>p r. bytes = p @ local_record (crc d) n d @ r \<and> length p = off))"

lemma supported_header: "supported (header_of c n d off)"
  by (simp add: supported_def header_of_def)

lemma limits_header:
  "length d \<le> MAX_ENTRY_UNCOMPRESSED_BYTES \<Longrightarrow> k \<le> MAX_UNCOMPRESSED_BYTES \<Longrightarrow>
   within_limits (header_of c n d off) k"
  by (cases "length d = 0") (simp_all add: within_limits_def header_of_def max_def)

lemma read_entries_step:
  assumes "bytes = pre @ central_record (crc d) n d off @ post" "readable crc bytes (n, d, off)"
    and "m n = None" "expanded + length d \<le> MAX_UNCOMPRESSED_BYTES"
    and "length pre + (46 + length n) \<le> directory_end"
  shows "read_entries inflate crc bytes directory_end (Suc k) (length pre) expanded m =
    read_entries inflate crc bytes directory_end k (length pre + (46 + length n)) (expanded + length d)
      (m(n \<mapsto> d))"
proof -
  have w: "crc d < 4294967296" "length n < 65536" "length d \<le> MAX_ENTRY_UNCOMPRESSED_BYTES"
    "utf8_valid n" "\<not> unsafe_name n" "off < 4294967296"
    using assms(2) by (simp_all add: readable_def writable_def)
  have ld: "length d < 4294967296" using w(3) by (simp add: MAX_ENTRY_UNCOMPRESSED_BYTES_def)
  obtain p r where loc: "bytes = p @ local_record (crc d) n d @ r" "length p = off"
    using assms(2) by (auto simp: readable_def)
  have hd: "read_central bytes (length pre) = Ok (header_of (crc d) n d off)"
    unfolding assms(1) by (rule read_central_record) (use w ld in auto)
  have lr: "read_local_entry inflate bytes off n 0x0800 0 (length d) (length d) = Ok d"
    using read_local_record [OF w(2), of inflate p "crc d" d r] loc by simp
  have nm: "take (length n) (drop (length pre + 46) bytes) = n"
  proof -
    have "bytes = (pre @ take 46 (central_record (crc d) n d off)) @ n @ post"
      unfolding assms(1) by (simp add: central_record_def push_u16_def push_u32_def)
    moreover have "length (pre @ take 46 (central_record (crc d) n d off)) = length pre + 46" by simp
    ultimately show ?thesis by (metis append_eq_conv_conj)
  qed
  have len: "length pre + 46 + length n \<le> length bytes" unfolding assms(1) by simp
  have h: "h_uncompressed (header_of (crc d) n d off) = length d" "h_name_len (header_of (crc d) n d off) = length n"
    "h_local_offset (header_of (crc d) n d off) = off" "h_flags (header_of (crc d) n d off) = 0x0800"
    "h_method (header_of (crc d) n d off) = 0" "h_compressed (header_of (crc d) n d off) = length d"
    "h_crc (header_of (crc d) n d off) = crc d" "h_extra_len (header_of (crc d) n d off) = 0"
    "h_comment_len (header_of (crc d) n d off) = 0"
    by (simp_all add: header_of_def)
  have "expanded + length d \<le> u64_max"
    using assms(4) by (simp add: MAX_UNCOMPRESSED_BYTES_def u64_max_def)
  then show ?thesis
    using limits_header [OF w(3) assms(4)] len assms(3,5) w
    by (simp add: hd supported_header h nm lr Let_def ensure_def validate_entry_name_def add.assoc)
qed

lemma map_add_fresh:
  assumes "n \<notin> fst ` set es"
  shows "m(n \<mapsto> d) ++ map_of es = m ++ map_of ((n, d) # es)"
proof
  fix x
  have "map_of es n = None" using assms by (simp add: map_of_eq_None_iff)
  then show "(m(n \<mapsto> d) ++ map_of es) x = (m ++ map_of ((n, d) # es)) x"
    by (auto simp: map_add_def split: option.splits)
qed

lemma read_entries_all:
  assumes "bytes = pre @ centrals crc ps @ post" "\<forall>q \<in> set ps. readable crc bytes q"
    and "distinct (map fst ps)" "\<forall>q \<in> set ps. m (fst q) = None"
    and "expanded + sum_list (map (\<lambda>(n, d, off). length d) ps) \<le> MAX_UNCOMPRESSED_BYTES"
  shows "read_entries inflate crc bytes (length pre + length (centrals crc ps)) (length ps) (length pre) expanded m =
    Ok (length pre + length (centrals crc ps), m ++ map_of (map (\<lambda>(n, d, off). (n, d)) ps))"
  using assms
proof (induction ps arbitrary: pre m expanded)
  case (Cons q ps)
  obtain n d off where q: "q = (n, d, off)" by (cases q)
  let ?pre = "pre @ central_record (crc d) n d off"
  have b: "bytes = pre @ central_record (crc d) n d off @ centrals crc ps @ post"
    and b': "bytes = ?pre @ centrals crc ps @ post"
    using Cons.prems(1) by (simp_all add: q)
  have "read_entries inflate crc bytes (length ?pre + length (centrals crc ps)) (length ps) (length ?pre)
      (expanded + length d) (m(n \<mapsto> d)) =
    Ok (length ?pre + length (centrals crc ps), m(n \<mapsto> d) ++ map_of (map (\<lambda>(n, d, off). (n, d)) ps))"
  proof (rule Cons.IH [OF b'])
    show "\<forall>q \<in> set ps. (m(n \<mapsto> d)) (fst q) = None"
      using Cons.prems(3,4) by (auto simp: q image_iff)
  qed (use Cons.prems(2,3,5) in \<open>simp_all add: q\<close>)
  moreover have "m(n \<mapsto> d) ++ map_of (map (\<lambda>(n, d, off). (n, d)) ps) =
      m ++ map_of (map (\<lambda>(n, d, off). (n, d)) (q # ps))"
    using map_add_fresh [of n "map (\<lambda>(n, d, off). (n, d)) ps" m d] Cons.prems(3)
    by (force simp: q image_iff)
  moreover have "read_entries inflate crc bytes (length ?pre + length (centrals crc ps)) (Suc (length ps))
      (length pre) expanded m =
    read_entries inflate crc bytes (length ?pre + length (centrals crc ps)) (length ps)
      (length pre + (46 + length n)) (expanded + length d) (m(n \<mapsto> d))"
    by (rule read_entries_step [where crc = crc, OF b]) (use Cons.prems(2,4,5) in \<open>auto simp: q\<close>)
  moreover have "length ?pre = length pre + (46 + length n)"
    "length pre + length (centrals crc (q # ps)) = length ?pre + length (centrals crc ps)"
    by (simp_all add: q)
  ultimately show ?case by (simp only: list.size(4) add_0_right add_Suc_right)
qed simp

lemma write_entries_names:
  "write_entries crc out dir es = Ok r \<Longrightarrow> \<forall>e \<in> set es. \<not> unsafe_name (fst e)"
  by (induction crc out dir es rule: write_entries.induct)
    (auto simp: result_simps validate_entry_name_def split: if_splits)

lemma write_store_Ok:
  assumes "write_store_zip crc es = Ok z"
  shows "z = locals crc es @ centrals crc (placed 0 es) @
      end_record (length es) (length (centrals crc (placed 0 es))) (length (locals crc es))"
    and "es \<noteq> []" "length es \<le> MAX_ENTRIES" "\<forall>e \<in> set es. \<not> unsafe_name (fst e)"
    and "sum_list (map (length \<circ> snd) es) \<le> MAX_UNCOMPRESSED_BYTES"
proof -
  from assms obtain out dir where w: "write_entries crc [] [] es = Ok (out, dir)"
    and z: "z = out @ dir @ end_record (length es) (length dir) (length out)"
    and rest: "es \<noteq> []" "length es \<le> MAX_ENTRIES"
      "sum_list (map (length \<circ> snd) es) \<le> MAX_UNCOMPRESSED_BYTES"
    by (auto simp: write_store_zip_def Let_def and_then_eq_Ok ensure_eq_Ok)
  show "es \<noteq> []" "length es \<le> MAX_ENTRIES" "sum_list (map (length \<circ> snd) es) \<le> MAX_UNCOMPRESSED_BYTES"
    by (fact rest)+
  show "\<forall>e \<in> set es. \<not> unsafe_name (fst e)" by (rule write_entries_names [OF w])
  show "z = locals crc es @ centrals crc (placed 0 es) @
      end_record (length es) (length (centrals crc (placed 0 es))) (length (locals crc es))"
    using write_entries_Ok [OF w] z by simp
qed

lemma placed_sizes: "sum_list (map (\<lambda>(n, d, off). length d) (placed off es)) = sum_list (map (length \<circ> snd) es)"
  by (induction off es rule: placed.induct) auto

lemma placed_names: "map fst (placed off es) = map fst es"
  by (induction off es rule: placed.induct) auto

lemma placed_offset: "(n, d, off) \<in> set (placed o' es) \<Longrightarrow> off \<le> o' + length (locals crc es)"
  by (induction o' es rule: placed.induct) fastforce+

definition storable :: "(string \<Rightarrow> nat) \<Rightarrow> string \<times> string \<Rightarrow> bool" where
  "storable crc e = (utf8_valid (fst e) \<and> length (fst e) < 65536 \<and> length (snd e) \<le> 67108864 \<and>
     crc (snd e) < 4294967296)"

lemma read_written:
  assumes w: "write_store_zip crc es = Ok z" and ok: "\<forall>e \<in> set es. storable crc e"
    and dist: "distinct (map fst es)" and len: "length z < 83886080"
  shows "read_zip inflate crc z = Ok (map_of es)"
proof -
  note wr = write_store_Ok [OF w]
  let ?ps = "placed 0 es" let ?L = "locals crc es" let ?C = "centrals crc ?ps"
  let ?E = "end_record (length es) (length ?C) (length ?L)"
  have z: "z = (?L @ ?C) @ ?E" using wr(1) by simp
  have small: "length ?C < 0x05000000" "length ?L < 0x05000000" using len unfolding z by simp_all
  have n: "length es \<le> 4096" using wr(3) by (simp add: MAX_ENTRIES_def)
  have e: "find_eocd z = Ok (length (?L @ ?C))" unfolding z by (rule find_end_record) (use small n in auto)
  have "length es < 65536" "length ?C < 4294967296" "length ?L < 4294967296" using n small by auto
  note f = end_fields(3-5) [OF this, of "?L @ ?C", folded z]
  have "\<forall>q \<in> set ?ps. readable crc z q"
  proof clarify
    fix n d off
    assume q: "(n, d, off) \<in> set ?ps"
    obtain p r where "?L = p @ local_record (crc d) n d @ r" "length p = off"
      using placed_located [of n d off "[]" es crc] q by auto
    then have "z = p @ local_record (crc d) n d @ (r @ ?C @ ?E)" unfolding z by simp
    moreover have "off < 4294967296" using placed_offset [OF q, of crc] small(2) by simp
    moreover have "writable crc (n, d)"
      using placed_entry [OF q] ok wr(4)
      by (auto simp: storable_def writable_def MAX_ENTRY_UNCOMPRESSED_BYTES_def)
    ultimately show "readable crc z (n, d, off)" using \<open>length p = off\<close> by (auto simp: readable_def)
  qed
  moreover have "z = ?L @ ?C @ ?E" using z by simp
  moreover have "distinct (map fst ?ps)" using dist by (simp add: placed_names)
  moreover have "0 + sum_list (map (\<lambda>(n, d, off). length d) ?ps) \<le> MAX_UNCOMPRESSED_BYTES"
    using wr(5) by (simp add: placed_sizes)
  ultimately have "read_entries inflate crc z (length ?L + length ?C) (length ?ps) (length ?L) 0 Map.empty =
      Ok (length ?L + length ?C, Map.empty ++ map_of (map (\<lambda>(n, d, off). (n, d)) ?ps))"
    by (intro read_entries_all) auto
  then have r: "read_entries inflate crc z (length ?L + length ?C) (length es) (length ?L) 0 Map.empty =
      Ok (length ?L + length ?C, map_of es)"
    by (simp add: placed_entries)
  show ?thesis
    using n wr(2) by (simp add: read_zip_def e f [simplified] r ensure_def MAX_ENTRIES_def)
qed

subsection \<open>What the reader lets through\<close>

definition expanded_size :: "(string \<rightharpoonup> string) \<Rightarrow> nat" where
  "expanded_size m = (\<Sum>n \<in> dom m. length (the (m n)))"

definition safe_package :: "nat \<Rightarrow> (string \<rightharpoonup> string) \<Rightarrow> bool" where
  "safe_package expanded m \<longleftrightarrow> finite (dom m) \<and> expanded_size m \<le> expanded \<and> expanded \<le> MAX_UNCOMPRESSED_BYTES \<and>
     (\<forall>n d. m n = Some d \<longrightarrow> utf8_valid n \<and> \<not> unsafe_name n \<and> length d \<le> MAX_ENTRY_UNCOMPRESSED_BYTES)"

lemma read_local_length:
  "read_local_entry inflate bytes off n fl me k u = Ok d \<Longrightarrow> length d = u"
  by (auto simp: read_local_entry_def Let_def and_then_eq_Ok ensure_eq_Ok)

lemma expanded_size_insert:
  "finite (dom m) \<Longrightarrow> m n = None \<Longrightarrow> expanded_size (m(n \<mapsto> d)) = length d + expanded_size m"
proof -
  assume fin: "finite (dom m)" and none: "m n = None"
  then have "n \<notin> dom m" by auto
  moreover have "(\<Sum>x \<in> dom m. length (the ((m(n \<mapsto> d)) x))) = (\<Sum>x \<in> dom m. length (the (m x)))"
    using \<open>n \<notin> dom m\<close> by (intro sum.cong) auto
  ultimately show ?thesis using fin by (simp add: expanded_size_def)
qed

lemma read_entries_safe:
  assumes "read_entries inflate crc bytes de k cursor expanded m = Ok (c, m')" "safe_package expanded m"
  shows "(\<exists>expanded'. safe_package expanded' m') \<and> card (dom m') = card (dom m) + k"
  using assms
proof (induction k arbitrary: cursor expanded m)
  case (Suc k)
  from Suc.prems(1) obtain h name data cursor' where
    lim: "within_limits h (expanded + h_uncompressed h)" and
    nm: "utf8_valid name" "validate_entry_name name = Ok ()" "m name = None" and
    ld: "read_local_entry inflate bytes (h_local_offset h) name (h_flags h) (h_method h)
       (h_compressed h) (h_uncompressed h) = Ok data" and
    rest: "read_entries inflate crc bytes de k cursor' (expanded + h_uncompressed h) (m(name \<mapsto> data)) = Ok (c, m')"
    by (auto simp: Let_def and_then_eq_Ok ensure_eq_Ok)
  have len: "length data = h_uncompressed h" by (rule read_local_length [OF ld])
  have "\<not> unsafe_name name" using nm(2) by (simp add: validate_entry_name_def split: if_splits)
  then have "safe_package (expanded + h_uncompressed h) (m(name \<mapsto> data))"
    using Suc.prems(2) nm(1,3) lim len
    by (auto simp: safe_package_def within_limits_def expanded_size_insert)
  note ih = Suc.IH [OF rest this]
  have "name \<notin> dom m" "finite (dom m)" using nm(3) Suc.prems(2) by (auto simp: safe_package_def)
  then have "card (dom (m(name \<mapsto> data))) = Suc (card (dom m))" by simp
  with ih show ?case by (simp only: add_Suc add_Suc_right simp_thms)
qed auto

lemma read_zip_package:
  assumes "read_zip inflate crc bytes = Ok m"
  shows "\<exists>expanded. safe_package expanded m" "0 < card (dom m)" "card (dom m) \<le> MAX_ENTRIES"
proof -
  from assms obtain k de cursor c where k: "\<not> (k = 0 \<or> k > MAX_ENTRIES)"
    "read_entries inflate crc bytes de k cursor 0 Map.empty = Ok (c, m)"
    by (auto simp: read_zip_def and_then_eq_Ok ensure_eq_Ok)
  have "safe_package 0 Map.empty" by (simp add: safe_package_def expanded_size_def)
  from read_entries_safe [OF k(2) this] k(1)
  show "\<exists>expanded. safe_package expanded m" "0 < card (dom m)" "card (dom m) \<le> MAX_ENTRIES"
    by auto
qed

subsection \<open>Properties\<close>

text \<open>
  C26. Writing a package and reading it gives the package back: for entries with distinct UTF-8
  names shorter than 65536 bytes and at most 64 MiB of data each, in an archive below 80 MiB, the
  reader returns exactly the entries the writer was given.
\<close>

theorem zip_round_trip:
  assumes "write_store_zip crc es = Ok z" and "\<forall>e \<in> set es. storable crc e"
    and "distinct (map fst es)" and "length z < 83886080"
  shows "read_zip inflate crc z = Ok (map_of es)"
  by (rule read_written [OF assms])

definition demo_entries :: "(string \<times> string) list" where
  "demo_entries = [(''_rels/.rels'', ''<r/>''), (''xl/workbook.xml'', ''<workbook/>'')]"

theorem zip_round_trip_witness:
  "\<exists>z. write_store_zip length demo_entries = Ok z \<and>
     read_zip (\<lambda>_ _. None) length z = Ok (map_of demo_entries)"
proof -
  let ?L = "locals length demo_entries" and ?C = "centrals length (placed 0 demo_entries)"
  have "\<not> unsafe_name ''_rels/.rels''" "\<not> unsafe_name ''xl/workbook.xml''" by code_simp+
  then have w: "write_store_zip length demo_entries = Ok (?L @ ?C @ end_record 2 (length ?C) (length ?L))"
    by (simp add: write_store_zip_def demo_entries_def ensure_def validate_entry_name_def u32_max_def
        u64_max_def MAX_ENTRIES_def MAX_UNCOMPRESSED_BYTES_def numeral_2_eq_2)
  have "utf8_valid ''_rels/.rels''" "utf8_valid ''xl/workbook.xml''" by code_simp+
  then have s: "\<forall>e \<in> set demo_entries. storable length e" by (simp add: demo_entries_def storable_def)
  have "distinct (map fst demo_entries)" by (simp add: demo_entries_def)
  moreover have "length (?L @ ?C @ end_record 2 (length ?C) (length ?L)) < 83886080"
    by (simp add: demo_entries_def)
  ultimately show ?thesis using w zip_round_trip [OF w s] by blast
qed

text \<open>
  C28. Whatever bytes it is given, the reader returns a bounded and safe package or an error: one to
  4096 entries, at most 64 MiB each and 256 MiB together after expansion, under UTF-8 names that
  are relative, without parent segments, backslashes or control characters.
\<close>

theorem read_zip_safe:
  assumes "read_zip inflate crc bytes = Ok m"
  shows "finite (dom m) \<and> 0 < card (dom m) \<and> card (dom m) \<le> 4096 \<and>
    (\<Sum>n \<in> dom m. length (the (m n))) \<le> 268435456 \<and>
    (\<forall>n d. m n = Some d \<longrightarrow> utf8_valid n \<and> \<not> unsafe_name n \<and> length d \<le> 67108864)"
proof -
  obtain expanded where "safe_package expanded m" using read_zip_package(1) [OF assms] by blast
  then show ?thesis
    using read_zip_package(2,3) [OF assms]
    by (auto simp: safe_package_def expanded_size_def MAX_ENTRIES_def MAX_UNCOMPRESSED_BYTES_def
        MAX_ENTRY_UNCOMPRESSED_BYTES_def)
qed

theorem read_zip_safe_witness:
  "\<exists>z. read_zip (\<lambda>_ _. None) length z = Ok (map_of [(''a'', ''x'')]) \<and> card (dom (map_of [(''a'', ''x'')])) \<le> 4096"
proof -
  let ?es = "[(''a'', ''x'')]"
  let ?L = "locals length ?es" and ?C = "centrals length (placed 0 ?es)"
  have "\<not> unsafe_name ''a''" "utf8_valid ''a''" by code_simp+
  then have w: "write_store_zip length ?es = Ok (?L @ ?C @ end_record 1 (length ?C) (length ?L))"
    and s: "\<forall>e \<in> set ?es. storable length e"
    by (simp_all add: write_store_zip_def ensure_def validate_entry_name_def u32_max_def storable_def
        u64_max_def MAX_ENTRIES_def MAX_UNCOMPRESSED_BYTES_def)
  have "read_zip (\<lambda>_ _. None) length (?L @ ?C @ end_record 1 (length ?C) (length ?L)) = Ok (map_of ?es)"
    by (rule read_written [OF w s]) simp_all
  with read_zip_safe [OF this] show ?thesis by blast
qed

text \<open>
  The writer accepts packages its own reader refuses: an entry of one byte more than 64 MiB is
  written without an error, and no reading of the archive returns it.
\<close>

theorem writer_exceeds_reader:
  "\<exists>z. write_store_zip crc [(''a'', replicate 67108865 (CHR ''x''))] = Ok z \<and>
     read_zip inflate crc z \<noteq> Ok (map_of [(''a'', replicate 67108865 (CHR ''x''))])"
proof -
  have "\<not> unsafe_name ''a''" by code_simp
  then have "\<exists>z. write_store_zip crc [(''a'', replicate 67108865 (CHR ''x''))] = Ok z"
    by (simp add: write_store_zip_def ensure_def validate_entry_name_def u32_max_def u64_max_def
        MAX_ENTRIES_def MAX_UNCOMPRESSED_BYTES_def)
  moreover have "m \<noteq> map_of [(''a'', replicate 67108865 (CHR ''x''))]" if "read_zip inflate crc z = Ok m" for z m
  proof
    have "\<exists>expanded. safe_package expanded m" by (rule read_zip_package(1) [OF that])
    moreover assume "m = map_of [(''a'', replicate 67108865 (CHR ''x''))]"
    then have "m ''a'' = Some (replicate 67108865 (CHR ''x''))" by simp
    ultimately have "length (replicate 67108865 (CHR ''x'')) \<le> MAX_ENTRY_UNCOMPRESSED_BYTES"
      unfolding safe_package_def by blast
    then show False by (simp add: MAX_ENTRY_UNCOMPRESSED_BYTES_def)
  qed
  ultimately show ?thesis by blast
qed

end
