(* ===== verification/Unified_Diff.thy ===== *)
theory Unified_Diff
  imports Rust_Path
begin

text \<open>
  The surgical patch directive, \<open>src-tauri/src/shield_gate/unified_diff.rs\<close>: a unified diff is
  parsed into file patches, and each hunk replaces the one place where its old block stands.

  The file system is a map from paths to contents. The sandbox that resolves a relative path, the
  test for a regular file and \<open>fs::write\<close> are arguments (\<open>patch_env\<close>); a write returns whether it
  succeeded and the files after it. The text of the response is not kept.
\<close>

datatype diff_error =
  BadTargetPath | HunkBeforeHeader | ContentBeforeHunk | NoHunks | NewFileHunk | NoMatch | ManyMatches
| OutsideRepository | NotContained | NotRegularFile | ReadFailed | WriteFailed | NotVerified

record hunk =
  old_block :: string
  new_block :: string

record file_patch =
  patch_path :: string
  patch_hunks :: "hunk list"

abbreviation newline :: char where
  "newline \<equiv> CHR 0x0A"

subsection \<open>Parsing\<close>

text \<open>\<open>str::lines\<close>: a line ends at a newline, a carriage return before it belongs to the ending.\<close>

definition strip_cr :: "string \<Rightarrow> string" where
  "strip_cr s = (if s \<noteq> [] \<and> last s = CHR 0x0D then butlast s else s)"

fun lines_from :: "string \<Rightarrow> string \<Rightarrow> string list" where
  "lines_from acc [] = (if acc = [] then [] else [rev acc])"
| "lines_from acc (c # s) =
     (if c = newline then strip_cr (rev acc) # lines_from [] s else lines_from (c # acc) s)"

definition str_lines :: "string \<Rightarrow> string list" where
  "str_lines s = lines_from [] s"

definition trim_quotes :: "string \<Rightarrow> string" where
  "trim_quotes s =
     rev (dropWhile (\<lambda>c. c = CHR 0x22) (rev (dropWhile (\<lambda>c. c = CHR 0x22) s)))"

definition escapes :: "string \<Rightarrow> bool" where
  "escapes path = (starts_with path ''/'' \<or> ParentDir \<in> set (path_components path))"

definition parse_unified_diff_path :: "string \<Rightarrow> string option" where
  "parse_unified_diff_path raw =
     (let path = trim_quotes (trim (hd (split_char (CHR 0x09) (trim raw)))) in
      if path = ''/dev/null'' \<or> path = [] then None
      else
        let path' = (case strip_prefix ''a/'' path of
              Some r \<Rightarrow> r
            | None \<Rightarrow> (case strip_prefix ''b/'' path of Some r \<Rightarrow> r | None \<Rightarrow> path)) in
        if escapes path' then None else Some path')"

record parse_state =
  ps_patches :: "file_patch list"
  ps_current :: "file_patch option"
  ps_in_hunk :: bool

definition flush :: "parse_state \<Rightarrow> file_patch list" where
  "flush st = ps_patches st @ (case ps_current st of None \<Rightarrow> [] | Some p \<Rightarrow> [p])"

definition extend_hunk :: "char \<Rightarrow> string \<Rightarrow> hunk \<Rightarrow> hunk" where
  "extend_hunk c rest h =
     (if c = CHR '' '' then \<lparr>old_block = old_block h @ rest @ [newline], new_block = new_block h @ rest @ [newline]\<rparr>
      else if c = CHR ''-'' then h\<lparr>old_block := old_block h @ rest @ [newline]\<rparr>
      else if c = CHR ''+'' then h\<lparr>new_block := new_block h @ rest @ [newline]\<rparr>
      else h)"

definition parse_line :: "parse_state \<Rightarrow> string \<Rightarrow> diff_error + parse_state" where
  "parse_line st line =
     (if starts_with line ''diff --git '' then Ok (st\<lparr>ps_in_hunk := False\<rparr>)
      else if starts_with line ''--- '' then Ok (st\<lparr>ps_in_hunk := False\<rparr>)
      else case strip_prefix ''+++ '' line of
        Some raw \<Rightarrow>
          and_then (ok_or (parse_unified_diff_path raw) BadTargetPath) (\<lambda>path.
          Ok (st\<lparr>ps_patches := flush st, ps_current := Some \<lparr>patch_path = path, patch_hunks = []\<rparr>\<rparr>))
      | None \<Rightarrow>
          if starts_with line ''@@'' then
            (case ps_current st of
               None \<Rightarrow> Err HunkBeforeHeader
             | Some p \<Rightarrow>
                 Ok (st\<lparr>ps_current := Some (p\<lparr>patch_hunks := patch_hunks p @ [\<lparr>old_block = [], new_block = []\<rparr>]\<rparr>),
                       ps_in_hunk := True\<rparr>))
          else if \<not> ps_in_hunk st then Ok st
          else
            (case ps_current st of
               None \<Rightarrow> Err HunkBeforeHeader
             | Some p \<Rightarrow>
                 if patch_hunks p = [] then Err ContentBeforeHunk
                 else if starts_with line (CHR 0x5C # '' No newline at end of file'') then Ok st
                 else
                   (case line of
                      [] \<Rightarrow> Ok st
                    | c # rest \<Rightarrow>
                        Ok (st\<lparr>ps_current := Some (p\<lparr>patch_hunks :=
                          butlast (patch_hunks p) @ [extend_hunk c rest (last (patch_hunks p))]\<rparr>)\<rparr>))))"

fun parse_lines :: "parse_state \<Rightarrow> string list \<Rightarrow> diff_error + parse_state" where
  "parse_lines st [] = Ok st"
| "parse_lines st (l # ls) = and_then (parse_line st l) (\<lambda>st'. parse_lines st' ls)"

definition start_state :: parse_state where
  "start_state = \<lparr>ps_patches = [], ps_current = None, ps_in_hunk = False\<rparr>"

definition parse_unified_diff :: "string \<Rightarrow> diff_error + file_patch list" where
  "parse_unified_diff diff =
     and_then (parse_lines start_state (str_lines diff)) (\<lambda>st.
     let patches = filter (\<lambda>p. patch_hunks p \<noteq> []) (flush st) in
     if patches = [] then Err NoHunks else Ok patches)"

subsection \<open>Applying\<close>

text \<open>\<open>match_indices\<close>: the matches from left to right, each search resuming behind the last match.\<close>

function match_indices :: "nat \<Rightarrow> string \<Rightarrow> string \<Rightarrow> nat list" where
  "match_indices pos hay needle =
     (if needle = [] \<or> hay = [] then []
      else if starts_with hay needle
      then pos # match_indices (pos + length needle) (drop (length needle) hay) needle
      else match_indices (pos + 1) (tl hay) needle)"
  by pat_completeness auto
termination
  by (relation "measure (\<lambda>(pos, hay, needle). length hay)") auto

declare match_indices.simps [simp del]

definition exact_unified_diff_matches :: "string \<Rightarrow> string \<Rightarrow> (nat \<times> nat) list" where
  "exact_unified_diff_matches haystack needle =
     (if needle = [] then [] else map (\<lambda>s. (s, s + length needle)) (match_indices 0 haystack needle))"

definition replace_range :: "string \<Rightarrow> nat \<Rightarrow> nat \<Rightarrow> string \<Rightarrow> string" where
  "replace_range s a b new = take a s @ new @ drop b s"

definition trim_newlines :: "string \<Rightarrow> string" where
  "trim_newlines s = rev (dropWhile (\<lambda>c. c = newline) (rev s))"

definition apply_unified_diff_hunk :: "string \<Rightarrow> hunk \<Rightarrow> diff_error + string" where
  "apply_unified_diff_hunk original h =
     (if old_block h = [] then Err NewFileHunk
      else case exact_unified_diff_matches original (old_block h) of
        [(a, b)] \<Rightarrow> Ok (replace_range original a b (new_block h))
      | [] \<Rightarrow>
          (case exact_unified_diff_matches original (trim_newlines (old_block h)) of
             [(a, b)] \<Rightarrow> Ok (replace_range original a b (trim_newlines (new_block h)))
           | [] \<Rightarrow> Err NoMatch
           | _ \<Rightarrow> Err ManyMatches)
      | _ \<Rightarrow> Err ManyMatches)"

fun apply_hunks :: "string \<Rightarrow> hunk list \<Rightarrow> diff_error + string" where
  "apply_hunks content [] = Ok content"
| "apply_hunks content (h # hs) =
     and_then (apply_unified_diff_hunk content h) (\<lambda>content'. apply_hunks content' hs)"

type_synonym files = "string \<rightharpoonup> string"

record patch_env =
  sandbox_resolve :: "string \<Rightarrow> string option"
  is_file :: "files \<Rightarrow> string \<Rightarrow> bool"
  fs_write :: "files \<Rightarrow> string \<Rightarrow> string \<Rightarrow> bool \<times> files"

definition guarded_unified_diff_target :: "patch_env \<Rightarrow> files \<Rightarrow> string \<Rightarrow> diff_error + string" where
  "guarded_unified_diff_target env fs path =
     and_then (ensure (\<not> escapes path) OutsideRepository) (\<lambda>_.
     and_then (ok_or (sandbox_resolve env path) NotContained) (\<lambda>target.
     and_then (ensure (is_file env fs target) NotRegularFile) (\<lambda>_. Ok target)))"

text \<open>
  The files are part of the result on every path: a failure leaves what earlier patches wrote.
\<close>

fun apply_patches ::
  "patch_env \<Rightarrow> files \<Rightarrow> file_patch list \<Rightarrow> string list \<Rightarrow> nat \<Rightarrow>
   files \<times> (diff_error + string list \<times> nat)" where
  "apply_patches env fs [] done hunks = (fs, Ok (done, hunks))"
| "apply_patches env fs (p # ps) done hunks =
     (case guarded_unified_diff_target env fs (patch_path p) of
        Inl e \<Rightarrow> (fs, Err e)
      | Inr target \<Rightarrow>
          (case fs target of
             None \<Rightarrow> (fs, Err ReadFailed)
           | Some content0 \<Rightarrow>
               (case apply_hunks content0 (patch_hunks p) of
                  Inl e \<Rightarrow> (fs, Err e)
                | Inr content \<Rightarrow>
                    (let (ok, fs') = fs_write env fs target content in
                     if \<not> ok then (fs', Err WriteFailed)
                     else if fs' target \<noteq> Some content then (fs', Err NotVerified)
                     else apply_patches env fs' ps (done @ [target]) (hunks + length (patch_hunks p))))))"

definition apply_unified_diff_directive ::
  "patch_env \<Rightarrow> files \<Rightarrow> string \<Rightarrow> files \<times> (diff_error + string list \<times> nat)" where
  "apply_unified_diff_directive env fs diff =
     (case parse_unified_diff diff of
        Inl e \<Rightarrow> (fs, Err e)
      | Inr patches \<Rightarrow> apply_patches env fs patches [] 0)"

subsection \<open>Where a block stands\<close>

definition occurs_at :: "string \<Rightarrow> string \<Rightarrow> nat \<Rightarrow> bool" where
  "occurs_at hay needle i \<longleftrightarrow> (\<exists>pre post. hay = pre @ needle @ post \<and> length pre = i)"

lemma match_indices_sound:
  "s \<in> set (match_indices pos hay needle) \<Longrightarrow> \<exists>i. s = pos + i \<and> occurs_at hay needle i"
proof (induction pos hay needle rule: match_indices.induct)
  case (1 pos hay needle)
  show ?case
  proof (cases "needle = [] \<or> hay = []")
    case True
    then show ?thesis using "1.prems" by (simp add: match_indices.simps [of pos])
  next
    case False
    show ?thesis
    proof (cases "starts_with hay needle")
      case True
      then obtain r where r: "hay = needle @ r" by (auto simp: starts_with_iff)
      from "1.prems" False True consider "s = pos"
        | "s \<in> set (match_indices (pos + length needle) (drop (length needle) hay) needle)"
        by (auto simp: match_indices.simps [of pos])
      then show ?thesis
      proof cases
        case 1
        then show ?thesis by (auto simp: occurs_at_def r intro!: exI [of _ 0])
      next
        case 2
        with "1.IH"(1) [OF False True] obtain i pre post where
          i: "s = pos + length needle + i" "r = pre @ needle @ post" "length pre = i"
          by (auto simp: occurs_at_def r)
        then show ?thesis
          unfolding occurs_at_def r
          by (intro exI [of _ "length needle + i"] conjI exI [of _ "needle @ pre"] exI [of _ post]) auto
      qed
    next
      case no: False
      then have "s \<in> set (match_indices (pos + 1) (tl hay) needle)"
        using "1.prems" False by (simp add: match_indices.simps [of pos])
      with "1.IH"(2) [OF False no] obtain i pre post where
        i: "s = pos + 1 + i" "tl hay = pre @ needle @ post" "length pre = i"
        by (auto simp: occurs_at_def)
      moreover from False obtain c r where "hay = c # r" by (cases hay) auto
      ultimately show ?thesis
        unfolding occurs_at_def
        by (intro exI [of _ "Suc i"] conjI exI [of _ "c # pre"] exI [of _ post]) auto
    qed
  qed
qed

lemma match_indices_none:
  "needle \<noteq> [] \<Longrightarrow> match_indices pos hay needle = [] \<longleftrightarrow> \<not> contains_str hay needle"
proof (induction pos hay needle rule: match_indices.induct)
  case (1 pos hay needle)
  show ?case
  proof (cases hay)
    case Nil
    then show ?thesis using "1.prems" by (simp add: match_indices.simps [of pos])
  next
    case (Cons c r)
    then show ?thesis
      using "1.IH"(2) "1.prems" by (auto simp: match_indices.simps [of pos])
  qed
qed

lemma exact_one:
  assumes "exact_unified_diff_matches hay needle = [(a, b)]"
  obtains pre post where "hay = pre @ needle @ post" "\<And>new. replace_range hay a b new = pre @ new @ post"
proof -
  from assms have "a \<in> set (match_indices 0 hay needle)" "b = a + length needle"
    by (auto simp: exact_unified_diff_matches_def split: if_splits)
  then obtain pre post where "hay = pre @ needle @ post" "length pre = a" "b = a + length needle"
    using match_indices_sound [of a 0 hay needle] by (auto simp: occurs_at_def)
  then show thesis by (intro that [of pre post]) (auto simp: replace_range_def)
qed

lemma exact_none:
  "exact_unified_diff_matches hay needle = [] \<longleftrightarrow> needle = [] \<or> \<not> contains_str hay needle"
  by (auto simp: exact_unified_diff_matches_def match_indices_none)

lemma apply_hunk_Ok:
  assumes "apply_unified_diff_hunk original h = Ok out"
  shows "\<exists>pre post. (original = pre @ old_block h @ post \<and> out = pre @ new_block h @ post) \<or>
    (\<not> contains_str original (old_block h) \<and> original = pre @ trim_newlines (old_block h) @ post \<and>
     out = pre @ trim_newlines (new_block h) @ post)"
proof -
  have ne: "old_block h \<noteq> []" using assms by (auto simp: apply_unified_diff_hunk_def)
  let ?m = "exact_unified_diff_matches original (old_block h)"
  let ?t = "exact_unified_diff_matches original (trim_newlines (old_block h))"
  consider a b where "?m = [(a, b)]" "out = replace_range original a b (new_block h)"
    | a b where "?m = []" "?t = [(a, b)]" "out = replace_range original a b (trim_newlines (new_block h))"
    using assms ne by (auto simp: apply_unified_diff_hunk_def split: list.splits)
  then show ?thesis
  proof cases
    case 1
    then show ?thesis by (metis exact_one)
  next
    case 2
    then show ?thesis using ne by (metis exact_one exact_none)
  qed
qed

lemma apply_hunk_NoMatch:
  "apply_unified_diff_hunk original h = Err NoMatch \<longleftrightarrow>
     old_block h \<noteq> [] \<and> \<not> contains_str original (old_block h) \<and>
     (trim_newlines (old_block h) = [] \<or> \<not> contains_str original (trim_newlines (old_block h)))"
  using exact_none [of original "old_block h"] exact_none [of original "trim_newlines (old_block h)"]
  by (auto simp: apply_unified_diff_hunk_def split: list.splits)

subsection \<open>Rendering and parsing\<close>

datatype diff_line = Context string | Removed string | Added string

fun render_line :: "diff_line \<Rightarrow> string" where
  "render_line (Context t) = CHR '' '' # t"
| "render_line (Removed t) = CHR ''-'' # t"
| "render_line (Added t) = CHR ''+'' # t"

fun add_line :: "diff_line \<Rightarrow> hunk \<Rightarrow> hunk" where
  "add_line (Context t) h = extend_hunk (CHR '' '') t h"
| "add_line (Removed t) h = extend_hunk (CHR ''-'') t h"
| "add_line (Added t) h = extend_hunk (CHR ''+'') t h"

definition hunk_of :: "diff_line list \<Rightarrow> hunk" where
  "hunk_of ls = fold add_line ls \<lparr>old_block = [], new_block = []\<rparr>"

type_synonym diff_file = "string \<times> diff_line list list"

definition render_file :: "diff_file \<Rightarrow> string list" where
  "render_file f = [''--- a/'' @ fst f, ''+++ b/'' @ fst f] @
     concat (map (\<lambda>ls. ''@@ -1 +1 @@'' # map render_line ls) (snd f))"

definition render_diff :: "diff_file list \<Rightarrow> string" where
  "render_diff fs = concat (map (\<lambda>l. l @ [newline]) (concat (map render_file fs)))"

definition patch_of :: "diff_file \<Rightarrow> file_patch" where
  "patch_of f = \<lparr>patch_path = fst f, patch_hunks = map hunk_of (snd f)\<rparr>"

definition plain_text :: "string \<Rightarrow> bool" where
  "plain_text t = (newline \<notin> set t \<and> (t = [] \<or> last t \<noteq> CHR 0x0D))"

text \<open>Lines the format can carry: a removed line may not look like a file header, nor an added one.\<close>

fun line_ok :: "diff_line \<Rightarrow> bool" where
  "line_ok (Context t) = plain_text t"
| "line_ok (Removed t) = (plain_text t \<and> \<not> starts_with t ''-- '')"
| "line_ok (Added t) = (plain_text t \<and> \<not> starts_with t ''++ '')"

definition file_ok :: "diff_file \<Rightarrow> bool" where
  "file_ok f = (plain_text (fst f) \<and> fst f \<noteq> [] \<and> parse_unified_diff_path (''b/'' @ fst f) = Some (fst f) \<and>
     snd f \<noteq> [] \<and> (\<forall>ls \<in> set (snd f). \<forall>l \<in> set ls. line_ok l))"

lemma lines_from_line:
  "newline \<notin> set l \<Longrightarrow> lines_from acc (l @ newline # s) = strip_cr (rev acc @ l) # lines_from [] s"
  by (induction l arbitrary: acc) auto

lemma strip_cr_plain: "plain_text l \<Longrightarrow> strip_cr l = l"
  by (auto simp: strip_cr_def plain_text_def)

lemma str_lines_concat:
  "\<forall>l \<in> set ls. plain_text l \<Longrightarrow> str_lines (concat (map (\<lambda>l. l @ [newline]) ls)) = ls"
proof (induction ls)
  case (Cons l ls)
  then have "newline \<notin> set l" "plain_text l" by (auto simp: plain_text_def)
  with Cons show ?case by (simp add: str_lines_def lines_from_line strip_cr_plain)
qed (simp add: str_lines_def)

lemma parse_lines_append:
  "parse_lines st (a @ b) = and_then (parse_lines st a) (\<lambda>st'. parse_lines st' b)"
proof (induction a arbitrary: st)
  case (Cons l a)
  then show ?case by (cases "parse_line st l") auto
qed simp

definition in_hunk_state :: "file_patch list \<Rightarrow> string \<Rightarrow> hunk list \<Rightarrow> hunk \<Rightarrow> parse_state" where
  "in_hunk_state prev path hs h = \<lparr>ps_patches = prev,
     ps_current = Some \<lparr>patch_path = path, patch_hunks = hs @ [h]\<rparr>, ps_in_hunk = True\<rparr>"

lemma strip_prefix_None: "strip_prefix p s = None \<longleftrightarrow> \<not> starts_with s p"
  by (metis strip_prefix_Some starts_with_iff option.exhaust option.distinct(1))

lemma starts_with_Cons: "starts_with (c # s) (d # p) \<longleftrightarrow> c = d \<and> starts_with s p"
  by (auto simp: starts_with_def)

lemma starts_with_Nil [simp]: "starts_with s []"
  by (simp add: starts_with_def)

lemma parse_hunk_line:
  assumes "line_ok l"
  shows "parse_line (in_hunk_state prev path hs h) (render_line l) = Ok (in_hunk_state prev path hs (add_line l h))"
proof -
  have "\<not> starts_with (render_line l) ''--- ''" "\<not> starts_with (render_line l) ''+++ ''"
    "\<not> starts_with (render_line l) ''diff --git ''" "\<not> starts_with (render_line l) ''@@''"
    "\<not> starts_with (render_line l) (CHR 0x5C # '' No newline at end of file'')"
    using assms by (cases l; simp add: starts_with_Cons)+
  then show ?thesis
    using strip_prefix_None [of "''+++ ''" "render_line l"]
    by (cases l) (simp_all add: parse_line_def in_hunk_state_def)
qed

lemma parse_hunk_lines:
  "\<forall>l \<in> set ls. line_ok l \<Longrightarrow>
   parse_lines (in_hunk_state prev path hs h) (map render_line ls) =
     Ok (in_hunk_state prev path hs (fold add_line ls h))"
  by (induction ls arbitrary: h) (auto simp: parse_hunk_line)

definition file_state :: "file_patch list \<Rightarrow> string \<Rightarrow> hunk list \<Rightarrow> bool \<Rightarrow> parse_state" where
  "file_state prev path hs b = \<lparr>ps_patches = prev,
     ps_current = Some \<lparr>patch_path = path, patch_hunks = hs\<rparr>, ps_in_hunk = b\<rparr>"

lemma parse_hunk_header:
  "parse_line (file_state prev path hs b) ''@@ -1 +1 @@'' =
     Ok (in_hunk_state prev path hs \<lparr>old_block = [], new_block = []\<rparr>)"
  by (simp add: parse_line_def file_state_def in_hunk_state_def starts_with_def)

lemma in_hunk_file_state: "in_hunk_state prev path hs h = file_state prev path (hs @ [h]) True"
  by (simp add: in_hunk_state_def file_state_def)

lemma parse_hunks:
  "\<forall>ls \<in> set hss. \<forall>l \<in> set ls. line_ok l \<Longrightarrow>
   \<exists>b'. parse_lines (file_state prev path hs b) (concat (map (\<lambda>ls. ''@@ -1 +1 @@'' # map render_line ls) hss)) =
     Ok (file_state prev path (hs @ map hunk_of hss) b')"
proof (induction hss arbitrary: hs b)
  case (Cons ls hss)
  have "parse_lines (file_state prev path hs b) (''@@ -1 +1 @@'' # map render_line ls) =
      Ok (file_state prev path (hs @ [hunk_of ls]) True)"
    using Cons.prems
    by (simp add: parse_hunk_header parse_hunk_lines hunk_of_def in_hunk_file_state [symmetric])
  moreover obtain b' where "parse_lines (file_state prev path (hs @ [hunk_of ls]) True)
      (concat (map (\<lambda>ls. ''@@ -1 +1 @@'' # map render_line ls) hss)) =
      Ok (file_state prev path ((hs @ [hunk_of ls]) @ map hunk_of hss) b')"
    using Cons.IH [of "hs @ [hunk_of ls]" True] Cons.prems by auto
  ultimately show ?case
    using parse_lines_append [of "file_state prev path hs b" "''@@ -1 +1 @@'' # map render_line ls"
        "concat (map (\<lambda>ls. ''@@ -1 +1 @@'' # map render_line ls) hss)"]
    by (intro exI [of _ b']) (simp del: parse_lines.simps)
qed auto

lemma parse_file_header:
  assumes "parse_unified_diff_path (''b/'' @ path) = Some path"
  shows "parse_lines st [''--- a/'' @ path, ''+++ b/'' @ path] = Ok (file_state (flush st) path [] False)"
  using assms
  by (cases st) (simp add: parse_line_def file_state_def flush_def starts_with_Cons ok_or_def)

lemma parse_file:
  assumes "file_ok f"
  shows "\<exists>st'. parse_lines st (render_file f) = Ok st' \<and> flush st' = flush st @ [patch_of f]"
proof -
  have p: "parse_unified_diff_path (''b/'' @ fst f) = Some (fst f)" using assms by (simp add: file_ok_def)
  obtain b where "parse_lines (file_state (flush st) (fst f) [] False)
      (concat (map (\<lambda>ls. ''@@ -1 +1 @@'' # map render_line ls) (snd f))) =
      Ok (file_state (flush st) (fst f) ([] @ map hunk_of (snd f)) b)"
    using parse_hunks [of "snd f" "flush st" "fst f" "[]" False] assms by (auto simp: file_ok_def)
  then have "parse_lines st (render_file f) = Ok (file_state (flush st) (fst f) (map hunk_of (snd f)) b)"
    unfolding render_file_def by (simp only: parse_lines_append parse_file_header [OF p] and_then.simps append_Nil)
  then show ?thesis by (auto simp: flush_def file_state_def patch_of_def)
qed

lemma parse_files:
  "\<forall>f \<in> set fs. file_ok f \<Longrightarrow>
   \<exists>st'. parse_lines st (concat (map render_file fs)) = Ok st' \<and> flush st' = flush st @ map patch_of fs"
proof (induction fs arbitrary: st)
  case (Cons f fs)
  obtain st1 where 1: "parse_lines st (render_file f) = Ok st1" "flush st1 = flush st @ [patch_of f]"
    using parse_file [of f st] Cons.prems by auto
  obtain st2 where "parse_lines st1 (concat (map render_file fs)) = Ok st2" "flush st2 = flush st1 @ map patch_of fs"
    using Cons.IH [of st1] Cons.prems by auto
  with 1 show ?case by (auto simp: parse_lines_append)
qed auto

lemma render_plain:
  assumes "file_ok f" "l \<in> set (render_file f)"
  shows "plain_text l"
proof -
  have "plain_text (render_line x)" if "line_ok x" for x
    using that by (cases x) (auto simp: plain_text_def)
  then show ?thesis
    using assms by (auto simp: render_file_def file_ok_def plain_text_def)
qed

subsection \<open>Safe targets and files\<close>

definition state_safe :: "parse_state \<Rightarrow> bool" where
  "state_safe st \<longleftrightarrow> (\<forall>p \<in> set (flush st). \<not> escapes (patch_path p))"

lemma parse_path_safe: "parse_unified_diff_path raw = Some path \<Longrightarrow> \<not> escapes path"
  by (auto simp: parse_unified_diff_path_def Let_def split: if_splits)

lemma parse_line_safe: "parse_line st l = Ok st' \<Longrightarrow> state_safe st \<Longrightarrow> state_safe st'"
  by (auto simp: parse_line_def state_safe_def flush_def result_simps dest: parse_path_safe
      split: if_splits option.splits list.splits)

lemma parse_lines_safe: "parse_lines st ls = Ok st' \<Longrightarrow> state_safe st \<Longrightarrow> state_safe st'"
  by (induction ls arbitrary: st) (auto simp: result_simps dest: parse_line_safe)

lemma parsed_safe:
  assumes "parse_unified_diff diff = Ok ps"
  shows "ps \<noteq> [] \<and> (\<forall>p \<in> set ps. \<not> escapes (patch_path p) \<and> patch_hunks p \<noteq> [])"
proof -
  from assms obtain st where st: "parse_lines start_state (str_lines diff) = Ok st"
    "ps = filter (\<lambda>p. patch_hunks p \<noteq> []) (flush st)" "ps \<noteq> []"
    by (auto simp: parse_unified_diff_def and_then_eq_Ok Let_def split: if_splits)
  have "state_safe start_state" by (simp add: state_safe_def flush_def start_state_def)
  then have "state_safe st" by (rule parse_lines_safe [OF st(1)])
  then show ?thesis using st(2,3) by (auto simp: state_safe_def)
qed

definition writes_only_target :: "patch_env \<Rightarrow> bool" where
  "writes_only_target env \<longleftrightarrow> (\<forall>fs p c q. q \<noteq> p \<longrightarrow> snd (fs_write env fs p c) q = fs q)"

text \<open>The intended effect: each patch in turn replaces the content of its target.\<close>

fun patched :: "patch_env \<Rightarrow> file_patch list \<Rightarrow> files \<Rightarrow> files" where
  "patched env [] fs = fs"
| "patched env (p # ps) fs =
     (case sandbox_resolve env (patch_path p) of
        None \<Rightarrow> fs
      | Some target \<Rightarrow>
          patched env ps (fs(target := (case apply_hunks (the (fs target)) (patch_hunks p) of
             Inl _ \<Rightarrow> None | Inr c \<Rightarrow> Some c))))"

lemma apply_patches_Ok:
  assumes "writes_only_target env" "apply_patches env fs ps dn k = (fs', Ok (targets, n))"
  shows "fs' = patched env ps fs \<and> n = k + sum_list (map (length \<circ> patch_hunks) ps) \<and>
    map Some targets = map Some dn @ map (sandbox_resolve env \<circ> patch_path) ps"
  using assms(2)
proof (induction ps arbitrary: fs dn k)
  case (Cons p ps)
  from Cons.prems obtain t c0 c fs1 where
    t: "sandbox_resolve env (patch_path p) = Some t" and c0: "fs t = Some c0" and
    c: "apply_hunks c0 (patch_hunks p) = Ok c" and w: "snd (fs_write env fs t c) = fs1" "fs1 t = Some c" and
    rest: "apply_patches env fs1 ps (dn @ [t]) (k + length (patch_hunks p)) = (fs', Ok (targets, n))"
    by (auto simp: guarded_unified_diff_target_def and_then_eq_Ok ok_or_eq_Ok ensure_eq_Ok
        split: sum.splits option.splits prod.splits if_splits)
  have f: "fs1 = fs(t \<mapsto> c)"
  proof
    fix q
    show "fs1 q = (fs(t \<mapsto> c)) q"
      using assms(1) w by (cases "q = t") (auto simp: writes_only_target_def)
  qed
  show ?case
    using Cons.IH [OF rest [unfolded f]] by (simp add: t c0 c del: fun_upd_apply)
qed auto

subsection \<open>Properties\<close>

text \<open>
  Parsing a rendered diff gives back its files, hunks and blocks, for every list of files with
  safe paths and at least one hunk each whose lines the format can carry.
\<close>

theorem diff_round_trip:
  assumes "fs \<noteq> []" and "\<forall>f \<in> set fs. file_ok f"
  shows "parse_unified_diff (render_diff fs) = Ok (map patch_of fs)"
proof -
  have "\<forall>l \<in> set (concat (map render_file fs)). plain_text l"
    using assms(2) render_plain by auto
  then have ls: "str_lines (render_diff fs) = concat (map render_file fs)"
    unfolding render_diff_def by (rule str_lines_concat)
  obtain st where st: "parse_lines start_state (concat (map render_file fs)) = Ok st"
    "flush st = flush start_state @ map patch_of fs"
    using parse_files [OF assms(2)] by blast
  have "flush start_state = []" by (simp add: flush_def start_state_def)
  moreover have "filter (\<lambda>p. patch_hunks p \<noteq> []) (map patch_of fs) = map patch_of fs"
    using assms(2) by (auto simp: filter_id_conv patch_of_def file_ok_def)
  ultimately show ?thesis
    using assms(1) by (simp add: parse_unified_diff_def ls st)
qed

definition demo_file :: diff_file where
  "demo_file = (''src/x.rs'', [[Context ''a'', Removed ''b'', Added ''c'']])"

theorem diff_round_trip_witness:
  "parse_unified_diff (render_diff [demo_file]) = Ok [patch_of demo_file]"
proof -
  have "parse_unified_diff_path (''b/'' @ ''src/x.rs'') = Some ''src/x.rs''" by code_simp
  then have "\<forall>f \<in> set [demo_file]. file_ok f"
    by (simp add: demo_file_def file_ok_def plain_text_def starts_with_def)
  from diff_round_trip [OF _ this] show ?thesis by simp
qed

text \<open>
  A hunk changes nothing but one occurrence of its block: the result is the original with the
  old block replaced by the new one at one place, or, where the old block does not occur, with the
  blocks compared and exchanged without their final newlines.
\<close>

theorem hunk_replaces_one_place:
  assumes "apply_unified_diff_hunk original h = Ok out"
  shows "\<exists>pre post. (original = pre @ old_block h @ post \<and> out = pre @ new_block h @ post) \<or>
    (\<not> contains_str original (old_block h) \<and> original = pre @ trim_newlines (old_block h) @ post \<and>
     out = pre @ trim_newlines (new_block h) @ post)"
  by (rule apply_hunk_Ok [OF assms])

theorem hunk_replaces_one_place_witness:
  "\<exists>pre post. ''xay'' = pre @ ''a'' @ post \<and> ''xby'' = pre @ ''b'' @ post"
proof -
  have "apply_unified_diff_hunk ''xay'' \<lparr>old_block = ''a'', new_block = ''b''\<rparr> = Ok ''xby''" by code_simp
  from hunk_replaces_one_place [OF this] show ?thesis
    by (auto simp: trim_newlines_def)
qed

text \<open>
  C37. A directive that succeeds has the intended effect on the files: every target, resolved by the
  sandbox from a relative path without parent components, holds the patched content, and no other
  file has changed; the reported count is the number of hunks.
\<close>

theorem directive_effect:
  assumes "writes_only_target env" and "apply_unified_diff_directive env fs diff = (fs', Ok (targets, n))"
  shows "\<exists>ps. parse_unified_diff diff = Ok ps \<and> fs' = patched env ps fs \<and>
    n = sum_list (map (length \<circ> patch_hunks) ps) \<and>
    map Some targets = map (sandbox_resolve env \<circ> patch_path) ps \<and>
    list_all (\<lambda>p. \<not> starts_with (patch_path p) ''/'' \<and> ParentDir \<notin> set (path_components (patch_path p))) ps"
proof -
  from assms(2) obtain ps where ps: "parse_unified_diff diff = Ok ps"
    "apply_patches env fs ps [] 0 = (fs', Ok (targets, n))"
    by (auto simp: apply_unified_diff_directive_def split: sum.splits)
  then show ?thesis
    using apply_patches_Ok [OF assms(1) ps(2)] parsed_safe [OF ps(1)]
    by (auto simp: list_all_iff escapes_def)
qed

definition demo_patch_env :: patch_env where
  "demo_patch_env = \<lparr>sandbox_resolve = (\<lambda>p. Some (''/repo/'' @ p)), is_file = (\<lambda>fs p. fs p \<noteq> None),
     fs_write = (\<lambda>fs p c. (True, fs(p \<mapsto> c)))\<rparr>"

definition demo_files :: files where
  "demo_files p = (if p = ''/repo/src/x.rs'' then Some (''a'' @ [newline] @ ''b'' @ [newline]) else None)"

lemma demo_directive:
  "snd (apply_unified_diff_directive demo_patch_env demo_files (render_diff [demo_file])) =
     Ok ([''/repo/src/x.rs''], 1)"
  by code_simp

theorem directive_effect_witness:
  "\<exists>ps. fst (apply_unified_diff_directive demo_patch_env demo_files (render_diff [demo_file])) =
     patched demo_patch_env ps demo_files"
proof -
  let ?r = "apply_unified_diff_directive demo_patch_env demo_files (render_diff [demo_file])"
  have w: "writes_only_target demo_patch_env" by (simp add: writes_only_target_def demo_patch_env_def)
  have "?r = (fst ?r, Ok ([''/repo/src/x.rs''], 1))"
    using demo_directive by (metis prod.collapse)
  from directive_effect [OF w this] show ?thesis by blast
qed

text \<open>
  Three ways a diff is applied differently from what it says: a removed line that begins with
  two dashes and a space ends the hunk silently; a block is found in the middle of a line; and a
  block whose two occurrences overlap counts as unique.
\<close>

theorem diff_surprises:
  "parse_unified_diff (concat (map (\<lambda>l. l @ [newline]) [''+++ b/q.sql'', ''@@'', ''--- note'', ''-old'', ''+new''])) =
     Ok [\<lparr>patch_path = ''q.sql'', patch_hunks = [\<lparr>old_block = [], new_block = []\<rparr>]\<rparr>] \<and>
   apply_unified_diff_hunk (''xfoo'' @ [newline])
     \<lparr>old_block = ''foo'' @ [newline], new_block = ''bar'' @ [newline]\<rparr> = Ok (''xbar'' @ [newline]) \<and>
   apply_unified_diff_hunk [CHR ''a'', newline, CHR ''a'', newline, CHR ''a'', newline]
     \<lparr>old_block = [CHR ''a'', newline, CHR ''a'', newline], new_block = [CHR ''b'', newline]\<rparr> =
     Ok [CHR ''b'', newline, CHR ''a'', newline]"
proof (intro conjI)
  show "parse_unified_diff (concat (map (\<lambda>l. l @ [newline])
      [''+++ b/q.sql'', ''@@'', ''--- note'', ''-old'', ''+new''])) =
    Ok [\<lparr>patch_path = ''q.sql'', patch_hunks = [\<lparr>old_block = [], new_block = []\<rparr>]\<rparr>]"
    by code_simp
  show "apply_unified_diff_hunk (''xfoo'' @ [newline])
     \<lparr>old_block = ''foo'' @ [newline], new_block = ''bar'' @ [newline]\<rparr> = Ok (''xbar'' @ [newline])"
    by code_simp
  show "apply_unified_diff_hunk [CHR ''a'', newline, CHR ''a'', newline, CHR ''a'', newline]
     \<lparr>old_block = [CHR ''a'', newline, CHR ''a'', newline], new_block = [CHR ''b'', newline]\<rparr> =
     Ok [CHR ''b'', newline, CHR ''a'', newline]"
    by code_simp
qed

end
