(* ===== verification/Delegation_Policy.thy ===== *)
theory Delegation_Policy
  imports Rust_Prelude
begin

text \<open>
  The policy for delegating work to child agents, \<open>src-tauri/src/delegation/policy.rs\<close> with the
  request types of \<open>src-tauri/src/delegation/mod.rs\<close>: children read only, within budgets, from
  sources whose tool they were given.

  Whether a web search is bound to the user's request is decided in \<open>sovereign_search.rs\<close>, which
  is not modelled: the decision is the argument \<open>search_valid\<close>, a function of the objective, the
  approved query and the query. The names in error messages are not kept.
\<close>

definition DELEGATION_SCHEMA_VERSION :: nat where
  "DELEGATION_SCHEMA_VERSION = 1"

definition MAX_PARALLEL_CHILDREN :: nat where
  "MAX_PARALLEL_CHILDREN = 8"

record resource_budget =
  max_input_tokens :: nat
  max_output_tokens :: nat
  max_tool_calls :: nat
  timeout_ms :: nat
  max_response_bytes :: nat

record aggregate_budget =
  agg_input_tokens :: nat
  agg_output_tokens :: nat
  agg_tool_calls :: nat
  agg_timeout_ms :: nat

record web_search_authorization =
  originating_user_objective :: string
  approved_query :: string

datatype delegated_source =
  InlineText string string
| ProjectFile string string
| WebSearch string "nat option" web_search_authorization
| BrowserSnapshot string
| TaskEvidence "string list"

record child_proposal =
  goal :: string
  expected_output_schema :: string
  sources :: "delegated_source list"
  allowed_read_tools :: "string list"
  model_route :: string
  budget :: resource_budget

record plan_request =
  schema_version :: nat
  project_id :: string
  task_run_id :: string
  parent_session_id :: "string option"
  parent_model_route :: string
  parent_depth :: nat
  aggregate :: aggregate_budget
  children :: "child_proposal list"

datatype delegation_error =
  BadVersion | Nested | NoChildren | TooManyChildren | AggregateLimits | BadGoal | BadOutputSchema
| SourceCount | ToolCount | DeniedTool | DuplicateTool | InlineSize | UnsafePath | BadSearch
| UnauthorizedSearch | BadEvidence | MissingTool | ChildLimits | BadRoute | BudgetExceeded

definition READ_ONLY_TOOLS :: "string list" where
  "READ_ONLY_TOOLS = [''project_file_read'', ''web_search'', ''connector_read'', ''browser_snapshot'',
     ''task_evidence_read'', ''summarize_text'']"

definition FORBIDDEN_MARKERS :: "string list" where
  "FORBIDDEN_MARKERS = [''write'', ''delete'', ''remove'', ''shell'', ''exec'', ''command'', ''post'',
     ''send'', ''create_event'', ''update_event'', ''approval'', ''grant'', ''export'', ''upload'',
     ''download'', ''delegate'', ''spawn'']"

definition mandatory_parent_only_action :: "string \<Rightarrow> bool" where
  "mandatory_parent_only_action action =
     list_ex (\<lambda>marker. contains_str (to_ascii_lowercase (trim action)) marker) FORBIDDEN_MARKERS"

text \<open>\<open>chars().count()\<close>: the bytes that do not continue a character.\<close>

definition char_count :: "string \<Rightarrow> nat" where
  "char_count s = length (filter (\<lambda>c. \<not> (128 \<le> (of_char c :: nat) \<and> (of_char c :: nat) \<le> 191)) s)"

definition between :: "nat \<Rightarrow> nat \<Rightarrow> nat \<Rightarrow> bool" where
  "between lo hi n = (lo \<le> n \<and> n \<le> hi)"

definition validate_aggregate :: "aggregate_budget \<Rightarrow> delegation_error + unit" where
  "validate_aggregate b =
     ensure (\<not> (\<not> between 128 256000 (agg_input_tokens b) \<or> \<not> between 32 64000 (agg_output_tokens b) \<or>
       \<not> between 1 64 (agg_tool_calls b) \<or> \<not> between 1000 600000 (agg_timeout_ms b))) AggregateLimits"

definition normalized_tool :: "string \<Rightarrow> string" where
  "normalized_tool raw = to_ascii_lowercase (trim raw)"

fun collect_tools :: "string list \<Rightarrow> string list \<Rightarrow> delegation_error + string list" where
  "collect_tools tools [] = Ok tools"
| "collect_tools tools (raw # rest) =
     (let tool = normalized_tool raw in
      and_then (ensure (\<not> (mandatory_parent_only_action tool \<or> tool \<notin> set READ_ONLY_TOOLS)) DeniedTool)
        (\<lambda>_.
      and_then (ensure (tool \<notin> set tools) DuplicateTool) (\<lambda>_. collect_tools (tools @ [tool]) rest)))"

fun required_tool ::
  "(string \<Rightarrow> string \<Rightarrow> string \<Rightarrow> bool) \<Rightarrow> delegated_source \<Rightarrow> delegation_error + string" where
  "required_tool search_valid (InlineText label content) =
     and_then (ensure (\<not> (content = [] \<or> length content > 512000)) InlineSize) (\<lambda>_. Ok ''summarize_text'')"
| "required_tool search_valid (ProjectFile source_id relative_path) =
     and_then (ensure (\<not> (contains_str relative_path ''..'' \<or> starts_with relative_path ''/'')) UnsafePath)
       (\<lambda>_. Ok ''project_file_read'')"
| "required_tool search_valid (WebSearch query max_results authorization) =
     and_then (ensure (\<not> (blank query \<or> length query > 500 \<or>
       (case max_results of None \<Rightarrow> 5 | Some n \<Rightarrow> n) > 5)) BadSearch) (\<lambda>_.
     and_then (ensure (\<not> (blank (originating_user_objective authorization) \<or>
       char_count (originating_user_objective authorization) > 16000 \<or>
       \<not> search_valid (originating_user_objective authorization) (approved_query authorization) query))
       UnauthorizedSearch) (\<lambda>_. Ok ''web_search''))"
| "required_tool search_valid (BrowserSnapshot session_id) = Ok ''browser_snapshot''"
| "required_tool search_valid (TaskEvidence event_types) =
     and_then (ensure (\<not> (event_types = [] \<or> length event_types > 12)) BadEvidence)
       (\<lambda>_. Ok ''task_evidence_read'')"

definition check_source ::
  "(string \<Rightarrow> string \<Rightarrow> string \<Rightarrow> bool) \<Rightarrow> string list \<Rightarrow> delegated_source \<Rightarrow> delegation_error + unit" where
  "check_source search_valid tools source =
     and_then (required_tool search_valid source) (\<lambda>required. ensure (required \<in> set tools) MissingTool)"

definition budget_ok :: "child_proposal \<Rightarrow> bool" where
  "budget_ok c =
     (let b = budget c in
      \<not> (\<not> between 64 32000 (max_input_tokens b) \<or> \<not> between 16 8000 (max_output_tokens b) \<or>
         max_tool_calls b < length (sources c) \<or> max_tool_calls b > 8 \<or>
         \<not> between 1000 300000 (timeout_ms b) \<or> \<not> between 1024 1048576 (max_response_bytes b)))"

definition validate_child ::
  "(string \<Rightarrow> string \<Rightarrow> string \<Rightarrow> bool) \<Rightarrow> child_proposal \<Rightarrow> delegation_error + unit" where
  "validate_child search_valid c =
     and_then (ensure (\<not> (length (trim (goal c)) < 3 \<or> char_count (goal c) > 2000)) BadGoal) (\<lambda>_.
     and_then (ensure (expected_output_schema c = ''findings_sources_uncertainties_v1'') BadOutputSchema) (\<lambda>_.
     and_then (ensure (\<not> (sources c = [] \<or> length (sources c) > 8)) SourceCount) (\<lambda>_.
     and_then (ensure (\<not> (allowed_read_tools c = [] \<or> length (allowed_read_tools c) > 8)) ToolCount) (\<lambda>_.
     and_then (collect_tools [] (allowed_read_tools c)) (\<lambda>tools.
     and_then (try_for_each (check_source search_valid tools) (sources c)) (\<lambda>_.
     and_then (ensure (budget_ok c) ChildLimits) (\<lambda>_.
     ensure (trim (model_route c) \<in> set [''parent'', ''local'', ''local_gemma'']) BadRoute)))))))"

definition validate_child_template ::
  "(string \<Rightarrow> string \<Rightarrow> string \<Rightarrow> bool) \<Rightarrow> child_proposal \<Rightarrow> delegation_error + unit" where
  "validate_child_template search_valid c = validate_child search_valid c"

definition usize_saturating_add :: "nat \<Rightarrow> nat \<Rightarrow> nat" where
  "usize_saturating_add a b = min (a + b) u64_max"

fun validate_children ::
  "(string \<Rightarrow> string \<Rightarrow> string \<Rightarrow> bool) \<Rightarrow> nat \<times> nat \<times> nat \<Rightarrow> child_proposal list \<Rightarrow>
   delegation_error + nat \<times> nat \<times> nat" where
  "validate_children search_valid (i, q, t) [] = Ok (i, q, t)"
| "validate_children search_valid (i, q, t) (c # cs) =
     and_then (validate_child search_valid c) (\<lambda>_.
     validate_children search_valid (usize_saturating_add i (max_input_tokens (budget c)),
       usize_saturating_add q (max_output_tokens (budget c)),
       usize_saturating_add t (max_tool_calls (budget c))) cs)"

definition validate_plan ::
  "(string \<Rightarrow> string \<Rightarrow> string \<Rightarrow> bool) \<Rightarrow> plan_request \<Rightarrow> delegation_error + unit" where
  "validate_plan search_valid r =
     and_then (ensure (schema_version r = DELEGATION_SCHEMA_VERSION) BadVersion) (\<lambda>_.
     and_then (ensure (parent_depth r = 0) Nested) (\<lambda>_.
     and_then (ensure (children r \<noteq> []) NoChildren) (\<lambda>_.
     and_then (ensure (\<not> length (children r) > MAX_PARALLEL_CHILDREN) TooManyChildren) (\<lambda>_.
     and_then (validate_aggregate (aggregate r)) (\<lambda>_.
     and_then (validate_children search_valid (0, 0, 0) (children r)) (\<lambda>(i, q, t).
     ensure (\<not> (i > agg_input_tokens (aggregate r) \<or> q > agg_output_tokens (aggregate r) \<or>
       t > agg_tool_calls (aggregate r))) BudgetExceeded))))))"

subsection \<open>Accepted plans\<close>

lemma read_only_not_parent_only: "t \<in> set READ_ONLY_TOOLS \<Longrightarrow> \<not> mandatory_parent_only_action t"
proof -
  have "list_all (\<lambda>t. \<not> mandatory_parent_only_action t) READ_ONLY_TOOLS" by code_simp
  then show "t \<in> set READ_ONLY_TOOLS \<Longrightarrow> \<not> mandatory_parent_only_action t" by (simp add: list_all_iff)
qed

lemma collect_tools_Ok:
  assumes "distinct tools"
  shows "collect_tools tools raws = Ok ts \<longleftrightarrow>
    ts = tools @ map normalized_tool raws \<and> set (map normalized_tool raws) \<subseteq> set READ_ONLY_TOOLS \<and> distinct ts"
  using assms
proof (induction raws arbitrary: tools)
  case (Cons raw raws)
  show ?case
  proof (cases "normalized_tool raw \<in> set READ_ONLY_TOOLS \<and> normalized_tool raw \<notin> set tools")
    case True
    then show ?thesis
      using Cons.IH [of "tools @ [normalized_tool raw]"] Cons.prems
      by (auto simp: Let_def ensure_def read_only_not_parent_only)
  next
    case False
    then show ?thesis by (auto simp: Let_def result_simps)
  qed
qed auto

text \<open>
  The policy, stated without the validator: what a source must look like and which tool it needs, how
  much a child may use, and what a proposal is.
\<close>

fun source_allowed ::
  "(string \<Rightarrow> string \<Rightarrow> string \<Rightarrow> bool) \<Rightarrow> string set \<Rightarrow> delegated_source \<Rightarrow> bool" where
  "source_allowed search_valid tools (InlineText label content) \<longleftrightarrow>
     ''summarize_text'' \<in> tools \<and> 1 \<le> length content \<and> length content \<le> 512000"
| "source_allowed search_valid tools (ProjectFile source_id path) \<longleftrightarrow>
     ''project_file_read'' \<in> tools \<and> \<not> sublist ''..'' path \<and> \<not> prefix ''/'' path"
| "source_allowed search_valid tools (WebSearch query max_results authorization) \<longleftrightarrow>
     ''web_search'' \<in> tools \<and> trim query \<noteq> [] \<and> length query \<le> 500 \<and> (max_results = None \<or> the max_results \<le> 5) \<and>
     trim (originating_user_objective authorization) \<noteq> [] \<and> char_count (originating_user_objective authorization) \<le> 16000 \<and>
     search_valid (originating_user_objective authorization) (approved_query authorization) query"
| "source_allowed search_valid tools (BrowserSnapshot session_id) \<longleftrightarrow> ''browser_snapshot'' \<in> tools"
| "source_allowed search_valid tools (TaskEvidence event_types) \<longleftrightarrow>
     ''task_evidence_read'' \<in> tools \<and> length event_types \<in> {1..12}"

definition budget_allowed :: "nat \<Rightarrow> resource_budget \<Rightarrow> bool" where
  "budget_allowed n b \<longleftrightarrow> max_input_tokens b \<in> {64..32000} \<and> max_output_tokens b \<in> {16..8000} \<and> max_tool_calls b \<in> {n..8} \<and>
     timeout_ms b \<in> {1000..300000} \<and> max_response_bytes b \<in> {1024..1048576}"

definition child_ok :: "(string \<Rightarrow> string \<Rightarrow> string \<Rightarrow> bool) \<Rightarrow> child_proposal \<Rightarrow> bool" where
  "child_ok search_valid c \<longleftrightarrow>
     (let tools = map (to_ascii_lowercase \<circ> trim) (allowed_read_tools c) in
      3 \<le> length (trim (goal c)) \<and> char_count (goal c) \<le> 2000 \<and>
      expected_output_schema c = ''findings_sources_uncertainties_v1'' \<and>
      length (sources c) \<in> {1..8} \<and> length tools \<in> {1..8} \<and> distinct tools \<and>
      set tools \<subseteq> {''project_file_read'', ''web_search'', ''connector_read'', ''browser_snapshot'', ''task_evidence_read'',
        ''summarize_text''} \<and>
      list_all (source_allowed search_valid (set tools)) (sources c) \<and>
      budget_allowed (length (sources c)) (budget c) \<and> trim (model_route c) \<in> {''parent'', ''local'', ''local_gemma''})"

lemma source_allowed_iff:
  "source_allowed sv tools s \<longleftrightarrow> (\<exists>t. required_tool sv s = Ok t \<and> t \<in> tools)"
proof (cases s)
  case (ProjectFile i path)
  have "contains_str path ''..'' \<longleftrightarrow> sublist ''..'' path" "starts_with path ''/'' \<longleftrightarrow> prefix ''/'' path"
    by (simp_all only: contains_str_iff sublist_def starts_with_iff prefix_def)
  then show ?thesis by (auto simp: ProjectFile result_simps)
next
  case (InlineText label content)
  then show ?thesis by (cases content) (auto simp: result_simps)
next
  case (WebSearch q n a)
  then show ?thesis by (auto simp: result_simps blank_def split: option.splits)
next
  case (TaskEvidence ts)
  then show ?thesis by (cases ts) (auto simp: result_simps)
qed auto

lemma budget_allowed_iff: "budget_allowed (length (sources c)) (budget c) \<longleftrightarrow> budget_ok c"
  by (auto simp: budget_allowed_def budget_ok_def between_def Let_def)

lemma child_ok_checks:
  "child_ok search_valid c \<longleftrightarrow>
     3 \<le> length (trim (goal c)) \<and> char_count (goal c) \<le> 2000 \<and>
     expected_output_schema c = ''findings_sources_uncertainties_v1'' \<and>
     between 1 8 (length (sources c)) \<and> between 1 8 (length (allowed_read_tools c)) \<and>
     set (map normalized_tool (allowed_read_tools c)) \<subseteq> set READ_ONLY_TOOLS \<and>
     distinct (map normalized_tool (allowed_read_tools c)) \<and>
     (\<forall>s \<in> set (sources c). \<exists>t. required_tool search_valid s = Ok t \<and>
        t \<in> set (map normalized_tool (allowed_read_tools c))) \<and>
     budget_ok c \<and> trim (model_route c) \<in> {''parent'', ''local'', ''local_gemma''}"
proof -
  have tools: "map (to_ascii_lowercase \<circ> trim) xs = map normalized_tool xs" for xs by (simp add: normalized_tool_def)
  show ?thesis
    unfolding child_ok_def Let_def tools source_allowed_iff budget_allowed_iff list_all_iff
    by (auto simp: between_def READ_ONLY_TOOLS_def)
qed

lemma between_1: "between 1 n (length xs) \<longleftrightarrow> \<not> (xs = [] \<or> length xs > n)"
  by (cases xs) (auto simp: between_def)

lemma check_source_Ok:
  "check_source sv tools s = Ok u \<longleftrightarrow> (\<exists>t. required_tool sv s = Ok t \<and> t \<in> set tools)"
  by (auto simp: check_source_def result_simps)

lemma validate_child_iff: "validate_child sv c = Ok () \<longleftrightarrow> child_ok sv c"
  unfolding validate_child_def child_ok_checks between_1 and_then_eq_Ok ensure_eq_Ok try_for_each_Ok
    check_source_Ok collect_tools_Ok [OF distinct.simps(1) [THEN iffD2, OF TrueI]]
  by (auto simp: not_less)

lemma validate_children_Ok:
  "validate_children sv (i, q, t) cs = Ok r \<longleftrightarrow>
     (\<forall>c \<in> set cs. child_ok sv c) \<and>
     r = (fold (\<lambda>c a. usize_saturating_add a (max_input_tokens (budget c))) cs i,
          fold (\<lambda>c a. usize_saturating_add a (max_output_tokens (budget c))) cs q,
          fold (\<lambda>c a. usize_saturating_add a (max_tool_calls (budget c))) cs t)"
proof (induction cs arbitrary: i q t)
  case (Cons c cs)
  have "(\<exists>u. validate_child sv c = Ok u) \<longleftrightarrow> child_ok sv c" by (simp add: validate_child_iff)
  then show ?case by (auto simp: and_then_eq_Ok Cons.IH)
qed auto

lemma saturating_sum_le:
  assumes "m < u64_max" "a \<le> u64_max"
  shows "fold (\<lambda>c a. usize_saturating_add a (f c)) cs a \<le> m \<longleftrightarrow> a + sum_list (map f cs) \<le> m"
  using assms(2)
proof (induction cs arbitrary: a)
  case (Cons c cs)
  have "usize_saturating_add a (f c) \<le> u64_max" by (simp add: usize_saturating_add_def)
  with Cons.IH [of "usize_saturating_add a (f c)"] show ?case
    using assms(1) by (auto simp: usize_saturating_add_def min_def)
qed simp

lemma plan_accepted:
  "validate_plan search_valid r = Ok () \<longleftrightarrow>
     schema_version r = 1 \<and> parent_depth r = 0 \<and> between 1 8 (length (children r)) \<and>
     between 128 256000 (agg_input_tokens (aggregate r)) \<and> between 32 64000 (agg_output_tokens (aggregate r)) \<and>
     between 1 64 (agg_tool_calls (aggregate r)) \<and> between 1000 600000 (agg_timeout_ms (aggregate r)) \<and>
     list_all (child_ok search_valid) (children r) \<and>
     sum_list (map (max_input_tokens \<circ> budget) (children r)) \<le> agg_input_tokens (aggregate r) \<and>
     sum_list (map (max_output_tokens \<circ> budget) (children r)) \<le> agg_output_tokens (aggregate r) \<and>
     sum_list (map (max_tool_calls \<circ> budget) (children r)) \<le> agg_tool_calls (aggregate r)"
proof (cases "validate_aggregate (aggregate r) = Ok ()")
  case True
  then have agg: "between 128 256000 (agg_input_tokens (aggregate r))"
    "between 32 64000 (agg_output_tokens (aggregate r))" "between 1 64 (agg_tool_calls (aggregate r))"
    "between 1000 600000 (agg_timeout_ms (aggregate r))"
    by (simp_all add: validate_aggregate_def ensure_eq_Ok)
  then have lim: "agg_input_tokens (aggregate r) < u64_max" "agg_output_tokens (aggregate r) < u64_max"
    "agg_tool_calls (aggregate r) < u64_max"
    by (simp_all add: between_def u64_max_def)
  have zero: "0 \<le> u64_max" by simp
  show ?thesis
    unfolding validate_plan_def and_then_eq_Ok ensure_eq_Ok True validate_children_Ok between_1
    using agg saturating_sum_le [OF lim(1) zero, of "max_input_tokens \<circ> budget"]
      saturating_sum_le [OF lim(2) zero, of "max_output_tokens \<circ> budget"]
      saturating_sum_le [OF lim(3) zero, of "max_tool_calls \<circ> budget"]
    by (auto simp: DELEGATION_SCHEMA_VERSION_def MAX_PARALLEL_CHILDREN_def list_all_iff not_less ensure_eq_Ok)
next
  case False
  then show ?thesis
    by (auto simp: validate_plan_def and_then_eq_Ok ensure_eq_Ok validate_aggregate_def)
qed

subsection \<open>Properties\<close>

text \<open>
  C36. The validator accepts exactly the plans of the policy: a top-level plan of the current
  version with one to eight children that each satisfy \<open>child_ok\<close> (bounded goal, only the six reading tools,
  every source well-formed and with its tool, paths neither absolute nor with two dots, budgets in
  range), an aggregate budget within the limits, and child budgets that together, as exact sums,
  stay within it.
\<close>

theorem validate_plan_iff:
  "validate_plan search_valid r = Ok () \<longleftrightarrow>
     schema_version r = 1 \<and> parent_depth r = 0 \<and> length (children r) \<in> {1..8} \<and>
     agg_input_tokens (aggregate r) \<in> {128..256000} \<and> agg_output_tokens (aggregate r) \<in> {32..64000} \<and>
     agg_tool_calls (aggregate r) \<in> {1..64} \<and> agg_timeout_ms (aggregate r) \<in> {1000..600000} \<and>
     list_all (child_ok search_valid) (children r) \<and>
     sum_list (map (max_input_tokens \<circ> budget) (children r)) \<le> agg_input_tokens (aggregate r) \<and>
     sum_list (map (max_output_tokens \<circ> budget) (children r)) \<le> agg_output_tokens (aggregate r) \<and>
     sum_list (map (max_tool_calls \<circ> budget) (children r)) \<le> agg_tool_calls (aggregate r)"
  unfolding plan_accepted between_def atLeastAtMost_iff ..

text \<open>
  Delegation gives no authority away: every tool of an accepted child is one of the six
  read-only tools, none of its names carries a marker of an action reserved to the parent, each
  source has its tool among them, and a web search is one the user's request authorizes.
\<close>

theorem children_read_only:
  assumes "validate_plan search_valid r = Ok ()" and "c \<in> set (children r)"
  shows "(\<forall>raw \<in> set (allowed_read_tools c). normalized_tool raw \<in> set READ_ONLY_TOOLS \<and>
      \<not> mandatory_parent_only_action raw) \<and>
    (\<forall>q n a. WebSearch q n a \<in> set (sources c) \<longrightarrow>
      ''web_search'' \<in> set (map normalized_tool (allowed_read_tools c)) \<and>
      search_valid (originating_user_objective a) (approved_query a) q)"
proof -
  have "child_ok search_valid c"
    using assms by (auto simp: validate_plan_def and_then_eq_Ok validate_children_Ok)
  moreover have "mandatory_parent_only_action (normalized_tool raw) = mandatory_parent_only_action raw" for raw
    by (simp add: mandatory_parent_only_action_def normalized_tool_def trim_lower trim_idem to_ascii_lowercase_idem)
  ultimately show ?thesis
    using read_only_not_parent_only
    by (fastforce simp: child_ok_checks image_subset_iff and_then_eq_Ok ensure_eq_Ok)
qed

definition demo_child :: child_proposal where
  "demo_child = \<lparr>goal = ''Inspect evidence'', expected_output_schema = ''findings_sources_uncertainties_v1'',
     sources = [InlineText ''note'' ''evidence'',
       WebSearch ''rust'' None \<lparr>originating_user_objective = ''search rust'', approved_query = ''rust''\<rparr>],
     allowed_read_tools = ['' Summarize_Text'', ''web_search''], model_route = ''parent'',
     budget = \<lparr>max_input_tokens = 64, max_output_tokens = 16, max_tool_calls = 2, timeout_ms = 1000,
       max_response_bytes = 1024\<rparr>\<rparr>"

definition demo_plan :: plan_request where
  "demo_plan = \<lparr>schema_version = 1, project_id = ''p'', task_run_id = ''t'', parent_session_id = None,
     parent_model_route = ''parent'', parent_depth = 0,
     aggregate = \<lparr>agg_input_tokens = 128, agg_output_tokens = 32, agg_tool_calls = 4, agg_timeout_ms = 1000\<rparr>,
     children = [demo_child, demo_child]\<rparr>"

lemma demo_plan_valid: "validate_plan (\<lambda>ob a q. a = q) demo_plan = Ok ()"
proof -
  have "trim ''Inspect evidence'' = ''Inspect evidence''" "char_count ''Inspect evidence'' = 16"
    "map normalized_tool ['' Summarize_Text'', ''web_search''] = [''summarize_text'', ''web_search'']"
    "trim ''parent'' = ''parent''" "\<not> blank ''rust''" "\<not> blank ''search rust''" "char_count ''search rust'' = 11"
    by code_simp+
  then have "child_ok (\<lambda>ob a q. a = q) demo_child"
    by (simp add: child_ok_checks demo_child_def between_def READ_ONLY_TOOLS_def budget_ok_def ensure_def)
  then show ?thesis
    by (simp add: plan_accepted demo_plan_def between_def) (simp add: demo_child_def)
qed

theorem children_read_only_witness:
  "\<not> mandatory_parent_only_action '' Summarize_Text'' \<and> normalized_tool ''web_search'' \<in> set READ_ONLY_TOOLS"
  using children_read_only [OF demo_plan_valid, of demo_child] by (simp add: demo_plan_def demo_child_def)

text \<open>The plan is accepted, and refused once a child asks for a file outside its folder.\<close>

theorem validate_plan_iff_witness:
  "validate_plan (\<lambda>ob a q. a = q) demo_plan = Ok () \<and>
   validate_plan (\<lambda>ob a q. a = q) (demo_plan\<lparr>children := [demo_child\<lparr>sources := [ProjectFile ''s'' ''../key'']\<rparr>]\<rparr>) \<noteq> Ok ()"
proof
  have "child_ok (\<lambda>ob a q. a = q) demo_child" using demo_plan_valid by (simp add: plan_accepted demo_plan_def)
  then show "validate_plan (\<lambda>ob a q. a = q) demo_plan = Ok ()"
    unfolding validate_plan_iff by (simp add: demo_plan_def) (simp add: demo_child_def)
  have "\<not> source_allowed (\<lambda>ob a q. a = q) ts (ProjectFile ''s'' ''../key'')" for ts
    using sublist_code(1) by (simp add: prefix_imp_sublist)
  then have "\<not> child_ok (\<lambda>ob a q. a = q) (demo_child\<lparr>sources := [ProjectFile ''s'' ''../key'']\<rparr>)" by (simp add: child_ok_def Let_def)
  then show "validate_plan (\<lambda>ob a q. a = q) (demo_plan\<lparr>children := [demo_child\<lparr>sources := [ProjectFile ''s'' ''../key'']\<rparr>]\<rparr>) \<noteq> Ok ()"
    unfolding validate_plan_iff by simp
qed

end
