(* ===== verification/Sql_Table.thy ===== *)
theory Sql_Table
  imports Rust_Prelude
begin

text \<open>
  Tables of the database as lists of rows, \<open>UPDATE ... WHERE\<close> with the number of rows it changes,
  \<open>SELECT ... LIMIT 1\<close>, unique keys, and JSON values. A column with a \<open>UNIQUE\<close> or \<open>PRIMARY KEY\<close>
  constraint is a key: an insertion that would repeat it fails.
\<close>

subsection \<open>JSON\<close>

datatype json = JNull | JBool bool | JInt int | JStr string | JArr "json list" | JObj "(string \<times> json) list"

fun json_get :: "json \<Rightarrow> string \<Rightarrow> json option" where
  "json_get (JObj members) key = map_of members key"
| "json_get _ key = None"

fun json_str :: "json \<Rightarrow> string option" where
  "json_str (JStr s) = Some s"
| "json_str _ = None"

definition json_opt :: "('a \<Rightarrow> json) \<Rightarrow> 'a option \<Rightarrow> json" where
  "json_opt f x = (case x of None \<Rightarrow> JNull | Some y \<Rightarrow> f y)"

subsection \<open>Rows\<close>

definition update_rows :: "('r \<Rightarrow> bool) \<Rightarrow> ('r \<Rightarrow> 'r) \<Rightarrow> 'r list \<Rightarrow> 'r list" where
  "update_rows P f rows = map (\<lambda>r. if P r then f r else r) rows"

definition changed_rows :: "('r \<Rightarrow> bool) \<Rightarrow> 'r list \<Rightarrow> nat" where
  "changed_rows P rows = length (filter P rows)"

text \<open>SQLite's \<open>trim\<close> removes spaces only.\<close>

definition sql_blank :: "string \<Rightarrow> bool" where
  "sql_blank s = list_all (\<lambda>c. c = CHR '' '') s"

lemma set_update_rows: "set (update_rows P f rows) = (\<lambda>r. if P r then f r else r) ` set rows"
  by (simp add: update_rows_def)

lemma updated_row: "r \<in> set rows \<Longrightarrow> P r \<Longrightarrow> f r \<in> set (update_rows P f rows)"
  unfolding set_update_rows by (rule image_eqI [of _ _ r]) simp_all

lemma map_update_rows:
  "(\<And>r. P r \<Longrightarrow> key (f r) = key r) \<Longrightarrow> map key (update_rows P f rows) = map key rows"
  by (simp add: update_rows_def)

lemma update_rows_none: "\<not> list_ex P rows \<Longrightarrow> update_rows P f rows = rows"
  by (induction rows) (auto simp: update_rows_def)

lemma changed_rows_pos: "changed_rows P rows = 1 \<Longrightarrow> \<exists>r \<in> set rows. P r"
  unfolding changed_rows_def by (metis One_nat_def filter_empty_conv length_0_conv nat.distinct(1))

lemma find_SomeD: "find P rows = Some r \<Longrightarrow> r \<in> set rows \<and> P r"
  by (auto simp: find_Some_iff)

text \<open>
  How a table develops when rows are only updated and appended: every row stays, under its key, and
  what it has latched (revoked, opened, decided) stays latched.
\<close>

definition rows_keep :: "('r \<Rightarrow> 'r \<Rightarrow> bool) \<Rightarrow> 'r list \<Rightarrow> 'r list \<Rightarrow> bool" where
  "rows_keep le rows rows' \<longleftrightarrow> (\<forall>r \<in> set rows. \<exists>r' \<in> set rows'. le r r')"

locale row_order =
  fixes le :: "'r \<Rightarrow> 'r \<Rightarrow> bool"
  assumes refl: "le r r" and trans: "le r s \<Longrightarrow> le s t \<Longrightarrow> le r t"
begin

lemma keep_refl: "rows_keep le rows rows"
  using refl by (auto simp: rows_keep_def)

lemma keep_trans: "rows_keep le rows rows' \<Longrightarrow> rows_keep le rows' rows'' \<Longrightarrow> rows_keep le rows rows''"
  unfolding rows_keep_def using trans by meson

lemma keep_append: "rows_keep le rows (rows @ more)"
  using refl by (auto simp: rows_keep_def)

lemma keep_update: "(\<And>r. r \<in> set rows \<Longrightarrow> P r \<Longrightarrow> le r (f r)) \<Longrightarrow> rows_keep le rows (update_rows P f rows)"
  unfolding rows_keep_def set_update_rows ball_simps bex_simps using refl by metis

end

lemma distinct_key_eq:
  "distinct (map key rows) \<Longrightarrow> r \<in> set rows \<Longrightarrow> s \<in> set rows \<Longrightarrow> key r = key s \<Longrightarrow> r = s"
  by (simp add: distinct_map inj_on_def)

end
