(* ===== verification/Opaque_Ids.thy ===== *)
theory Opaque_Ids
  imports Rust_Prelude "HOL-Library.Word"
begin

text \<open>
  Typed identifiers and the event envelope, \<open>src-tauri/src/p0_contracts.rs\<close>. The macro
  \<open>opaque_id!\<close> is a function of the identifier's kind. The random bytes of a new identifier are
  an argument, and so are the RFC 3339 reader and the type of payloads; error texts are left out.
\<close>

unbundle bit_operations_syntax

subsection \<open>Random suffixes\<close>

definition hex_char :: "nat \<Rightarrow> char" where
  "hex_char n = ''0123456789abcdef'' ! n"

definition byte_hex :: "8 word \<Rightarrow> string" where
  "byte_hex b = [hex_char (unat b div 16), hex_char (unat b mod 16)]"

definition new_uuid_v4 :: "8 word list \<Rightarrow> string" where
  "new_uuid_v4 random =
     (let bs = random[6 := (random ! 6 AND 0x0f) OR 0x40];
          bs = bs[8 := (bs ! 8 AND 0x3f) OR 0x80];
          hex = (\<lambda>i j. concat (map (\<lambda>k. byte_hex (bs ! k)) [i..<j])) in
      hex 0 4 @ ''-'' @ hex 4 6 @ ''-'' @ hex 6 8 @ ''-'' @ hex 8 10 @ ''-'' @ hex 10 16)"

definition is_lower_hex :: "char \<Rightarrow> bool" where
  "is_lower_hex c = (is_ascii_digit c \<or> (97 \<le> (of_char c :: nat) \<and> (of_char c :: nat) \<le> 102))"

definition valid_uuid_suffix :: "string \<Rightarrow> bool" where
  "valid_uuid_suffix v =
     (if length v \<noteq> 36 \<or> v ! 8 \<noteq> CHR ''-'' \<or> v ! 13 \<noteq> CHR ''-'' \<or> v ! 18 \<noteq> CHR ''-'' \<or> v ! 23 \<noteq> CHR ''-''
      then False
      else if \<not> list_all (\<lambda>(index, byte). index \<in> {8, 13, 18, 23} \<or> is_lower_hex byte)
                 (List.enumerate 0 v)
      then False
      else if \<not> (49 \<le> (of_char (v ! 14) :: nat) \<and> (of_char (v ! 14) :: nat) \<le> 56) \<or> v ! 19 \<notin> set ''89ab''
      then False
      else list_ex (\<lambda>byte. is_ascii_hexdigit byte \<and> byte \<noteq> CHR ''0'') v)"

subsection \<open>Identifiers\<close>

datatype id_kind = ProjectId | TaskId | TaskRunId | ArtifactId | ConnectorId | ChildRunId

fun id_prefix :: "id_kind \<Rightarrow> string" where
  "id_prefix ProjectId = ''project''"
| "id_prefix TaskId = ''task''"
| "id_prefix TaskRunId = ''taskrun''"
| "id_prefix ArtifactId = ''artifact''"
| "id_prefix ConnectorId = ''connector''"
| "id_prefix ChildRunId = ''childrun''"

definition new_id :: "id_kind \<Rightarrow> 8 word list \<Rightarrow> string" where
  "new_id k random = id_prefix k @ ''_'' @ new_uuid_v4 random"

definition parse_id :: "id_kind \<Rightarrow> string \<Rightarrow> unit + string" where
  "parse_id k value =
     and_then (ok_or (strip_prefix (id_prefix k @ ''_'') value) ()) (\<lambda>suffix.
     and_then (ensure (valid_uuid_suffix suffix) ()) (\<lambda>_. Ok value))"

lemma parse_id_Ok:
  "parse_id k value = Ok v \<longleftrightarrow> v = value \<and> (\<exists>suffix. value = id_prefix k @ ''_'' @ suffix \<and> valid_uuid_suffix suffix)"
  by (auto simp: parse_id_def result_simps strip_prefix_Some)

subsection \<open>The event envelope\<close>

datatype evidence_class =
  ModelAssertion | ObservedResult | ExecutedMutation | VerifiedPostcondition | SignedArtifact

datatype envelope_error = BadVersion | BadEventType | BadCorrelation | BadTimestamp

definition P0_CONTRACT_VERSION :: nat where
  "P0_CONTRACT_VERSION = 1"

record 'v p0_event_envelope =
  ev_schema_version :: nat
  ev_event_type :: string
  ev_project_id :: string
  ev_task_id :: string
  ev_task_run_id :: "string option"
  ev_correlation_id :: string
  ev_sequence :: nat
  ev_timestamp :: string
  ev_evidence_class :: evidence_class
  ev_payload :: 'v

definition event_type_ok :: "string \<Rightarrow> bool" where
  "event_type_ok t = (\<not> (length t < 3 \<or> length t > 128 \<or>
     \<not> (case t of [] \<Rightarrow> False | c # _ \<Rightarrow> is_ascii_lowercase c) \<or>
     \<not> list_all (\<lambda>c. is_ascii_lowercase c \<or> is_ascii_digit c \<or> c \<in> set ''_.-'') t))"

definition check_envelope ::
  "(string \<Rightarrow> bool) \<Rightarrow> 'v p0_event_envelope \<Rightarrow> envelope_error + 'v p0_event_envelope" where
  "check_envelope rfc3339 raw =
     and_then (ensure (\<not> (ev_schema_version raw \<noteq> P0_CONTRACT_VERSION)) BadVersion) (\<lambda>_.
     and_then (ensure (event_type_ok (ev_event_type raw)) BadEventType) (\<lambda>_.
     and_then (ensure (\<not> (ev_correlation_id raw = [] \<or> length (ev_correlation_id raw) > 128)) BadCorrelation) (\<lambda>_.
     and_then (ensure (\<not> (\<not> ends_with (ev_timestamp raw) ''Z'' \<or> \<not> rfc3339 (ev_timestamp raw))) BadTimestamp) (\<lambda>_.
     Ok raw))))"

subsection \<open>New identifiers are accepted, by their own kind only\<close>

lemma hex_char_ok: "n < 16 \<Longrightarrow> is_lower_hex (hex_char n)"
proof -
  have "list_all is_lower_hex ''0123456789abcdef''" by code_simp
  moreover assume "n < 16"
  ultimately show ?thesis unfolding hex_char_def list_all_length by (elim allE [of _ n]) simp
qed

lemma byte_hex_ok: "list_all is_lower_hex (byte_hex b)"
  using unsigned_less [where 'b = 8 and 'a = nat, of b] by (simp add: byte_hex_def hex_char_ok)

lemma high_nibble: "drop_bit 4 (b :: 8 word) = c \<Longrightarrow> unat b div 16 = unat c"
  using unat_drop_bit_eq [of 4 b] by (simp add: drop_bit_eq_div)

lemma version_nibble: "byte_hex ((b AND 0x0f) OR 0x40) ! 0 = CHR ''4''"
proof -
  have "drop_bit 4 ((b AND 0x0f) OR 0x40) = 4"
    by (rule bit_eqI) (auto simp: bit_simps bit_numeral_rec)
  from high_nibble [OF this] show ?thesis by (simp add: byte_hex_def hex_char_def)
qed

lemma variant_nibble: "byte_hex ((b AND 0x3f) OR 0x80) ! 0 \<in> set ''89ab''"
proof -
  have e: "drop_bit 4 ((b AND 0x3f) OR 0x80) = (take_bit 2 (drop_bit 4 b)) OR 8"
    by (rule bit_eqI) (auto simp: bit_simps bit_numeral_rec numeral_One bit_1_iff split: nat.splits)
  have "take_bit 2 (drop_bit 4 b) \<in> {0, 1, 2, 3}"
  proof -
    have "unat (take_bit 2 (drop_bit 4 b)) < 4"
      using take_bit_nat_less_exp [of 2 "unat (drop_bit 4 b)"] by (simp add: unsigned_take_bit_eq)
    then have "unat (take_bit 2 (drop_bit 4 b)) \<in> {unat (0 :: 8 word), unat (1 :: 8 word), unat (2 :: 8 word), unat (3 :: 8 word)}"
      by auto
    then show ?thesis by (auto simp: word_unat_eq_iff)
  qed
  then show ?thesis using high_nibble [OF e] by (auto simp: byte_hex_def hex_char_def)
qed

lemma set_bytes:
  assumes "length random = 16"
  obtains b0 b1 b2 b3 b4 b5 b6 b7 b8 b9 b10 b11 b12 b13 b14 b15
  where "random = [b0, b1, b2, b3, b4, b5, b6, b7, b8, b9, b10, b11, b12, b13, b14, b15]"
  using assms by (auto simp: length_Suc_conv numeral_eq_Suc)

lemma new_uuid_valid:
  assumes "length random = 16"
  shows "valid_uuid_suffix (new_uuid_v4 random)"
proof -
  obtain b0 b1 b2 b3 b4 b5 b6 b7 b8 b9 b10 b11 b12 b13 b14 b15
    where r: "random = [b0, b1, b2, b3, b4, b5, b6, b7, b8, b9, b10, b11, b12, b13, b14, b15]"
    using assms by (rule set_bytes)
  obtain hi where hex: "\<And>b. byte_hex b = [fst (hi b), snd (hi b)] \<and> is_lower_hex (fst (hi b)) \<and> is_lower_hex (snd (hi b))"
  proof (rule that [of "\<lambda>b. (byte_hex b ! 0, byte_hex b ! 1)"])
    show "byte_hex b = [fst (byte_hex b ! 0, byte_hex b ! 1), snd (byte_hex b ! 0, byte_hex b ! 1)] \<and>
        is_lower_hex (fst (byte_hex b ! 0, byte_hex b ! 1)) \<and> is_lower_hex (snd (byte_hex b ! 0, byte_hex b ! 1))" for b
      using byte_hex_ok [of b] by (simp add: byte_hex_def)
  qed
  have v: "fst (hi ((b6 AND 0x0f) OR 0x40)) = CHR ''4''" using version_nibble [of b6] hex by simp
  have w: "fst (hi ((b8 AND 0x3f) OR 0x80)) \<in> set ''89ab''" using variant_nibble [of b8] hex by simp
  have h4: "is_ascii_hexdigit CHR ''4''" "is_lower_hex CHR ''4''" by code_simp+
  show ?thesis
    using hex v w h4
    by (simp add: valid_uuid_suffix_def new_uuid_v4_def r upt_rec Let_def)
qed

text \<open>The characters of an accepted identifier; none of them separates fields elsewhere.\<close>

definition id_char :: "char \<Rightarrow> bool" where
  "id_char c = (is_ascii_lowercase c \<or> is_ascii_digit c \<or> c \<in> set ''_-'')"

lemma lower_hex_id_char: "is_lower_hex c \<Longrightarrow> id_char c"
  by (auto simp: is_lower_hex_def id_char_def is_ascii_lowercase_def Let_def)

lemma uuid_chars:
  assumes "valid_uuid_suffix v" shows "list_all id_char v"
  unfolding list_all_length
proof (intro allI impI)
  fix n assume n: "n < length v"
  have dash: "id_char CHR ''-''" by code_simp
  have "(n, v ! n) \<in> set (List.enumerate 0 v)" using n by (simp add: in_set_enumerate_eq)
  then have "n \<in> {8, 13, 18, 23} \<or> is_lower_hex (v ! n)"
    using assms by (auto simp: valid_uuid_suffix_def list_all_iff split: if_splits)
  then show "id_char (v ! n)"
    using assms dash lower_hex_id_char by (auto simp: valid_uuid_suffix_def split: if_splits)
qed

lemma id_prefix_chars: "list_all id_char (id_prefix k @ ''_'')"
  by (cases k) (simp_all add: id_char_def is_ascii_lowercase_def)

lemma parse_id_chars: "parse_id k value = Ok v \<Longrightarrow> list_all id_char value"
  using uuid_chars id_prefix_chars [of k] by (auto simp: parse_id_Ok)

lemma prefixes_differ:
  assumes "id_prefix k @ ''_'' @ s = id_prefix k' @ ''_'' @ s'" shows "k = k'"
  using assms by (cases k; cases k') simp_all

text \<open>
  C27. Identifiers carry their type: a new one is accepted by the parser of its own kind; whatever one
  parser accepts, unchanged, every other refuses; and an accepted identifier is the prefix of its
  kind, an underscore and 36 more bytes, all of them lower case letters, digits, dashes or
  underscores, so no identifier contains a separator such as a colon, a slash or a space.
\<close>

theorem ids_typed:
  "(length random = 16 \<longrightarrow> parse_id k (new_id k random) = Ok (new_id k random)) \<and>
   (parse_id k v = Ok w \<longrightarrow> w = v \<and> list_all id_char v \<and>
      length v = length (id_prefix k) + 37 \<and> (\<forall>k'. is_ok (parse_id k' v) \<longleftrightarrow> k' = k))"
proof (intro conjI impI)
  show "parse_id k (new_id k random) = Ok (new_id k random)" if "length random = 16"
    using new_uuid_valid [OF that] by (simp add: parse_id_Ok new_id_def)
  assume p: "parse_id k v = Ok w"
  then obtain s where s: "w = v" "v = id_prefix k @ ''_'' @ s" "valid_uuid_suffix s" by (auto simp: parse_id_Ok)
  show "w = v" "list_all id_char v" using s(1) parse_id_chars [OF p] by auto
  show "length v = length (id_prefix k) + 37"
    using s(2,3) by (simp add: valid_uuid_suffix_def split: if_splits)
  show "\<forall>k'. is_ok (parse_id k' v) \<longleftrightarrow> k' = k"
    using p s prefixes_differ by (fastforce simp: is_ok_iff parse_id_Ok)
qed

theorem ids_typed_witness:
  "is_ok (parse_id TaskRunId (new_id TaskRunId (replicate 16 0xA5))) \<and>
   \<not> is_ok (parse_id TaskId (new_id TaskRunId (replicate 16 0xA5)))"
proof -
  have "parse_id TaskRunId (new_id TaskRunId (replicate 16 0xA5)) = Ok (new_id TaskRunId (replicate 16 0xA5))"
    using ids_typed [of "replicate 16 0xA5" TaskRunId] by simp
  moreover from this have "\<not> is_ok (parse_id TaskId (new_id TaskRunId (replicate 16 0xA5)))"
    using ids_typed [of _ TaskRunId] by blast
  ultimately show ?thesis by simp
qed

end
