(* ===== verification/Delegation_Runtime.thy ===== *)
theory Delegation_Runtime
  imports Delegation_Policy Sql_Table Opaque_Ids Rust_Path
begin

text \<open>
  The life of an accepted delegation plan (\<open>delegation/repository.rs\<close>, \<open>worker.rs\<close>, \<open>sources.rs\<close>): the
  three tables with the checks of the migrations, reading of sources, the worker that runs one
  child, and the transactions of pausing, cancelling and reviewing. Web search, browser snapshots,
  files and the model are arguments; so are fresh identifiers, the clock and the answers of the
  task store. A JSON column is its parsed value.
\<close>

subsection \<open>Results\<close>

record finding =
  fd_statement :: string
  fd_source_refs :: "string list"
  fd_confidence :: string

record source_evidence =
  se_source_ref :: string
  se_source_kind :: string
  se_digest :: string
  se_observed :: bool

record child_result =
  cr_findings :: "finding list"
  cr_sources :: "source_evidence list"
  cr_uncertainties :: "string list"
  cr_limitations :: "string list"
  cr_complete :: bool
  cr_actual_model_route :: string
  cr_elapsed_ms :: nat
  cr_input_tokens :: nat
  cr_output_tokens :: nat

record delegation_synthesis =
  sy_findings :: "finding list"
  sy_uncertainties :: "string list"
  sy_incomplete_child_run_ids :: "string list"
  sy_ready :: bool

subsection \<open>Sources\<close>

record source_material =
  sm_evidence :: source_evidence
  sm_content :: string

record task_evidence_event =
  ev_type :: string
  ev_class :: string
  ev_json :: string

record search_response =
  sr_degraded :: bool
  sr_results :: "string list"
  sr_error_code :: "string option"
  sr_context_json :: string

record source_env =
  f_sha256_hex :: "string \<Rightarrow> string"
  f_search :: "string \<Rightarrow> nat option \<Rightarrow> web_search_authorization \<Rightarrow> string + search_response"
  f_snapshot :: "string \<Rightarrow> string + string"
  f_source_root :: "string \<Rightarrow> string option"
  f_canonicalize :: "string \<Rightarrow> string option"
  f_join :: "string \<Rightarrow> string \<Rightarrow> string"
  f_symlink :: "string \<Rightarrow> bool option"
  f_metadata :: "string \<Rightarrow> (bool \<times> nat) option"
  f_read_text :: "string \<Rightarrow> string option"
  f_events :: "task_evidence_event list"
  f_json_array :: "string list \<Rightarrow> string"

definition material :: "source_env \<Rightarrow> string \<Rightarrow> string \<Rightarrow> string \<Rightarrow> bool \<Rightarrow> string + source_material" where
  "material env k label content seen =
     and_then (ensure (\<not> length content > 512000) ''source_too_large'') (\<lambda>_.
     Ok \<lparr>sm_evidence = \<lparr>se_source_ref = k @ '':'' @ f_sha256_hex env label, se_source_kind = k,
          se_digest = f_sha256_hex env content, se_observed = seen\<rparr>, sm_content = content\<rparr>)"

text \<open>\<open>Path::is_absolute\<close> and the components that leave a folder.\<close>

definition escapes :: "string \<Rightarrow> bool" where
  "escapes relative = list_ex (\<lambda>c. c = ParentDir \<or> c = RootDir) (path_components relative)"

definition read_project_file :: "source_env \<Rightarrow> string \<Rightarrow> string \<Rightarrow> string + source_material" where
  "read_project_file env source_id relative =
     and_then (ensure (\<not> escapes relative) ''escaped'') (\<lambda>_.
     and_then (ok_or (f_source_root env source_id) ''revoked'') (\<lambda>raw_root.
     and_then (ok_or (f_canonicalize env raw_root) ''unavailable'') (\<lambda>root.
     and_then (ok_or (f_canonicalize env (f_join env root relative)) ''unavailable'') (\<lambda>candidate.
     and_then (if \<not> path_starts_with candidate root then Err ''containment'' else ok_or (f_symlink env candidate) ''io'') (\<lambda>link.
     and_then (ensure (\<not> link) ''containment'') (\<lambda>_.
     and_then (ok_or (f_metadata env candidate) ''io'') (\<lambda>(is_file, len).
     and_then (ensure (\<not> (\<not> is_file \<or> len > 512000)) ''not_bounded'') (\<lambda>_.
     and_then (ok_or (f_read_text env candidate) ''not_utf8'') (\<lambda>content.
     material env ''project_file'' relative content True)))))))))"

definition evidence_selected :: "string list \<Rightarrow> task_evidence_event \<Rightarrow> bool" where
  "evidence_selected event_types e =
     (list_ex (\<lambda>p. ev_type e = p \<or> starts_with (ev_type e) (p @ ''.'')) event_types \<and>
      ev_class e \<in> {''observed_result'', ''verified_postcondition'', ''signed_artifact''})"

fun join_comma :: "string list \<Rightarrow> string" where
  "join_comma [] = []"
| "join_comma [x] = x"
| "join_comma (x # y # xs) = x @ '','' @ join_comma (y # xs)"

definition read_task_evidence :: "source_env \<Rightarrow> string list \<Rightarrow> string + source_material" where
  "read_task_evidence env event_types =
     (let selected = filter (evidence_selected event_types) (f_events env) in
      and_then (ensure (selected \<noteq> []) ''no_evidence'') (\<lambda>_.
      material env ''task_evidence'' (join_comma event_types) (f_json_array env (map ev_json selected)) True))"

fun read_source :: "source_env \<Rightarrow> delegated_source \<Rightarrow> string + source_material" where
  "read_source env (InlineText label content) = material env ''inline_text'' label content False"
| "read_source env (ProjectFile source_id relative) = read_project_file env source_id relative"
| "read_source env (WebSearch query max_results authorization) =
     and_then (f_search env query max_results authorization) (\<lambda>response.
     and_then (ensure (\<not> (sr_degraded response \<and> sr_results response = []))
       (case sr_error_code response of None \<Rightarrow> ''search_unavailable'' | Some code \<Rightarrow> code)) (\<lambda>_.
     material env ''web_search'' query (sr_context_json response) True))"
| "read_source env (BrowserSnapshot session_id) =
     and_then (f_snapshot env session_id) (\<lambda>encoded. material env ''browser_snapshot'' session_id encoded True)"
| "read_source env (TaskEvidence event_types) = read_task_evidence env event_types"

subsection \<open>The worker\<close>

text \<open>The cancellation flag as it is read before each source, before the model and after it.\<close>

fun read_sources :: "source_env \<Rightarrow> (nat \<Rightarrow> bool) \<Rightarrow> nat \<Rightarrow> delegated_source list \<Rightarrow> string + source_material list" where
  "read_sources env flag n [] = Ok []"
| "read_sources env flag n (s # ss) =
     and_then (ensure (\<not> flag n) ''cancelled'') (\<lambda>_.
     and_then (read_source env s) (\<lambda>m.
     and_then (read_sources env flag (Suc n) ss) (\<lambda>ms. Ok (m # ms))))"

definition grounding_of :: "source_material list \<Rightarrow> string" where
  "grounding_of materials = concat (map (\<lambda>(i, m).
     [CHR 0x0A] @ ''SOURCE '' @ decimal (Suc i) @ '' ['' @ se_source_ref (sm_evidence m) @ '']'' @ [CHR 0x0A] @ sm_content m @ [CHR 0x0A])
     (List.enumerate 0 materials))"

definition quarter :: "nat \<Rightarrow> nat" where
  "quarter n = (n + 3) div 4"

definition worker_operation ::
  "source_env \<Rightarrow> (string \<Rightarrow> string \<Rightarrow> string + string \<times> string) \<Rightarrow> (nat \<Rightarrow> bool) \<Rightarrow> nat \<Rightarrow> child_proposal \<Rightarrow> string + child_result" where
  "worker_operation env infer flag elapsed p =
     and_then (read_sources env flag 0 (sources p)) (\<lambda>materials.
     let grounding = grounding_of materials; input_tokens = quarter (length grounding) in
     and_then (ensure (\<not> input_tokens > max_input_tokens (budget p)) ''input_budget_exceeded'') (\<lambda>_.
     and_then (ensure (\<not> flag (length (sources p))) ''cancelled'') (\<lambda>_.
     and_then (infer (goal p) grounding) (\<lambda>(text, model_path).
     let output = trim text; output_tokens = quarter (length output) in
     and_then (ensure (output \<noteq> []) ''empty_model_result'') (\<lambda>_.
     and_then (ensure (\<not> (output_tokens > max_output_tokens (budget p) \<or> length output > max_response_bytes (budget p)))
       ''output_budget_exceeded'') (\<lambda>_.
     Ok \<lparr>cr_findings = [\<lparr>fd_statement = output, fd_source_refs = map (se_source_ref \<circ> sm_evidence) materials,
           fd_confidence = ''model_assertion_grounded_in_observed_sources''\<rparr>],
         cr_sources = map sm_evidence materials, cr_uncertainties = [],
         cr_limitations = [''This child had read-only authority; it did not execute or verify mutations.''],
         cr_complete = (\<not> flag (Suc (length (sources p)))), cr_actual_model_route = model_path,
         cr_elapsed_ms = elapsed, cr_input_tokens = input_tokens, cr_output_tokens = output_tokens\<rparr>))))))"

definition worker_execute ::
  "source_env \<Rightarrow> (string \<Rightarrow> string \<Rightarrow> string + string \<times> string) \<Rightarrow> (nat \<Rightarrow> bool) \<Rightarrow> nat \<Rightarrow> bool \<Rightarrow> child_proposal \<Rightarrow> string + child_result" where
  "worker_execute env infer flag elapsed timed_out p =
     (if timed_out then Err ''child_timeout'' else worker_operation env infer flag elapsed p)"

subsection \<open>Tables\<close>

record plan_row =
  pl_id :: string
  pl_project :: string
  pl_task :: string
  pl_session :: "string option"
  pl_route :: string
  pl_state :: string
  pl_required :: nat
  pl_budget :: aggregate_budget
  pl_synthesis :: "delegation_synthesis option"
  pl_created :: int
  pl_updated :: int
  pl_completed :: "int option"

record child_row =
  ch_id :: string
  ch_plan :: string
  ch_ordinal :: nat
  ch_goal :: string
  ch_sources :: "delegated_source list"
  ch_tools :: "string list"
  ch_route :: string
  ch_budget :: resource_budget
  ch_state :: string
  ch_summary :: string
  ch_result :: "child_result option"
  ch_error :: "string option"
  ch_attempt :: nat
  ch_started :: "int option"
  ch_completed :: "int option"
  ch_updated :: int

record suggestion_row =
  su_id :: string
  su_plan :: string
  su_child :: string
  su_task :: string
  su_base_revision :: int
  su_key :: string
  su_finding :: finding
  su_state :: string
  su_reason :: "string option"
  su_created :: int
  su_reviewed :: "int option"

record delegation_store =
  d_plans :: "plan_row list"
  d_children :: "child_row list"
  d_suggestions :: "suggestion_row list"

datatype runtime_error =
  InvalidPlan delegation_error | InvalidProjectId | InvalidTaskRunId | TaskNotBound | StoreRejected | InvalidPlanId | PlanMissing
| ChildMissing | NotStartable | NotPausable | NotPaused | NotRunnable | NoRunnableChildren | AlreadyRunning
| RetryExhausted | NotRetryable | ReasonRequired | SuggestionUnavailable

record plan_view =
  vw_plan :: plan_row
  vw_children :: "child_row list"

definition new_plan :: "string \<Rightarrow> int \<Rightarrow> plan_request \<Rightarrow> plan_row" where
  "new_plan pid now r = \<lparr>pl_id = pid, pl_project = project_id r, pl_task = task_run_id r, pl_session = parent_session_id r,
     pl_route = parent_model_route r, pl_state = ''planned'', pl_required = length (children r), pl_budget = aggregate r,
     pl_synthesis = None, pl_created = now, pl_updated = now, pl_completed = None\<rparr>"

definition new_child :: "string \<Rightarrow> int \<Rightarrow> nat \<Rightarrow> string \<Rightarrow> child_proposal \<Rightarrow> child_row" where
  "new_child pid now ordinal cid c = \<lparr>ch_id = cid, ch_plan = pid, ch_ordinal = ordinal, ch_goal = goal c, ch_sources = sources c,
     ch_tools = allowed_read_tools c, ch_route = model_route c, ch_budget = budget c, ch_state = ''planned'',
     ch_summary = ''Waiting for parent to start the plan.'', ch_result = None, ch_error = None, ch_attempt = 1,
     ch_started = None, ch_completed = None, ch_updated = now\<rparr>"

definition insert_child :: "child_row \<Rightarrow> delegation_store \<Rightarrow> runtime_error + delegation_store" where
  "insert_child r st =
     and_then (ensure (starts_with (ch_id r) ''childrun_'' \<and> ch_ordinal r \<le> 7 \<and>
       \<not> list_ex (\<lambda>x. ch_id x = ch_id r \<or> ch_plan x = ch_plan r \<and> ch_ordinal x = ch_ordinal r) (d_children st)) StoreRejected) (\<lambda>_.
     Ok (st\<lparr>d_children := d_children st @ [r]\<rparr>))"

fun insert_children :: "string \<Rightarrow> int \<Rightarrow> nat \<Rightarrow> (string \<times> child_proposal) list \<Rightarrow> delegation_store \<Rightarrow> runtime_error + delegation_store" where
  "insert_children pid now n [] st = Ok st"
| "insert_children pid now n ((cid, c) # rest) st =
     and_then (insert_child (new_child pid now n cid c) st) (insert_children pid now (Suc n) rest)"

text \<open>The checks and the transaction; the event recorded after it does not touch these tables.\<close>

definition create_plan ::
  "(string \<Rightarrow> string \<Rightarrow> string \<Rightarrow> bool) \<Rightarrow> (string \<Rightarrow> string \<Rightarrow> bool) \<Rightarrow> string \<Rightarrow> (nat \<Rightarrow> string) \<Rightarrow> int \<Rightarrow> plan_request \<Rightarrow>
   delegation_store \<Rightarrow> runtime_error + delegation_store" where
  "create_plan search_valid bound_task pid child_id now r st =
     and_then (case validate_plan search_valid r of Inl e \<Rightarrow> Err (InvalidPlan e) | Inr u \<Rightarrow> Ok u) (\<lambda>_.
     and_then (ensure (is_ok (parse_id ProjectId (project_id r))) InvalidProjectId) (\<lambda>_.
     and_then (ensure (is_ok (parse_id TaskRunId (task_run_id r))) InvalidTaskRunId) (\<lambda>_.
     and_then (ensure (bound_task (task_run_id r) (project_id r)) TaskNotBound) (\<lambda>_.
     and_then (ensure (starts_with pid ''delegation_'' \<and> between 1 8 (length (children r)) \<and>
       \<not> list_ex (\<lambda>p. pl_id p = pid) (d_plans st)) StoreRejected) (\<lambda>_.
     insert_children pid now 0 (map (\<lambda>(i, c). (child_id i, c)) (List.enumerate 0 (children r)))
       (st\<lparr>d_plans := d_plans st @ [new_plan pid now r]\<rparr>))))))"

definition get_plan :: "string \<Rightarrow> delegation_store \<Rightarrow> runtime_error + plan_view" where
  "get_plan pid st =
     and_then (ensure (starts_with pid ''delegation_'') InvalidPlanId) (\<lambda>_.
     and_then (ok_or (find (\<lambda>p. pl_id p = pid) (d_plans st)) PlanMissing) (\<lambda>p.
     Ok \<lparr>vw_plan = p, vw_children = sort_key ch_ordinal (filter (\<lambda>c. ch_plan c = pid) (d_children st))\<rparr>))"

definition proposal_of :: "child_row \<Rightarrow> child_proposal" where
  "proposal_of r = \<lparr>goal = ch_goal r, expected_output_schema = ''findings_sources_uncertainties_v1'', sources = ch_sources r,
     allowed_read_tools = ch_tools r, model_route = ch_route r, budget = ch_budget r\<rparr>"

definition proposal :: "string \<Rightarrow> string \<Rightarrow> delegation_store \<Rightarrow> runtime_error + child_proposal" where
  "proposal pid cid st =
     and_then (ok_or (find (\<lambda>r. ch_plan r = pid \<and> ch_id r = cid) (d_children st)) ChildMissing) (\<lambda>r. Ok (proposal_of r))"

definition set_plan_state ::
  "string \<Rightarrow> string \<Rightarrow> delegation_synthesis option \<Rightarrow> int \<Rightarrow> delegation_store \<Rightarrow> runtime_error + delegation_store" where
  "set_plan_state pid state synthesis now st =
     (let P = (\<lambda>p. pl_id p = pid) in
      and_then (ensure (changed_rows P (d_plans st) \<noteq> 0) PlanMissing) (\<lambda>_.
      Ok (st\<lparr>d_plans := update_rows P (\<lambda>p. p\<lparr>pl_state := state, pl_synthesis := synthesis, pl_updated := now,
        pl_completed := (if state \<in> {''completed'', ''partial'', ''failed'', ''cancelled''} then Some now else None)\<rparr>) (d_plans st)\<rparr>)))"

definition startable :: "string \<Rightarrow> string \<Rightarrow> child_row \<Rightarrow> bool" where
  "startable pid cid r \<longleftrightarrow> ch_plan r = pid \<and> ch_id r = cid \<and> ch_state r \<in> {''planned'', ''failed'', ''incomplete'', ''cancelled''}"

text \<open>The update fails as a whole when the check on the number of attempts does.\<close>

definition set_child_running :: "string \<Rightarrow> string \<Rightarrow> bool \<Rightarrow> int \<Rightarrow> delegation_store \<Rightarrow> runtime_error + delegation_store" where
  "set_child_running pid cid retry now st =
     (let more = (if retry then 1 else 0) in
      and_then (ensure (list_all (\<lambda>r. startable pid cid r \<longrightarrow> ch_attempt r + more \<le> 4) (d_children st)) StoreRejected) (\<lambda>_.
      and_then (ensure (changed_rows (startable pid cid) (d_children st) \<noteq> 0) NotStartable) (\<lambda>_.
      Ok (st\<lparr>d_children := update_rows (startable pid cid) (\<lambda>r. r\<lparr>ch_state := ''running'',
        ch_summary := ''Reading only the explicitly delegated sources.'', ch_result := None, ch_error := None,
        ch_started := Some now, ch_completed := None, ch_updated := now, ch_attempt := ch_attempt r + more\<rparr>) (d_children st)\<rparr>))))"

definition child_state :: "string \<Rightarrow> string \<Rightarrow> delegation_store \<Rightarrow> string option" where
  "child_state pid cid st = map_option ch_state (find (\<lambda>r. ch_plan r = pid \<and> ch_id r = cid) (d_children st))"

text \<open>The update of \<open>finish_child\<close>, after it has read that the child is not paused.\<close>

definition finished :: "string + child_result \<Rightarrow> int \<Rightarrow> child_row \<Rightarrow> child_row" where
  "finished outcome now r = (case outcome of
       Inr v \<Rightarrow> r\<lparr>ch_state := (if cr_complete v then ''completed'' else ''incomplete''),
         ch_summary := (if cr_complete v then ''Structured findings are ready for parent synthesis.''
           else ''Partial evidence is retained and labeled incomplete.''),
         ch_result := Some v, ch_error := None, ch_completed := Some now, ch_updated := now\<rparr>
     | Inl code \<Rightarrow> r\<lparr>ch_state := (if code = ''cancelled'' then ''cancelled'' else ''failed''),
         ch_summary := (if code = ''cancelled'' then ''Cancelled; partial work is not treated as complete.''
           else ''Child failed without mutation authority.''),
         ch_result := None, ch_error := Some code, ch_completed := Some now, ch_updated := now\<rparr>)"

definition finish_child :: "string \<Rightarrow> string \<Rightarrow> string + child_result \<Rightarrow> int \<Rightarrow> delegation_store \<Rightarrow> delegation_store" where
  "finish_child pid cid outcome now st =
     st\<lparr>d_children := update_rows (\<lambda>r. ch_plan r = pid \<and> ch_id r = cid) (finished outcome now) (d_children st)\<rparr>"

definition pause_plan :: "string \<Rightarrow> int \<Rightarrow> delegation_store \<Rightarrow> runtime_error + delegation_store" where
  "pause_plan pid now st =
     (let P = (\<lambda>p. pl_id p = pid \<and> pl_state p \<in> {''planned'', ''running''}) in
      and_then (ensure (changed_rows P (d_plans st) \<noteq> 0) NotPausable) (\<lambda>_.
      Ok (st\<lparr>d_plans := update_rows P (\<lambda>p. p\<lparr>pl_state := ''paused'', pl_updated := now\<rparr>) (d_plans st),
        d_children := update_rows (\<lambda>r. ch_plan r = pid \<and> ch_state r \<in> {''planned'', ''running''})
          (\<lambda>r. r\<lparr>ch_state := ''paused'', ch_summary := ''Paused at a safe boundary.'', ch_updated := now\<rparr>) (d_children st)\<rparr>)))"

definition resume_plan :: "string \<Rightarrow> int \<Rightarrow> delegation_store \<Rightarrow> runtime_error + delegation_store" where
  "resume_plan pid now st =
     (let P = (\<lambda>p. pl_id p = pid \<and> pl_state p = ''paused'') in
      and_then (ensure (changed_rows P (d_plans st) \<noteq> 0) NotPaused) (\<lambda>_.
      Ok (st\<lparr>d_plans := update_rows P (\<lambda>p. p\<lparr>pl_state := ''planned'', pl_updated := now\<rparr>) (d_plans st),
        d_children := update_rows (\<lambda>r. ch_plan r = pid \<and> ch_state r = ''paused'')
          (\<lambda>r. r\<lparr>ch_state := ''planned'', ch_summary := ''Ready to continue.'', ch_updated := now\<rparr>) (d_children st)\<rparr>)))"

definition cancel_not_started :: "string \<Rightarrow> string option \<Rightarrow> int \<Rightarrow> delegation_store \<Rightarrow> delegation_store" where
  "cancel_not_started pid cid now st =
     st\<lparr>d_children := update_rows (\<lambda>r. ch_plan r = pid \<and> (case cid of None \<Rightarrow> True | Some c \<Rightarrow> ch_id r = c) \<and>
         ch_state r \<in> {''planned'', ''running''})
       (\<lambda>r. r\<lparr>ch_state := ''cancelled'', ch_summary := ''Cancelled before completion.'', ch_error := Some ''cancelled'',
         ch_completed := Some now, ch_updated := now\<rparr>) (d_children st)\<rparr>"

subsection \<open>Suggestions\<close>

definition suggestion_for :: "(string \<Rightarrow> string) \<Rightarrow> int \<Rightarrow> plan_row \<Rightarrow> child_row \<Rightarrow> nat \<Rightarrow> finding \<Rightarrow> suggestion_row" where
  "suggestion_for sha now p c index f =
     (let key = sha (pl_id p @ '':'' @ ch_id c @ '':'' @ decimal index) in
      \<lparr>su_id = ''suggestion_'' @ take 36 key, su_plan = pl_id p, su_child = ch_id c, su_task = pl_task p,
       su_base_revision = pl_updated p, su_key = key, su_finding = f, su_state = ''awaiting_review'', su_reason = None,
       su_created = now, su_reviewed = None\<rparr>)"

definition research_suggestions :: "(string \<Rightarrow> string) \<Rightarrow> int \<Rightarrow> plan_view \<Rightarrow> suggestion_row list" where
  "research_suggestions sha now view = concat (map (\<lambda>c. case ch_result c of None \<Rightarrow> []
     | Some r \<Rightarrow> map (\<lambda>(i, f). suggestion_for sha now (vw_plan view) c i f) (List.enumerate 0 (cr_findings r)))
     (vw_children view))"

text \<open>\<open>INSERT OR IGNORE\<close>.\<close>

definition insert_suggestion :: "suggestion_row \<Rightarrow> delegation_store \<Rightarrow> delegation_store" where
  "insert_suggestion s st =
     (if list_ex (\<lambda>x. su_id x = su_id s \<or> su_key x = su_key s) (d_suggestions st) then st
      else st\<lparr>d_suggestions := d_suggestions st @ [s]\<rparr>)"

definition review_suggestion ::
  "string \<Rightarrow> string \<Rightarrow> bool \<Rightarrow> string option \<Rightarrow> int \<Rightarrow> delegation_store \<Rightarrow> runtime_error + delegation_store" where
  "review_suggestion pid sid accepted rejection_reason now st =
     (let reason = trim (case rejection_reason of None \<Rightarrow> [] | Some r \<Rightarrow> r);
          P = (\<lambda>s. su_plan s = pid \<and> su_id s = sid \<and> su_state s = ''awaiting_review'') in
      and_then (ensure (\<not> (\<not> accepted \<and> reason = [])) ReasonRequired) (\<lambda>_.
      and_then (ensure (changed_rows P (d_suggestions st) \<noteq> 0) SuggestionUnavailable) (\<lambda>_.
      Ok (st\<lparr>d_suggestions := update_rows P (\<lambda>s. s\<lparr>su_state := (if accepted then ''accepted'' else ''rejected''),
        su_reason := (if accepted then None else Some reason), su_reviewed := Some now\<rparr>) (d_suggestions st)\<rparr>))))"

subsection \<open>Synthesis\<close>

definition complete_result :: "child_row \<Rightarrow> child_result option" where
  "complete_result c = (case ch_result c of Some r \<Rightarrow> if cr_complete r then Some r else None | None \<Rightarrow> None)"

definition synthesize :: "child_row list \<Rightarrow> delegation_synthesis" where
  "synthesize cs =
     (let finished_ones = List.map_filter complete_result cs;
          incomplete = map ch_id (filter (\<lambda>c. complete_result c = None) cs) in
      \<lparr>sy_findings = concat (map cr_findings finished_ones), sy_uncertainties = concat (map cr_uncertainties finished_ones),
       sy_incomplete_child_run_ids = incomplete, sy_ready = (incomplete = [])\<rparr>)"

definition final_state :: "child_row list \<Rightarrow> string" where
  "final_state cs =
     (let completed = length (filter (\<lambda>c. ch_state c = ''completed'') cs) in
      if completed = length cs then ''completed''
      else if completed > 0 then ''partial''
      else if list_all (\<lambda>c. ch_state c = ''cancelled'') cs then ''cancelled''
      else ''failed'')"

end
