(* ===== verification/Delegation_Runs.thy ===== *)
theory Delegation_Runs
  imports Delegation_Runtime Transition_System
begin

text \<open>
  Runs of the delegation commands (\<open>delegation/commands.rs\<close>): any number of calls that execute, retry,
  pause, resume, cancel and review, interleaved between any two database statements and uses of the
  registry of cancellation flags. A call may also end at any statement with an error; the registry
  then keeps its flags, as in the source, where \<open>?\<close> leaves the function before \<open>unregister\<close>. The
  flag a worker was given is the one in the registry: only the call itself removes it.
\<close>

subsection \<open>The registry\<close>

type_synonym flags = "string \<rightharpoonup> bool"

definition register :: "string \<Rightarrow> string list \<Rightarrow> flags \<Rightarrow> runtime_error + flags" where
  "register pid ids fl =
     and_then (ensure (\<not> list_ex (\<lambda>i. fl i \<noteq> None) ids) AlreadyRunning) (\<lambda>_.
     Ok ((fold (\<lambda>i f. f(i \<mapsto> False)) ids fl)(pid \<mapsto> False)))"

definition unregister :: "string \<Rightarrow> string list \<Rightarrow> flags \<Rightarrow> flags" where
  "unregister pid ids fl = fold (\<lambda>i f. f(i := None)) ids (fl(pid := None))"

definition cancel_flag :: "string \<Rightarrow> flags \<Rightarrow> flags" where
  "cancel_flag i fl = (case fl i of None \<Rightarrow> fl | Some b \<Rightarrow> fl(i \<mapsto> True))"

subsection \<open>Calls\<close>

type_synonym outcome = "string + child_result"

datatype run_phase =
  Loaded
| Registered
| Starting "string list" "(string \<times> child_proposal) list"
| Working "(string \<times> child_proposal) list" "(string \<times> outcome) list"
| Storing "(string \<times> outcome) list"
| Writing string outcome "(string \<times> outcome) list"
| Unregistering
| Checking
| Finalizing
| Suggesting plan_view "suggestion_row list"

datatype delegation_call =
  Running string "string list" bool run_phase
| Pausing string "string list"
| CancellingChild string string bool
| CancellingPlan string "string list"
| CancelledChildren string

record delegation_system =
  g_store :: delegation_store
  g_flags :: flags
  g_calls :: "delegation_call list"

definition runnable :: "child_row \<Rightarrow> bool" where
  "runnable c \<longleftrightarrow> ch_state c \<in> {''planned'', ''failed'', ''incomplete'', ''cancelled''}"

text \<open>The checks before the registration.\<close>

definition begin_execute :: "string \<Rightarrow> delegation_store \<Rightarrow> runtime_error + delegation_call" where
  "begin_execute pid st =
     and_then (get_plan pid st) (\<lambda>view.
     and_then (ensure (pl_state (vw_plan view) \<in> {''planned'', ''partial'', ''failed''}) NotRunnable) (\<lambda>_.
     let ids = map ch_id (filter runnable (vw_children view)) in
     and_then (ensure (ids \<noteq> []) NoRunnableChildren) (\<lambda>_.
     Ok (Running (pl_id (vw_plan view)) ids False Loaded))))"

definition begin_retry :: "string \<Rightarrow> string \<Rightarrow> delegation_store \<Rightarrow> runtime_error + delegation_call" where
  "begin_retry pid cid st =
     and_then (get_plan pid st) (\<lambda>view.
     and_then (ok_or (find (\<lambda>c. ch_id c = cid) (vw_children view)) ChildMissing) (\<lambda>child.
     and_then (ensure (\<not> ch_attempt child \<ge> 4) RetryExhausted) (\<lambda>_.
     and_then (ensure (ch_state child \<in> {''failed'', ''incomplete'', ''cancelled''}) NotRetryable) (\<lambda>_.
     Ok (Running (pl_id (vw_plan view)) [ch_id child] True Loaded)))))"

definition begin_pause :: "string \<Rightarrow> delegation_store \<Rightarrow> runtime_error + delegation_call" where
  "begin_pause pid st =
     and_then (get_plan pid st) (\<lambda>view. Ok (Pausing (pl_id (vw_plan view)) (pl_id (vw_plan view) # map ch_id (vw_children view))))"

definition begin_cancel_child :: "string \<Rightarrow> string \<Rightarrow> delegation_store \<Rightarrow> runtime_error + delegation_call" where
  "begin_cancel_child pid cid st =
     and_then (get_plan pid st) (\<lambda>view.
     and_then (ensure (list_ex (\<lambda>c. ch_id c = cid) (vw_children view)) ChildMissing) (\<lambda>_. Ok (CancellingChild pid cid False)))"

definition begin_cancel_plan :: "string \<Rightarrow> delegation_store \<Rightarrow> runtime_error + delegation_call" where
  "begin_cancel_plan pid st =
     and_then (get_plan pid st) (\<lambda>view. Ok (CancellingPlan pid (pid # map ch_id (vw_children view))))"

definition resume_delegation_plan :: "string \<Rightarrow> int \<Rightarrow> delegation_store \<Rightarrow> runtime_error + delegation_store" where
  "resume_delegation_plan pid now st = and_then (get_plan pid st) (\<lambda>view. resume_plan (pl_id (vw_plan view)) now st)"

definition review_work_suggestion ::
  "string \<Rightarrow> string \<Rightarrow> bool \<Rightarrow> string option \<Rightarrow> int \<Rightarrow> delegation_store \<Rightarrow> runtime_error + delegation_store" where
  "review_work_suggestion pid sid accepted reason now st =
     and_then (get_plan pid st) (\<lambda>_. review_suggestion pid sid accepted reason now st)"

text \<open>\<open>join_all\<close> returns the results in the order of the children.\<close>

definition in_order :: "string list \<Rightarrow> (string \<times> outcome) list \<Rightarrow> (string \<times> outcome) list" where
  "in_order ids rs = List.map_filter (\<lambda>i. map_option (Pair i) (map_of rs i)) ids"

text \<open>The next statement of a call, and what is left of it.\<close>

fun advance_run ::
  "(string \<Rightarrow> string) \<Rightarrow> int \<Rightarrow> string \<Rightarrow> string list \<Rightarrow> bool \<Rightarrow> run_phase \<Rightarrow> delegation_system \<Rightarrow>
   runtime_error + delegation_system \<times> run_phase option" where
  "advance_run sha now pid ids retry Loaded w =
     and_then (register pid ids (g_flags w)) (\<lambda>fl. Ok (w\<lparr>g_flags := fl\<rparr>, Some Registered))"
| "advance_run sha now pid ids retry Registered w =
     and_then (set_plan_state pid ''running'' None now (g_store w)) (\<lambda>st. Ok (w\<lparr>g_store := st\<rparr>, Some (Starting ids [])))"
| "advance_run sha now pid ids retry (Starting (i # rest) jobs) w =
     and_then (set_child_running pid i retry now (g_store w)) (\<lambda>st.
     and_then (proposal pid i st) (\<lambda>p. Ok (w\<lparr>g_store := st\<rparr>, Some (Starting rest (jobs @ [(i, p)])))))"
| "advance_run sha now pid ids retry (Starting [] jobs) w = Ok (w, Some (Working jobs []))"
| "advance_run sha now pid ids retry (Working [] rs) w = Ok (w, Some (Storing (in_order ids rs)))"
| "advance_run sha now pid ids retry (Working (j # jobs) rs) w = Err AlreadyRunning"
| "advance_run sha now pid ids retry (Storing ((i, r) # rest)) w =
     Ok (w, Some (if child_state pid i (g_store w) = Some ''paused'' then Storing rest else Writing i r rest))"
| "advance_run sha now pid ids retry (Writing i r rest) w =
     Ok (w\<lparr>g_store := finish_child pid i r now (g_store w)\<rparr>, Some (Storing rest))"
| "advance_run sha now pid ids retry (Storing []) w = Ok (w, Some Unregistering)"
| "advance_run sha now pid ids retry Unregistering w =
     Ok (w\<lparr>g_flags := unregister pid ids (g_flags w)\<rparr>, Some (if retry then Finalizing else Checking))"
| "advance_run sha now pid ids retry Checking w =
     and_then (get_plan pid (g_store w)) (\<lambda>view. Ok (w, if pl_state (vw_plan view) = ''paused'' then None else Some Finalizing))"
| "advance_run sha now pid ids retry Finalizing w =
     and_then (get_plan pid (g_store w)) (\<lambda>view. Ok (w, Some (Suggesting view (research_suggestions sha now view))))"
| "advance_run sha now pid ids retry (Suggesting view (s # ss)) w =
     Ok (w\<lparr>g_store := insert_suggestion s (g_store w)\<rparr>, Some (Suggesting view ss))"
| "advance_run sha now pid ids retry (Suggesting view []) w =
     and_then (set_plan_state pid (final_state (vw_children view)) (Some (synthesize (vw_children view))) now (g_store w))
       (\<lambda>st. Ok (w\<lparr>g_store := st\<rparr>, None))"

fun advance_call ::
  "(string \<Rightarrow> string) \<Rightarrow> int \<Rightarrow> delegation_call \<Rightarrow> delegation_system \<Rightarrow> runtime_error + delegation_system \<times> delegation_call option" where
  "advance_call sha now (Running pid ids retry ph) w =
     and_then (advance_run sha now pid ids retry ph w) (\<lambda>(w', ph'). Ok (w', map_option (Running pid ids retry) ph'))"
| "advance_call sha now (Pausing pid (i # rest)) w = Ok (w\<lparr>g_flags := cancel_flag i (g_flags w)\<rparr>, Some (Pausing pid rest))"
| "advance_call sha now (Pausing pid []) w = and_then (pause_plan pid now (g_store w)) (\<lambda>st. Ok (w\<lparr>g_store := st\<rparr>, None))"
| "advance_call sha now (CancellingChild pid cid False) w =
     Ok (w\<lparr>g_flags := cancel_flag cid (g_flags w)\<rparr>, Some (CancellingChild pid cid True))"
| "advance_call sha now (CancellingChild pid cid True) w =
     Ok (w\<lparr>g_store := cancel_not_started pid (Some cid) now (g_store w)\<rparr>, None)"
| "advance_call sha now (CancellingPlan pid (i # rest)) w =
     Ok (w\<lparr>g_flags := cancel_flag i (g_flags w)\<rparr>, Some (CancellingPlan pid rest))"
| "advance_call sha now (CancellingPlan pid []) w =
     Ok (w\<lparr>g_store := cancel_not_started pid None now (g_store w)\<rparr>, Some (CancelledChildren pid))"
| "advance_call sha now (CancelledChildren pid) w =
     and_then (set_plan_state pid ''cancelled'' None now (g_store w)) (\<lambda>st. Ok (w\<lparr>g_store := st\<rparr>, None))"

text \<open>What an error does to the registry: \<open>?\<close> leaves the function before \<open>unregister\<close>, and the flags stay.\<close>

definition leave_call :: "delegation_call \<Rightarrow> flags \<Rightarrow> flags" where
  "leave_call c fl = fl"

text \<open>
  What a worker may have read of its flag: the last reading is the flag's value now, and since a
  flag is never taken back, no earlier reading was set if this one is not.
\<close>

definition flag_read :: "bool \<Rightarrow> (nat \<Rightarrow> bool) \<Rightarrow> child_proposal \<Rightarrow> bool" where
  "flag_read now_set flag p \<longleftrightarrow> flag (Suc (length (sources p))) = now_set \<and>
     list_all (\<lambda>n. flag n \<longrightarrow> now_set) [0..<Suc (length (sources p))]"

inductive delegation_step ::
  "(string \<Rightarrow> string \<Rightarrow> string \<Rightarrow> bool) \<Rightarrow> (string \<Rightarrow> string) \<Rightarrow> delegation_system \<Rightarrow> delegation_system \<Rightarrow> bool"
  for sv :: "string \<Rightarrow> string \<Rightarrow> string \<Rightarrow> bool" and sha :: "string \<Rightarrow> string" where
  creates: "create_plan sv bound pid child_id now r (g_store w) = Ok st \<Longrightarrow> delegation_step sv sha w (w\<lparr>g_store := st\<rparr>)"
| resumes: "resume_delegation_plan pid now (g_store w) = Ok st \<Longrightarrow> delegation_step sv sha w (w\<lparr>g_store := st\<rparr>)"
| reviews: "review_work_suggestion pid sid accepted reason now (g_store w) = Ok st \<Longrightarrow>
    delegation_step sv sha w (w\<lparr>g_store := st\<rparr>)"
| begins: "begin_execute pid (g_store w) = Ok c \<or> begin_retry pid cid (g_store w) = Ok c \<or> begin_pause pid (g_store w) = Ok c \<or>
      begin_cancel_child pid cid (g_store w) = Ok c \<or> begin_cancel_plan pid (g_store w) = Ok c \<Longrightarrow>
    delegation_step sv sha w (w\<lparr>g_calls := c # g_calls w\<rparr>)"
| advances: "g_calls w = xs @ c # ys \<Longrightarrow> advance_call sha now c w = Ok (w', c') \<Longrightarrow>
    delegation_step sv sha w (w'\<lparr>g_calls := xs @ (case c' of None \<Rightarrow> [] | Some d \<Rightarrow> [d]) @ ys\<rparr>)"
| fails: "g_calls w = xs @ c # ys \<Longrightarrow> delegation_step sv sha w (w\<lparr>g_flags := leave_call c (g_flags w), g_calls := xs @ ys\<rparr>)"
| worker_ends: "g_calls w = xs @ Running pid ids retry (Working (js @ (i, p) # ks) rs) # ys \<Longrightarrow>
    g_flags w i = Some now_set \<Longrightarrow> flag_read now_set flag p \<Longrightarrow> r = worker_execute env infer flag elapsed timed_out p \<Longrightarrow>
    delegation_step sv sha w (w\<lparr>g_calls := xs @ Running pid ids retry (Working (js @ ks) (rs @ [(i, r)])) # ys\<rparr>)"

definition delegation_start :: delegation_system where
  "delegation_start = \<lparr>g_store = \<lparr>d_plans = [], d_children = [], d_suggestions = []\<rparr>, g_flags = Map.empty, g_calls = []\<rparr>"

end
