(* ===== verification/Delegation_Inv.thy ===== *)
theory Delegation_Inv
  imports Delegation_Runs
begin

text \<open>
  The invariant of the delegation runtime: what holds of the rows, what a call that is under way may
  rely on, and that calls under way own disjoint sets of children. Every write to the children is an
  update that leaves completed rows alone, or an insertion for a new plan.
\<close>

subsection \<open>Rows\<close>

definition done_row :: "child_row \<Rightarrow> bool" where
  "done_row r \<longleftrightarrow> ch_state r = ''completed''"

definition result_ok :: "resource_budget \<Rightarrow> child_result \<Rightarrow> bool" where
  "result_ok b v \<longleftrightarrow> cr_input_tokens v \<le> max_input_tokens b \<and> cr_output_tokens v \<le> max_output_tokens b \<and>
     (\<forall>f \<in> set (cr_findings v). fd_statement f \<noteq> [] \<and> length (fd_statement f) \<le> max_response_bytes b)"

definition row_ok :: "(string \<Rightarrow> string \<Rightarrow> string \<Rightarrow> bool) \<Rightarrow> child_row \<Rightarrow> bool" where
  "row_ok sv r \<longleftrightarrow> child_ok sv (proposal_of r) \<and> between 1 4 (ch_attempt r) \<and> starts_with (ch_id r) ''childrun_'' \<and>
     (case ch_result r of None \<Rightarrow> ch_state r \<notin> {''completed'', ''incomplete''}
      | Some v \<Rightarrow> ch_state r = (if cr_complete v then ''completed'' else ''incomplete'') \<and> result_ok (ch_budget r) v)"

definition rows_of :: "string \<Rightarrow> delegation_store \<Rightarrow> child_row list" where
  "rows_of pid st = sort_key ch_ordinal (filter (\<lambda>c. ch_plan c = pid) (d_children st))"

definition plan_ok :: "delegation_store \<Rightarrow> plan_row \<Rightarrow> bool" where
  "plan_ok st p \<longleftrightarrow> starts_with (pl_id p) ''delegation_'' \<and>
     (pl_state p = ''completed'' \<longrightarrow> list_all done_row (rows_of (pl_id p) st) \<and>
        pl_synthesis p = Some (synthesize (rows_of (pl_id p) st)))"

definition store_ok :: "(string \<Rightarrow> string \<Rightarrow> string \<Rightarrow> bool) \<Rightarrow> delegation_store \<Rightarrow> bool" where
  "store_ok sv st \<longleftrightarrow> distinct (map pl_id (d_plans st)) \<and> (\<forall>p \<in> set (d_plans st). plan_ok st p) \<and>
     distinct (map ch_id (d_children st)) \<and>
     (\<forall>r \<in> set (d_children st). row_ok sv r \<and> ch_plan r \<in> pl_id ` set (d_plans st)) \<and>
     distinct (map su_id (d_suggestions st)) \<and> distinct (map su_key (d_suggestions st))"

subsection \<open>How the tables develop\<close>

definition same_child :: "child_row \<Rightarrow> child_row \<Rightarrow> bool" where
  "same_child r r' \<longleftrightarrow> ch_id r' = ch_id r \<and> ch_plan r' = ch_plan r \<and> ch_ordinal r' = ch_ordinal r \<and> proposal_of r' = proposal_of r"

definition suggestion_le :: "suggestion_row \<Rightarrow> suggestion_row \<Rightarrow> bool" where
  "suggestion_le s s' \<longleftrightarrow> su_id s' = su_id s \<and> su_finding s' = su_finding s \<and> (su_state s \<noteq> ''awaiting_review'' \<longrightarrow> s' = s)"

definition child_le :: "child_row \<Rightarrow> child_row \<Rightarrow> bool" where
  "child_le r r' \<longleftrightarrow> same_child r r' \<and> ch_attempt r \<le> ch_attempt r' \<and> (done_row r \<longrightarrow> r' = r)"

text \<open>A change of the store under which at most the children \<open>X\<close> become completed.\<close>

definition moves :: "string set \<Rightarrow> delegation_store \<Rightarrow> delegation_store \<Rightarrow> bool" where
  "moves X st st' \<longleftrightarrow> (\<exists>P f more. d_children st' = update_rows P f (d_children st) @ more \<and>
     (\<forall>r \<in> set (d_children st). P r \<longrightarrow> \<not> done_row r \<and> child_le r (f r) \<and> (done_row (f r) \<longrightarrow> ch_id r \<in> X)) \<and>
     (\<forall>r \<in> set more. ch_plan r \<notin> pl_id ` set (d_plans st))) \<and>
     pl_id ` set (d_plans st) \<subseteq> pl_id ` set (d_plans st') \<and>
     rows_keep suggestion_le (d_suggestions st) (d_suggestions st')"

lemma movesE:
  assumes "moves X st st'"
  obtains P f more where "d_children st' = update_rows P f (d_children st) @ more"
    and "\<forall>r \<in> set (d_children st). P r \<longrightarrow> \<not> done_row r \<and> child_le r (f r) \<and> (done_row (f r) \<longrightarrow> ch_id r \<in> X)"
    and "\<forall>r \<in> set more. ch_plan r \<notin> pl_id ` set (d_plans st)"
  using assms unfolding moves_def by (elim conjE exE) (rule that)

interpretation suggestion_order: row_order suggestion_le
  by unfold_locales (auto simp: suggestion_le_def)

interpretation child_order: row_order child_le
  by unfold_locales (auto simp: child_le_def same_child_def)

lemma rows_of_members: "set (rows_of pid st) = {r \<in> set (d_children st). ch_plan r = pid}"
  by (auto simp: rows_of_def)

lemma filter_update_none:
  "(\<And>r. r \<in> set rows \<Longrightarrow> P r \<Longrightarrow> \<not> Q r \<and> \<not> Q (f r)) \<Longrightarrow> filter Q (update_rows P f rows) = filter Q rows"
  by (induction rows) (auto simp: update_rows_def)

text \<open>A plan all of whose children are completed keeps its rows.\<close>

lemma rows_of_stable:
  assumes "moves X st st'" and "list_all done_row (rows_of pid st)" and "pid \<in> pl_id ` set (d_plans st)"
  shows "rows_of pid st' = rows_of pid st"
proof -
  obtain P f more where kids: "d_children st' = update_rows P f (d_children st) @ more"
    and upd: "\<forall>r \<in> set (d_children st). P r \<longrightarrow> \<not> done_row r \<and> child_le r (f r) \<and> (done_row (f r) \<longrightarrow> ch_id r \<in> X)"
    and fresh: "\<forall>r \<in> set more. ch_plan r \<notin> pl_id ` set (d_plans st)"
    using assms(1) by (rule movesE)
  have "filter (\<lambda>c. ch_plan c = pid) more = []" using fresh assms(3) by (auto simp: filter_empty_conv)
  moreover have "filter (\<lambda>c. ch_plan c = pid) (update_rows P f (d_children st)) = filter (\<lambda>c. ch_plan c = pid) (d_children st)"
  proof (rule filter_update_none)
    fix r assume "r \<in> set (d_children st)" "P r"
    with upd assms(2) show "\<not> ch_plan r = pid \<and> \<not> ch_plan (f r) = pid"
      by (auto simp: list_all_iff rows_of_members child_le_def same_child_def)
  qed
  ultimately show ?thesis by (simp add: rows_of_def kids)
qed

lemma plan_ok_stable:
  assumes "moves X st st'" "plan_ok st p" "pl_id p \<in> pl_id ` set (d_plans st)"
  shows "plan_ok st' p"
  using assms rows_of_stable [OF assms(1) _ assms(3)] by (auto simp: plan_ok_def)

lemma moves_child:
  assumes "moves X st st'" "r \<in> set (d_children st)"
  shows "\<exists>r' \<in> set (d_children st'). child_le r r' \<and> (done_row r' \<longrightarrow> done_row r \<or> ch_id r \<in> X)"
proof -
  obtain P f more where kids: "d_children st' = update_rows P f (d_children st) @ more"
    and upd: "\<forall>r \<in> set (d_children st). P r \<longrightarrow> \<not> done_row r \<and> child_le r (f r) \<and> (done_row (f r) \<longrightarrow> ch_id r \<in> X)"
    using assms(1) by (rule movesE)
  show ?thesis
  proof (cases "P r")
    case True
    then have "f r \<in> set (d_children st')" using assms(2) kids by (auto intro: updated_row)
    with upd True assms(2) show ?thesis by blast
  next
    case False
    then have "r \<in> set (d_children st')" using assms(2) kids by (force simp: set_update_rows)
    then show ?thesis by (auto intro: child_order.refl)
  qed
qed

lemma moves_keep: "moves X st st' \<Longrightarrow> rows_keep child_le (d_children st) (d_children st')"
  unfolding rows_keep_def using moves_child by blast

lemma moves_refl: "moves X st st"
  unfolding moves_def
  by (intro conjI exI [of _ "\<lambda>_. False"] exI [of _ id] exI [of _ "[]"])
    (auto simp: update_rows_def suggestion_order.keep_refl)

text \<open>Updates of children, of plans and of suggestions.\<close>

lemma children_updated:
  assumes "store_ok sv st"
    and "\<And>r. r \<in> set (d_children st) \<Longrightarrow> P r \<Longrightarrow> \<not> done_row r \<and> child_le r (f r) \<and> row_ok sv (f r) \<and> (done_row (f r) \<longrightarrow> ch_id r \<in> X)"
  shows "store_ok sv (st\<lparr>d_children := update_rows P f (d_children st)\<rparr>) \<and> moves X st (st\<lparr>d_children := update_rows P f (d_children st)\<rparr>)"
    (is "store_ok sv ?st \<and> _")
proof
  show mv: "moves X st ?st"
    unfolding moves_def using assms(2)
    by (intro conjI exI [of _ P] exI [of _ f] exI [of _ "[]"]) (auto simp: suggestion_order.keep_refl)
  have ids: "map ch_id (update_rows P f (d_children st)) = map ch_id (d_children st)"
    using assms(2) by (auto simp: update_rows_def child_le_def same_child_def)
  have "row_ok sv r \<and> ch_plan r \<in> pl_id ` set (d_plans st)" if r: "r \<in> set (update_rows P f (d_children st))" for r
  proof -
    obtain q where q: "q \<in> set (d_children st)" "r = (if P q then f q else q)"
      using r by (auto simp: set_update_rows)
    then show ?thesis using assms(1) assms(2) [of q] by (auto simp: store_ok_def child_le_def same_child_def split: if_splits)
  qed
  moreover have "plan_ok ?st p" if "p \<in> set (d_plans st)" for p
    using plan_ok_stable [OF mv] that assms(1) by (auto simp: store_ok_def)
  ultimately show "store_ok sv ?st" using assms(1) ids by (simp add: store_ok_def)
qed

lemma rows_of_plans [simp]: "rows_of pid (st\<lparr>d_plans := ps\<rparr>) = rows_of pid st"
  by (simp add: rows_of_def)

lemma rows_of_suggestions [simp]: "rows_of pid (st\<lparr>d_suggestions := ss\<rparr>) = rows_of pid st"
  by (simp add: rows_of_def)

lemma moves_plans: "pl_id ` set (d_plans st) \<subseteq> pl_id ` set ps \<Longrightarrow> moves X st (st\<lparr>d_plans := ps\<rparr>)"
  unfolding moves_def
  by (intro conjI exI [of _ "\<lambda>_. False"] exI [of _ id] exI [of _ "[]"])
    (auto simp: update_rows_def suggestion_order.keep_refl)

lemma plans_updated:
  assumes "store_ok sv st"
    and "\<And>p. p \<in> set (d_plans st) \<Longrightarrow> P p \<Longrightarrow> pl_id (f p) = pl_id p \<and> plan_ok st (f p)"
  shows "store_ok sv (st\<lparr>d_plans := update_rows P f (d_plans st)\<rparr>) \<and> moves X st (st\<lparr>d_plans := update_rows P f (d_plans st)\<rparr>)"
proof -
  have ids: "map pl_id (update_rows P f (d_plans st)) = map pl_id (d_plans st)"
    using assms(2) by (auto simp: update_rows_def)
  then have set_ids: "pl_id ` set (update_rows P f (d_plans st)) = pl_id ` set (d_plans st)"
    by (metis set_map)
  have "plan_ok (st\<lparr>d_plans := update_rows P f (d_plans st)\<rparr>) p" if "p \<in> set (update_rows P f (d_plans st))" for p
    using that assms by (auto simp: set_update_rows store_ok_def plan_ok_def)
  then show ?thesis using assms(1) ids set_ids by (simp add: store_ok_def moves_plans)
qed

lemma suggestions_changed:
  assumes "store_ok sv st" "rows_keep suggestion_le (d_suggestions st) ss" "distinct (map su_id ss)" "distinct (map su_key ss)"
  shows "store_ok sv (st\<lparr>d_suggestions := ss\<rparr>) \<and> moves X st (st\<lparr>d_suggestions := ss\<rparr>)"
proof
  show "store_ok sv (st\<lparr>d_suggestions := ss\<rparr>)" using assms by (auto simp: store_ok_def plan_ok_def)
  show "moves X st (st\<lparr>d_suggestions := ss\<rparr>)"
    unfolding moves_def using assms(2)
    by (intro conjI exI [of _ "\<lambda>_. False"] exI [of _ id] exI [of _ "[]"]) (auto simp: update_rows_def)
qed

subsection \<open>Every operation\<close>

lemma moves_trans_plans:
  "moves X st st1 \<Longrightarrow> d_children st2 = d_children st1 \<Longrightarrow> d_suggestions st2 = d_suggestions st1 \<Longrightarrow>
   pl_id ` set (d_plans st1) \<subseteq> pl_id ` set (d_plans st2) \<Longrightarrow> moves X st st2"
  unfolding moves_def by (elim conjE, intro conjI, simp only:, erule (1) order_trans, simp only:)

lemma set_plan_state_ok:
  assumes "store_ok sv st" "set_plan_state pid s syn now st = Ok st'"
    and "s = ''completed'' \<longrightarrow> list_all done_row (rows_of pid st) \<and> syn = Some (synthesize (rows_of pid st))"
  shows "store_ok sv st' \<and> moves {} st st'"
proof -
  have st': "st' = st\<lparr>d_plans := update_rows (\<lambda>p. pl_id p = pid) (\<lambda>p. p\<lparr>pl_state := s, pl_synthesis := syn, pl_updated := now,
        pl_completed := (if s \<in> {''completed'', ''partial'', ''failed'', ''cancelled''} then Some now else None)\<rparr>) (d_plans st)\<rparr>"
    using assms(2) by (auto simp: set_plan_state_def Let_def result_simps)
  show ?thesis
    unfolding st' by (rule plans_updated [OF assms(1)]) (use assms in \<open>auto simp: store_ok_def plan_ok_def\<close>)
qed

lemma row_ok_no_result: "row_ok sv r \<Longrightarrow> ch_state r \<notin> {''completed'', ''incomplete''} \<Longrightarrow> ch_result r = None"
  by (auto simp: row_ok_def split: option.splits if_splits)

lemma moved_row:
  "row_ok sv r \<Longrightarrow> same_child r r' \<Longrightarrow> between 1 4 (ch_attempt r') \<Longrightarrow> ch_result r' = None \<Longrightarrow>
   ch_state r' \<notin> {''completed'', ''incomplete''} \<Longrightarrow> row_ok sv r'"
  by (simp add: row_ok_def same_child_def)

lemma between_Suc: "between 1 4 n \<Longrightarrow> n + k \<le> 4 \<Longrightarrow> between 1 4 (n + k)"
  by (simp add: between_def)

lemma set_child_running_ok:
  assumes "store_ok sv st" "set_child_running pid cid retry now st = Ok st'"
  shows "store_ok sv st' \<and> moves {} st st'"
proof -
  let ?k = "if retry then 1 else 0 :: nat"
  have lim: "startable pid cid r \<Longrightarrow> ch_attempt r + ?k \<le> 4" if "r \<in> set (d_children st)" for r
    using assms(2) that unfolding set_child_running_def Let_def and_then_eq_Ok ensure_eq_Ok list_all_iff by blast
  have st': "st' = st\<lparr>d_children := update_rows (startable pid cid) (\<lambda>r. r\<lparr>ch_state := ''running'',
        ch_summary := ''Reading only the explicitly delegated sources.'', ch_result := None, ch_error := None,
        ch_started := Some now, ch_completed := None, ch_updated := now, ch_attempt := ch_attempt r + ?k\<rparr>) (d_children st)\<rparr>"
    using assms(2) by (auto simp: set_child_running_def Let_def result_simps)
  show ?thesis
    unfolding st'
  proof (rule children_updated [OF assms(1)], intro conjI)
    fix r :: child_row let ?r = "r\<lparr>ch_state := ''running'',
        ch_summary := ''Reading only the explicitly delegated sources.'', ch_result := None, ch_error := None,
        ch_started := Some now, ch_completed := None, ch_updated := now, ch_attempt := ch_attempt r + ?k\<rparr>"
    assume r: "r \<in> set (d_children st)" "startable pid cid r"
    have ok: "row_ok sv r" using r assms(1) by (auto simp: store_ok_def)
    have same: "same_child r ?r" by (simp add: same_child_def proposal_of_def)
    show "\<not> done_row r" using r by (auto simp: startable_def done_row_def)
    with same show "child_le r ?r" by (simp add: child_le_def)
    have "between 1 4 (ch_attempt r)" using ok by (simp add: row_ok_def)
    then have "between 1 4 (ch_attempt r + ?k)" using between_Suc lim [OF r] by blast
    then show "row_ok sv ?r" by (intro moved_row [OF ok same]) simp_all
    show "done_row ?r \<longrightarrow> ch_id r \<in> {}" by (simp add: done_row_def)
  qed
qed

text \<open>Changing the state of children that wait or work.\<close>

lemma children_restated:
  assumes "store_ok sv st" and "\<And>r. P r \<Longrightarrow> ch_state r \<in> {''planned'', ''running'', ''paused''}"
    and "\<And>r. same_child r (f r) \<and> ch_attempt (f r) = ch_attempt r \<and> ch_result (f r) = ch_result r \<and>
      ch_state (f r) \<in> {''planned'', ''paused'', ''cancelled''}"
  shows "store_ok sv (st\<lparr>d_children := update_rows P f (d_children st)\<rparr>) \<and> moves {} st (st\<lparr>d_children := update_rows P f (d_children st)\<rparr>)"
proof (rule children_updated [OF assms(1)], intro conjI)
  fix r assume r: "r \<in> set (d_children st)" "P r"
  have ok: "row_ok sv r" using r(1) assms(1) by (auto simp: store_ok_def)
  have st: "ch_state r \<notin> {''completed'', ''incomplete''}" using assms(2) [OF r(2)] by auto
  show nd: "\<not> done_row r" using st by (auto simp: done_row_def)
  show "child_le r (f r)" using nd assms(3) by (simp add: child_le_def)
  have "between 1 4 (ch_attempt (f r))" using ok assms(3) [of r] by (simp add: row_ok_def)
  then show "row_ok sv (f r)"
    using moved_row [OF ok, of "f r"] row_ok_no_result [OF ok st] assms(3) [of r] by auto
  show "done_row (f r) \<longrightarrow> ch_id r \<in> {}" using assms(3) [of r] by (auto simp: done_row_def)
qed

lemma cancel_not_started_ok:
  "store_ok sv st \<Longrightarrow> store_ok sv (cancel_not_started pid cid now st) \<and> moves {} st (cancel_not_started pid cid now st)"
  unfolding cancel_not_started_def
  by (rule children_restated) (auto simp: same_child_def proposal_of_def)

text \<open>Pausing and resuming: a plan that is not completed, then its children.\<close>

lemma plan_and_children:
  assumes "store_ok sv st" and "\<And>p. pl_id (g p) = pl_id p \<and> pl_state (g p) \<noteq> ''completed''"
    and "\<And>r. P r \<Longrightarrow> ch_state r \<in> {''planned'', ''running'', ''paused''}"
    and "\<And>r. same_child r (f r) \<and> ch_attempt (f r) = ch_attempt r \<and> ch_result (f r) = ch_result r \<and>
      ch_state (f r) \<in> {''planned'', ''paused'', ''cancelled''}"
  shows "store_ok sv (st\<lparr>d_plans := update_rows Q g (d_plans st), d_children := update_rows P f (d_children st)\<rparr>) \<and>
    moves {} st (st\<lparr>d_plans := update_rows Q g (d_plans st), d_children := update_rows P f (d_children st)\<rparr>)"
proof
  let ?st = "st\<lparr>d_children := update_rows P f (d_children st)\<rparr>"
  have 1: "store_ok sv ?st" "moves {} st ?st" using children_restated [OF assms(1,3,4)] by auto
  have 2: "store_ok sv (?st\<lparr>d_plans := update_rows Q g (d_plans ?st)\<rparr>) \<and> moves {} ?st (?st\<lparr>d_plans := update_rows Q g (d_plans ?st)\<rparr>)"
    by (rule plans_updated [OF 1(1)]) (use assms(1,2) in \<open>auto simp: plan_ok_def store_ok_def\<close>)
  have eq: "?st\<lparr>d_plans := update_rows Q g (d_plans ?st)\<rparr> =
      st\<lparr>d_plans := update_rows Q g (d_plans st), d_children := update_rows P f (d_children st)\<rparr>"
    by (cases st) simp
  show "store_ok sv (st\<lparr>d_plans := update_rows Q g (d_plans st), d_children := update_rows P f (d_children st)\<rparr>)"
    using 2 unfolding eq by (rule conjunct1)
  show "moves {} st (st\<lparr>d_plans := update_rows Q g (d_plans st), d_children := update_rows P f (d_children st)\<rparr>)"
    by (rule moves_trans_plans [OF 1(2)]) (use 2 in \<open>auto simp: moves_def\<close>)
qed

lemma pause_plan_ok:
  assumes "store_ok sv st" "pause_plan pid now st = Ok st'"
  shows "store_ok sv st' \<and> moves {} st st'"
proof -
  have st': "st' = st\<lparr>d_plans := update_rows (\<lambda>p. pl_id p = pid \<and> pl_state p \<in> {''planned'', ''running''})
        (\<lambda>p. p\<lparr>pl_state := ''paused'', pl_updated := now\<rparr>) (d_plans st),
      d_children := update_rows (\<lambda>r. ch_plan r = pid \<and> ch_state r \<in> {''planned'', ''running''})
        (\<lambda>r. r\<lparr>ch_state := ''paused'', ch_summary := ''Paused at a safe boundary.'', ch_updated := now\<rparr>) (d_children st)\<rparr>"
    using assms(2) by (auto simp: pause_plan_def Let_def result_simps)
  show ?thesis unfolding st' by (rule plan_and_children [OF assms(1)]) (auto simp: same_child_def proposal_of_def)
qed

lemma resume_plan_ok:
  assumes "store_ok sv st" "resume_plan pid now st = Ok st'"
  shows "store_ok sv st' \<and> moves {} st st'"
proof -
  have st': "st' = st\<lparr>d_plans := update_rows (\<lambda>p. pl_id p = pid \<and> pl_state p = ''paused'')
        (\<lambda>p. p\<lparr>pl_state := ''planned'', pl_updated := now\<rparr>) (d_plans st),
      d_children := update_rows (\<lambda>r. ch_plan r = pid \<and> ch_state r = ''paused'')
        (\<lambda>r. r\<lparr>ch_state := ''planned'', ch_summary := ''Ready to continue.'', ch_updated := now\<rparr>) (d_children st)\<rparr>"
    using assms(2) by (auto simp: resume_plan_def Let_def result_simps)
  show ?thesis unfolding st' by (rule plan_and_children [OF assms(1)]) (auto simp: same_child_def proposal_of_def)
qed

lemma finish_child_ok:
  assumes "store_ok sv st"
    and "\<And>r. r \<in> set (d_children st) \<Longrightarrow> ch_plan r = pid \<Longrightarrow> ch_id r = cid \<Longrightarrow>
      \<not> done_row r \<and> (\<forall>v. x = Inr v \<longrightarrow> result_ok (ch_budget r) v)"
  shows "store_ok sv (finish_child pid cid x now st) \<and> moves {cid} st (finish_child pid cid x now st)"
  unfolding finish_child_def
proof (rule children_updated [OF assms(1)], intro conjI)
  fix r assume r: "r \<in> set (d_children st)" "ch_plan r = pid \<and> ch_id r = cid"
  then have new: "\<not> done_row r" "\<And>v. x = Inr v \<Longrightarrow> result_ok (ch_budget r) v" using assms(2) [of r] by auto
  have ok: "row_ok sv r" using r(1) assms(1) by (auto simp: store_ok_def)
  have same: "same_child r (finished x now r)" "ch_attempt (finished x now r) = ch_attempt r"
    by (auto simp: same_child_def proposal_of_def finished_def split: sum.split)
  show "\<not> done_row r" by (rule new)
  show "child_le r (finished x now r)" using same new by (simp add: child_le_def)
  show "row_ok sv (finished x now r)"
    using ok same new(2) by (cases x) (auto simp: row_ok_def same_child_def finished_def)
  show "done_row (finished x now r) \<longrightarrow> ch_id r \<in> {cid}" using r by simp
qed

lemma insert_suggestion_ok:
  assumes "store_ok sv st"
  shows "store_ok sv (insert_suggestion s st) \<and> moves {} st (insert_suggestion s st)"
proof (cases "list_ex (\<lambda>x. su_id x = su_id s \<or> su_key x = su_key s) (d_suggestions st)")
  case True
  then show ?thesis using assms by (simp add: insert_suggestion_def moves_refl)
next
  case False
  then have "distinct (map su_id (d_suggestions st @ [s]))" "distinct (map su_key (d_suggestions st @ [s]))"
    using assms by (auto simp: store_ok_def list_ex_iff)
  from suggestions_changed [OF assms suggestion_order.keep_append this] False show ?thesis
    by (simp only: insert_suggestion_def if_False)
qed

lemma review_suggestion_ok:
  assumes "store_ok sv st" "review_suggestion pid sid accepted reason now st = Ok st'"
  shows "store_ok sv st' \<and> moves {} st st'"
proof -
  obtain f where st': "st' = st\<lparr>d_suggestions := update_rows (\<lambda>s. su_plan s = pid \<and> su_id s = sid \<and> su_state s = ''awaiting_review'') f (d_suggestions st)\<rparr>"
    and f: "\<And>s. su_id (f s) = su_id s \<and> su_key (f s) = su_key s \<and> su_finding (f s) = su_finding s"
    using assms(2) by (intro that [of "\<lambda>s. s\<lparr>su_state := (if accepted then ''accepted'' else ''rejected''),
        su_reason := (if accepted then None else Some (trim (case reason of None \<Rightarrow> [] | Some r \<Rightarrow> r))), su_reviewed := Some now\<rparr>"])
      (auto simp: review_suggestion_def Let_def result_simps)
  have ids: "map su_id (update_rows P f ss) = map su_id ss" "map su_key (update_rows P f ss) = map su_key ss" for P ss
    using f by (auto simp: update_rows_def)
  show ?thesis
    unfolding st'
    by (rule suggestions_changed [OF assms(1) suggestion_order.keep_update])
      (use assms(1) f in \<open>auto simp: suggestion_le_def ids store_ok_def\<close>)
qed

definition new_rows :: "string \<Rightarrow> int \<Rightarrow> nat \<Rightarrow> (string \<times> child_proposal) list \<Rightarrow> child_row list" where
  "new_rows pid now n cs = map (\<lambda>(k, cid, c). new_child pid now k cid c) (List.enumerate n cs)"

lemma insert_children_Ok:
  "insert_children pid now n cs st = Ok st' \<Longrightarrow>
   st' = st\<lparr>d_children := d_children st @ new_rows pid now n cs\<rparr> \<and>
   (distinct (map ch_id (d_children st)) \<longrightarrow> distinct (map ch_id (d_children st'))) \<and>
   (\<forall>r \<in> set (new_rows pid now n cs). starts_with (ch_id r) ''childrun_'')"
proof (induction cs arbitrary: n st)
  case (Cons x cs)
  obtain cid c where x: "x = (cid, c)" by (cases x)
  let ?r = "new_child pid now n cid c" and ?st = "st\<lparr>d_children := d_children st @ [new_child pid now n cid c]\<rparr>"
  have ins: "starts_with (ch_id ?r) ''childrun_''" "ch_id ?r \<notin> ch_id ` set (d_children st)"
    "insert_children pid now (Suc n) cs ?st = Ok st'"
    using Cons.prems unfolding x by (auto simp: insert_child_def result_simps list_ex_iff)
  have more: "new_rows pid now n (x # cs) = ?r # new_rows pid now (Suc n) cs" by (simp add: new_rows_def x)
  note IH = Cons.IH [OF ins(3)]
  have "distinct (map ch_id (d_children st)) \<Longrightarrow> distinct (map ch_id (d_children ?st))" using ins(2) by auto
  then have "distinct (map ch_id (d_children st)) \<Longrightarrow> distinct (map ch_id (d_children st'))" using IH by blast
  moreover have "st' = st\<lparr>d_children := d_children st @ new_rows pid now n (x # cs)\<rparr>" using IH by (simp add: more)
  moreover have "\<forall>r \<in> set (new_rows pid now n (x # cs)). starts_with (ch_id r) ''childrun_''" using IH ins(1) by (simp add: more)
  ultimately show ?case by blast
qed (simp add: new_rows_def)

lemma create_plan_ok:
  assumes "store_ok sv st" "create_plan sv bound pid child_id now r st = Ok st'"
  shows "store_ok sv st' \<and> moves {} st st'"
proof -
  let ?cs = "map (\<lambda>(i, c). (child_id i, c)) (List.enumerate 0 (children r))"
  let ?p = "new_plan pid now r" let ?rows = "new_rows pid now 0 ?cs"
  have pid: "starts_with pid ''delegation_''" "pid \<notin> pl_id ` set (d_plans st)"
    and valid: "validate_plan sv r = Ok ()"
    and ins: "insert_children pid now 0 ?cs (st\<lparr>d_plans := d_plans st @ [?p]\<rparr>) = Ok st'"
    using assms(2) unfolding create_plan_def
    by (auto simp: result_simps list_ex_iff split: sum.splits)
  note added = insert_children_Ok [OF ins]
  have st': "st' = st\<lparr>d_plans := d_plans st @ [?p], d_children := d_children st @ ?rows\<rparr>"
    using added by (cases st) simp
  have kids: "distinct (map ch_id (d_children st'))"
    by (rule mp [OF conjunct1 [OF conjunct2 [OF added]]]) (use assms(1) in \<open>simp add: store_ok_def\<close>)
  have new: "row_ok sv q \<and> ch_plan q = pid" if "q \<in> set ?rows" for q
  proof -
    obtain k cid c where q: "q = new_child pid now k cid c" and c: "c \<in> set (children r)"
      using \<open>q \<in> set ?rows\<close> by (auto simp: new_rows_def in_set_enumerate_eq nth_enumerate_eq)
    have "child_ok sv c" using valid c unfolding plan_accepted by (auto simp: list_all_iff)
    moreover have "starts_with (ch_id q) ''childrun_''" using added that by blast
    moreover have "proposal_of (new_child pid now k cid c) = c"
      using \<open>child_ok sv c\<close> by (cases c) (simp add: child_ok_def proposal_of_def new_child_def)
    ultimately show ?thesis
      unfolding q by (simp add: row_ok_def) (simp add: new_child_def between_def)
  qed
  show ?thesis
  proof
    show mv: "moves {} st st'"
      unfolding moves_def st'
      by (intro conjI exI [of _ "\<lambda>_. False"] exI [of _ id] exI [of _ ?rows])
        (use new pid in \<open>auto simp: update_rows_def suggestion_order.keep_refl\<close>)
    have "plan_ok st' p" if "p \<in> set (d_plans st)" for p
      using plan_ok_stable [OF mv] that assms(1) by (auto simp: store_ok_def)
    moreover have "plan_ok st' ?p" using pid by (simp add: plan_ok_def new_plan_def)
    ultimately show "store_ok sv st'"
      using assms(1) pid new kids unfolding store_ok_def st' by (auto simp: new_plan_def)
  qed
qed

subsection \<open>Calls\<close>

text \<open>The children a call has registered, and those whose row it may still write.\<close>

fun holding :: "delegation_call \<Rightarrow> string list" where
  "holding (Running pid ids retry ph) =
     (case ph of Loaded \<Rightarrow> [] | Checking \<Rightarrow> [] | Finalizing \<Rightarrow> [] | Suggesting view ss \<Rightarrow> [] | _ \<Rightarrow> ids)"
| "holding _ = []"

fun pending :: "run_phase \<Rightarrow> string list" where
  "pending (Starting rest jobs) = map fst jobs"
| "pending (Working jobs rs) = map fst jobs @ map fst rs"
| "pending (Storing rs) = map fst rs"
| "pending (Writing i r rs) = i # map fst rs"
| "pending _ = []"

fun jobs_of :: "run_phase \<Rightarrow> (string \<times> child_proposal) list" where
  "jobs_of (Starting rest jobs) = jobs"
| "jobs_of (Working jobs rs) = jobs"
| "jobs_of _ = []"

fun results_of :: "run_phase \<Rightarrow> (string \<times> outcome) list" where
  "results_of (Working jobs rs) = rs"
| "results_of (Storing rs) = rs"
| "results_of (Writing i r rs) = (i, r) # rs"
| "results_of _ = []"

definition child_of :: "delegation_store \<Rightarrow> string \<Rightarrow> string \<Rightarrow> child_row \<Rightarrow> bool" where
  "child_of st pid i r \<longleftrightarrow> r \<in> set (d_children st) \<and> ch_plan r = pid \<and> ch_id r = i"

definition phase_ok :: "delegation_store \<Rightarrow> string \<Rightarrow> string list \<Rightarrow> run_phase \<Rightarrow> bool" where
  "phase_ok st pid ids ph \<longleftrightarrow> distinct (pending ph) \<and> set (pending ph) \<subseteq> set ids \<and>
     (\<forall>i \<in> set (pending ph). \<exists>r. child_of st pid i r \<and> \<not> done_row r) \<and>
     (\<forall>i p. (i, p) \<in> set (jobs_of ph) \<longrightarrow> (\<exists>r. child_of st pid i r \<and> proposal_of r = p)) \<and>
     (\<forall>i v. (i, Inr v) \<in> set (results_of ph) \<longrightarrow> (\<exists>r. child_of st pid i r \<and> result_ok (ch_budget r) v)) \<and>
     (case ph of Starting rest jobs \<Rightarrow> ids = map fst jobs @ rest
      | Suggesting view ss \<Rightarrow> list_all done_row (vw_children view) \<longrightarrow> vw_children view = rows_of pid st
      | _ \<Rightarrow> True)"

fun call_fits :: "delegation_store \<Rightarrow> delegation_call \<Rightarrow> bool" where
  "call_fits st (Running pid ids retry ph) \<longleftrightarrow> pid \<in> pl_id ` set (d_plans st) \<and> distinct ids \<and>
     (\<forall>i \<in> set ids. \<exists>r. child_of st pid i r) \<and> phase_ok st pid ids ph"
| "call_fits st _ \<longleftrightarrow> True"

definition delegation_inv :: "(string \<Rightarrow> string \<Rightarrow> string \<Rightarrow> bool) \<Rightarrow> delegation_system \<Rightarrow> bool" where
  "delegation_inv sv w \<longleftrightarrow> store_ok sv (g_store w) \<and> (\<forall>c \<in> set (g_calls w). call_fits (g_store w) c) \<and>
     distinct (concat (map holding (g_calls w))) \<and> (\<forall>c \<in> set (g_calls w). set (holding c) \<subseteq> dom (g_flags w))"

lemma child_of_moves:
  assumes "moves X st st'" "child_of st pid i r"
  shows "\<exists>r'. child_of st' pid i r' \<and> child_le r r' \<and> (done_row r' \<longrightarrow> done_row r \<or> i \<in> X)"
  using moves_child [OF assms(1), of r] assms(2) by (force simp: child_of_def child_le_def same_child_def)

lemma child_le_proposal: "child_le r r' \<Longrightarrow> proposal_of r' = proposal_of r \<and> ch_budget r' = ch_budget r"
  by (simp add: child_le_def same_child_def proposal_of_def)

lemma phase_pending: "phase_ok st pid ids ph \<Longrightarrow> i \<in> set (pending ph) \<Longrightarrow> \<exists>r. child_of st pid i r \<and> \<not> done_row r"
  by (simp add: phase_ok_def)

lemma phase_job: "phase_ok st pid ids ph \<Longrightarrow> (i, p) \<in> set (jobs_of ph) \<Longrightarrow> \<exists>r. child_of st pid i r \<and> proposal_of r = p"
  by (auto simp: phase_ok_def)

lemma phase_result:
  "phase_ok st pid ids ph \<Longrightarrow> (i, Inr v) \<in> set (results_of ph) \<Longrightarrow> \<exists>r. child_of st pid i r \<and> result_ok (ch_budget r) v"
  by (auto simp: phase_ok_def)

lemma phase_ok_moves:
  assumes mv: "moves X st st'" and "phase_ok st pid ids ph" "set (pending ph) \<inter> X = {}" "pid \<in> pl_id ` set (d_plans st)"
  shows "phase_ok st' pid ids ph"
proof -
  have "\<exists>r. child_of st' pid i r \<and> \<not> done_row r" if h: "i \<in> set (pending ph)" for i
  proof -
    obtain r where "child_of st pid i r" "\<not> done_row r" using phase_pending [OF assms(2) h] by blast
    with child_of_moves [OF mv, of pid i r] assms(3) h show ?thesis by blast
  qed
  moreover have "\<exists>r. child_of st' pid i r \<and> proposal_of r = p" if h: "(i, p) \<in> set (jobs_of ph)" for i p
  proof -
    obtain r where "child_of st pid i r" "proposal_of r = p" using phase_job [OF assms(2) h] by blast
    with child_of_moves [OF mv, of pid i r] show ?thesis by (auto dest: child_le_proposal)
  qed
  moreover have "\<exists>r. child_of st' pid i r \<and> result_ok (ch_budget r) v" if h: "(i, Inr v) \<in> set (results_of ph)" for i v
  proof -
    obtain r where "child_of st pid i r" "result_ok (ch_budget r) v" using phase_result [OF assms(2) h] by blast
    with child_of_moves [OF mv, of pid i r] show ?thesis by (auto dest!: child_le_proposal)
  qed
  moreover have "case ph of Starting rest jobs \<Rightarrow> ids = map fst jobs @ rest
      | Suggesting view ss \<Rightarrow> list_all done_row (vw_children view) \<longrightarrow> vw_children view = rows_of pid st'
      | _ \<Rightarrow> True"
    using assms(2) rows_of_stable [OF mv _ assms(4)] by (auto simp: phase_ok_def split: run_phase.splits)
  ultimately show ?thesis using assms(2) by (simp add: phase_ok_def)
qed

lemma call_fits_moves:
  assumes mv: "moves X st st'" and "call_fits st c" "set (holding c) \<inter> X = {}"
  shows "call_fits st' c"
proof (cases c)
  case (Running pid ids retry ph)
  have "set (pending ph) \<subseteq> set (holding c)"
    using assms(2) by (cases ph) (auto simp: Running phase_ok_def)
  then have "set (pending ph) \<inter> X = {}" using assms(3) by blast
  then have "phase_ok st' pid ids ph"
    using phase_ok_moves [OF mv] assms(2) by (simp add: Running)
  moreover have "pl_id ` set (d_plans st) \<subseteq> pl_id ` set (d_plans st')" using mv by (simp add: moves_def)
  moreover have "\<forall>i \<in> set ids. \<exists>r. child_of st' pid i r" using assms(2) child_of_moves [OF mv] by (simp add: Running) blast
  ultimately show ?thesis using assms(2) by (auto simp: Running)
qed simp_all

lemma worker_result_ok: "worker_execute env infer flag elapsed timed_out p = Ok v \<Longrightarrow> result_ok (budget p) v"
  by (auto simp: worker_execute_def worker_operation_def result_ok_def Let_def result_simps not_less split: if_splits)

subsection \<open>Steps of a call\<close>

lemma get_plan_rows: "get_plan pid st = Ok view \<Longrightarrow>
    vw_children view = rows_of pid st \<and> vw_plan view \<in> set (d_plans st) \<and> pl_id (vw_plan view) = pid"
  by (auto simp: get_plan_def rows_of_def result_simps dest: find_SomeD)

lemma proposal_row: "proposal pid i st = Ok p \<Longrightarrow> \<exists>r. child_of st pid i r \<and> proposal_of r = p"
  by (auto simp: proposal_def child_of_def result_simps dest: find_SomeD)

lemma one_child: "store_ok sv st \<Longrightarrow> child_of st pid i r \<Longrightarrow> child_of st pid' i r' \<Longrightarrow> r = r'"
  by (auto simp: store_ok_def child_of_def intro: distinct_key_eq)

lemma set_child_running_row:
  assumes "store_ok sv st" "set_child_running pid i retry now st = Ok st'" "child_of st' pid i r"
  shows "\<not> done_row r"
proof -
  obtain f where st': "d_children st' = update_rows (startable pid i) f (d_children st)"
    and f: "\<And>q. ch_state (f q) = ''running'' \<and> ch_id (f q) = ch_id q"
    using assms(2) by (intro that [of "\<lambda>r. r\<lparr>ch_state := ''running'',
        ch_summary := ''Reading only the explicitly delegated sources.'', ch_result := None, ch_error := None,
        ch_started := Some now, ch_completed := None, ch_updated := now, ch_attempt := ch_attempt r + (if retry then 1 else 0)\<rparr>"])
      (auto simp: set_child_running_def Let_def result_simps)
  obtain q where q: "q \<in> set (d_children st)" "startable pid i q"
    using assms(2) by (auto simp: set_child_running_def Let_def result_simps changed_rows_def filter_empty_conv)
  obtain q' where q': "q' \<in> set (d_children st)" "r = (if startable pid i q' then f q' else q')"
    using assms(3) by (auto simp: child_of_def st' set_update_rows)
  have "ch_id q' = ch_id q" using q q' assms(3) f by (auto simp: child_of_def startable_def split: if_splits)
  then have "q' = q" using q(1) q'(1) assms(1) by (auto simp: store_ok_def intro: distinct_key_eq)
  then show ?thesis using q q' f by (simp add: done_row_def)
qed

lemma started_phase:
  assumes "store_ok sv st" "set_child_running pid i retry now st = Ok st'" "proposal pid i st' = Ok p"
    and "phase_ok st pid ids (Starting (i # rest) jobs)" "distinct ids" "pid \<in> pl_id ` set (d_plans st)"
  shows "phase_ok st' pid ids (Starting rest (jobs @ [(i, p)]))"
proof -
  note mv = set_child_running_ok [OF assms(1,2)]
  have old: "phase_ok st' pid ids (Starting (i # rest) jobs)"
    using phase_ok_moves [OF conjunct2 [OF mv] assms(4) _ assms(6)] by simp
  obtain r where r: "child_of st' pid i r" "proposal_of r = p" using proposal_row [OF assms(3)] by blast
  then have "\<not> done_row r" using set_child_running_row [OF assms(1,2)] by blast
  with old r assms(5) show ?thesis by (auto simp: phase_ok_def)
qed

lemma in_order_Cons:
  "in_order (i # ids) rs = (case map_of rs i of None \<Rightarrow> in_order ids rs | Some x \<Rightarrow> (i, x) # in_order ids rs)"
  by (simp add: in_order_def map_filter_simps split: option.split)

lemma in_order_keys: "map fst (in_order ids rs) = filter (\<lambda>i. i \<in> fst ` set rs) ids"
proof (induction ids)
  case (Cons i ids)
  then show ?case
  proof (cases "map_of rs i")
    case (Some x)
    then have "i \<in> fst ` set rs" by (force dest: map_of_SomeD)
    with Cons Some show ?thesis by (simp add: in_order_Cons)
  next
    case None
    then have "i \<notin> fst ` set rs" by (simp add: map_of_eq_None_iff)
    with Cons None show ?thesis by (simp add: in_order_Cons)
  qed
qed (simp add: in_order_def map_filter_simps)

lemma in_order_subset: "set (in_order ids rs) \<subseteq> set rs"
  by (induction ids) (auto simp: in_order_Cons in_order_def [of "[]"] map_filter_simps split: option.splits dest: map_of_SomeD)

lemma storing_phase:
  assumes "phase_ok st pid ids (Working [] rs)" "distinct ids"
  shows "phase_ok st pid ids (Storing (in_order ids rs))"
proof -
  have keys: "set (map fst (in_order ids rs)) \<subseteq> fst ` set rs" using in_order_subset [of ids rs] by auto
  show ?thesis
    using assms in_order_subset [of ids rs] keys unfolding phase_ok_def pending.simps results_of.simps jobs_of.simps in_order_keys
    by (auto simp: subset_iff)
qed

lemma phase_tail: "phase_ok st pid ids (Storing (x # rs)) \<Longrightarrow> phase_ok st pid ids (Storing rs)"
  by (auto simp: phase_ok_def)

lemma phase_writing: "phase_ok st pid ids (Storing ((i, x) # rs)) \<longleftrightarrow> phase_ok st pid ids (Writing i x rs)"
  by (simp add: phase_ok_def)

lemma written_phase:
  assumes "store_ok sv st" "phase_ok st pid ids (Writing i x rs)" "pid \<in> pl_id ` set (d_plans st)"
  shows "store_ok sv (finish_child pid i x now st) \<and> moves {i} st (finish_child pid i x now st) \<and>
    phase_ok (finish_child pid i x now st) pid ids (Storing rs)"
proof -
  have "\<not> done_row r \<and> (\<forall>v. x = Inr v \<longrightarrow> result_ok (ch_budget r) v)" if r: "child_of st pid i r" for r
    using phase_pending [OF assms(2), of i] phase_result [OF assms(2), of i] one_child [OF assms(1) r] by auto
  then have fin: "store_ok sv (finish_child pid i x now st) \<and> moves {i} st (finish_child pid i x now st)"
    using finish_child_ok [OF assms(1), of pid i x now] by (simp add: child_of_def)
  have "phase_ok st pid ids (Storing rs)" "set (pending (Storing rs)) \<inter> {i} = {}"
    using assms(2) by (auto simp: phase_ok_def)
  from phase_ok_moves [OF conjunct2 [OF fin] this assms(3)] fin show ?thesis by blast
qed

lemma chosen_completed:
  "(if A then ''completed'' else if B then ''partial'' else if C then ''cancelled'' else ''failed'') = ''completed'' \<Longrightarrow> A"
  by (simp split: if_split_asm)

lemma all_done:
  assumes "final_state cs = ''completed''"
  shows "list_all done_row cs"
proof -
  have "length (filter done_row cs) = length cs"
    using assms unfolding final_state_def Let_def done_row_def by (rule chosen_completed)
  then show ?thesis unfolding list_all_iff using length_filter_less [of _ cs done_row] by (metis nat_neq_iff)
qed

end
