(* ===== verification/Delegation_Props.thy ===== *)
theory Delegation_Props
  imports Delegation_Inv
begin

text \<open>
  Every step of the delegation commands keeps the invariant, so it holds after any interleaving;
  then the properties of the runtime.
\<close>

subsection \<open>Every step\<close>

lemma held_is_child:
  assumes "store_ok sv st" "call_fits st c" "i \<in> set (holding c)"
  shows "starts_with i ''childrun_''"
proof (cases c)
  case (Running pid ids retry ph)
  have "i \<in> set ids" using assms(3) by (auto simp: Running split: run_phase.splits)
  then obtain r where "child_of st pid i r" using assms(2) by (auto simp: Running)
  then show ?thesis using assms(1) by (auto simp: store_ok_def child_of_def row_ok_def)
qed (use assms(3) in simp_all)

text \<open>What a step of one call must show so that the others are not disturbed.\<close>

lemma call_replaced:
  assumes inv: "delegation_inv sv w" and calls: "g_calls w = xs @ c # ys"
    and st: "store_ok sv st'" "moves X (g_store w) st'" "X \<subseteq> set (holding c)"
    and new: "list_all (call_fits st') new" "distinct (concat (map holding new))"
      "set (concat (map holding new)) \<subseteq> dom fl'" "set (concat (map holding new)) \<subseteq> set (holding c) \<union> - dom (g_flags w)"
    and fl: "\<And>i. i \<in> dom (g_flags w) \<Longrightarrow> i \<notin> set (holding c) \<Longrightarrow> starts_with i ''childrun_'' \<Longrightarrow> i \<in> dom fl'"
  shows "delegation_inv sv \<lparr>g_store = st', g_flags = fl', g_calls = xs @ new @ ys\<rparr>"
proof -
  have dist: "distinct (concat (map holding (xs @ c # ys)))" and store: "store_ok sv (g_store w)"
    and fits: "\<And>d. d \<in> set (xs @ c # ys) \<Longrightarrow> call_fits (g_store w) d \<and> set (holding d) \<subseteq> dom (g_flags w)"
    using inv unfolding delegation_inv_def calls by auto
  have old: "call_fits st' d \<and> set (holding d) \<subseteq> dom fl'" if d: "d \<in> set (xs @ ys)" for d
  proof
    have apart: "set (holding d) \<inter> set (holding c) = {}" using dist d by auto
    then show "call_fits st' d"
      using call_fits_moves [OF st(2), of d] fits d st(3) by auto
    show "set (holding d) \<subseteq> dom fl'"
    proof
      fix i assume i: "i \<in> set (holding d)"
      then have "starts_with i ''childrun_''" using held_is_child [OF store] fits d by auto
      then show "i \<in> dom fl'" using fl [of i] i apart fits [of d] d by auto
    qed
  qed
  have "set (concat (map holding xs)) \<subseteq> dom (g_flags w)" "set (concat (map holding ys)) \<subseteq> dom (g_flags w)"
    using fits by auto
  then have "distinct (concat (map holding (xs @ new @ ys)))"
    using dist new(2,4) by (simp only: map_append concat_append list.map concat.simps distinct_append set_append) blast
  moreover have "call_fits st' d \<and> set (holding d) \<subseteq> dom fl'" if d: "d \<in> set (xs @ new @ ys)" for d
  proof (cases "d \<in> set (xs @ ys)")
    case False
    then have "d \<in> set new" using d by auto
    then show ?thesis using new(1,3) unfolding list_all_iff set_concat set_map by blast
  qed (rule old)
  ultimately show ?thesis using st(1) by (simp add: delegation_inv_def)
qed

lemma dom_cancel_flag [simp]: "dom (cancel_flag i fl) = dom fl"
  by (auto simp: cancel_flag_def split: option.splits)

lemma dom_register_ids: "dom (fold (\<lambda>i f. f(i \<mapsto> False)) ids fl) = dom fl \<union> set ids"
  by (induction ids arbitrary: fl) auto

lemma register_Ok:
  assumes "register pid ids fl = Ok fl'"
  shows "dom fl' = insert pid (dom fl \<union> set ids) \<and> set ids \<inter> dom fl = {}"
proof
  have "fl' = (fold (\<lambda>i f. f(i \<mapsto> False)) ids fl)(pid \<mapsto> False)" using assms by (simp add: register_def result_simps)
  then show "dom fl' = insert pid (dom fl \<union> set ids)" by (simp add: dom_register_ids)
  show "set ids \<inter> dom fl = {}" using assms by (auto simp: register_def result_simps list_ex_iff)
qed

lemma dom_remove_ids: "dom (fold (\<lambda>i f. f(i := None)) ids fl) = dom fl - set ids"
  by (induction ids arbitrary: fl) auto

lemma dom_unregister: "dom (unregister pid ids fl) = dom fl - {pid} - set ids"
  by (auto simp: unregister_def dom_remove_ids)

lemma childrun_not_plan: "starts_with i ''childrun_'' \<Longrightarrow> \<not> starts_with i ''delegation_''"
  by (cases i) (auto simp: starts_with_def)

definition run_fits ::
  "(string \<Rightarrow> string \<Rightarrow> string \<Rightarrow> bool) \<Rightarrow> string \<Rightarrow> string list \<Rightarrow> bool \<Rightarrow> run_phase \<Rightarrow> delegation_system \<Rightarrow> delegation_system \<Rightarrow> run_phase option \<Rightarrow> bool" where
  "run_fits sv pid ids retry ph w w' ph' \<longleftrightarrow>
     (\<exists>X. store_ok sv (g_store w') \<and> moves X (g_store w) (g_store w') \<and> X \<subseteq> set (holding (Running pid ids retry ph))) \<and>
     (\<forall>q. ph' = Some q \<longrightarrow> phase_ok (g_store w') pid ids q) \<and>
     (ph = Loaded \<and> ph' = Some Registered \<and> dom (g_flags w') = insert pid (dom (g_flags w) \<union> set ids) \<and> set ids \<inter> dom (g_flags w) = {} \<or>
      ph = Unregistering \<and> (\<forall>q. ph' = Some q \<longrightarrow> holding (Running pid ids retry q) = []) \<and>
        dom (g_flags w') = dom (g_flags w) - {pid} - set ids \<or>
      ph \<noteq> Loaded \<and> ph \<noteq> Unregistering \<and> g_flags w' = g_flags w \<and>
        (\<forall>q. ph' = Some q \<longrightarrow> set (holding (Running pid ids retry q)) \<subseteq> set (holding (Running pid ids retry ph))))"

lemma advance_run_fits:
  assumes "store_ok sv (g_store w)" "call_fits (g_store w) (Running pid ids retry ph)"
    and "advance_run sha now pid ids retry ph w = Ok (w', ph')"
  shows "run_fits sv pid ids retry ph w w' ph'"
proof -
  have fit: "phase_ok (g_store w) pid ids ph" "distinct ids" "pid \<in> pl_id ` set (d_plans (g_store w))" using assms(2) by simp_all
  have stay: "store_ok sv (g_store w)" "moves {} (g_store w) (g_store w)" by (rule assms(1)) (rule moves_refl)
  show ?thesis
  proof (cases ph)
    case Loaded
    then show ?thesis using assms(3) stay register_Ok
      by (auto simp: run_fits_def result_simps phase_ok_def) blast+
  next
    case Registered
    then obtain st where st: "set_plan_state pid ''running'' None now (g_store w) = Ok st"
      and w': "w' = w\<lparr>g_store := st\<rparr>" "ph' = Some (Starting ids [])"
      using assms(3) by (auto simp: result_simps)
    have "store_ok sv st \<and> moves {} (g_store w) st" by (rule set_plan_state_ok [OF assms(1) st]) simp
    then show ?thesis by (auto simp: run_fits_def Registered w' phase_ok_def)
  next
    case (Starting rest jobs)
    show ?thesis
    proof (cases rest)
      case Nil
      then show ?thesis using assms(3) fit stay by (auto simp: run_fits_def Starting phase_ok_def)
    next
      case (Cons i rest')
      then obtain st p where st: "set_child_running pid i retry now (g_store w) = Ok st" "proposal pid i st = Ok p"
        and w': "w' = w\<lparr>g_store := st\<rparr>" "ph' = Some (Starting rest' (jobs @ [(i, p)]))"
        using assms(3) by (auto simp: Starting result_simps)
      have "phase_ok st pid ids (Starting rest' (jobs @ [(i, p)]))"
        using started_phase [OF assms(1) st _ fit(2,3)] fit(1) by (simp add: Starting Cons)
      then show ?thesis using set_child_running_ok [OF assms(1) st(1)] by (auto simp: run_fits_def Starting w')
    qed
  next
    case (Working jobs rs)
    then have "jobs = []" "w' = w" "ph' = Some (Storing (in_order ids rs))" using assms(3) by (cases jobs; simp)+
    then show ?thesis using storing_phase [of "g_store w" pid ids rs] fit stay by (auto simp: run_fits_def Working)
  next
    case (Storing rs)
    show ?thesis
    proof (cases rs)
      case Nil
      then show ?thesis using assms(3) stay by (auto simp: run_fits_def Storing phase_ok_def)
    next
      case (Cons x rest)
      obtain i r where x: "x = (i, r)" by (cases x)
      have "phase_ok (g_store w) pid ids (Writing i r rest)" "phase_ok (g_store w) pid ids (Storing rest)"
        using fit(1) phase_tail [of "g_store w" pid ids x rest] by (simp_all add: Storing Cons x phase_writing)
      then show ?thesis using assms(3) stay
        by (cases "child_state pid i (g_store w) = Some ''paused''") (auto simp: run_fits_def Storing Cons x)
    qed
  next
    case (Writing i x rs)
    then have w': "w' = w\<lparr>g_store := finish_child pid i x now (g_store w)\<rparr>" "ph' = Some (Storing rs)" using assms(3) by auto
    have "i \<in> set ids" using fit(1) by (simp add: Writing phase_ok_def)
    then show ?thesis using written_phase [OF assms(1) fit(1) [unfolded Writing] fit(3), of now]
      by (auto simp: run_fits_def Writing w' intro!: exI [of _ "{i}"])
  next
    case Unregistering
    then have w': "w' = w\<lparr>g_flags := unregister pid ids (g_flags w)\<rparr>" "ph' = Some (if retry then Finalizing else Checking)"
      using assms(3) by auto
    have next_ok: "phase_ok (g_store w) pid ids (if retry then Finalizing else Checking)"
      "holding (Running pid ids retry (if retry then Finalizing else Checking)) = []"
      by (cases retry; simp add: phase_ok_def)+
    show ?thesis
      unfolding run_fits_def w' Unregistering
    proof (intro conjI)
      show "\<forall>q. Some (if retry then Finalizing else Checking) = Some q \<longrightarrow>
          phase_ok (g_store (w\<lparr>g_flags := unregister pid ids (g_flags w)\<rparr>)) pid ids q"
        using next_ok(1) by simp
    qed (use stay next_ok(2) in \<open>simp_all add: dom_unregister exI [of _ "{}"]\<close>)
  next
    case Checking
    then show ?thesis using assms(3) stay by (auto simp: run_fits_def phase_ok_def result_simps split: if_splits)
  next
    case Finalizing
    then show ?thesis using assms(3) stay get_plan_rows by (auto simp: run_fits_def phase_ok_def result_simps)
  next
    case (Suggesting view ss)
    show ?thesis
    proof (cases ss)
      case Nil
      then obtain st where st: "set_plan_state pid (final_state (vw_children view)) (Some (synthesize (vw_children view))) now (g_store w) = Ok st"
        and w': "w' = w\<lparr>g_store := st\<rparr>" "ph' = None"
        using assms(3) by (auto simp: Suggesting result_simps)
      have "list_all done_row (vw_children view) \<longrightarrow> vw_children view = rows_of pid (g_store w)"
        using fit(1) by (simp add: Suggesting phase_ok_def)
      then have "store_ok sv st \<and> moves {} (g_store w) st"
        using all_done by (intro set_plan_state_ok [OF assms(1) st]) auto
      then show ?thesis by (auto simp: run_fits_def Suggesting w')
    next
      case (Cons s ss')
      then have w': "w' = w\<lparr>g_store := insert_suggestion s (g_store w)\<rparr>" "ph' = Some (Suggesting view ss')"
        using assms(3) by (auto simp: Suggesting)
      note ins = insert_suggestion_ok [OF assms(1), of s]
      have "phase_ok (g_store w) pid ids (Suggesting view ss')" using fit(1) by (simp add: Suggesting phase_ok_def)
      then have "phase_ok (insert_suggestion s (g_store w)) pid ids (Suggesting view ss')"
        by (rule phase_ok_moves [OF conjunct2 [OF ins]]) (simp_all add: fit(3))
      then show ?thesis using ins by (auto simp: run_fits_def Suggesting w')
    qed
  qed
qed

lemma run_step_inv:
  assumes inv: "delegation_inv sv w" and calls: "g_calls w = xs @ Running pid ids retry ph # ys"
    and adv: "advance_run sha now pid ids retry ph w = Ok (w', ph')"
  shows "delegation_inv sv (w'\<lparr>g_calls := xs @ (case ph' of None \<Rightarrow> [] | Some q \<Rightarrow> [Running pid ids retry q]) @ ys\<rparr>)"
proof -
  let ?c = "Running pid ids retry ph"
  let ?new = "case ph' of None \<Rightarrow> [] | Some q \<Rightarrow> [Running pid ids retry q]"
  have store: "store_ok sv (g_store w)" and fits: "call_fits (g_store w) ?c"
    and held: "set (holding ?c) \<subseteq> dom (g_flags w)"
    using inv by (auto simp: delegation_inv_def calls)
  have rf: "run_fits sv pid ids retry ph w w' ph'" by (rule advance_run_fits [OF store fits adv])
  then obtain X where X: "store_ok sv (g_store w')" "moves X (g_store w) (g_store w')" "X \<subseteq> set (holding ?c)"
    unfolding run_fits_def by (elim conjE exE)
  have pid: "starts_with pid ''delegation_''" using store fits by (auto simp: store_ok_def plan_ok_def)
  have kept: "pl_id ` set (d_plans (g_store w)) \<subseteq> pl_id ` set (d_plans (g_store w'))" using X(2) by (simp add: moves_def)
  have "\<forall>q. ph' = Some q \<longrightarrow> phase_ok (g_store w') pid ids q" using rf by (simp add: run_fits_def)
  moreover have "\<forall>i \<in> set ids. \<exists>r. child_of (g_store w') pid i r" using fits child_of_moves [OF X(2)] by simp blast
  ultimately have new_fits: "list_all (call_fits (g_store w')) ?new" using fits kept by (auto split: option.split)
  have new_dist: "distinct (concat (map holding ?new))" using fits by (auto split: option.split run_phase.split)
  have flags: "set (concat (map holding ?new)) \<subseteq> dom (g_flags w') \<and>
      set (concat (map holding ?new)) \<subseteq> set (holding ?c) \<union> - dom (g_flags w) \<and>
      (\<forall>i. i \<in> dom (g_flags w) \<longrightarrow> i \<notin> set (holding ?c) \<longrightarrow> starts_with i ''childrun_'' \<longrightarrow> i \<in> dom (g_flags w'))"
    using conjunct2 [OF conjunct2 [OF rf [unfolded run_fits_def]]]
  proof (elim disjE conjE)
    assume "ph = Loaded" "ph' = Some Registered" "dom (g_flags w') = insert pid (dom (g_flags w) \<union> set ids)" "set ids \<inter> dom (g_flags w) = {}"
    then show ?thesis by (simp only: option.case list.map concat.simps holding.simps run_phase.case append_Nil2) blast
  next
    assume "ph = Unregistering" "\<forall>q. ph' = Some q \<longrightarrow> holding (Running pid ids retry q) = []"
      "dom (g_flags w') = dom (g_flags w) - {pid} - set ids"
    then show ?thesis using childrun_not_plan pid by (cases ph') (simp_all only: option.case list.map concat.simps holding.simps
        run_phase.case append_Nil2 list.set, blast+)
  next
    assume "g_flags w' = g_flags w" "\<forall>q. ph' = Some q \<longrightarrow> set (holding (Running pid ids retry q)) \<subseteq> set (holding ?c)"
    then show ?thesis using held by (cases ph') (simp_all only: option.case list.map concat.simps append_Nil2 list.set, blast+)
  qed
  have "delegation_inv sv \<lparr>g_store = g_store w', g_flags = g_flags w', g_calls = xs @ ?new @ ys\<rparr>"
    by (rule call_replaced [OF inv calls X new_fits new_dist conjunct1 [OF flags] conjunct1 [OF conjunct2 [OF flags]]])
      (rule conjunct2 [OF conjunct2 [OF flags], rule_format])
  then show ?thesis by (cases w') (simp only: delegation_system.simps)
qed

lemma rows_of_distinct: "store_ok sv st \<Longrightarrow> distinct (map ch_id (filter P (rows_of pid st)))"
  by (auto simp: store_ok_def rows_of_def distinct_map inj_on_def)

lemma begun_fits:
  assumes "store_ok sv st" "begin_execute pid st = Ok c \<or> begin_retry pid cid st = Ok c \<or> begin_pause pid st = Ok c \<or>
      begin_cancel_child pid cid st = Ok c \<or> begin_cancel_plan pid st = Ok c"
  shows "call_fits st c \<and> holding c = []"
  using assms(2)
proof (elim disjE)
  assume "begin_execute pid st = Ok c"
  then obtain view where view: "get_plan pid st = Ok view"
    and c: "c = Running (pl_id (vw_plan view)) (map ch_id (filter runnable (vw_children view))) False Loaded"
    by (auto simp: begin_execute_def Let_def result_simps)
  from get_plan_rows [OF view] rows_of_distinct [OF assms(1)] show ?thesis
    by (auto simp: c phase_ok_def child_of_def rows_of_members)
next
  assume "begin_retry pid cid st = Ok c"
  then obtain view child where view: "get_plan pid st = Ok view" and child: "find (\<lambda>c. ch_id c = cid) (vw_children view) = Some child"
    and c: "c = Running (pl_id (vw_plan view)) [ch_id child] True Loaded"
    by (auto simp: begin_retry_def result_simps)
  from get_plan_rows [OF view] find_SomeD [OF child] show ?thesis
    by (auto simp: c phase_ok_def child_of_def rows_of_members)
qed (auto simp: begin_pause_def begin_cancel_child_def begin_cancel_plan_def result_simps)

lemma worker_phase:
  assumes "phase_ok st pid ids (Working (js @ (i, p) # ks) rs)" "r = worker_execute env infer flag elapsed timed_out p"
  shows "phase_ok st pid ids (Working (js @ ks) (rs @ [(i, r)]))"
proof -
  obtain q where q: "child_of st pid i q" "proposal_of q = p" using phase_job [OF assms(1), of i p] by auto
  have "result_ok (ch_budget q) v" if "r = Inr v" for v
    using worker_result_ok [of env infer flag elapsed timed_out p v] that assms(2) q(2) by (auto simp: proposal_of_def)
  then have "\<forall>v. r = Inr v \<longrightarrow> (\<exists>q. child_of st pid i q \<and> result_ok (ch_budget q) v)" using q(1) by blast
  then show ?thesis using assms(1) by (auto simp: phase_ok_def)
qed

lemma replaced_same_store:
  assumes inv: "delegation_inv sv w" and calls: "g_calls w = xs @ c # ys"
    and new: "list_all (call_fits (g_store w)) new" "distinct (concat (map holding new))" "set (concat (map holding new)) \<subseteq> set (holding c)"
    and fl: "dom fl = dom (g_flags w)"
  shows "delegation_inv sv \<lparr>g_store = g_store w, g_flags = fl, g_calls = xs @ new @ ys\<rparr>"
proof -
  have "store_ok sv (g_store w)" "set (holding c) \<subseteq> dom fl" using inv by (auto simp: delegation_inv_def calls fl)
  then show ?thesis
    using new by (intro call_replaced [OF inv calls _ moves_refl [of "{}"]]) (auto simp: fl)
qed

lemma replaced_store:
  assumes inv: "delegation_inv sv w" and calls: "g_calls w = xs @ c # ys"
    and st: "store_ok sv st' \<and> moves {} (g_store w) st'"
    and new: "list_all (call_fits st') new" "concat (map holding new) = []"
  shows "delegation_inv sv \<lparr>g_store = st', g_flags = g_flags w, g_calls = xs @ new @ ys\<rparr>"
  using st new by (intro call_replaced [OF inv calls, of _ "{}"]) (simp_all del: concat_eq_Nil_conv)

lemma store_changed:
  assumes inv: "delegation_inv sv w" and st: "store_ok sv st' \<and> moves {} (g_store w) st'"
  shows "delegation_inv sv (w\<lparr>g_store := st'\<rparr>)"
  using inv st call_fits_moves [of "{}" "g_store w" st'] by (auto simp: delegation_inv_def)

lemma control_step_inv:
  assumes inv: "delegation_inv sv w" and calls: "g_calls w = xs @ c # ys"
    and adv: "advance_call sha now c w = Ok (w', c')" and ctl: "\<And>pid ids retry ph. c \<noteq> Running pid ids retry ph"
  shows "delegation_inv sv (w'\<lparr>g_calls := xs @ (case c' of None \<Rightarrow> [] | Some d \<Rightarrow> [d]) @ ys\<rparr>)"
proof -
  have ok: "store_ok sv (g_store w)" using inv by (simp add: delegation_inv_def)
  have flagged: "delegation_inv sv (w\<lparr>g_flags := cancel_flag i (g_flags w), g_calls := xs @ [d] @ ys\<rparr>)"
    if "call_fits (g_store w) d" "holding d = []" for i d
    using replaced_same_store [OF inv calls, of "[d]" "cancel_flag i (g_flags w)"] that by (cases w) simp
  have stored: "delegation_inv sv (w\<lparr>g_store := st, g_calls := xs @ new @ ys\<rparr>)"
    if "store_ok sv st \<and> moves {} (g_store w) st" "list_all (call_fits st) new" "concat (map holding new) = []" for st new
    using replaced_store [OF inv calls that] by (cases w) simp
  show ?thesis
  proof (cases "(sha, now, c, w)" rule: advance_call.cases)
    case (3 sha now pid w)
    then obtain st where "pause_plan pid now (g_store w) = Ok st" "w' = w\<lparr>g_store := st\<rparr>" "c' = None"
      using adv by (auto simp: result_simps)
    with 3 show ?thesis using stored [of st "[]"] pause_plan_ok [OF ok] by simp
  next
    case (7 sha now pid w)
    then show ?thesis using adv stored [of _ "[CancelledChildren pid]"] cancel_not_started_ok [OF ok] by auto
  next
    case (8 sha now pid w)
    then obtain st where st: "set_plan_state pid ''cancelled'' None now (g_store w) = Ok st" "w' = w\<lparr>g_store := st\<rparr>" "c' = None"
      using adv by (auto simp: result_simps)
    have "store_ok sv st \<and> moves {} (g_store w) st" by (rule set_plan_state_ok [OF _ st(1)]) (use 8 ok in simp_all)
    with 8 st show ?thesis using stored [of st "[]"] by simp
  qed (use ctl adv flagged stored [of _ "[]"] cancel_not_started_ok [OF ok] in auto)
qed

lemma delegation_step_inv:
  assumes "delegation_inv sv w" "delegation_step sv sha w w'"
  shows "delegation_inv sv w'"
  using assms(2)
proof cases
  case (creates bound pid child_id now r st)
  then show ?thesis using store_changed [OF assms(1)] create_plan_ok assms(1) by (auto simp: delegation_inv_def)
next
  case (resumes pid now st)
  then show ?thesis using store_changed [OF assms(1)] resume_plan_ok assms(1)
    by (auto simp: delegation_inv_def resume_delegation_plan_def result_simps)
next
  case (reviews pid sid accepted reason now st)
  then show ?thesis using store_changed [OF assms(1)] review_suggestion_ok assms(1)
    by (auto simp: delegation_inv_def review_work_suggestion_def result_simps)
next
  case (begins pid c cid)
  have "store_ok sv (g_store w)" using assms(1) by (simp add: delegation_inv_def)
  from begun_fits [OF this begins(2)] assms(1) show ?thesis by (simp add: begins(1) delegation_inv_def)
next
  case (advances xs c ys now v c')
  show ?thesis
  proof (cases "\<exists>pid ids retry ph. c = Running pid ids retry ph")
    case True
    then obtain pid ids retry ph where c: "c = Running pid ids retry ph" by blast
    then obtain ph' where "advance_run sha now pid ids retry ph w = Ok (v, ph')" "c' = map_option (Running pid ids retry) ph'"
      using advances(3) by (auto simp: result_simps)
    with run_step_inv [OF assms(1) advances(2) [unfolded c] this(1)] advances(1) show ?thesis
      by (cases ph') simp_all
  next
    case False
    then show ?thesis using control_step_inv [OF assms(1) advances(2,3)] advances(1) by blast
  qed
next
  case (fails xs c ys)
  then show ?thesis using replaced_same_store [OF assms(1) fails(2), of "[]" "g_flags w"] by (cases w) (simp add: leave_call_def)
next
  case (worker_ends xs pid ids retry js i p ks rs ys now_set flag r env infer elapsed timed_out)
  have "call_fits (g_store w) (Running pid ids retry (Working (js @ (i, p) # ks) rs))"
    using assms(1) by (auto simp: delegation_inv_def worker_ends(2))
  then have "call_fits (g_store w) (Running pid ids retry (Working (js @ ks) (rs @ [(i, r)])))"
    using worker_phase worker_ends(5) by auto
  then show ?thesis
    using replaced_same_store [OF assms(1) worker_ends(2), of "[Running pid ids retry (Working (js @ ks) (rs @ [(i, r)]))]" "g_flags w"]
      worker_ends(1) by (cases w) auto
qed

text \<open>What the tables keep for ever.\<close>

definition delegation_le :: "delegation_system \<Rightarrow> delegation_system \<Rightarrow> bool" where
  "delegation_le w w' \<longleftrightarrow> rows_keep child_le (d_children (g_store w)) (d_children (g_store w')) \<and>
     rows_keep suggestion_le (d_suggestions (g_store w)) (d_suggestions (g_store w'))"

lemma moves_le: "moves X (g_store w) (g_store w') \<Longrightarrow> delegation_le w w'"
  by (simp add: delegation_le_def moves_keep) (simp add: moves_def)

lemma advance_moves:
  assumes ok: "store_ok sv (g_store w)" and fits: "call_fits (g_store w) c" and adv: "advance_call sha now c w = Ok (w', c')"
  shows "\<exists>X. moves X (g_store w) (g_store w')"
proof (cases "(sha, now, c, w)" rule: advance_call.cases)
  case (1 sha now pid ids retry ph w)
  then obtain ph' where "advance_run sha now pid ids retry ph w = Ok (w', ph')"
    using adv by (auto simp: result_simps)
  then have "run_fits sv pid ids retry ph w w' ph'" using advance_run_fits ok fits 1 by blast
  then show ?thesis using 1 by (auto simp: run_fits_def)
next
  case (8 sha now pid w)
  then obtain st where st: "set_plan_state pid ''cancelled'' None now (g_store w) = Ok st" "w' = w\<lparr>g_store := st\<rparr>"
    using adv by (auto simp: result_simps)
  have "store_ok sv st \<and> moves {} (g_store w) st" by (rule set_plan_state_ok [OF _ st(1)]) (use 8 ok in simp_all)
  then show ?thesis using 8 st(2) by auto
next
  case (3 sha now pid w)
  then obtain st where "pause_plan pid now (g_store w) = Ok st" "w' = w\<lparr>g_store := st\<rparr>" using adv by (auto simp: result_simps)
  then show ?thesis using 3 ok pause_plan_ok by fastforce
qed (use adv ok cancel_not_started_ok moves_refl in \<open>auto, blast+\<close>)

lemma delegation_step_le:
  assumes inv: "delegation_inv sv w" and step: "delegation_step sv sha w w'"
  shows "delegation_le w w'"
proof -
  have ok: "store_ok sv (g_store w)" using inv by (simp add: delegation_inv_def)
  from step have "\<exists>X. moves X (g_store w) (g_store w')"
  proof cases
    case (creates bound pid child_id now r st)
    show ?thesis using create_plan_ok [OF ok creates(2)] creates(1) by auto
  next
    case (resumes pid now st)
    then obtain pid' where "resume_plan pid' now (g_store w) = Ok st" by (auto simp: resume_delegation_plan_def result_simps)
    from resume_plan_ok [OF ok this] resumes(1) show ?thesis by auto
  next
    case (reviews pid sid accepted reason now st)
    then have "review_suggestion pid sid accepted reason now (g_store w) = Ok st" by (auto simp: review_work_suggestion_def result_simps)
    from review_suggestion_ok [OF ok this] reviews(1) show ?thesis by auto
  next
    case (advances xs c ys now v c')
    have "call_fits (g_store w) c" using inv by (simp add: delegation_inv_def advances(2))
    then show ?thesis using advance_moves [OF ok _ advances(3)] advances(1) by simp
  qed (use moves_refl in auto)
  then show ?thesis using moves_le by blast
qed

interpretation delegation_runs: monotone_system "delegation_step sv sha" "delegation_inv sv" delegation_le for sv sha
proof unfold_locales
  fix s t u
  show "delegation_inv sv s \<Longrightarrow> delegation_step sv sha s t \<Longrightarrow> delegation_inv sv t" by (rule delegation_step_inv)
  show "delegation_inv sv s \<Longrightarrow> delegation_step sv sha s t \<Longrightarrow> delegation_le s t" by (rule delegation_step_le)
  show "delegation_le s s" by (simp add: delegation_le_def child_order.keep_refl suggestion_order.keep_refl)
  show "delegation_le s t \<Longrightarrow> delegation_le t u \<Longrightarrow> delegation_le s u"
    unfolding delegation_le_def using child_order.keep_trans suggestion_order.keep_trans by blast
qed

lemma delegation_start_inv: "delegation_inv sv delegation_start"
  by (simp add: delegation_inv_def delegation_start_def store_ok_def)

definition delegation_reachable :: "(string \<Rightarrow> string \<Rightarrow> string \<Rightarrow> bool) \<Rightarrow> (string \<Rightarrow> string) \<Rightarrow> delegation_system \<Rightarrow> bool" where
  "delegation_reachable sv sha w \<longleftrightarrow> (delegation_step sv sha)\<^sup>*\<^sup>* delegation_start w"

lemma reachable_inv: "delegation_reachable sv sha w \<Longrightarrow> delegation_inv sv w"
  unfolding delegation_reachable_def by (erule delegation_runs.run_inv) (rule delegation_start_inv)

subsection \<open>Flags that are left behind\<close>

text \<open>A child whose flag no call under way holds.\<close>

definition left_behind :: "string \<Rightarrow> delegation_system \<Rightarrow> bool" where
  "left_behind i w \<longleftrightarrow> starts_with i ''childrun_'' \<and> i \<in> dom (g_flags w) \<and> (\<forall>c \<in> set (g_calls w). i \<notin> set (holding c))"

lemma left_behind_replaced:
  assumes "left_behind i w" "g_calls w = xs @ c # ys" "i \<in> dom fl" "\<And>d. d \<in> set new \<Longrightarrow> i \<notin> set (holding d)"
  shows "left_behind i \<lparr>g_store = st, g_flags = fl, g_calls = xs @ new @ ys\<rparr>"
  using assms(1,3) assms(4) unfolding left_behind_def assms(2) by auto

lemma left_behind_run:
  assumes inv: "delegation_inv sv w" and left: "left_behind i w" and calls: "g_calls w = xs @ Running pid ids retry ph # ys"
    and adv: "advance_run sha now pid ids retry ph w = Ok (w', ph')"
  shows "i \<in> dom (g_flags w') \<and> (\<forall>q. ph' = Some q \<longrightarrow> i \<notin> set (holding (Running pid ids retry q)))"
proof -
  have ok: "store_ok sv (g_store w)" and fits: "call_fits (g_store w) (Running pid ids retry ph)"
    using inv by (auto simp: delegation_inv_def calls)
  have i: "starts_with i ''childrun_''" "i \<in> dom (g_flags w)" "i \<notin> set (holding (Running pid ids retry ph))"
    using left unfolding left_behind_def calls by auto
  have pid: "i \<noteq> pid" using childrun_not_plan [OF i(1)] ok fits by (auto simp: store_ok_def plan_ok_def)
  show ?thesis
    using conjunct2 [OF conjunct2 [OF advance_run_fits [OF ok fits adv, unfolded run_fits_def]]]
  proof (elim disjE conjE)
    assume "ph = Loaded" "ph' = Some Registered" "dom (g_flags w') = insert pid (dom (g_flags w) \<union> set ids)" "set ids \<inter> dom (g_flags w) = {}"
    moreover have "i \<notin> set ids" "i \<in> insert pid (dom (g_flags w) \<union> set ids)" using i(2) calculation(4) by blast+
    ultimately show ?thesis by simp
  next
    assume "ph = Unregistering" "\<forall>q. ph' = Some q \<longrightarrow> holding (Running pid ids retry q) = []"
      "dom (g_flags w') = dom (g_flags w) - {pid} - set ids"
    then show ?thesis using i pid by simp
  next
    assume "g_flags w' = g_flags w" "\<forall>q. ph' = Some q \<longrightarrow> set (holding (Running pid ids retry q)) \<subseteq> set (holding (Running pid ids retry ph))"
    then show ?thesis using i(2,3) by (simp only:) blast
  qed
qed

lemma left_behind_control:
  assumes "advance_call sha now c w = Ok (w', c')" "\<And>pid ids retry ph. c \<noteq> Running pid ids retry ph"
  shows "dom (g_flags w') = dom (g_flags w) \<and> (\<forall>d. c' = Some d \<longrightarrow> holding d = [])"
  using assms by (cases "(sha, now, c, w)" rule: advance_call.cases)
    (auto simp: result_simps cancel_flag_def split: option.splits if_splits)

lemma left_behind_step:
  assumes inv: "delegation_inv sv w" and left: "left_behind i w" and step: "delegation_step sv sha w w'"
  shows "left_behind i w'"
  using step
proof cases
  case (begins pid c cid)
  have "store_ok sv (g_store w)" using inv by (simp add: delegation_inv_def)
  from begun_fits [OF this begins(2)] left show ?thesis by (simp add: begins(1) left_behind_def)
next
  case (advances xs c ys now v c')
  let ?new = "case c' of None \<Rightarrow> [] | Some d \<Rightarrow> [d]"
  have "i \<in> dom (g_flags v) \<and> (\<forall>d \<in> set ?new. i \<notin> set (holding d))"
  proof (cases "\<exists>pid ids retry ph. c = Running pid ids retry ph")
    case True
    then obtain pid ids retry ph where c: "c = Running pid ids retry ph" by blast
    then obtain ph' where ph': "advance_run sha now pid ids retry ph w = Ok (v, ph')" "c' = map_option (Running pid ids retry) ph'"
      using advances(3) by (auto simp: result_simps)
    from left_behind_run [OF inv left advances(2) [unfolded c] ph'(1)] show ?thesis
      by (cases ph') (simp_all add: ph'(2))
  next
    case False
    then show ?thesis using left_behind_control [OF advances(3)] left by (cases c') (auto simp: left_behind_def)
  qed
  then have "left_behind i \<lparr>g_store = g_store v, g_flags = g_flags v, g_calls = xs @ ?new @ ys\<rparr>"
    using left_behind_replaced [OF left advances(2)] by blast
  then show ?thesis by (cases v) (simp add: advances(1))
next
  case (worker_ends xs pid ids retry js j p ks rs ys now_set flag r env infer elapsed timed_out)
  have "i \<notin> set (holding (Running pid ids retry (Working (js @ ks) (rs @ [(j, r)]))))"
    using left unfolding left_behind_def worker_ends(2) by auto
  then show ?thesis using left unfolding left_behind_def worker_ends(1,2) by auto
qed (use left in \<open>auto simp: left_behind_def leave_call_def\<close>)

lemma left_behind_failed:
  assumes inv: "delegation_inv sv w" and calls: "g_calls w = xs @ Running pid ids retry ph # ys"
    and ph: "ph = Registered \<or> (\<exists>rest jobs. ph = Starting rest jobs)" and i: "i \<in> set ids"
  shows "left_behind i (w\<lparr>g_flags := leave_call (Running pid ids retry ph) (g_flags w), g_calls := xs @ ys\<rparr>)"
proof -
  let ?c = "Running pid ids retry ph"
  have held: "i \<in> set (holding ?c)" using ph i by auto
  have "distinct (concat (map holding (xs @ ?c # ys)))" "set (holding ?c) \<subseteq> dom (g_flags w)" "store_ok sv (g_store w)" "call_fits (g_store w) ?c"
    using inv unfolding delegation_inv_def calls by simp_all
  moreover from this(4) have "\<exists>r. child_of (g_store w) pid i r" using i by auto
  then obtain r where "r \<in> set (d_children (g_store w))" "ch_id r = i" by (auto simp: child_of_def)
  ultimately have "starts_with i ''childrun_''" "i \<in> dom (g_flags w)" "\<forall>c \<in> set (xs @ ys). i \<notin> set (holding c)"
    using held by (auto simp: store_ok_def row_ok_def)
  then show ?thesis by (simp add: left_behind_def leave_call_def)
qed

interpretation stuck_runs: invariant_system "delegation_step sv sha" "\<lambda>w. delegation_inv sv w \<and> left_behind i w" for sv sha i
  by unfold_locales (blast intro: delegation_step_inv left_behind_step)

subsection \<open>Workers\<close>

text \<open>The children a call is working on.\<close>

fun working :: "delegation_call \<Rightarrow> string list" where
  "working (Running pid ids retry (Working jobs rs)) = map fst jobs"
| "working _ = []"

lemma working_held: "call_fits st c \<Longrightarrow> distinct (working c) \<and> set (working c) \<subseteq> set (holding c)"
  by (cases c rule: working.cases) (auto simp: phase_ok_def)

lemma working_open:
  assumes "store_ok sv st" "call_fits st c" "i \<in> set (working c)" "r \<in> set (d_children st)" "ch_id r = i"
  shows "\<not> done_row r"
proof -
  obtain pid ids retry jobs rs where c: "c = Running pid ids retry (Working jobs rs)" "i \<in> fst ` set jobs"
    using assms(3) by (cases c rule: working.cases) auto
  then obtain q where "child_of st pid i q" "\<not> done_row q"
    using phase_pending [of st pid ids "Working jobs rs" i] assms(2) by auto
  moreover have "child_of st (ch_plan r) i r" using assms(4,5) by (simp add: child_of_def)
  ultimately show ?thesis using one_child [OF assms(1)] by blast
qed

lemma distinct_concat_sub:
  "distinct (concat (map f cs)) \<Longrightarrow> (\<And>c. c \<in> set cs \<Longrightarrow> distinct (g c) \<and> set (g c) \<subseteq> set (f c)) \<Longrightarrow> distinct (concat (map g cs))"
  by (induction cs) (auto, blast)

lemma read_sources_Ok:
  "read_sources env flag k ss = Ok ms \<Longrightarrow> length ms = length ss \<and> (\<forall>n < length ss. \<not> flag (k + n))"
proof (induction ss arbitrary: k ms)
  case (Cons s ss)
  then obtain ms' where "\<not> flag k" "read_sources env flag (Suc k) ss = Ok ms'" "length ms = Suc (length ms')"
    by (auto simp: result_simps)
  then show ?case using Cons.IH [of "Suc k" ms'] by (auto simp: less_Suc_eq_0_disj)
qed simp

subsection \<open>A run\<close>

text \<open>The steps of one run as a function, to show that it is one.\<close>

datatype demo_step = DemoBegin delegation_call | DemoNext nat | DemoWork nat | DemoFail nat

definition demo_env :: source_env where
  "demo_env = \<lparr>f_sha256_hex = (\<lambda>s. s), f_search = (\<lambda>q n a. Err []), f_snapshot = (\<lambda>s. Err []), f_source_root = (\<lambda>s. None),
     f_canonicalize = (\<lambda>s. None), f_join = (\<lambda>a b. a), f_symlink = (\<lambda>s. None), f_metadata = (\<lambda>s. None), f_read_text = (\<lambda>s. None),
     f_events = [], f_json_array = concat\<rparr>"

definition demo_helper :: "string \<Rightarrow> child_proposal" where
  "demo_helper g = \<lparr>goal = g, expected_output_schema = ''findings_sources_uncertainties_v1'', sources = [InlineText ''n'' ''note''],
     allowed_read_tools = [''summarize_text''], model_route = ''local'',
     budget = \<lparr>max_input_tokens = 64, max_output_tokens = 16, max_tool_calls = 1, timeout_ms = 1000, max_response_bytes = 1024\<rparr>\<rparr>"

definition demo_result :: "bool \<Rightarrow> outcome" where
  "demo_result b = (if b then Err ''cancelled'' else Ok
     \<lparr>cr_findings = [\<lparr>fd_statement = ''seen'', fd_source_refs = [''inline_text:n''],
        fd_confidence = ''model_assertion_grounded_in_observed_sources''\<rparr>],
      cr_sources = [\<lparr>se_source_ref = ''inline_text:n'', se_source_kind = ''inline_text'', se_digest = ''note'', se_observed = False\<rparr>],
      cr_uncertainties = [],
      cr_limitations = [''This child had read-only authority; it did not execute or verify mutations.''],
      cr_complete = True, cr_actual_model_route = ''local'', cr_elapsed_ms = 5, cr_input_tokens = 8, cr_output_tokens = 1\<rparr>)"

lemma demo_result:
  "worker_execute demo_env (\<lambda>g t. Ok (''seen'', ''local'')) (\<lambda>n. b) 5 False (demo_helper g) = demo_result b"
proof -
  have facts: "trim ''seen'' = ''seen''" "decimal (Suc 0) = ''1''" by code_simp+
  show ?thesis
    by (cases b) (simp_all add: worker_execute_def worker_operation_def demo_helper_def demo_env_def material_def
      grounding_of_def quarter_def ensure_def demo_result_def facts Let_def)
qed

fun demo_do :: "demo_step \<Rightarrow> delegation_system \<Rightarrow> delegation_system option" where
  "demo_do (DemoBegin c) w =
     (if begin_execute ''delegation_1'' (g_store w) = Ok c \<or> begin_pause ''delegation_1'' (g_store w) = Ok c \<or>
        begin_cancel_plan ''delegation_1'' (g_store w) = Ok c then Some (w\<lparr>g_calls := c # g_calls w\<rparr>) else None)"
| "demo_do (DemoNext n) w =
     (if n < length (g_calls w) then case advance_call (\<lambda>s. s) 1 (g_calls w ! n) w of
        Inr (w', c') \<Rightarrow> Some (w'\<lparr>g_calls := take n (g_calls w) @ (case c' of None \<Rightarrow> [] | Some d \<Rightarrow> [d]) @ drop (Suc n) (g_calls w)\<rparr>)
      | Inl e \<Rightarrow> None else None)"
| "demo_do (DemoWork n) w =
     (if n < length (g_calls w) then case g_calls w ! n of
        Running pid ids retry (Working ((i, p) # js) rs) \<Rightarrow> (case g_flags w i of None \<Rightarrow> None | Some b \<Rightarrow>
          if p = demo_helper (goal p) then
          Some (w\<lparr>g_calls := take n (g_calls w) @ Running pid ids retry (Working js (rs @ [(i, demo_result b)])) # drop (Suc n) (g_calls w)\<rparr>)
          else None)
      | _ \<Rightarrow> None else None)"
| "demo_do (DemoFail n) w =
     (if n < length (g_calls w) then Some (w\<lparr>g_calls := take n (g_calls w) @ drop (Suc n) (g_calls w)\<rparr>) else None)"

fun demo_run :: "demo_step list \<Rightarrow> delegation_system \<Rightarrow> delegation_system option" where
  "demo_run [] w = Some w"
| "demo_run (e # es) w = (case demo_do e w of None \<Rightarrow> None | Some v \<Rightarrow> demo_run es v)"

lemma demo_do_step:
  assumes "demo_do e w = Some w'" shows "delegation_step sv (\<lambda>s. s) w w'"
proof (cases e)
  case (DemoBegin c)
  then show ?thesis using assms delegation_step.begins [of "''delegation_1''" w c] by (auto split: if_splits)
next
  case (DemoNext n)
  then obtain v c' where n: "n < length (g_calls w)" and adv: "advance_call (\<lambda>s. s) 1 (g_calls w ! n) w = Ok (v, c')"
    and w': "w' = v\<lparr>g_calls := take n (g_calls w) @ (case c' of None \<Rightarrow> [] | Some d \<Rightarrow> [d]) @ drop (Suc n) (g_calls w)\<rparr>"
    using assms by (auto split: if_splits sum.splits)
  from delegation_step.advances [OF id_take_nth_drop [OF n] adv] show ?thesis unfolding w' .
next
  case (DemoWork n)
  then obtain pid ids retry i p js rs b where n: "n < length (g_calls w)"
    and c: "g_calls w ! n = Running pid ids retry (Working ((i, p) # js) rs)" and b: "g_flags w i = Some b" and p: "p = demo_helper (goal p)"
    and w': "w' = w\<lparr>g_calls := take n (g_calls w) @ Running pid ids retry (Working js (rs @ [(i, demo_result b)])) # drop (Suc n) (g_calls w)\<rparr>"
    using assms by (auto split: if_splits delegation_call.splits run_phase.splits list.splits option.splits)
  have "flag_read b (\<lambda>n. b) p" by (simp add: flag_read_def list_all_iff)
  from delegation_step.worker_ends [of w "take n (g_calls w)" pid ids retry "[]" i p js rs, OF _ b this
      demo_result [of b "goal p", folded p, symmetric]]
  show ?thesis using id_take_nth_drop [OF n] by (simp add: c w')
next
  case (DemoFail n)
  then show ?thesis using assms delegation_step.fails [OF id_take_nth_drop, of n w] by (auto simp: leave_call_def split: if_splits)
qed

lemma demo_run_steps: "demo_run es w = Some w' \<Longrightarrow> (delegation_step sv (\<lambda>s. s))\<^sup>*\<^sup>* w w'"
  by (induction es arbitrary: w) (auto split: option.splits intro: converse_rtranclp_into_rtranclp demo_do_step)

definition demo_uuid :: string where
  "demo_uuid = ''07070707-0707-4707-8707-070707070707''"

definition demo_request :: plan_request where
  "demo_request = \<lparr>schema_version = 1, project_id = ''project_'' @ demo_uuid, task_run_id = ''taskrun_'' @ demo_uuid,
     parent_session_id = None, parent_model_route = ''local'', parent_depth = 0,
     aggregate = \<lparr>agg_input_tokens = 128, agg_output_tokens = 32, agg_tool_calls = 2, agg_timeout_ms = 1000\<rparr>,
     children = [demo_helper ''Read a'', demo_helper ''Read b'']\<rparr>"

definition demo_ids :: "nat \<Rightarrow> string" where
  "demo_ids n = (if n = 0 then ''childrun_a'' else ''childrun_b'')"

definition demo_planned :: delegation_system where
  "demo_planned = \<lparr>g_store = \<lparr>d_plans = [new_plan ''delegation_1'' 0 demo_request],
     d_children = [new_child ''delegation_1'' 0 0 ''childrun_a'' (demo_helper ''Read a''),
       new_child ''delegation_1'' 0 1 ''childrun_b'' (demo_helper ''Read b'')], d_suggestions = []\<rparr>, g_flags = Map.empty, g_calls = []\<rparr>"

lemma demo_helper_ok: "g \<in> {''Read a'', ''Read b''} \<Longrightarrow> child_ok sv (demo_helper g)"
proof -
  have "trim ''Read a'' = ''Read a''" "char_count ''Read a'' = 6" "trim ''Read b'' = ''Read b''" "char_count ''Read b'' = 6"
    "normalized_tool ''summarize_text'' = ''summarize_text''" "trim ''local'' = ''local''"
    by code_simp+
  then show "g \<in> {''Read a'', ''Read b''} \<Longrightarrow> child_ok sv (demo_helper g)"
    by (auto simp: child_ok_checks demo_helper_def between_def READ_ONLY_TOOLS_def budget_ok_def ensure_def)
qed

lemma demo_create: "create_plan sv (\<lambda>t p. True) ''delegation_1'' demo_ids 0 demo_request (g_store delegation_start) = Ok (g_store demo_planned)"
proof -
  have "validate_plan sv demo_request = Ok ()"
    unfolding plan_accepted using demo_helper_ok [of _ sv]
    by (simp add: demo_request_def between_def) (simp add: demo_helper_def)
  moreover have "is_ok (parse_id ProjectId (project_id demo_request))" "is_ok (parse_id TaskRunId (task_run_id demo_request))"
    by code_simp+
  moreover have kids: "children demo_request = [demo_helper ''Read a'', demo_helper ''Read b'']" by (simp add: demo_request_def)
  moreover have "insert_children ''delegation_1'' 0 0 [(''childrun_a'', demo_helper ''Read a''), (''childrun_b'', demo_helper ''Read b'')]
      \<lparr>d_plans = [p], d_children = [], d_suggestions = []\<rparr> = Ok \<lparr>d_plans = [p],
        d_children = [new_child ''delegation_1'' 0 0 ''childrun_a'' (demo_helper ''Read a''),
          new_child ''delegation_1'' 0 1 ''childrun_b'' (demo_helper ''Read b'')], d_suggestions = []\<rparr>" for p
    by (simp add: insert_child_def ensure_def starts_with_def new_child_def)
  moreover have "map (\<lambda>(i, c). (demo_ids i, c)) (List.enumerate 0 (children demo_request)) =
      [(''childrun_a'', demo_helper ''Read a''), (''childrun_b'', demo_helper ''Read b'')]"
    by (simp add: kids demo_ids_def)
  moreover have "starts_with ''delegation_1'' ''delegation_''" by (simp add: starts_with_def)
  ultimately show ?thesis
    by (simp add: create_plan_def ensure_def between_def delegation_start_def demo_planned_def)
qed

lemma demo_planned_reachable: "delegation_reachable sv (\<lambda>s. s) demo_planned"
proof -
  have "delegation_step sv (\<lambda>s. s) delegation_start (delegation_start\<lparr>g_store := g_store demo_planned\<rparr>)"
    using demo_create by (rule delegation_step.creates)
  moreover have "delegation_start\<lparr>g_store := g_store demo_planned\<rparr> = demo_planned"
    by (simp add: delegation_start_def demo_planned_def)
  ultimately show ?thesis unfolding delegation_reachable_def by auto
qed

lemma demo_reachable: "demo_run es demo_planned = Some w \<Longrightarrow> delegation_reachable sv (\<lambda>s. s) w"
  using demo_planned_reachable demo_run_steps unfolding delegation_reachable_def by (meson rtranclp_trans)

definition demo_call :: delegation_call where
  "demo_call = Running ''delegation_1'' [''childrun_a'', ''childrun_b''] False Loaded"

definition demo_keys :: "string list" where
  "demo_keys = [''delegation_1'', ''childrun_a'', ''childrun_b'']"

text \<open>A plan that completes; one cancelled while its second helper works; one paused while it starts.\<close>

definition demo_full :: "demo_step list" where
  "demo_full = DemoBegin demo_call # replicate 5 (DemoNext 0) @ replicate 2 (DemoWork 0) @ replicate 12 (DemoNext 0)"

definition demo_stored :: "demo_step list" where
  "demo_stored = DemoBegin demo_call # replicate 5 (DemoNext 0) @ replicate 2 (DemoWork 0) @ replicate 5 (DemoNext 0)"

definition demo_cancel :: "demo_step list" where
  "demo_cancel = DemoBegin demo_call # replicate 5 (DemoNext 0) @ [DemoWork 0, DemoBegin (CancellingPlan ''delegation_1'' demo_keys)] @
     replicate 5 (DemoNext 0)"

definition demo_conclude :: "demo_step list" where
  "demo_conclude = DemoWork 0 # replicate 11 (DemoNext 0)"

definition demo_pause :: "demo_step list" where
  "demo_pause = DemoBegin demo_call # replicate 2 (DemoNext 0) @ [DemoBegin (Pausing ''delegation_1'' demo_keys)] @
     replicate 4 (DemoNext 0) @ [DemoFail 0]"

definition demo_shows :: "demo_step list \<Rightarrow> string list \<Rightarrow> string list \<Rightarrow> bool option list \<Rightarrow> nat \<Rightarrow> bool" where
  "demo_shows es plans kids fl n = (case demo_run es demo_planned of None \<Rightarrow> False
     | Some w \<Rightarrow> map pl_state (d_plans (g_store w)) = plans \<and> map ch_state (d_children (g_store w)) = kids \<and>
         map (g_flags w) demo_keys = fl \<and> length (g_calls w) = n)"

lemma demo_shows_full: "demo_shows demo_full [''completed''] [''completed'', ''completed''] [None, None, None] 0"
  by code_simp

lemma demo_shows_stored: "demo_shows demo_stored [''running''] [''completed'', ''completed''] [Some False, Some False, Some False] 1"
  by code_simp

lemma demo_shows_cancel: "demo_shows demo_cancel [''cancelled''] [''cancelled'', ''cancelled''] [Some True, Some True, Some True] 1"
  by code_simp

lemma demo_shows_partial: "demo_shows (demo_cancel @ demo_conclude) [''partial''] [''completed'', ''cancelled''] [None, None, None] 0"
  by code_simp

lemma demo_shows_pause: "demo_shows demo_pause [''paused''] [''paused'', ''paused''] [Some True, Some True, Some True] 0"
  by code_simp

definition demo_end :: "demo_step list \<Rightarrow> delegation_system" where
  "demo_end es = (case demo_run es demo_planned of None \<Rightarrow> demo_planned | Some w \<Rightarrow> w)"

lemma demo_end:
  assumes "demo_shows es plans kids fl n"
  shows "demo_run es demo_planned = Some (demo_end es)" "map pl_state (d_plans (g_store (demo_end es))) = plans"
    "map ch_state (d_children (g_store (demo_end es))) = kids" "map (g_flags (demo_end es)) demo_keys = fl"
    "length (g_calls (demo_end es)) = n"
  using assms by (auto simp: demo_shows_def demo_end_def split: option.splits)

lemma demo_end_reachable: "demo_shows es plans kids fl n \<Longrightarrow> delegation_reachable sv (\<lambda>s. s) (demo_end es)"
  by (rule demo_reachable) (rule demo_end)

lemmas demo_full_end = demo_end [OF demo_shows_full]
lemmas demo_cancel_end = demo_end [OF demo_shows_cancel]
lemmas demo_pause_end = demo_end [OF demo_shows_pause]

lemma demo_run_append: "demo_run (es @ fs) w = (case demo_run es w of None \<Rightarrow> None | Some v \<Rightarrow> demo_run fs v)"
  by (induction es arbitrary: w) (auto split: option.split)

subsection \<open>Properties\<close>

text \<open>
  C22. After any interleaving of calls: identifiers of plans and children are unique; the proposal of
  every child is one the policy accepts; its \<open>attempt\<close> column, which counts retries and not the times the
  child was started, is between one and four; it is completed exactly when its result is, and a
  result that is kept stays within the child's budget. How often a child is started is not bounded:
  see \<open>restart_uncounted\<close>.
\<close>

theorem delegation_invariant:
  assumes "delegation_reachable sv sha w"
  shows "distinct (map pl_id (d_plans (g_store w))) \<and> distinct (map ch_id (d_children (g_store w))) \<and>
    (\<forall>r \<in> set (d_children (g_store w)). child_ok sv (proposal_of r) \<and> between 1 4 (ch_attempt r) \<and>
       (ch_state r = ''completed'' \<longleftrightarrow> (\<exists>v. ch_result r = Some v \<and> cr_complete v)) \<and>
       (\<forall>v. ch_result r = Some v \<longrightarrow> result_ok (ch_budget r) v))"
proof -
  have ok: "store_ok sv (g_store w)" using reachable_inv [OF assms] by (simp add: delegation_inv_def)
  then have "child_ok sv (proposal_of r) \<and> between 1 4 (ch_attempt r) \<and>
       (ch_state r = ''completed'' \<longleftrightarrow> (\<exists>v. ch_result r = Some v \<and> cr_complete v)) \<and>
       (\<forall>v. ch_result r = Some v \<longrightarrow> result_ok (ch_budget r) v)" if "r \<in> set (d_children (g_store w))" for r
    using that by (cases "ch_result r") (auto simp: store_ok_def row_ok_def split: if_splits)
  with ok show ?thesis by (simp add: store_ok_def)
qed

theorem delegation_invariant_witness:
  "map ch_state (d_children (g_store (demo_end demo_full))) = [''completed'', ''completed''] \<and>
   distinct (map ch_id (d_children (g_store (demo_end demo_full)))) \<and>
   list_all (\<lambda>r. between 1 4 (ch_attempt r)) (d_children (g_store (demo_end demo_full)))"
  using delegation_invariant [OF demo_end_reachable [OF demo_shows_full, of "\<lambda>a b c. True"]] demo_full_end(3)
  by (simp add: list_all_iff)

text \<open>
  C21. A plan reported as completed has all its children completed, and its synthesis is ready and is
  that of the children as they are stored now: all their findings, in their order, none missing.
\<close>

theorem completed_plan_synthesis:
  assumes "delegation_reachable sv sha w" and "p \<in> set (d_plans (g_store w))" and "pl_state p = ''completed''"
  shows "pl_synthesis p = Some (synthesize (rows_of (pl_id p) (g_store w))) \<and>
    sy_ready (synthesize (rows_of (pl_id p) (g_store w))) \<and>
    sy_findings (synthesize (rows_of (pl_id p) (g_store w))) =
      concat (map (cr_findings \<circ> the \<circ> ch_result) (rows_of (pl_id p) (g_store w)))"
proof -
  let ?cs = "rows_of (pl_id p) (g_store w)"
  have ok: "store_ok sv (g_store w)" using reachable_inv [OF assms(1)] by (simp add: delegation_inv_def)
  then have syn: "list_all done_row ?cs" "pl_synthesis p = Some (synthesize ?cs)"
    using assms(2,3) by (auto simp: store_ok_def plan_ok_def)
  have "complete_result c = ch_result c \<and> ch_result c \<noteq> None" if "c \<in> set ?cs" for c
    using that syn(1) ok by (cases "ch_result c")
      (auto simp: list_all_iff done_row_def store_ok_def row_ok_def rows_of_members complete_result_def split: if_splits)
  then have "List.map_filter complete_result ?cs = map (the \<circ> ch_result) ?cs" "filter (\<lambda>c. complete_result c = None) ?cs = []"
    by (auto simp: List.map_filter_def filter_empty_conv intro!: map_cong filter_True)
  with syn show ?thesis by (simp add: synthesize_def Let_def comp_assoc)
qed

theorem completed_plan_synthesis_witness:
  "map pl_state (d_plans (g_store (demo_end demo_full))) = [''completed''] \<and>
   sy_ready (synthesize (rows_of (pl_id (hd (d_plans (g_store (demo_end demo_full))))) (g_store (demo_end demo_full))))"
proof -
  let ?ps = "d_plans (g_store (demo_end demo_full))"
  have "hd ?ps \<in> set ?ps" "pl_state (hd ?ps) = ''completed''" using demo_full_end(2) by (cases ?ps; simp)+
  from completed_plan_synthesis [OF demo_end_reachable [OF demo_shows_full, of "\<lambda>a b c. True"] this] demo_full_end(2) show ?thesis by simp
qed

text \<open>
  C20. Results are final: whatever happens later, a completed child's row is not touched again, and
  neither is a suggestion once it has been reviewed; no other suggestion changes its finding.
\<close>

theorem results_final:
  assumes "delegation_reachable sv sha w" and "(delegation_step sv sha)\<^sup>*\<^sup>* w w'"
  shows "(\<forall>r \<in> set (d_children (g_store w)). ch_state r = ''completed'' \<longrightarrow> r \<in> set (d_children (g_store w'))) \<and>
    (\<forall>s \<in> set (d_suggestions (g_store w)). \<exists>s' \<in> set (d_suggestions (g_store w')).
       su_id s' = su_id s \<and> su_finding s' = su_finding s \<and> (su_state s \<noteq> ''awaiting_review'' \<longrightarrow> s' = s))"
proof -
  have "delegation_le w w'" using delegation_runs.run_le [OF assms(2) reachable_inv [OF assms(1)]] .
  then show ?thesis
    unfolding delegation_le_def rows_keep_def child_le_def suggestion_le_def done_row_def by blast
qed

theorem results_final_witness:
  "map ch_state (d_children (g_store (demo_end demo_stored))) = [''completed'', ''completed''] \<and>
   set (d_children (g_store (demo_end demo_stored))) \<subseteq> set (d_children (g_store (demo_end demo_full)))"
proof -
  let ?w = "demo_end demo_stored" and ?v = "demo_end demo_full"
  have kids: "map ch_state (d_children (g_store ?w)) = [''completed'', ''completed'']" by (rule demo_end [OF demo_shows_stored])
  have eq: "demo_full = demo_stored @ replicate 7 (DemoNext 0)" by code_simp
  have "demo_run (demo_stored @ replicate 7 (DemoNext 0)) demo_planned = Some ?v"
    by (subst eq [symmetric]) (rule demo_full_end(1))
  then have "demo_run (replicate 7 (DemoNext 0)) ?w = Some ?v"
    unfolding demo_run_append demo_end(1) [OF demo_shows_stored] option.case .
  from results_final [OF demo_end_reachable [OF demo_shows_stored, of "\<lambda>a b c. True"] demo_run_steps [OF this]] kids
  show ?thesis by (auto simp: map_eq_Cons_conv)
qed

text \<open>
  C19. No child is worked on twice at the same time: over all calls under way the children being
  worked on are pairwise different, each is registered, so that it can be cancelled, and none of
  them is completed.
\<close>

theorem exclusive_workers:
  assumes "delegation_reachable sv sha w"
  shows "distinct (concat (map working (g_calls w))) \<and>
    (\<forall>i \<in> set (concat (map working (g_calls w))). g_flags w i \<noteq> None \<and>
       (\<forall>r \<in> set (d_children (g_store w)). ch_id r = i \<longrightarrow> ch_state r \<noteq> ''completed''))"
proof -
  note inv = reachable_inv [OF assms, unfolded delegation_inv_def]
  have sub: "distinct (working c) \<and> set (working c) \<subseteq> set (holding c)" if "c \<in> set (g_calls w)" for c
    using inv that working_held by blast
  have "g_flags w i \<noteq> None \<and> (\<forall>r \<in> set (d_children (g_store w)). ch_id r = i \<longrightarrow> ch_state r \<noteq> ''completed'')"
    if i: "i \<in> set (working c)" and c: "c \<in> set (g_calls w)" for i c
    using working_open [of sv "g_store w" c i] inv sub [OF c] i c unfolding done_row_def by blast
  with distinct_concat_sub [OF _ sub] inv show ?thesis by auto
qed

theorem exclusive_workers_witness:
  "concat (map working (g_calls (demo_end demo_cancel))) = [''childrun_b''] \<and> g_flags (demo_end demo_cancel) ''childrun_b'' \<noteq> None"
proof -
  have "concat (map working (g_calls (demo_end demo_cancel))) = [''childrun_b'']" by code_simp
  with exclusive_workers [OF demo_end_reachable [OF demo_shows_cancel, of "\<lambda>a b c. True"]] show ?thesis by simp
qed

text \<open>
  C31. When a call that has registered its children fails before they work, because the plan cannot be set to
  running, a child is not at a safe boundary or its proposal cannot be read, then it ends and
  leaves their flags behind; from then on, for as long as the application runs, every registration
  that includes such a child is refused: the child can neither be executed nor retried.
\<close>

theorem flag_left_behind:
  assumes "delegation_reachable sv sha w" and "g_calls w = xs @ Running pid ids retry ph # ys"
    and "ph = Registered \<or> (\<exists>rest jobs. ph = Starting rest jobs)" and "advance_run sha now pid ids retry ph w = Err e" and "i \<in> set ids"
    and "w1 = w\<lparr>g_flags := leave_call (Running pid ids retry ph) (g_flags w), g_calls := xs @ ys\<rparr>"
    and "(delegation_step sv sha)\<^sup>*\<^sup>* w1 w'" and "i \<in> set ids'"
  shows "delegation_step sv sha w w1 \<and> i \<in> dom (g_flags w') \<and> advance_run sha now' pid' ids' retry' Loaded w' = Err AlreadyRunning"
proof -
  have step: "delegation_step sv sha w w1" unfolding assms(6) by (rule delegation_step.fails [OF assms(2)])
  have inv: "delegation_inv sv w" by (rule reachable_inv [OF assms(1)])
  have "left_behind i w1" unfolding assms(6) by (rule left_behind_failed [OF inv assms(2,3,5)])
  moreover have "delegation_inv sv w1" using inv step by (rule delegation_step_inv)
  ultimately have left: "left_behind i w'" using stuck_runs.run_inv [OF assms(7)] by blast
  then have "list_ex (\<lambda>i. g_flags w' i \<noteq> None) ids'" using assms(8) by (auto simp: left_behind_def list_ex_iff)
  with left step show ?thesis by (simp add: register_def ensure_def left_behind_def)
qed

text \<open>The call of the run in which a pause arrives between the registration and the start.\<close>

definition demo_blocked :: delegation_system where
  "demo_blocked = demo_end (butlast demo_pause)"

lemma demo_blocked_shows: "demo_shows (butlast demo_pause) [''paused''] [''paused'', ''paused''] [Some True, Some True, Some True] 1"
  by code_simp

theorem flag_left_behind_witness:
  "\<exists>w1. delegation_step (\<lambda>a b c. True) (\<lambda>s. s) demo_blocked w1 \<and> ''childrun_a'' \<in> dom (g_flags w1) \<and>
   advance_run (\<lambda>s. s) 9 ''delegation_1'' [''childrun_a''] False Loaded w1 = Err AlreadyRunning"
proof -
  let ?c = "Running ''delegation_1'' [''childrun_a'', ''childrun_b''] False (Starting [''childrun_a'', ''childrun_b''] [])"
  have r: "delegation_reachable (\<lambda>a b c. True) (\<lambda>s. s) demo_blocked"
    unfolding demo_blocked_def by (rule demo_end_reachable [OF demo_blocked_shows])
  have c: "g_calls demo_blocked = [] @ ?c # []" by code_simp
  have "\<not> is_ok (advance_run (\<lambda>s. s) 1 ''delegation_1'' [''childrun_a'', ''childrun_b''] False (Starting [''childrun_a'', ''childrun_b''] []) demo_blocked)"
    by code_simp
  then obtain e where e: "advance_run (\<lambda>s. s) 1 ''delegation_1'' [''childrun_a'', ''childrun_b''] False
      (Starting [''childrun_a'', ''childrun_b''] []) demo_blocked = Err e"
    by (auto simp: is_ok_def split: sum.splits)
  show ?thesis
    using flag_left_behind [OF r c _ e _ refl rtranclp.rtrancl_refl, of "''childrun_a''" "[''childrun_a'']" 9 "''delegation_1''" False]
    by auto
qed

text \<open>
  The limit on attempts does not limit the starts: executing a plan starts its failed, incomplete and
  cancelled children again, at whatever attempt they are, and counts nothing.
\<close>

theorem restart_uncounted:
  assumes "delegation_reachable sv sha w" and "r \<in> set (d_children (g_store w))" and "ch_state r \<in> {''failed'', ''incomplete'', ''cancelled''}"
  shows "\<exists>st. set_child_running (ch_plan r) (ch_id r) False now (g_store w) = Ok st \<and>
    (\<exists>r' \<in> set (d_children st). ch_id r' = ch_id r \<and> ch_state r' = ''running'' \<and> ch_attempt r' = ch_attempt r)"
proof -
  let ?P = "startable (ch_plan r) (ch_id r)"
  have "store_ok sv (g_store w)" using reachable_inv [OF assms(1)] by (simp add: delegation_inv_def)
  then have few: "ch_attempt s \<le> 4" if "s \<in> set (d_children (g_store w))" for s
    using that by (auto simp: store_ok_def row_ok_def between_def)
  have r: "?P r" using assms(3) by (auto simp: startable_def)
  then have "changed_rows ?P (d_children (g_store w)) \<noteq> 0" using assms(2) by (auto simp: changed_rows_def filter_empty_conv)
  then obtain st where st: "set_child_running (ch_plan r) (ch_id r) False now (g_store w) = Ok st"
    using few by (simp add: set_child_running_def ensure_def list_all_iff)
  then obtain f where f: "d_children st = update_rows ?P f (d_children (g_store w))"
      "\<And>q. ch_id (f q) = ch_id q \<and> ch_state (f q) = ''running'' \<and> ch_attempt (f q) = ch_attempt q"
    by (fastforce simp: set_child_running_def result_simps)
  have "f r \<in> set (d_children st)" unfolding f(1) using assms(2) r by (rule updated_row)
  then show ?thesis using st f(2) by blast
qed

text \<open>
  A plan the user has cancelled while one of its helpers was still working is afterwards reported as
  partly done: the call that executes it overwrites the state.
\<close>

theorem cancelled_plan_overwritten:
  "\<exists>w w'. delegation_reachable (\<lambda>a b c. True) (\<lambda>s. s) w \<and> map pl_state (d_plans (g_store w)) = [''cancelled''] \<and>
    map ch_state (d_children (g_store w)) = [''cancelled'', ''cancelled''] \<and>
    (delegation_step (\<lambda>a b c. True) (\<lambda>s. s))\<^sup>*\<^sup>* w w' \<and> map pl_state (d_plans (g_store w')) = [''partial''] \<and>
    map ch_state (d_children (g_store w')) = [''completed'', ''cancelled'']"
proof (intro exI conjI)
  let ?w = "demo_end demo_cancel" and ?v = "demo_end (demo_cancel @ demo_conclude)"
  show "delegation_reachable (\<lambda>a b c. True) (\<lambda>s. s) ?w" by (rule demo_end_reachable [OF demo_shows_cancel])
  show "map pl_state (d_plans (g_store ?w)) = [''cancelled'']" "map ch_state (d_children (g_store ?w)) = [''cancelled'', ''cancelled'']"
    by (rule demo_cancel_end)+
  have "demo_run demo_conclude ?w = Some ?v"
    using demo_end(1) [OF demo_shows_partial] unfolding demo_run_append demo_cancel_end(1) by simp
  then show "(delegation_step (\<lambda>a b c. True) (\<lambda>s. s))\<^sup>*\<^sup>* ?w ?v" by (rule demo_run_steps)
  show "map pl_state (d_plans (g_store ?v)) = [''partial'']" "map ch_state (d_children (g_store ?v)) = [''completed'', ''cancelled'']"
    by (rule demo_end [OF demo_shows_partial])+
qed

text \<open>
  A worker returns a result only within its child's budget of input tokens, output tokens and
  response bytes, with evidence of every delegated source, and only if no check before its answer
  saw a cancellation; the result is complete exactly if the last check saw none.
\<close>

theorem worker_within_budget:
  assumes "worker_execute env infer flag elapsed timed_out p = Ok v"
  shows "cr_input_tokens v \<le> max_input_tokens (budget p) \<and> cr_output_tokens v \<le> max_output_tokens (budget p) \<and>
    list_all (\<lambda>f. 1 \<le> length (fd_statement f) \<and> length (fd_statement f) \<le> max_response_bytes (budget p) \<and>
      fd_source_refs f = map se_source_ref (cr_sources v)) (cr_findings v) \<and>
    length (cr_sources v) = length (sources p) \<and> (\<forall>n \<le> length (sources p). \<not> flag n) \<and>
    (cr_complete v \<longleftrightarrow> \<not> flag (Suc (length (sources p)))) \<and> \<not> timed_out"
proof -
  have op: "worker_operation env infer flag elapsed p = Ok v" "\<not> timed_out"
    using assms by (auto simp: worker_execute_def split: if_splits)
  then obtain ms where ms: "read_sources env flag 0 (sources p) = Ok ms" by (auto simp: worker_operation_def result_simps)
  from read_sources_Ok [OF ms] have ms': "length ms = length (sources p)" "\<forall>n < length (sources p). \<not> flag n" by auto
  obtain answer where out: "quarter (length (grounding_of ms)) \<le> max_input_tokens (budget p)" "\<not> flag (length (sources p))"
      "trim answer \<noteq> []" "quarter (length (trim answer)) \<le> max_output_tokens (budget p)" "length (trim answer) \<le> max_response_bytes (budget p)"
    and v: "cr_findings v = [\<lparr>fd_statement = trim answer, fd_source_refs = map (se_source_ref \<circ> sm_evidence) ms,
        fd_confidence = ''model_assertion_grounded_in_observed_sources''\<rparr>]"
      "cr_sources v = map sm_evidence ms" "cr_complete v = (\<not> flag (Suc (length (sources p))))"
      "cr_input_tokens v = quarter (length (grounding_of ms))" "cr_output_tokens v = quarter (length (trim answer))"
    using op(1) unfolding worker_operation_def ms Let_def by (auto simp: result_simps not_less)
  have "\<forall>n \<le> length (sources p). \<not> flag n" using ms'(2) out(2) le_neq_implies_less by blast
  with out v ms'(1) op(2) show ?thesis by (simp add: Suc_le_eq)
qed

theorem worker_within_budget_witness:
  "(case worker_execute demo_env (\<lambda>g t. Ok (''seen'', ''local'')) (\<lambda>n. False) 5 False (demo_helper ''Read a'') of Inl e \<Rightarrow> False
    | Inr v \<Rightarrow> length (cr_sources v) = 1 \<and> cr_complete v \<and> cr_output_tokens v \<le> 16)"
proof -
  obtain v where v: "worker_execute demo_env (\<lambda>g t. Ok (''seen'', ''local'')) (\<lambda>n. False) 5 False (demo_helper ''Read a'') = Ok v"
    using demo_result [of False "''Read a''"] by (auto simp: demo_result_def)
  from worker_within_budget [OF v] show ?thesis unfolding v by (simp add: demo_helper_def)
qed

text \<open>
  A file read for a helper lies in the folder of its source: the resolved file is the resolved
  root or below it, is no link and a regular file of at most 512000 bytes, and the evidence carries
  the digest of exactly the content that was read.
\<close>

theorem delegated_file_contained:
  assumes "read_source env (ProjectFile sid relative) = Ok m"
  shows "\<exists>raw root candidate len. f_source_root env sid = Some raw \<and> f_canonicalize env raw = Some root \<and>
    f_canonicalize env (f_join env root relative) = Some candidate \<and> path_starts_with candidate root \<and>
    f_symlink env candidate = Some False \<and> f_metadata env candidate = Some (True, len) \<and> len \<le> 512000 \<and>
    f_read_text env candidate = Some (sm_content m) \<and> length (sm_content m) \<le> 512000 \<and>
    se_digest (sm_evidence m) = f_sha256_hex env (sm_content m) \<and> \<not> escapes relative"
  using assms by (auto simp: read_project_file_def material_def result_simps split: if_splits prod.splits)

definition demo_files :: source_env where
  "demo_files = demo_env\<lparr>f_source_root := (\<lambda>s. Some ''/home''), f_canonicalize := Some, f_join := (\<lambda>a b. a @ ''/'' @ b),
     f_symlink := (\<lambda>s. Some False), f_metadata := (\<lambda>s. Some (True, 4)), f_read_text := (\<lambda>s. Some ''text'')\<rparr>"

theorem delegated_file_contained_witness:
  "(case read_source demo_files (ProjectFile ''s'' ''notes'') of Inl e \<Rightarrow> False
    | Inr m \<Rightarrow> path_starts_with ''/home/notes'' ''/home'' \<and> sm_content m = ''text'')"
proof -
  have "\<not> escapes ''notes''" "path_starts_with ''/home/notes'' ''/home''" by code_simp+
  then obtain m where m: "read_source demo_files (ProjectFile ''s'' ''notes'') = Ok m"
    by (simp add: read_project_file_def demo_files_def material_def ensure_def ok_or_def)
  from delegated_file_contained [OF m] show ?thesis unfolding m by (simp add: demo_files_def)
qed

end
