(* ===== verification/Hash_Map.thy ===== *)
theory Hash_Map
  imports Rust_Prelude "HOL-Library.AList"
begin

text \<open>
  \<open>HashMap\<close> as an association list with distinct keys, so that the operations that visit every
  entry (\<open>values_mut\<close>, \<open>retain\<close>) are list functions; the order of the list means nothing. Also
  the counting and cutting of the characters of a UTF-8 string.
\<close>

type_synonym ('k, 'v) hash_map = "('k \<times> 'v) list"

abbreviation hm_get :: "('k, 'v) hash_map \<Rightarrow> 'k \<Rightarrow> 'v option" where
  "hm_get m k \<equiv> map_of m k"

abbreviation hm_insert :: "'k \<Rightarrow> 'v \<Rightarrow> ('k, 'v) hash_map \<Rightarrow> ('k, 'v) hash_map" where
  "hm_insert k v m \<equiv> AList.update k v m"

abbreviation hm_remove :: "'k \<Rightarrow> ('k, 'v) hash_map \<Rightarrow> ('k, 'v) hash_map" where
  "hm_remove k m \<equiv> AList.delete k m"

definition hm_ok :: "('k, 'v) hash_map \<Rightarrow> bool" where
  "hm_ok m \<longleftrightarrow> distinct (map fst m)"

definition hm_retain :: "('k \<Rightarrow> 'v \<Rightarrow> bool) \<Rightarrow> ('k, 'v) hash_map \<Rightarrow> ('k, 'v) hash_map" where
  "hm_retain P m = filter (\<lambda>(k, v). P k v) m"

definition hm_values_mut :: "('v \<Rightarrow> 'v) \<Rightarrow> ('k, 'v) hash_map \<Rightarrow> ('k, 'v) hash_map" where
  "hm_values_mut f m = map (\<lambda>(k, v). (k, f v)) m"

lemma hm_get_insert [simp]: "hm_get (hm_insert k v m) k' = (if k' = k then Some v else hm_get m k')"
  by (simp add: update_conv')

lemma hm_get_remove [simp]: "hm_get (hm_remove k m) k' = (if k' = k then None else hm_get m k')"
  by (simp add: delete_conv')

lemma hm_get_values_mut [simp]: "hm_get (hm_values_mut f m) k = map_option f (hm_get m k)"
  unfolding hm_values_mut_def by (induction m) auto

lemma hm_get_retain:
  "hm_ok m \<Longrightarrow> hm_get (hm_retain P m) k = (case hm_get m k of None \<Rightarrow> None | Some v \<Rightarrow> if P k v then Some v else None)"
  unfolding hm_retain_def hm_ok_def
  by (induction m) (auto split: option.splits simp: rev_image_eqI dest: map_of_SomeD)

lemma hm_ok_simps [simp]: "hm_ok []" "hm_ok m \<Longrightarrow> hm_ok (hm_insert k v m)" "hm_ok m \<Longrightarrow> hm_ok (hm_remove k m)"
  "hm_ok (hm_values_mut f m) = hm_ok m" "hm_ok m \<Longrightarrow> hm_ok (hm_retain P m)"
proof -
  show "hm_ok []" by (simp add: hm_ok_def)
  show "hm_ok m \<Longrightarrow> hm_ok (hm_insert k v m)" by (simp add: hm_ok_def distinct_update)
  show "hm_ok m \<Longrightarrow> hm_ok (hm_remove k m)" by (simp add: hm_ok_def distinct_delete)
  show "hm_ok (hm_values_mut f m) = hm_ok m"
    by (simp add: hm_ok_def hm_values_mut_def comp_def case_prod_beta)
  show "hm_ok m \<Longrightarrow> hm_ok (hm_retain P m)"
    by (simp add: hm_ok_def hm_retain_def distinct_map_filter)
qed

lemma hm_get_in: "hm_ok m \<Longrightarrow> hm_get m k = Some v \<longleftrightarrow> (k, v) \<in> set m"
  by (simp add: hm_ok_def)

lemma hm_get_Some_in: "hm_get m k = Some v \<Longrightarrow> (k, v) \<in> set m"
  by (rule map_of_SomeD)

subsection \<open>Characters of UTF-8 strings\<close>

definition continuation_byte :: "char \<Rightarrow> bool" where
  "continuation_byte c = (let n = (of_char c :: nat) in 128 \<le> n \<and> n < 192)"

definition chars_count :: "string \<Rightarrow> nat" where
  "chars_count s = length (filter (\<lambda>c. \<not> continuation_byte c) s)"

fun chars_take :: "nat \<Rightarrow> string \<Rightarrow> string" where
  "chars_take n [] = []"
| "chars_take n (c # s) =
     (if continuation_byte c then c # chars_take n s
      else case n of 0 \<Rightarrow> [] | Suc m \<Rightarrow> c # chars_take m s)"

lemma chars_take_count: "chars_count (chars_take n s) \<le> n"
  by (induction n s rule: chars_take.induct) (auto simp: chars_count_def split: nat.splits)

lemma chars_take_prefix: "prefix (chars_take n s) s"
  by (induction n s rule: chars_take.induct) (auto split: nat.splits)

end
