(* ===== verification/Context_Manager.thy ===== *)
theory Context_Manager
  imports Hash_Map
begin

text \<open>
  The context a model call is given (\<open>context_manager.rs\<close>): token estimates, truncation, the sharing of
  a budget among the texts of a message, and the assembly of the three tiers. A \<open>usize\<close> is a natural
  number; saturation is written out. The estimates themselves are sums of lengths of strings in
  memory, which do not reach the limit. Diagnostics are left out.
\<close>

subsection \<open>Arithmetic of \<open>usize\<close>\<close>

definition usize_mul :: "nat \<Rightarrow> nat \<Rightarrow> nat" where
  "usize_mul a b = min (a * b) u64_max"

definition usize_add :: "nat \<Rightarrow> nat \<Rightarrow> nat" where
  "usize_add a b = min (a + b) u64_max"

definition div_ceil :: "nat \<Rightarrow> nat \<Rightarrow> nat" where
  "div_ceil a b = (a + b - 1) div b"

subsection \<open>Messages and blocks\<close>

record chat_attachment =
  at_name :: string
  at_mime_type :: string
  at_byte_count :: nat
  at_data_base64 :: "string option"
  at_text :: "string option"

record inference_message =
  im_role :: string
  im_content :: string
  im_attachments :: "chat_attachment list"

record context_block =
  cb_label :: string
  cb_content :: string

definition formatted :: "context_block \<Rightarrow> string" where
  "formatted b = (let label = trim (cb_label b); content = trim (cb_content b) in
     if label = [] then content else label @ [CHR 0x0A] @ content)"

fun join :: "string \<Rightarrow> string list \<Rightarrow> string" where
  "join sep [] = []"
| "join sep [x] = x"
| "join sep (x # y # xs) = x @ sep @ join sep (y # xs)"

definition blank_line :: string where
  "blank_line = [CHR 0x0A, CHR 0x0A]"

definition format_blocks :: "context_block list \<Rightarrow> string" where
  "format_blocks blocks = join blank_line (filter (\<lambda>b. trim b \<noteq> []) (map formatted blocks))"

definition join_system_prompt :: "string \<Rightarrow> string \<Rightarrow> string \<Rightarrow> string" where
  "join_system_prompt core working long_term = join blank_line
     ((if trim core \<noteq> [] then [trim core] else []) @
      (if trim working \<noteq> [] then [''Tier 2 Dynamic Working Context'' @ [CHR 0x0A] @ trim working] else []) @
      (if trim long_term \<noteq> [] then [''Tier 3 Dynamic Long-Term Context'' @ [CHR 0x0A] @ trim long_term] else []))"

subsection \<open>Estimates\<close>

definition estimate_text_tokens :: "string \<Rightarrow> nat" where
  "estimate_text_tokens v = (let t = trim v in
     if t = [] then 0 else max (max (div_ceil (chars_count t) 4) (length (split_whitespace t))) 1)"

definition text_tokens :: "string option \<Rightarrow> nat" where
  "text_tokens t = (case t of None \<Rightarrow> 0 | Some s \<Rightarrow> estimate_text_tokens s)"

definition estimate_attachment_tokens :: "chat_attachment \<Rightarrow> nat" where
  "estimate_attachment_tokens a =
     estimate_text_tokens (at_name a) + estimate_text_tokens (at_mime_type a) + text_tokens (at_text a)"

definition estimate_message_tokens :: "inference_message \<Rightarrow> nat" where
  "estimate_message_tokens m = 4 + estimate_text_tokens (im_role m) + estimate_text_tokens (im_content m) +
     sum_list (map estimate_attachment_tokens (im_attachments m))"

definition some_text :: "string option \<Rightarrow> bool" where
  "some_text t = (case t of None \<Rightarrow> False | Some s \<Rightarrow> trim s \<noteq> [])"

definition message_has_dispatchable_content :: "inference_message \<Rightarrow> bool" where
  "message_has_dispatchable_content m = (trim (im_content m) \<noteq> [] \<or>
     list_ex (\<lambda>a. some_text (at_text a) \<or> some_text (at_data_base64 a)) (im_attachments m))"

subsection \<open>Truncation\<close>

text \<open>\<open>String::pop\<close>: the last character with its continuation bytes.\<close>

definition chars_pop :: "string \<Rightarrow> string option" where
  "chars_pop s = (if s = [] then None else Some (rev (drop 1 (dropWhile continuation_byte (rev s)))))"

lemma chars_pop_length: "chars_pop s = Some t \<Longrightarrow> length t < length s"
  using length_dropWhile_le [of continuation_byte "rev s"] by (cases s) (auto simp: chars_pop_def split: if_splits)

definition marker :: string where
  "marker = [CHR 0x0A] @ ''[truncated]''"

function shrink :: "nat \<Rightarrow> string \<Rightarrow> string" where
  "shrink max_tokens t =
     (if estimate_text_tokens (t @ marker) \<le> max_tokens then t @ marker
      else case chars_pop t of None \<Rightarrow> [] | Some t' \<Rightarrow> shrink max_tokens t')"
  by auto
termination
  by (relation "measure (\<lambda>(n, t). length t)") (auto dest: chars_pop_length)

declare shrink.simps [simp del]

definition truncate_text_to_estimated_tokens :: "string \<Rightarrow> nat \<Rightarrow> string" where
  "truncate_text_to_estimated_tokens v max_tokens =
     (let t = trim v; marker_tokens = estimate_text_tokens marker in
      if estimate_text_tokens t \<le> max_tokens then t
      else if max_tokens = 0 then []
      else if max_tokens \<le> marker_tokens then []
      else shrink max_tokens (chars_take (usize_mul (max_tokens - marker_tokens) 4) t))"

subsection \<open>Sharing a budget\<close>

definition weight :: "nat \<Rightarrow> nat" where
  "weight i = usize_add 100 (usize_mul i 5)"

definition granted :: "nat list \<Rightarrow> nat \<Rightarrow> nat \<Rightarrow> nat list \<Rightarrow> nat \<Rightarrow> nat \<Rightarrow> nat" where
  "granted needs remaining weights alloc spent i =
     min (min (needs ! i - alloc ! i) (max (div_ceil (usize_mul remaining (weight i)) weights) 1)) (remaining - spent)"

text \<open>One pass of \<open>retain\<close> over the texts whose need is not met.\<close>

primrec share_pass :: "nat list \<Rightarrow> nat \<Rightarrow> nat \<Rightarrow> nat list \<Rightarrow> nat list \<Rightarrow> nat \<Rightarrow> nat list \<times> nat list \<times> nat" where
  "share_pass needs remaining weights [] alloc spent = ([], alloc, spent)"
| "share_pass needs remaining weights (i # rest) alloc spent =
     (let g = granted needs remaining weights alloc spent i;
          alloc1 = alloc[i := alloc ! i + g];
          (kept, alloc2, spent2) = share_pass needs remaining weights rest alloc1 (spent + g) in
      (if alloc1 ! i < needs ! i then i # kept else kept, alloc2, spent2))"

function share_loop :: "nat list \<Rightarrow> nat list \<Rightarrow> nat list \<Rightarrow> nat \<Rightarrow> nat list" where
  "share_loop needs alloc unsatisfied remaining =
     (if remaining > 0 \<and> unsatisfied \<noteq> [] then
        (let weights = max (sum_list (map weight unsatisfied)) 1;
             (kept, alloc', spent) = share_pass needs remaining weights unsatisfied alloc 0 in
         if spent = 0 then alloc' else share_loop needs alloc' kept (remaining - spent))
      else alloc)"
  by auto
termination
  by (relation "measure (\<lambda>(n, a, u, r). r)") auto

declare share_loop.simps [simp del]

definition recency_weighted_token_allocations :: "nat list \<Rightarrow> nat \<Rightarrow> nat list" where
  "recency_weighted_token_allocations needs budget =
     share_loop needs (replicate (length needs) 0) (filter (\<lambda>i. needs ! i > 0) [0..<length needs]) budget"

definition truncate_message_to_budget :: "inference_message \<Rightarrow> nat \<Rightarrow> inference_message" where
  "truncate_message_to_budget m budget =
     (let fixed = 4 + estimate_text_tokens (im_role m);
          metadata = sum_list (map (\<lambda>a. estimate_text_tokens (at_name a) + estimate_text_tokens (at_mime_type a)) (im_attachments m));
          needs = estimate_text_tokens (im_content m) # map (\<lambda>a. text_tokens (at_text a)) (im_attachments m);
          allocations = recency_weighted_token_allocations needs (budget - fixed - metadata) in
      m\<lparr>im_content := truncate_text_to_estimated_tokens (im_content m) (hd allocations),
        im_attachments := map2 (\<lambda>a n. case at_text a of None \<Rightarrow> a
            | Some t \<Rightarrow> (let c = truncate_text_to_estimated_tokens t n in a\<lparr>at_text := (if c = [] then None else Some c)\<rparr>))
          (im_attachments m) (tl allocations)\<rparr>)"

definition message_was_condensed :: "inference_message \<Rightarrow> inference_message \<Rightarrow> bool" where
  "message_was_condensed before after = (trim (im_content before) \<noteq> trim (im_content after) \<or>
     list_ex (\<lambda>(l, r). map_option trim (at_text l) \<noteq> map_option trim (at_text r))
       (zip (im_attachments before) (im_attachments after)))"

definition attachments_preserved :: "inference_message \<Rightarrow> inference_message \<Rightarrow> bool" where
  "attachments_preserved before after =
     list_all (\<lambda>(l, r). (case at_text l of None \<Rightarrow> True | Some t \<Rightarrow> t = []) \<or> some_text (at_text r))
       (zip (im_attachments before) (im_attachments after))"

subsection \<open>Selection\<close>

record working_selection =
  ws_messages :: "inference_message list"
  ws_tokens :: nat
  ws_selected_count :: nat
  ws_condensed :: bool
  ws_preserved :: bool

definition is_user :: "inference_message \<Rightarrow> bool" where
  "is_user m = (to_ascii_lowercase (im_role m) = ''user'')"

definition latest_user_index :: "inference_message list \<Rightarrow> nat" where
  "latest_user_index ms = (case filter (\<lambda>i. is_user (ms ! i)) (rev [0..<length ms]) of
     [] \<Rightarrow> length ms - 1 | i # _ \<Rightarrow> i)"

text \<open>The walk backwards over the user's turns.\<close>

fun window_start :: "inference_message list \<Rightarrow> nat \<Rightarrow> nat \<Rightarrow> nat list \<Rightarrow> nat" where
  "window_start ms turn_limit seen [] = 0"
| "window_start ms turn_limit seen (i # rest) =
     (if is_user (ms ! i) then (if Suc seen = turn_limit then i else window_start ms turn_limit (Suc seen) rest)
      else window_start ms turn_limit seen rest)"

definition working_window_start :: "inference_message list \<Rightarrow> nat \<Rightarrow> nat \<Rightarrow> nat" where
  "working_window_start ms latest turn_limit = window_start ms turn_limit 0 (rev [0..<Suc latest])"

definition working_window :: "inference_message list \<Rightarrow> nat \<Rightarrow> inference_message list" where
  "working_window ms turn_limit = (let latest = latest_user_index ms; start = working_window_start ms latest turn_limit in
     drop start (take (Suc latest) ms))"

text \<open>The latest message is always kept, cut down when it is over the quota and something is left of it.\<close>

definition condense_latest :: "nat \<Rightarrow> inference_message \<Rightarrow> inference_message \<times> bool \<times> bool" where
  "condense_latest quota m =
     (if estimate_message_tokens m > quota then
        (let next = truncate_message_to_budget m quota in
         if \<not> message_has_dispatchable_content next \<and> message_has_dispatchable_content m then (m, False, True)
         else (next, message_was_condensed m next, attachments_preserved m next))
      else (m, False, True))"

text \<open>The older messages, from the newest to the oldest.\<close>

fun keep_older :: "nat \<Rightarrow> nat \<Rightarrow> inference_message list \<Rightarrow> inference_message list" where
  "keep_older quota used [] = []"
| "keep_older quota used (m # ms) =
     (if used + estimate_message_tokens m \<le> quota
      then m # keep_older quota (used + estimate_message_tokens m) ms
      else keep_older quota used ms)"

definition select_working_messages :: "inference_message list \<Rightarrow> nat \<Rightarrow> nat \<Rightarrow> bool \<Rightarrow> working_selection" where
  "select_working_messages ms quota turn_limit enforce_quota =
     (if ms = [] then \<lparr>ws_messages = [], ws_tokens = 0, ws_selected_count = 0, ws_condensed = False, ws_preserved = True\<rparr>
      else let window = working_window ms turn_limit in
        if \<not> enforce_quota then
          \<lparr>ws_messages = window, ws_tokens = sum_list (map estimate_message_tokens window),
           ws_selected_count = length window, ws_condensed = False, ws_preserved = True\<rparr>
        else
          let (next, condensed, preserved) = condense_latest quota (last window);
              selected = rev (next # keep_older quota (estimate_message_tokens next) (rev (butlast window))) in
          \<lparr>ws_messages = selected, ws_tokens = sum_list (map estimate_message_tokens selected),
           ws_selected_count = length selected, ws_condensed = condensed, ws_preserved = preserved\<rparr>)"

fun select_blocks :: "nat \<Rightarrow> bool \<Rightarrow> nat \<Rightarrow> context_block list \<Rightarrow> string list \<times> nat" where
  "select_blocks quota enforce_quota used [] = ([], used)"
| "select_blocks quota enforce_quota used (b # bs) =
     (let f = formatted b; n = estimate_text_tokens f in
      if \<not> enforce_quota \<or> used + n \<le> quota then
        (let (rest, used') = select_blocks quota enforce_quota (used + n) bs in (f # rest, used'))
      else
        let t = truncate_text_to_estimated_tokens f (quota - used) in
        if trim t \<noteq> [] then ([t], used + estimate_text_tokens t) else ([], used))"

record block_selection =
  bs_content :: string
  bs_tokens :: nat
  bs_selected_count :: nat

definition select_context_blocks :: "context_block list \<Rightarrow> nat \<Rightarrow> bool \<Rightarrow> block_selection" where
  "select_context_blocks blocks quota enforce_quota =
     (let (selected, used) = select_blocks quota enforce_quota 0 blocks in
      \<lparr>bs_content = join blank_line selected, bs_tokens = used, bs_selected_count = length selected\<rparr>)"

subsection \<open>Assembly\<close>

definition TIER2_WEIGHT :: nat where "TIER2_WEIGHT = 40"
definition TIER3_WEIGHT :: nat where "TIER3_WEIGHT = 15"
definition WEIGHT_TOTAL :: nat where "WEIGHT_TOTAL = 45 + TIER2_WEIGHT + TIER3_WEIGHT"

definition weighted_quota :: "nat \<Rightarrow> nat \<Rightarrow> nat" where
  "weighted_quota weights w = usize_mul weights w div WEIGHT_TOTAL"

record context_assembly_request =
  ca_static_core_blocks :: "context_block list"
  ca_working_context_blocks :: "context_block list"
  ca_working_messages :: "inference_message list"
  ca_long_term_blocks :: "context_block list"
  ca_token_budget :: "nat option"
  ca_working_turn_limit :: nat

record context_assembly =
  cx_system_prompt :: string
  cx_messages :: "inference_message list"
  cx_estimated_tokens :: nat
  cx_core_tokens :: nat
  cx_working_context_tokens :: nat
  cx_working_tokens :: nat
  cx_long_term_tokens :: nat
  cx_dropped_working_context_blocks :: nat
  cx_dropped_working_messages :: nat
  cx_dropped_long_term_blocks :: nat
  cx_latest_user_message_condensed :: bool
  cx_latest_user_attachments_preserved :: bool

definition assemble_context :: "context_assembly_request \<Rightarrow> context_assembly" where
  "assemble_context r =
     (let limited = ca_token_budget r \<noteq> None;
          per = (\<lambda>f. case ca_token_budget r of None \<Rightarrow> u64_max | Some b \<Rightarrow> f b);
          core_prompt = format_blocks (ca_static_core_blocks r);
          core_tokens = estimate_text_tokens core_prompt;
          working_quota = per (\<lambda>b. weighted_quota b TIER2_WEIGHT);
          long_term_quota = per (\<lambda>b. weighted_quota b TIER3_WEIGHT);
          lower_tier_budget = per (\<lambda>b. b - core_tokens);
          effective_working_quota = (if limited then min working_quota lower_tier_budget else working_quota);
          working_context = select_context_blocks (ca_working_context_blocks r)
            (if limited then effective_working_quota div 3 else u64_max) limited;
          working = select_working_messages (ca_working_messages r)
            (if limited then effective_working_quota - bs_tokens working_context else u64_max)
            (max (ca_working_turn_limit r) 1) limited;
          remaining = lower_tier_budget - bs_tokens working_context - ws_tokens working;
          long_term = select_context_blocks (ca_long_term_blocks r)
            (if limited then min long_term_quota remaining else long_term_quota) limited in
      \<lparr>cx_system_prompt = join_system_prompt core_prompt (bs_content working_context) (bs_content long_term),
       cx_messages = ws_messages working,
       cx_estimated_tokens = core_tokens + bs_tokens working_context + ws_tokens working + bs_tokens long_term,
       cx_core_tokens = core_tokens, cx_working_context_tokens = bs_tokens working_context,
       cx_working_tokens = ws_tokens working, cx_long_term_tokens = bs_tokens long_term,
       cx_dropped_working_context_blocks = length (ca_working_context_blocks r) - bs_selected_count working_context,
       cx_dropped_working_messages = length (ca_working_messages r) - ws_selected_count working,
       cx_dropped_long_term_blocks = length (ca_long_term_blocks r) - bs_selected_count long_term,
       cx_latest_user_message_condensed = ws_condensed working,
       cx_latest_user_attachments_preserved = ws_preserved working\<rparr>)"

subsection \<open>Truncated texts\<close>

lemma estimate_Nil [simp]: "estimate_text_tokens [] = 0"
  by (simp add: estimate_text_tokens_def trim_def trim_end_def)

lemma estimate_trim [simp]: "estimate_text_tokens (trim v) = estimate_text_tokens v"
  by (simp add: estimate_text_tokens_def trim_idem)

lemma chars_pop_prefix:
  assumes "chars_pop s = Some t" shows "prefix t s"
proof -
  from assms have t: "t = rev (drop 1 (dropWhile continuation_byte (rev s)))" by (simp add: chars_pop_def split: if_splits)
  have "suffix (drop 1 (dropWhile continuation_byte (rev s))) (rev s)"
    using suffix_order.trans [OF suffix_drop suffix_dropWhile] .
  then show ?thesis by (simp add: t suffix_to_prefix)
qed

lemma shrink_shape:
  "shrink n t = [] \<or> (\<exists>p. prefix p t \<and> shrink n t = p @ marker \<and> estimate_text_tokens (p @ marker) \<le> n)"
proof (induction n t rule: shrink.induct)
  case (1 n t)
  show ?case
  proof (cases "chars_pop t")
    case None
    then show ?thesis by (subst (1 2) shrink.simps) auto
  next
    case (Some t')
    with 1 chars_pop_prefix [OF Some] show ?thesis
      by (cases "estimate_text_tokens (t @ marker) \<le> n") (auto simp: shrink.simps [of n t] intro: prefix_order.trans)
  qed
qed

lemma truncate_shape:
  "let r = truncate_text_to_estimated_tokens v n in
   (r = trim v \<or> r = [] \<or> (\<exists>p. prefix p (trim v) \<and> r = p @ marker)) \<and> estimate_text_tokens r \<le> n"
proof (cases "estimate_text_tokens v \<le> n \<or> n = 0 \<or> n \<le> estimate_text_tokens marker")
  case True
  then show ?thesis by (auto simp: truncate_text_to_estimated_tokens_def Let_def)
next
  case False
  let ?t = "chars_take (usize_mul (n - estimate_text_tokens marker) 4) (trim v)"
  from False have "truncate_text_to_estimated_tokens v n = shrink n ?t"
    by (simp add: truncate_text_to_estimated_tokens_def Let_def)
  then show ?thesis
    using shrink_shape [of n ?t] chars_take_prefix by (auto simp: Let_def intro: prefix_order.trans)
qed

lemma truncate_tokens: "estimate_text_tokens (truncate_text_to_estimated_tokens v n) \<le> n"
  using truncate_shape [of v n] by (simp add: Let_def)

subsection \<open>Exact shares\<close>

definition share_ok :: "nat list \<Rightarrow> nat list \<Rightarrow> nat list \<Rightarrow> bool" where
  "share_ok needs alloc unmet \<longleftrightarrow> length alloc = length needs \<and> distinct unmet \<and>
     (\<forall>i \<in> set unmet. i < length needs \<and> alloc ! i < needs ! i) \<and> (\<forall>i < length needs. alloc ! i \<le> needs ! i)"

lemma granted_bounds:
  "granted needs remaining weights alloc spent i \<le> needs ! i - alloc ! i"
  "granted needs remaining weights alloc spent i \<le> remaining - spent"
  "alloc ! i < needs ! i \<Longrightarrow> spent < remaining \<Longrightarrow> 0 < granted needs remaining weights alloc spent i"
  by (auto simp: granted_def)

lemma share_pass_ok:
  assumes "share_pass needs remaining weights unmet alloc spent = (kept, alloc', spent')"
    and "share_ok needs alloc unmet" "spent \<le> remaining"
  shows "share_ok needs alloc' kept \<and> set kept \<subseteq> set unmet \<and> spent' \<le> remaining \<and> spent \<le> spent' \<and>
    sum_list alloc' + spent = sum_list alloc + spent' \<and> (unmet \<noteq> [] \<and> spent < remaining \<longrightarrow> spent < spent') \<and>
    (\<forall>j < length needs. j \<notin> set unmet \<longrightarrow> alloc' ! j = alloc ! j) \<and>
    (\<forall>j \<in> set unmet - set kept. alloc' ! j = needs ! j)"
  using assms
proof (induction unmet arbitrary: kept alloc spent)
  case Nil
  then show ?case by (auto simp: share_ok_def)
next
  case (Cons i rest)
  let ?g = "granted needs remaining weights alloc spent i"
  let ?alloc = "alloc[i := alloc ! i + ?g]"
  obtain kept1 where rec: "share_pass needs remaining weights rest ?alloc (spent + ?g) = (kept1, alloc', spent')"
    and kept: "kept = (if ?alloc ! i < needs ! i then i # kept1 else kept1)"
    using Cons.prems(1) by (auto simp: Let_def split: prod.splits)
  have i: "i < length alloc" "alloc ! i < needs ! i" "i \<notin> set rest" using Cons.prems(2) by (auto simp: share_ok_def)
  note g = granted_bounds [where needs = needs and remaining = remaining and weights = weights and alloc = alloc and spent = spent and i = i]
  have "share_ok needs ?alloc rest"
    using Cons.prems(2) i g(1) by (auto simp: share_ok_def nth_list_update)
  moreover have "spent + ?g \<le> remaining" using g(2) Cons.prems(3) by linarith
  ultimately have IH: "share_ok needs alloc' kept1" "set kept1 \<subseteq> set rest" "spent' \<le> remaining" "spent + ?g \<le> spent'"
    "sum_list alloc' + (spent + ?g) = sum_list ?alloc + spent'"
    "\<forall>j < length needs. j \<notin> set rest \<longrightarrow> alloc' ! j = ?alloc ! j" "\<forall>j \<in> set rest - set kept1. alloc' ! j = needs ! j"
    using Cons.IH [OF rec] by simp_all
  have len: "length needs = length alloc" using Cons.prems(2) by (simp add: share_ok_def)
  have ai: "alloc' ! i = alloc ! i + ?g" using IH(6) i by (simp add: len)
  have "sum_list ?alloc = sum_list alloc + ?g" using i(1) by (simp add: sum_list_update)
  then have "sum_list alloc' + spent = sum_list alloc + spent'" using IH(5) by linarith
  moreover have "share_ok needs alloc' kept"
    using IH(1,2) i ai by (auto simp: share_ok_def kept len)
  moreover have "spent < remaining \<longrightarrow> spent < spent'" using g(3) i(2) IH(4) by fastforce
  moreover have "\<forall>j < length needs. j \<notin> set (i # rest) \<longrightarrow> alloc' ! j = alloc ! j" using IH(6) by auto
  moreover have "\<forall>j \<in> set (i # rest) - set kept. alloc' ! j = needs ! j"
    using IH(7) ai i g(1) by (auto simp: kept split: if_splits)
  moreover have "set kept \<subseteq> set (i # rest)" using IH(2) by (auto simp: kept)
  ultimately show ?case using IH(3,4) by simp
qed

lemma sum_list_pointwise:
  assumes "length xs = length (ys :: nat list)" "\<And>i. i < length ys \<Longrightarrow> xs ! i \<le> ys ! i"
  shows "sum_list xs \<le> sum_list ys"
  unfolding sum_list_sum_nth assms(1) by (rule sum_mono) (use assms(2) in simp)

lemma share_loop_exact:
  assumes "share_ok needs alloc unmet" "\<forall>j < length needs. j \<notin> set unmet \<longrightarrow> alloc ! j = needs ! j"
  shows "length (share_loop needs alloc unmet remaining) = length needs \<and>
    (\<forall>i < length needs. share_loop needs alloc unmet remaining ! i \<le> needs ! i) \<and>
    sum_list (share_loop needs alloc unmet remaining) = sum_list alloc + min remaining (sum_list needs - sum_list alloc)"
  using assms
proof (induction needs alloc unmet remaining rule: share_loop.induct)
  case (1 needs alloc unmet remaining)
  have le: "sum_list alloc \<le> sum_list needs" using 1(2) by (auto simp: share_ok_def intro: sum_list_pointwise)
  show ?case
  proof (cases "remaining > 0 \<and> unmet \<noteq> []")
    case False
    moreover have "sum_list alloc = sum_list needs" if "unmet = []"
      using 1(2,3) that by (auto simp: share_ok_def intro!: arg_cong [of _ _ sum_list] nth_equalityI)
    ultimately show ?thesis using 1(2) by (auto simp: share_loop.simps [of needs alloc unmet] share_ok_def)
  next
    case True
    let ?w = "max (sum_list (map weight unmet)) 1"
    obtain kept alloc' spent where p: "share_pass needs remaining ?w unmet alloc 0 = (kept, alloc', spent)"
      using prod_cases3 by blast
    note ok = share_pass_ok [OF p 1(2)]
    have "spent > 0" "spent \<le> remaining" using ok True by auto
    moreover have rest: "\<forall>j < length needs. j \<notin> set kept \<longrightarrow> alloc' ! j = needs ! j"
      using ok 1(3) by (metis Diff_iff zero_le)
    ultimately have eq: "share_loop needs alloc unmet remaining = share_loop needs alloc' kept (remaining - spent)"
      using p True by (simp add: share_loop.simps [of needs alloc unmet] Let_def)
    have IH: "length (share_loop needs alloc' kept (remaining - spent)) = length needs \<and>
      (\<forall>i < length needs. share_loop needs alloc' kept (remaining - spent) ! i \<le> needs ! i) \<and>
      sum_list (share_loop needs alloc' kept (remaining - spent)) =
        sum_list alloc' + min (remaining - spent) (sum_list needs - sum_list alloc')"
      using 1(1) [OF True refl p [symmetric] refl refl] \<open>spent > 0\<close> ok rest by auto
    have "sum_list alloc' = sum_list alloc + spent" using ok by simp
    moreover have "share_ok needs alloc' kept" using ok by simp
    then have "sum_list alloc' \<le> sum_list needs" unfolding share_ok_def by (intro sum_list_pointwise) blast+
    ultimately show ?thesis using IH \<open>spent \<le> remaining\<close> by (simp add: eq)
  qed
qed

lemma allocations_shared:
  "length (recency_weighted_token_allocations needs budget) = length needs \<and>
   (\<forall>i < length needs. recency_weighted_token_allocations needs budget ! i \<le> needs ! i) \<and>
   sum_list (recency_weighted_token_allocations needs budget) = min budget (sum_list needs)"
proof -
  have "share_ok needs (replicate (length needs) 0) (filter (\<lambda>i. needs ! i > 0) [0..<length needs])"
    by (auto simp: share_ok_def)
  from share_loop_exact [OF this, of budget] show ?thesis
    by (auto simp: recency_weighted_token_allocations_def sum_list_replicate)
qed

text \<open>
  The budget for the texts of an oversized message is shared out exactly: no text gets more than it
  needs, and together they get the whole budget, or everything they need if that is less.
\<close>

theorem allocations_exact:
  "let r = recency_weighted_token_allocations needs budget in
   length r = length needs \<and> list_all2 (\<le>) r needs \<and> sum_list r = min budget (sum_list needs)"
  using allocations_shared [of needs budget] by (simp add: Let_def list_all2_conv_all_nth)

subsection \<open>Sizes of a selection\<close>

lemma select_blocks_bound:
  "select_blocks quota True used blocks = (selected, used') \<Longrightarrow> used \<le> quota \<Longrightarrow> used \<le> used' \<and> used' \<le> quota"
proof (induction blocks arbitrary: used selected)
  case (Cons b bs)
  let ?t = "truncate_text_to_estimated_tokens (formatted b) (quota - used)"
  have "used + estimate_text_tokens ?t \<le> quota" using truncate_tokens [of "formatted b" "quota - used"] Cons.prems(2) by linarith
  then show ?case using Cons by (fastforce simp: Let_def split: if_splits prod.splits)
qed simp

lemma context_blocks_bound: "bs_tokens (select_context_blocks blocks quota True) \<le> quota"
  using select_blocks_bound [of quota 0 blocks] by (auto simp: select_context_blocks_def split: prod.splits)

definition fixed_tokens :: "inference_message \<Rightarrow> nat" where
  "fixed_tokens m = 4 + estimate_text_tokens (im_role m) +
     sum_list (map (\<lambda>a. estimate_text_tokens (at_name a) + estimate_text_tokens (at_mime_type a)) (im_attachments m))"

lemma attachments_cut:
  assumes "length ns = length as"
  shows "sum_list (map estimate_attachment_tokens (map2 (\<lambda>a n. case at_text a of None \<Rightarrow> a
      | Some t \<Rightarrow> (let c = truncate_text_to_estimated_tokens t n in a\<lparr>at_text := (if c = [] then None else Some c)\<rparr>)) as ns)) \<le>
    sum_list (map (\<lambda>a. estimate_text_tokens (at_name a) + estimate_text_tokens (at_mime_type a)) as) + sum_list ns"
  using assms
proof (induction ns as rule: list_induct2)
  case (Cons n ns a as)
  have "estimate_attachment_tokens (case at_text a of None \<Rightarrow> a
      | Some t \<Rightarrow> (let c = truncate_text_to_estimated_tokens t n in a\<lparr>at_text := (if c = [] then None else Some c)\<rparr>)) \<le>
    estimate_text_tokens (at_name a) + estimate_text_tokens (at_mime_type a) + n"
    using truncate_tokens [of _ n]
    by (auto simp: estimate_attachment_tokens_def text_tokens_def Let_def split: option.splits)
  with Cons show ?case by simp
qed simp

text \<open>A message that was cut down fits, unless its role and file names alone are over the budget.\<close>

lemma truncate_message_bound:
  "estimate_message_tokens (truncate_message_to_budget m budget) \<le> max budget (fixed_tokens m)"
proof -
  define needs where "needs = estimate_text_tokens (im_content m) # map (\<lambda>a. text_tokens (at_text a)) (im_attachments m)"
  define ns where "ns = recency_weighted_token_allocations needs (budget - fixed_tokens m)"
  have sub: "budget - (4 + estimate_text_tokens (im_role m)) -
      sum_list (map (\<lambda>a. estimate_text_tokens (at_name a) + estimate_text_tokens (at_mime_type a)) (im_attachments m)) =
      budget - fixed_tokens m" by (simp add: fixed_tokens_def)
  from allocations_shared [of needs "budget - fixed_tokens m"]
  have len: "length ns = Suc (length (im_attachments m))" and total: "sum_list ns \<le> budget - fixed_tokens m"
    by (simp_all add: ns_def needs_def)
  then obtain n ns' where ns: "ns = n # ns'" "length ns' = length (im_attachments m)" by (cases ns) auto
  have "estimate_message_tokens (truncate_message_to_budget m budget) =
    4 + estimate_text_tokens (im_role m) + estimate_text_tokens (truncate_text_to_estimated_tokens (im_content m) n) +
    sum_list (map estimate_attachment_tokens (map2 (\<lambda>a n. case at_text a of None \<Rightarrow> a
      | Some t \<Rightarrow> (let c = truncate_text_to_estimated_tokens t n in a\<lparr>at_text := (if c = [] then None else Some c)\<rparr>)) (im_attachments m) ns'))"
    unfolding truncate_message_to_budget_def Let_def needs_def [symmetric] sub ns_def [symmetric] ns(1)
    by (simp add: estimate_message_tokens_def)
  also have "\<dots> \<le> 4 + estimate_text_tokens (im_role m) + n +
     (sum_list (map (\<lambda>a. estimate_text_tokens (at_name a) + estimate_text_tokens (at_mime_type a)) (im_attachments m)) + sum_list ns')"
    by (intro add_mono order_refl attachments_cut ns(2) truncate_tokens)
  also have "\<dots> = fixed_tokens m + sum_list ns" by (simp add: fixed_tokens_def ns(1))
  finally show ?thesis using total by linarith
qed

text \<open>A text with more than the marker's three tokens to spend is never cut down to nothing.\<close>

lemma trim_start_last: "s \<noteq> [] \<Longrightarrow> solid (last s) \<Longrightarrow> trim_start s \<noteq> [] \<and> last (trim_start s) = last s"
  by (induction s rule: trim_start.induct) (auto simp: solid_def ws2_def ws3_def Let_def split: if_splits)

lemma marked_text: "trim (p @ marker) \<noteq> []"
proof -
  have last: "solid (last (p @ marker))" by (simp add: marker_def solid_def ascii_ws_def)
  have "p @ marker \<noteq> []" by (simp add: marker_def)
  from trim_start_last [OF this last] obtain c r where "rev (trim_start (p @ marker)) = c # r" "solid c"
    using last by (metis last_rev list.exhaust list.sel(1) rev_is_Nil_conv hd_rev)
  then show ?thesis by (simp add: trim_def trim_end_def trim_rev_solid)
qed

lemma marker_tokens: "estimate_text_tokens marker = 3"
  by code_simp

lemma shrink_left: "3 \<le> n \<Longrightarrow> shrink n t \<noteq> []"
proof (induction n t rule: shrink.induct)
  case (1 n t)
  show ?case
  proof (cases "chars_pop t")
    case None
    with 1(2) show ?thesis by (simp add: shrink.simps [of n t] chars_pop_def marker_tokens split: if_splits) (simp add: marker_def)
  next
    case (Some t')
    then show ?thesis using 1 by (simp add: shrink.simps [of n t]) (simp add: marker_def)
  qed
qed

lemma truncate_left:
  assumes "3 < n" "n \<le> estimate_text_tokens v" shows "trim (truncate_text_to_estimated_tokens v n) \<noteq> []"
proof (cases "estimate_text_tokens v \<le> n")
  case True
  then have "truncate_text_to_estimated_tokens v n = trim v" by (simp add: truncate_text_to_estimated_tokens_def Let_def)
  moreover have "trim v \<noteq> []" using assms by (auto simp: estimate_text_tokens_def Let_def)
  ultimately show ?thesis by (simp add: trim_idem)
next
  case False
  let ?t = "chars_take (usize_mul (n - 3) 4) (trim v)"
  have "truncate_text_to_estimated_tokens v n = shrink n ?t"
    using False assms(1) by (simp add: truncate_text_to_estimated_tokens_def Let_def marker_tokens)
  moreover have "shrink n ?t \<noteq> []" using assms(1) by (simp add: shrink_left)
  ultimately show ?thesis using shrink_shape [of n ?t] marked_text by auto
qed

text \<open>A message of which truncation leaves nothing has no more than the marker's tokens for each of its texts.\<close>

lemma truncate_message_left:
  assumes "\<not> message_has_dispatchable_content (truncate_message_to_budget m budget)" "budget < estimate_message_tokens m"
  shows "budget \<le> fixed_tokens m + 3 * Suc (length (im_attachments m))"
proof -
  define needs where "needs = estimate_text_tokens (im_content m) # map (\<lambda>a. text_tokens (at_text a)) (im_attachments m)"
  define ns where "ns = recency_weighted_token_allocations needs (budget - fixed_tokens m)"
  have sub: "budget - (4 + estimate_text_tokens (im_role m)) -
      sum_list (map (\<lambda>a. estimate_text_tokens (at_name a) + estimate_text_tokens (at_mime_type a)) (im_attachments m)) =
      budget - fixed_tokens m" by (simp add: fixed_tokens_def)
  from allocations_shared [of needs "budget - fixed_tokens m"]
  have len: "length ns = Suc (length (im_attachments m))" and each: "\<forall>i < length ns. ns ! i \<le> needs ! i"
    and total: "sum_list ns = min (budget - fixed_tokens m) (sum_list needs)"
    by (simp_all add: ns_def needs_def)
  then obtain n ns' where ns: "ns = n # ns'" "length ns' = length (im_attachments m)" by (cases ns) auto
  define cut where "cut = truncate_message_to_budget m budget"
  have cut: "im_content cut = truncate_text_to_estimated_tokens (im_content m) n"
    "im_attachments cut = map2 (\<lambda>a n. case at_text a of None \<Rightarrow> a
      | Some t \<Rightarrow> (let c = truncate_text_to_estimated_tokens t n in a\<lparr>at_text := (if c = [] then None else Some c)\<rparr>)) (im_attachments m) ns'"
    unfolding cut_def truncate_message_to_budget_def Let_def needs_def [symmetric] sub ns_def [symmetric] ns(1) by simp_all
  have "n \<le> 3"
    using truncate_left [of n "im_content m"] each assms(1)
    by (force simp: cut_def [symmetric] message_has_dispatchable_content_def cut needs_def ns(1))
  moreover have "k \<le> 3" if k: "k \<in> set ns'" for k
  proof (rule ccontr)
    assume "\<not> k \<le> 3"
    obtain i where i: "i < length ns'" "ns' ! i = k" using k by (auto simp: in_set_conv_nth)
    have need: "k \<le> text_tokens (at_text (im_attachments m ! i))" using each [rule_format, of "Suc i"] i ns by (simp add: needs_def)
    then obtain t where t: "at_text (im_attachments m ! i) = Some t" "k \<le> estimate_text_tokens t"
      using \<open>\<not> k \<le> 3\<close> by (auto simp: text_tokens_def split: option.splits)
    let ?c = "truncate_text_to_estimated_tokens t k"
    have "trim ?c \<noteq> []" using truncate_left t(2) \<open>\<not> k \<le> 3\<close> by simp
    then have "some_text (at_text (im_attachments cut ! i))"
      using i ns(2) t(1) by (auto simp: cut some_text_def Let_def trim_def trim_end_def)
    moreover have "im_attachments cut ! i \<in> set (im_attachments cut)" using i ns(2) by (intro nth_mem) (simp add: cut)
    ultimately show False using assms(1) by (auto simp: cut_def [symmetric] message_has_dispatchable_content_def list_ex_iff)
  qed
  then have "sum_list ns' \<le> 3 * length ns'" by (induction ns') fastforce+
  ultimately have few: "sum_list ns \<le> 3 * Suc (length (im_attachments m))" by (simp add: ns)
  have "estimate_message_tokens m = fixed_tokens m + sum_list needs"
    by (simp add: estimate_message_tokens_def fixed_tokens_def needs_def estimate_attachment_tokens_def [abs_def] sum_list_addf)
  then show ?thesis using total few assms(2) by linarith
qed

lemma condense_latest_bound:
  assumes "condense_latest quota m = (m', condensed, preserved)"
  shows "estimate_message_tokens m' \<le> quota \<or> m' = m \<and> quota \<le> fixed_tokens m + 3 * Suc (length (im_attachments m)) \<or>
    estimate_message_tokens m' \<le> fixed_tokens m \<and> quota < fixed_tokens m"
  using assms truncate_message_bound [of m quota] truncate_message_left [of m quota]
  by (auto simp: condense_latest_def Let_def max_def simp del: mult_Suc_right split: if_splits)

lemma keep_older_bound: "used \<le> quota \<Longrightarrow> used + sum_list (map estimate_message_tokens (keep_older quota used ms)) \<le> quota"
  by (induction quota used ms rule: keep_older.induct) (auto simp: add.assoc)

lemma keep_older_full: "quota < used \<Longrightarrow> keep_older quota used ms = []"
  by (induction quota used ms rule: keep_older.induct) auto

lemma keep_older_subseq: "subseq (keep_older quota used ms) ms"
  by (induction quota used ms rule: keep_older.induct) auto

lemma subseq_reversed: "subseq xs ys \<Longrightarrow> subseq (rev xs) (rev ys)"
proof (induction rule: list_emb.induct)
  case (list_emb_Cons2 x y xs ys)
  then show ?case by (simp add: list_emb_append_mono)
qed auto

lemma select_working_limited:
  assumes "ms \<noteq> []" and window_def: "window = working_window ms turn_limit"
    and r_def: "r = select_working_messages ms quota turn_limit True"
  obtains m older where "ws_messages r = older @ [m]" "m = fst (condense_latest quota (last window))"
    "subseq older (butlast window)" "ws_tokens r = sum_list (map estimate_message_tokens (ws_messages r))"
    "ws_tokens r \<le> quota \<or> older = [] \<and> quota < estimate_message_tokens m"
    "ws_condensed r = fst (snd (condense_latest quota (last window)))"
proof -
  obtain m condensed preserved where c: "condense_latest quota (last window) = (m, condensed, preserved)"
    using prod_cases3 by blast
  let ?older = "rev (keep_older quota (estimate_message_tokens m) (rev (butlast window)))"
  have r: "ws_messages r = ?older @ [m]" "ws_condensed r = condensed"
    "ws_tokens r = sum_list (map estimate_message_tokens (ws_messages r))"
    using assms(1) c by (simp_all add: r_def select_working_messages_def Let_def window_def [symmetric])
  have "subseq ?older (butlast window)"
    using subseq_reversed [OF keep_older_subseq] by (metis rev_rev_ident)
  moreover have "ws_tokens r = estimate_message_tokens m + sum_list (map estimate_message_tokens (keep_older quota (estimate_message_tokens m) (rev (butlast window))))"
    by (simp add: r rev_map [symmetric] sum_list_rev)
  then have "ws_tokens r \<le> quota \<or> ?older = [] \<and> quota < estimate_message_tokens m"
    using keep_older_bound [of "estimate_message_tokens m" quota "rev (butlast window)"]
      keep_older_full [of quota "estimate_message_tokens m"] by (cases "estimate_message_tokens m \<le> quota") auto
  ultimately show ?thesis by (intro that [of ?older m]) (simp_all add: r c)
qed

text \<open>The window ends with the latest user message and holds at most the given number of turns.\<close>

lemma window_start_range: "window_start ms turn_limit seen xs = 0 \<or> window_start ms turn_limit seen xs \<in> set xs"
  by (induction ms turn_limit seen xs rule: window_start.induct) auto

lemma window_start_turns:
  "seen < turn_limit \<Longrightarrow>
   length (filter (\<lambda>i. is_user (ms ! i)) [window_start ms turn_limit seen (rev [0..<k])..<k]) + seen \<le> turn_limit"
proof (induction k arbitrary: seen)
  case (Suc k)
  have le: "window_start ms turn_limit n (rev [0..<k]) \<le> k" for n
    using window_start_range [of ms turn_limit n "rev [0..<k]"] by auto
  show ?case
  proof (cases "is_user (ms ! k)")
    case True
    with Suc.IH [of "Suc seen"] Suc.prems le [of "Suc seen"] show ?thesis by (cases "Suc seen = turn_limit") auto
  next
    case False
    with Suc.IH [of seen] Suc.prems le [of seen] show ?thesis by simp
  qed
qed simp

lemma latest_user_bound:
  assumes "ms \<noteq> []" shows "latest_user_index ms < length ms"
proof (cases "filter (\<lambda>i. is_user (ms ! i)) (rev [0..<length ms])")
  case Nil
  then show ?thesis using assms by (simp add: latest_user_index_def)
next
  case (Cons i others)
  have "set (i # others) \<subseteq> {0..<length ms}" unfolding Cons [symmetric] by auto
  then show ?thesis by (simp add: latest_user_index_def Cons)
qed

lemma working_window_facts:
  assumes "ms \<noteq> []" "turn_limit > 0"
  shows "working_window ms turn_limit \<noteq> []" "last (working_window ms turn_limit) = ms ! latest_user_index ms"
    "length (filter is_user (working_window ms turn_limit)) \<le> turn_limit"
    "sublist (working_window ms turn_limit) ms"
proof -
  let ?k = "latest_user_index ms" and ?w = "working_window ms turn_limit"
  let ?s = "working_window_start ms ?k turn_limit"
  have s: "?s \<le> ?k" using window_start_range [of ms turn_limit 0 "rev [0..<Suc ?k]"] by (auto simp: working_window_start_def)
  have k: "Suc ?k \<le> length ms" using latest_user_bound [OF assms(1)] by simp
  have w: "?w = map ((!) ms) [?s..<Suc ?k]"
    unfolding working_window_def Let_def by (rule nth_equalityI) (use k s in \<open>auto simp del: upt_Suc simp: nth_append\<close>)
  show "?w \<noteq> []" "last ?w = ms ! ?k" using s by (simp_all add: w)
  show "length (filter is_user ?w) \<le> turn_limit"
    using window_start_turns [OF assms(2), of ms "Suc ?k"]
    unfolding w working_window_start_def filter_map length_map comp_def by simp
  show "sublist ?w ms" unfolding working_window_def Let_def
    by (rule sublist_order.order.trans [OF sublist_drop sublist_take])
qed

subsection \<open>Properties\<close>

text \<open>
  C30. Under a token budget that holds the fixed core, the estimate of the assembled context stays within
  the budget, with one exception: a latest message whose share is too small to cut it down to is
  sent alone. Its share is what the working context leaves of two fifths of the budget. The message
  is sent whole only if that share leaves no more than three tokens, the size of the truncation mark,
  for each of its texts beside its role and file names, and reduced to the role and the names only
  if these alone are over the share. In every other case the message is cut down and all of it fits.
\<close>

theorem context_fits:
  assumes budget: "ca_token_budget r = Some b" and core: "cx_core_tokens (assemble_context r) \<le> b"
  shows "cx_estimated_tokens (assemble_context r) \<le> b \<or>
    (\<exists>m. cx_messages (assemble_context r) = [m] \<and>
       (let latest = ca_working_messages r ! latest_user_index (ca_working_messages r);
            share = min (min (b * 40) u64_max div 100) (b - cx_core_tokens (assemble_context r)) -
              cx_working_context_tokens (assemble_context r) in
        m = latest \<and> share \<le> fixed_tokens latest + 3 * Suc (length (im_attachments latest)) \<or>
        estimate_message_tokens m \<le> fixed_tokens latest \<and> share < fixed_tokens latest))"
proof -
  let ?ms = "ca_working_messages r" and ?limit = "max (ca_working_turn_limit r) 1"
  define c where "c = estimate_text_tokens (format_blocks (ca_static_core_blocks r))"
  define q where "q = min (weighted_quota b TIER2_WEIGHT) (b - c)"
  define wc where "wc = select_context_blocks (ca_working_context_blocks r) (q div 3) True"
  define wk where "wk = select_working_messages ?ms (q - bs_tokens wc) ?limit True"
  define lt where "lt = select_context_blocks (ca_long_term_blocks r)
    (min (weighted_quota b TIER3_WEIGHT) (b - c - bs_tokens wc - ws_tokens wk)) True"
  have quotas: "(case ca_token_budget r of None \<Rightarrow> u64_max | Some x \<Rightarrow> f x) = f b" for f by (simp add: budget)
  have a: "cx_core_tokens (assemble_context r) = c" "cx_messages (assemble_context r) = ws_messages wk"
    "cx_working_context_tokens (assemble_context r) = bs_tokens wc"
    "cx_estimated_tokens (assemble_context r) = c + bs_tokens wc + ws_tokens wk + bs_tokens lt"
    unfolding assemble_context_def Let_def quotas c_def [symmetric]
    by (simp_all add: budget q_def [symmetric] wc_def [symmetric] wk_def [unfolded One_nat_def, symmetric]
        lt_def [unfolded diff_diff_left, symmetric])
  have lt_le: "bs_tokens lt \<le> b - c - bs_tokens wc - ws_tokens wk"
    unfolding lt_def by (rule order_trans [OF context_blocks_bound]) simp
  have wc_le: "bs_tokens wc \<le> q" using context_blocks_bound [of "ca_working_context_blocks r" "q div 3"] by (simp add: wc_def)
  have q: "q \<le> b - c" by (simp add: q_def)
  show ?thesis
  proof (cases "ws_tokens wk \<le> q - bs_tokens wc")
    case True
    then have "c + bs_tokens wc + ws_tokens wk + bs_tokens lt \<le> b" using lt_le wc_le q core a(1) by linarith
    then show ?thesis by (simp add: a(4))
  next
    case False
    then have ne: "?ms \<noteq> []" by (auto simp: wk_def select_working_messages_def)
    obtain m older where m: "ws_messages wk = older @ [m]" "m = fst (condense_latest (q - bs_tokens wc) (last (working_window ?ms ?limit)))"
      "older = []" "q - bs_tokens wc < estimate_message_tokens m"
      using select_working_limited [OF ne refl wk_def] False by metis
    have "last (working_window ?ms ?limit) = ?ms ! latest_user_index ?ms" using working_window_facts(2) [OF ne] by simp
    then have "m = ?ms ! latest_user_index ?ms \<and> q - bs_tokens wc \<le> fixed_tokens (?ms ! latest_user_index ?ms) +
        3 * Suc (length (im_attachments (?ms ! latest_user_index ?ms))) \<or>
      estimate_message_tokens m \<le> fixed_tokens (?ms ! latest_user_index ?ms) \<and> q - bs_tokens wc < fixed_tokens (?ms ! latest_user_index ?ms)"
      using condense_latest_bound [of "q - bs_tokens wc" "?ms ! latest_user_index ?ms"] m(2,4)
      by (metis linorder_not_le prod.collapse)
    moreover have "q = min (min (b * 40) u64_max div 100) (b - c)"
      by (simp add: q_def weighted_quota_def usize_mul_def WEIGHT_TOTAL_def TIER2_WEIGHT_def TIER3_WEIGHT_def)
    ultimately show ?thesis using m(1,3) unfolding a Let_def by auto
  qed
qed

text \<open>
  The latest user message is always sent, last, and unchanged unless it is reported as condensed; the
  messages before it are a subsequence of the conversation, in order and unaltered, and no more
  user turns are sent than the limit.
\<close>

theorem context_keeps_latest:
  assumes ne: "ca_working_messages r \<noteq> []" and limit: "ca_working_turn_limit r > 0"
  shows "let a = assemble_context r; latest = ca_working_messages r ! latest_user_index (ca_working_messages r) in
    \<exists>older m. cx_messages a = older @ [m] \<and> subseq (older @ [latest]) (ca_working_messages r) \<and>
      length (filter is_user (older @ [latest])) \<le> ca_working_turn_limit r \<and> im_role m = im_role latest \<and>
      (cx_latest_user_message_condensed a \<or> \<not> message_was_condensed latest m)"
proof -
  let ?ms = "ca_working_messages r" and ?a = "assemble_context r"
  let ?latest = "?ms ! latest_user_index ?ms" and ?w = "working_window ?ms (ca_working_turn_limit r)"
  note w = working_window_facts [OF ne limit]
  have same: "\<not> message_was_condensed m m" for m by (auto simp: message_was_condensed_def list_ex_iff in_set_zip)
  have parts: "subseq (xs @ [?latest]) ?ms \<and> length (filter is_user (xs @ [?latest])) \<le> ca_working_turn_limit r"
    if "subseq xs (butlast ?w)" for xs
  proof -
    have "subseq (xs @ [last ?w]) (butlast ?w @ [last ?w])" using that by (intro list_emb_append_mono) auto
    then have s: "subseq (xs @ [?latest]) ?w" using append_butlast_last_id [OF w(1)] w(2) by metis
    then have "subseq (filter is_user (xs @ [?latest])) (filter is_user ?w)" by (rule subseq_filter)
    then have "length (filter is_user (xs @ [?latest])) \<le> length (filter is_user ?w)" by (rule list_emb_length)
    with s w(3,4) show ?thesis by (meson order_trans sublist_imp_subseq subseq_order.trans)
  qed
  obtain q limited where wk: "cx_messages ?a = ws_messages (select_working_messages ?ms q (ca_working_turn_limit r) limited)"
    "cx_latest_user_message_condensed ?a = ws_condensed (select_working_messages ?ms q (ca_working_turn_limit r) limited)"
  proof -
    have one: "max (ca_working_turn_limit r) 1 = ca_working_turn_limit r" using limit by simp
    have "\<exists>q limited. cx_messages ?a = ws_messages (select_working_messages ?ms q (ca_working_turn_limit r) limited) \<and>
      cx_latest_user_message_condensed ?a = ws_condensed (select_working_messages ?ms q (ca_working_turn_limit r) limited)"
      unfolding assemble_context_def Let_def one context_assembly.select_convs by blast
    with that show thesis by blast
  qed
  show ?thesis
  proof (cases limited)
    case False
    then have "cx_messages ?a = ?w" using ne by (simp add: wk select_working_messages_def Let_def)
    also have "?w = butlast ?w @ [?latest]" using append_butlast_last_id [OF w(1)] unfolding w(2) by (rule sym)
    finally have "cx_messages ?a = butlast ?w @ [?latest]" .
    then show ?thesis using parts [of "butlast ?w"] same unfolding Let_def by blast
  next
    case True
    obtain m older where m: "cx_messages ?a = older @ [m]" "m = fst (condense_latest q ?latest)" "subseq older (butlast ?w)"
      "cx_latest_user_message_condensed ?a = fst (snd (condense_latest q ?latest))"
    proof (rule select_working_limited [OF ne refl refl, where turn_limit = "ca_working_turn_limit r" and quota = q])
      let ?sel = "select_working_messages ?ms q (ca_working_turn_limit r) True"
      fix m older
      assume "ws_messages ?sel = older @ [m]" "m = fst (condense_latest q (last ?w))" "subseq older (butlast ?w)"
        "ws_condensed ?sel = fst (snd (condense_latest q (last ?w)))"
      then show thesis using True wk by (intro that [of older m]) (simp_all add: w(2))
    qed
    have "im_role m = im_role ?latest"
      by (simp add: m(2) condense_latest_def Let_def truncate_message_to_budget_def)
    moreover have "fst (snd (condense_latest q ?latest)) \<or> \<not> message_was_condensed ?latest m"
      using same by (auto simp: m(2) condense_latest_def Let_def)
    ultimately show ?thesis using m parts unfolding Let_def by metis
  qed
qed

subsection \<open>The properties on an example\<close>

definition long_message :: inference_message where
  "long_message = \<lparr>im_role = ''user'', im_content = replicate 400 (CHR ''x''), im_attachments = []\<rparr>"

definition example_request :: context_assembly_request where
  "example_request = \<lparr>ca_static_core_blocks = [\<lparr>cb_label = ''Core'', cb_content = ''Be brief.''\<rparr>],
     ca_working_context_blocks = [], ca_working_messages =
       [\<lparr>im_role = ''user'', im_content = ''hi'', im_attachments = []\<rparr>,
        \<lparr>im_role = ''assistant'', im_content = ''hello'', im_attachments = []\<rparr>, long_message],
     ca_long_term_blocks = [], ca_token_budget = Some 80, ca_working_turn_limit = 5\<rparr>"

theorem context_fits_witness:
  "cx_core_tokens (assemble_context example_request) \<le> 80 \<and> 80 < estimate_message_tokens long_message \<and>
   cx_estimated_tokens (assemble_context example_request) \<le> 80"
proof -
  let ?a = "assemble_context example_request"
  have "estimate_text_tokens (format_blocks (ca_static_core_blocks example_request)) = 4" by code_simp
  then have core: "cx_core_tokens ?a = 4" by (simp add: assemble_context_def Let_def)
  have blocks: "cx_working_context_tokens ?a = 0"
    by (simp add: assemble_context_def Let_def example_request_def select_context_blocks_def)
  have "latest_user_index (ca_working_messages example_request) = 2" by code_simp
  then have latest: "ca_working_messages example_request ! latest_user_index (ca_working_messages example_request) = long_message"
    by (simp add: example_request_def)
  have sizes: "fixed_tokens long_message = 5" "80 < estimate_message_tokens long_message" "im_attachments long_message = []"
    by code_simp+
  have "(80 * 40 :: nat) \<le> u64_max" by (simp add: u64_max_def)
  with context_fits [of example_request 80] show ?thesis
    by (simp add: core blocks latest sizes Let_def) (simp add: example_request_def)
qed

theorem context_keeps_latest_witness:
  "\<exists>older m. cx_messages (assemble_context example_request) = older @ [m] \<and> im_role m = ''user'' \<and>
     subseq (older @ [long_message]) (ca_working_messages example_request)"
proof -
  have "latest_user_index (ca_working_messages example_request) = 2" by code_simp
  then have "ca_working_messages example_request ! latest_user_index (ca_working_messages example_request) = long_message"
    by (simp add: example_request_def)
  with context_keeps_latest [of example_request] show ?thesis
    unfolding Let_def by (fastforce simp: example_request_def long_message_def)
qed

end
