(* ===== verification/App_Control_Policy.thy ===== *)
theory App_Control_Policy
  imports Hash_Map Rust_Path Opaque_Ids
begin

text \<open>
  The vocabulary and the rules of app control (\<open>src-tauri/src/computer_use\<close>): the closed set of
  semantic actions (\<open>contracts.rs\<close>), which application may receive which action and what result
  may be claimed for it (\<open>policy.rs\<close>), the file scope of a session (\<open>policy.rs\<close>), the vault of
  references to screen elements (\<open>references.rs\<close>) and the check of results (\<open>verification.rs\<close>).

  A 64-bit float of a geometry is its bit pattern: nothing computes with it. The file system is an
  argument (\<open>fs_env\<close>), and so are the digests of serialized values (\<open>digests\<close>). An error is its
  code; the wording is kept only where it comes from the native driver.
\<close>

subsection \<open>Contracts\<close>

datatype app_control_error =
  DriverUnavailable | AccessibilityPermissionMissing | PermissionChanged | InvalidRequest
| SessionNotFound | TaskBindingMismatch | BrowserRouteRequired | ObservationOnlyApplication
| ApplicationNotAllowlisted | HiddenWindow | SecureField | AmbiguousTarget | StaleReference
| CrossApplicationReference | FileScopeViolation | Unauthorized | NotRunning
| PostconditionMismatch | UnexpectedNavigation | DriverFailure

fun error_debug :: "app_control_error \<Rightarrow> string" where
  "error_debug DriverUnavailable = ''DriverUnavailable''"
| "error_debug AccessibilityPermissionMissing = ''AccessibilityPermissionMissing''"
| "error_debug PermissionChanged = ''PermissionChanged''"
| "error_debug InvalidRequest = ''InvalidRequest''"
| "error_debug SessionNotFound = ''SessionNotFound''"
| "error_debug TaskBindingMismatch = ''TaskBindingMismatch''"
| "error_debug BrowserRouteRequired = ''BrowserRouteRequired''"
| "error_debug ObservationOnlyApplication = ''ObservationOnlyApplication''"
| "error_debug ApplicationNotAllowlisted = ''ApplicationNotAllowlisted''"
| "error_debug HiddenWindow = ''HiddenWindow''"
| "error_debug SecureField = ''SecureField''"
| "error_debug AmbiguousTarget = ''AmbiguousTarget''"
| "error_debug StaleReference = ''StaleReference''"
| "error_debug CrossApplicationReference = ''CrossApplicationReference''"
| "error_debug FileScopeViolation = ''FileScopeViolation''"
| "error_debug Unauthorized = ''Unauthorized''"
| "error_debug NotRunning = ''NotRunning''"
| "error_debug PostconditionMismatch = ''PostconditionMismatch''"
| "error_debug UnexpectedNavigation = ''UnexpectedNavigation''"
| "error_debug DriverFailure = ''DriverFailure''"

datatype app_control_state =
  Observing | Running | Paused | Takeover | ReturnPending | Stopped | Completed | SessionFailed

fun active :: "app_control_state \<Rightarrow> bool" where
  "active Observing = True"
| "active Running = True"
| "active Paused = True"
| "active Takeover = True"
| "active ReturnPending = True"
| "active _ = False"

datatype desktop_action_kind =
  KFocus | KPress | KSelect | KTypeText | KInvokeMenu | KScroll | KDragDrop | KChooseFile | KAppleEvent

datatype pause_reason =
  UserInput | SecureFieldPause | AmbiguousTargetPause | RepeatedMismatch | UnexpectedNavigationPause
| PermissionChangedPause | HiddenWindowPause | ApplicationChanged | DriverUnavailablePause

datatype qualified_app_icon =
  FinderIcon | PreviewIcon | MailIcon | CalendarIcon | NumbersIcon | KeynoteIcon | ExcelIcon
| PowerpointIcon | GenericIcon

datatype outcome_status = Verified | NoChangeStatus | FailedStatus | PausedStatus

datatype accessibility_permission = PermissionGranted | PermissionMissing

datatype menu_command = Save | SaveAs | Export | NewWindow | CloseWindow

datatype apple_event = ActivateApplication

datatype semantic_action =
  Focus string
| Press string
| Select string string
| TypeText string string
| InvokeMenu menu_command
| Scroll "string option" int
| DragDrop string string
| ChooseFile string string
| AppleEvent apple_event

fun kind :: "semantic_action \<Rightarrow> desktop_action_kind" where
  "kind (Focus _) = KFocus"
| "kind (Press _) = KPress"
| "kind (Select _ _) = KSelect"
| "kind (TypeText _ _) = KTypeText"
| "kind (InvokeMenu _) = KInvokeMenu"
| "kind (Scroll _ _) = KScroll"
| "kind (DragDrop _ _) = KDragDrop"
| "kind (ChooseFile _ _) = KChooseFile"
| "kind (AppleEvent _) = KAppleEvent"

fun references :: "semantic_action \<Rightarrow> string list" where
  "references (Focus r) = [r]"
| "references (Press r) = [r]"
| "references (Select r _) = [r]"
| "references (TypeText r _) = [r]"
| "references (ChooseFile r _) = [r]"
| "references (Scroll r _) = (case r of None \<Rightarrow> [] | Some x \<Rightarrow> [x])"
| "references (DragDrop s d) = [s, d]"
| "references (InvokeMenu _) = []"
| "references (AppleEvent _) = []"

fun will_change_data :: "semantic_action \<Rightarrow> bool" where
  "will_change_data (Focus _) = False"
| "will_change_data (Scroll _ _) = False"
| "will_change_data (AppleEvent ActivateApplication) = False"
| "will_change_data _ = True"

fun is_choose_file :: "semantic_action \<Rightarrow> bool" where
  "is_choose_file (ChooseFile _ _) = True"
| "is_choose_file _ = False"

datatype expected_outcome = NoChange | ElementValue | ElementState | WindowState | FileHash | ApplicationState

datatype observed_postcondition =
  ObsNoChange
| ObsElementValue string string
| ObsElementState string string
| ObsWindowState string string
| ObsFileHash string string
| ObsApplicationState string

fun postcondition_kind :: "observed_postcondition \<Rightarrow> expected_outcome" where
  "postcondition_kind ObsNoChange = NoChange"
| "postcondition_kind (ObsElementValue _ _) = ElementValue"
| "postcondition_kind (ObsElementState _ _) = ElementState"
| "postcondition_kind (ObsWindowState _ _) = WindowState"
| "postcondition_kind (ObsFileHash _ _) = FileHash"
| "postcondition_kind (ObsApplicationState _) = ApplicationState"

record element_geometry =
  geo_x :: "64 word"
  geo_y :: "64 word"
  geo_width :: "64 word"
  geo_height :: "64 word"

record application_observation =
  bundle_id :: string
  display_name :: string
  process_id :: nat

record window_observation =
  window_id :: string
  window_title :: string
  window_visible :: bool
  window_modal :: bool

record screenshot_receipt =
  shot_sha256 :: string
  shot_width :: nat
  shot_height :: nat
  redactions_applied :: bool

record observed_element =
  oe_element_key :: string
  oe_reference :: string
  oe_role :: string
  oe_label :: "string option"
  oe_value_digest :: "string option"
  oe_secure :: bool
  oe_visible :: bool
  oe_enabled :: bool
  oe_in_modal :: bool
  oe_supported_actions :: "desktop_action_kind list"
  oe_geometry :: "element_geometry option"
  oe_expires_at_ms :: int

record desktop_observation =
  ob_observation_id :: string
  ob_session_id :: string
  ob_project_id :: string
  ob_task_run_id :: string
  ob_revision :: nat
  ob_generation :: nat
  ob_observed_at_ms :: int
  ob_expires_at_ms :: int
  ob_permission :: accessibility_permission
  ob_application :: application_observation
  ob_window :: window_observation
  ob_focused_element :: "string option"
  ob_elements :: "observed_element list"
  ob_screenshot :: "screenshot_receipt option"
  ob_observation_hash :: string

subsection \<open>What the native driver sees and receives\<close>

record driver_element =
  de_element_key :: string
  de_role :: string
  de_label :: "string option"
  de_value_digest :: "string option"
  de_secure :: bool
  de_visible :: bool
  de_enabled :: bool
  de_in_modal :: bool
  de_supported_actions :: "desktop_action_kind list"
  de_geometry :: "element_geometry option"

record driver_observation =
  do_permission :: accessibility_permission
  do_application :: application_observation
  do_window :: window_observation
  do_focused_element_key :: "string option"
  do_elements :: "driver_element list"
  do_screenshot :: "screenshot_receipt option"

record driver_target =
  dt_element_key :: string
  dt_role :: string
  dt_secure :: bool
  dt_in_modal :: bool
  dt_geometry :: "element_geometry option"

record cancellation_token =
  tok_session_id :: string
  tok_expected :: nat
  tok_input_epoch :: "nat option"

record driver_action_request =
  da_session_id :: string
  da_project_id :: string
  da_task_run_id :: string
  da_application :: application_observation
  da_window :: window_observation
  da_action :: semantic_action
  da_expected_outcome :: expected_outcome
  da_targets :: "driver_target list"
  da_selected_file :: "string option"
  da_cancellation :: cancellation_token

record driver_action_result =
  dr_receipt_token :: string
  dr_postcondition :: observed_postcondition

subsection \<open>Which application receives which action\<close>

definition BROWSER_BUNDLES :: "string list" where
  "BROWSER_BUNDLES = [''com.apple.Safari'', ''com.google.Chrome'', ''com.microsoft.edgemac'',
     ''org.mozilla.firefox'', ''com.brave.Browser'']"

datatype application_qualification = Qualified | ObservationOnly | Browser

record app_profile =
  qualification :: application_qualification
  profile_name :: string
  profile_icon :: qualified_app_icon
  allowed_actions :: "desktop_action_kind list"

definition qualified_apps :: "(string \<times> string \<times> qualified_app_icon \<times> desktop_action_kind list) list" where
  "qualified_apps =
     [(''com.apple.finder'', ''Finder'', FinderIcon,
        [KFocus, KPress, KSelect, KInvokeMenu, KScroll, KDragDrop, KAppleEvent]),
      (''com.apple.Preview'', ''Preview'', PreviewIcon,
        [KFocus, KPress, KSelect, KInvokeMenu, KScroll, KChooseFile, KAppleEvent]),
      (''com.apple.mail'', ''Mail'', MailIcon,
        [KFocus, KPress, KSelect, KTypeText, KInvokeMenu, KScroll, KAppleEvent]),
      (''com.apple.iCal'', ''Calendar'', CalendarIcon,
        [KFocus, KPress, KSelect, KTypeText, KInvokeMenu, KScroll, KAppleEvent]),
      (''com.apple.Numbers'', ''Numbers'', NumbersIcon,
        [KFocus, KPress, KSelect, KTypeText, KInvokeMenu, KScroll, KChooseFile, KAppleEvent]),
      (''com.apple.Keynote'', ''Keynote'', KeynoteIcon,
        [KFocus, KPress, KSelect, KTypeText, KInvokeMenu, KScroll, KChooseFile, KAppleEvent]),
      (''com.microsoft.Excel'', ''Excel'', ExcelIcon,
        [KFocus, KPress, KSelect, KTypeText, KInvokeMenu, KScroll, KChooseFile, KAppleEvent]),
      (''com.microsoft.Powerpoint'', ''PowerPoint'', PowerpointIcon,
        [KFocus, KPress, KSelect, KTypeText, KInvokeMenu, KScroll, KChooseFile, KAppleEvent])]"

definition app_profile_of :: "string \<Rightarrow> string \<Rightarrow> app_profile" where
  "app_profile_of bundle reported =
     (if bundle \<in> set BROWSER_BUNDLES then
        \<lparr>qualification = Browser, profile_name = reported, profile_icon = GenericIcon, allowed_actions = []\<rparr>
      else case map_of qualified_apps bundle of
        None \<Rightarrow> \<lparr>qualification = ObservationOnly, profile_name = chars_take 120 reported,
          profile_icon = GenericIcon, allowed_actions = []\<rparr>
      | Some (name, icon, allowed) \<Rightarrow> \<lparr>qualification = Qualified, profile_name = name,
          profile_icon = icon, allowed_actions = allowed\<rparr>)"

definition validate_typed_adapter :: "string \<Rightarrow> semantic_action \<Rightarrow> app_control_error + unit" where
  "validate_typed_adapter bundle action =
     (let profile = app_profile_of bundle bundle in
      and_then (ensure (\<not> (qualification profile = Browser)) BrowserRouteRequired) (\<lambda>_.
      and_then (ensure (\<not> (qualification profile \<noteq> Qualified)) ObservationOnlyApplication) (\<lambda>_.
      and_then (ensure (kind action \<in> set (allowed_actions profile)) InvalidRequest) (\<lambda>_.
      and_then (ensure (\<not> (action = InvokeMenu Export)) InvalidRequest) (\<lambda>_.
      and_then (ensure (\<not> (kind action = KDragDrop \<and> bundle \<noteq> ''com.apple.finder'')) InvalidRequest) (\<lambda>_.
      and_then (ensure (\<not> (kind action = KChooseFile \<and>
        bundle \<notin> {''com.apple.Preview'', ''com.apple.Numbers'', ''com.apple.Keynote'',
          ''com.microsoft.Excel'', ''com.microsoft.Powerpoint''})) InvalidRequest) (\<lambda>_.
      ensure (\<not> (case action of AppleEvent command \<Rightarrow> command \<noteq> ActivateApplication | _ \<Rightarrow> False)) InvalidRequest))))))) "

fun outcome_qualified :: "semantic_action \<Rightarrow> expected_outcome \<Rightarrow> bool" where
  "outcome_qualified (Focus _) e = (e = ElementState)"
| "outcome_qualified (Select _ _) e = (e = ElementValue)"
| "outcome_qualified (TypeText _ _) e = (e = ElementValue)"
| "outcome_qualified (Press _) e = (e \<in> {ElementState, WindowState, ApplicationState})"
| "outcome_qualified (InvokeMenu _) e = (e \<in> {WindowState, ApplicationState})"
| "outcome_qualified (Scroll _ _) e = (e = ApplicationState)"
| "outcome_qualified (DragDrop _ _) e = (e = ApplicationState)"
| "outcome_qualified (ChooseFile _ _) e = (e = WindowState)"
| "outcome_qualified (AppleEvent _) e = (e = ApplicationState)"

definition validate_expected_outcome :: "semantic_action \<Rightarrow> expected_outcome \<Rightarrow> app_control_error + unit" where
  "validate_expected_outcome action expected = ensure (outcome_qualified action expected) InvalidRequest"

definition valid_bundle_id :: "string \<Rightarrow> bool" where
  "valid_bundle_id v = (v \<noteq> [] \<and> length v \<le> 255 \<and> is_ascii_str v \<and> length (split_char CHR ''.'' v) \<ge> 2 \<and>
     list_all (\<lambda>b. is_ascii_alphanumeric b \<or> b \<in> set ''.-_'') v)"

subsection \<open>The file scope of a session\<close>

record fs_env =
  fs_canonicalize :: "string \<Rightarrow> string option"
  fs_is_dir :: "string \<Rightarrow> bool"
  fs_is_file :: "string \<Rightarrow> bool"
  fs_hash_file :: "string \<Rightarrow> string option"

text \<open>\<open>Path::parent\<close> and \<open>Path::file_name\<close>, on components.\<close>

definition parent_components :: "path_component list \<Rightarrow> path_component list option" where
  "parent_components cs = (if cs = [] \<or> last cs = RootDir then None else Some (butlast cs))"

definition path_file_name :: "string \<Rightarrow> string option" where
  "path_file_name p = (case rev (path_components p) of Normal n # _ \<Rightarrow> Some n | _ \<Rightarrow> None)"

record scoped_file_roots =
  roots :: "string list"
  granted_files :: "(string, string) hash_map"

fun collect_roots :: "fs_env \<Rightarrow> string list \<Rightarrow> string list \<Rightarrow> app_control_error + string list" where
  "collect_roots fs acc [] = Ok acc"
| "collect_roots fs acc (root # rest) =
     and_then (ok_or (fs_canonicalize fs root) FileScopeViolation) (\<lambda>path.
     and_then (ensure (\<not> (\<not> fs_is_dir fs path \<or> parent_components (path_components path) = None))
       FileScopeViolation) (\<lambda>_.
     collect_roots fs (if path \<notin> set acc then acc @ [path] else acc) rest))"

definition new_file_roots :: "fs_env \<Rightarrow> string list \<Rightarrow> app_control_error + scoped_file_roots" where
  "new_file_roots fs rs =
     and_then (ensure (\<not> length rs > 16) FileScopeViolation) (\<lambda>_.
     and_then (collect_roots fs [] rs) (\<lambda>canonical. Ok \<lparr>roots = canonical, granted_files = []\<rparr>))"

definition valid_file_grant_id :: "string \<Rightarrow> bool" where
  "valid_file_grant_id v = (case strip_prefix ''appfile_'' v of
     None \<Rightarrow> False | Some digits \<Rightarrow> length digits = 48 \<and> list_all is_lower_hex digits)"

definition add_granted_file ::
  "fs_env \<Rightarrow> string \<Rightarrow> string \<Rightarrow> scoped_file_roots \<Rightarrow> app_control_error + scoped_file_roots" where
  "add_granted_file fs grant_id selected fr =
     and_then (ensure (\<not> (length (granted_files fr) \<ge> 16 \<or> \<not> valid_file_grant_id grant_id)) FileScopeViolation) (\<lambda>_.
     and_then (ok_or (fs_canonicalize fs selected) FileScopeViolation) (\<lambda>canonical.
     and_then (ensure (fs_is_file fs canonical) FileScopeViolation) (\<lambda>_.
     and_then (ensure (case parent_components (path_components canonical) of
         None \<Rightarrow> False | Some p \<Rightarrow> parent_components p \<noteq> None) FileScopeViolation) (\<lambda>_.
     Ok (fr\<lparr>granted_files := hm_insert grant_id canonical (granted_files fr)\<rparr>)))))"

definition canonical_granted_file ::
  "fs_env \<Rightarrow> string \<Rightarrow> scoped_file_roots \<Rightarrow> app_control_error + string" where
  "canonical_granted_file fs grant_id fr =
     and_then (ok_or (hm_get (granted_files fr) grant_id) FileScopeViolation) (\<lambda>selected.
     and_then (ok_or (fs_canonicalize fs selected) FileScopeViolation) (\<lambda>canonical.
     if canonical = selected \<and> fs_is_file fs canonical then Ok canonical else Err FileScopeViolation))"

definition canonical_file :: "fs_env \<Rightarrow> string \<Rightarrow> scoped_file_roots \<Rightarrow> app_control_error + string" where
  "canonical_file fs path fr =
     and_then (ok_or (fs_canonicalize fs path) FileScopeViolation) (\<lambda>canonical.
     if list_ex (\<lambda>root. path_starts_with canonical root) (roots fr) \<and> fs_is_file fs canonical
     then Ok canonical else Err FileScopeViolation)"

definition granted_file_name :: "string \<Rightarrow> scoped_file_roots \<Rightarrow> string option" where
  "granted_file_name grant_id fr =
     Option.bind (hm_get (granted_files fr) grant_id) (\<lambda>path. map_option (chars_take 120) (path_file_name path))"

subsection \<open>The reference vault\<close>

record reference_context =
  rx_session_id :: string
  rx_project_id :: string
  rx_task_run_id :: string
  rx_bundle_id :: string
  rx_process_id :: nat
  rx_window_id :: string
  rx_revision :: nat
  rx_generation :: nat
  rx_now_ms :: int

record reference_binding =
  rb_session_id :: string
  rb_project_id :: string
  rb_task_run_id :: string
  rb_bundle_id :: string
  rb_process_id :: nat
  rb_window_id :: string
  rb_revision :: nat
  rb_generation :: nat
  rb_expires_at_ms :: int
  rb_target :: driver_target
  rb_visible :: bool
  rb_enabled :: bool
  rb_in_modal :: bool
  rb_supported_actions :: "desktop_action_kind list"

type_synonym reference_vault = "(string, reference_binding) hash_map"

definition invalidate_session :: "string \<Rightarrow> reference_vault \<Rightarrow> reference_vault" where
  "invalidate_session sid vault = hm_retain (\<lambda>_ b. rb_session_id b \<noteq> sid) vault"

definition issue ::
  "string \<Rightarrow> reference_context \<Rightarrow> driver_element \<Rightarrow> int \<Rightarrow> reference_vault \<Rightarrow>
   observed_element \<times> reference_vault" where
  "issue reference cx element expires_at vault =
     (let target = \<lparr>dt_element_key = de_element_key element, dt_role = de_role element,
            dt_secure = de_secure element, dt_in_modal = de_in_modal element,
            dt_geometry = de_geometry element\<rparr>;
          binding = \<lparr>rb_session_id = rx_session_id cx, rb_project_id = rx_project_id cx,
            rb_task_run_id = rx_task_run_id cx, rb_bundle_id = rx_bundle_id cx,
            rb_process_id = rx_process_id cx, rb_window_id = rx_window_id cx,
            rb_revision = rx_revision cx, rb_generation = rx_generation cx,
            rb_expires_at_ms = expires_at, rb_target = target, rb_visible = de_visible element,
            rb_enabled = de_enabled element, rb_in_modal = de_in_modal element,
            rb_supported_actions = de_supported_actions element\<rparr> in
      (\<lparr>oe_element_key = de_element_key element, oe_reference = reference, oe_role = de_role element,
        oe_label = map_option (chars_take 240) (de_label element),
        oe_value_digest = (if \<not> de_secure element then de_value_digest element else None),
        oe_secure = de_secure element, oe_visible = de_visible element,
        oe_enabled = de_enabled element, oe_in_modal = de_in_modal element,
        oe_supported_actions = de_supported_actions element, oe_geometry = de_geometry element,
        oe_expires_at_ms = expires_at\<rparr>,
       hm_insert reference binding vault))"

definition resolve ::
  "string \<Rightarrow> desktop_action_kind \<Rightarrow> bool \<Rightarrow> reference_context \<Rightarrow> reference_vault \<Rightarrow>
   app_control_error + driver_target" where
  "resolve reference action modal cx vault =
     and_then (ok_or (hm_get vault reference) StaleReference) (\<lambda>b.
     and_then (ensure (\<not> (rb_bundle_id b \<noteq> rx_bundle_id cx \<or> rb_process_id b \<noteq> rx_process_id cx \<or>
       rb_window_id b \<noteq> rx_window_id cx)) CrossApplicationReference) (\<lambda>_.
     and_then (ensure (\<not> (rb_session_id b \<noteq> rx_session_id cx \<or> rb_project_id b \<noteq> rx_project_id cx \<or>
       rb_task_run_id b \<noteq> rx_task_run_id cx)) TaskBindingMismatch) (\<lambda>_.
     and_then (ensure (\<not> (rb_revision b \<noteq> rx_revision cx \<or> rb_generation b \<noteq> rx_generation cx \<or>
       rb_expires_at_ms b < rx_now_ms cx)) StaleReference) (\<lambda>_.
     and_then (ensure (\<not> dt_secure (rb_target b)) SecureField) (\<lambda>_.
     and_then (ensure (\<not> (\<not> rb_visible b \<or> \<not> rb_enabled b)) AmbiguousTarget) (\<lambda>_.
     and_then (ensure (\<not> (modal \<and> \<not> rb_in_modal b)) AmbiguousTarget) (\<lambda>_.
     and_then (ensure (action \<in> set (rb_supported_actions b)) AmbiguousTarget) (\<lambda>_.
     and_then (ensure (\<not> (action = KDragDrop \<and> dt_geometry (rb_target b) = None)) AmbiguousTarget) (\<lambda>_.
     Ok (rb_target b))))))))))"

subsection \<open>Checking results\<close>

text \<open>What \<open>semantic_observation_hash\<close> serializes: the observation without its fresh identifiers.\<close>

record semantic_element =
  se_key :: string
  se_role :: string
  se_label :: "string option"
  se_value_digest :: "string option"
  se_secure :: bool
  se_visible :: bool
  se_enabled :: bool
  se_in_modal :: bool
  se_supported_actions :: "desktop_action_kind list"
  se_geometry :: "element_geometry option"

record semantic_view =
  sv_application :: application_observation
  sv_window :: window_observation
  sv_focused_key :: "string option"
  sv_elements :: "semantic_element list"
  sv_screenshot :: "screenshot_receipt option"

record digests =
  hash_observation :: "desktop_observation \<Rightarrow> app_control_error + string"
  hash_view :: "semantic_view \<Rightarrow> app_control_error + string"
  hash_action_binding :: "semantic_action \<Rightarrow> string option \<Rightarrow> app_control_error + string"
  hash_postcondition :: "observed_postcondition \<Rightarrow> app_control_error + string"
  hash_bytes :: "string \<Rightarrow> string"

definition semantic_view_of :: "desktop_observation \<Rightarrow> semantic_view" where
  "semantic_view_of ob =
     \<lparr>sv_application = ob_application ob, sv_window = ob_window ob,
      sv_focused_key = Option.bind (ob_focused_element ob) (\<lambda>reference.
        map_option oe_element_key (find (\<lambda>e. oe_reference e = reference) (ob_elements ob))),
      sv_elements = map (\<lambda>e. \<lparr>se_key = oe_element_key e, se_role = oe_role e, se_label = oe_label e,
        se_value_digest = oe_value_digest e, se_secure = oe_secure e, se_visible = oe_visible e,
        se_enabled = oe_enabled e, se_in_modal = oe_in_modal e,
        se_supported_actions = oe_supported_actions e, se_geometry = oe_geometry e\<rparr>) (ob_elements ob),
      sv_screenshot = ob_screenshot ob\<rparr>"

definition semantic_observation_hash :: "digests \<Rightarrow> desktop_observation \<Rightarrow> app_control_error + string" where
  "semantic_observation_hash dg ob = hash_view dg (semantic_view_of ob)"

definition valid_sha256 :: "string \<Rightarrow> bool" where
  "valid_sha256 v = (length v = 64 \<and> list_all is_lower_hex v)"

definition MAX_ACTION_TEXT_CHARS :: nat where
  "MAX_ACTION_TEXT_CHARS = 32767"

definition valid_ref :: "string \<Rightarrow> bool" where
  "valid_ref v = (starts_with v ''appref_'' \<and> length v \<le> 128 \<and> is_ascii_str v)"

definition normalize_action ::
  "fs_env \<Rightarrow> semantic_action \<Rightarrow> scoped_file_roots \<Rightarrow> app_control_error + semantic_action" where
  "normalize_action fs action fr =
     and_then (ensure (\<not> list_ex (\<lambda>v. \<not> valid_ref v) (references action)) StaleReference) (\<lambda>_.
     case action of
       Select _ v \<Rightarrow>
         and_then (ensure (\<not> (v = [] \<or> chars_count v > MAX_ACTION_TEXT_CHARS)) InvalidRequest) (\<lambda>_. Ok action)
     | TypeText _ t \<Rightarrow>
         and_then (ensure (\<not> chars_count t > MAX_ACTION_TEXT_CHARS) InvalidRequest) (\<lambda>_. Ok action)
     | Scroll _ amount \<Rightarrow>
         and_then (ensure (\<not> (amount = 0 \<or> \<bar>amount\<bar> > 4000)) InvalidRequest) (\<lambda>_. Ok action)
     | ChooseFile _ grant_id \<Rightarrow>
         and_then (canonical_granted_file fs grant_id fr) (\<lambda>_. Ok action)
     | _ \<Rightarrow> Ok action)"

definition resolved_file_for_action ::
  "fs_env \<Rightarrow> semantic_action \<Rightarrow> scoped_file_roots \<Rightarrow> app_control_error + string option" where
  "resolved_file_for_action fs action fr =
     (case action of
        ChooseFile _ grant_id \<Rightarrow> and_then (canonical_granted_file fs grant_id fr) (\<lambda>p. Ok (Some p))
      | _ \<Rightarrow> Ok None)"

definition require_target_key :: "driver_target list \<Rightarrow> string \<Rightarrow> app_control_error + unit" where
  "require_target_key targets key = ensure (list_ex (\<lambda>t. dt_element_key t = key) targets) PostconditionMismatch"

definition element_of :: "desktop_observation \<Rightarrow> string \<Rightarrow> observed_element option" where
  "element_of ob key = find (\<lambda>e. oe_element_key e = key) (ob_elements ob)"

definition hashes_differ ::
  "digests \<Rightarrow> desktop_observation \<Rightarrow> desktop_observation \<Rightarrow> app_control_error + bool" where
  "hashes_differ dg before after =
     and_then (semantic_observation_hash dg before) (\<lambda>b.
     and_then (semantic_observation_hash dg after) (\<lambda>a. Ok (b \<noteq> a)))"

definition application_state_verified ::
  "digests \<Rightarrow> semantic_action \<Rightarrow> string \<Rightarrow> desktop_observation \<Rightarrow> desktop_observation \<Rightarrow>
   app_control_error + bool" where
  "application_state_verified dg action state before after =
     (case action of
        DragDrop _ _ \<Rightarrow>
          if state = ''finder_items_changed'' \<and> bundle_id (ob_application before) = ''com.apple.finder''
          then hashes_differ dg before after else Ok False
      | AppleEvent _ \<Rightarrow>
          Ok (state = ''application_activated'' \<and>
            bundle_id (ob_application before) = bundle_id (ob_application after) \<and>
            process_id (ob_application before) = process_id (ob_application after) \<and>
            window_visible (ob_window after))
      | _ \<Rightarrow>
          if state = ''accessibility_state_changed'' then hashes_differ dg before after else Ok False)"

definition verify_postcondition ::
  "fs_env \<Rightarrow> digests \<Rightarrow> observed_postcondition \<Rightarrow> expected_outcome \<Rightarrow> semantic_action \<Rightarrow> driver_target list \<Rightarrow>
   desktop_observation \<Rightarrow> desktop_observation \<Rightarrow> scoped_file_roots \<Rightarrow>
   app_control_error + (string \<times> string) list" where
  "verify_postcondition fs dg post expected action targets before after fr =
     and_then (ensure (\<not> postcondition_kind post \<noteq> expected) PostconditionMismatch) (\<lambda>_.
     case post of
       ObsNoChange \<Rightarrow>
         and_then (hashes_differ dg before after) (\<lambda>d.
         and_then (ensure (\<not> d) PostconditionMismatch) (\<lambda>_. Ok []))
     | ObsElementValue key value_sha256 \<Rightarrow>
         and_then (require_target_key targets key) (\<lambda>_.
         and_then (ensure (\<not> (\<not> valid_sha256 value_sha256 \<or>
           Option.bind (element_of after key) oe_value_digest \<noteq> Some value_sha256)) PostconditionMismatch)
           (\<lambda>_. Ok []))
     | ObsElementState key state \<Rightarrow>
         and_then (require_target_key targets key) (\<lambda>_.
         and_then (ok_or (element_of after key) PostconditionMismatch) (\<lambda>after_element.
         and_then (ensure
           (if state = ''focused'' then ob_focused_element after = Some (oe_reference after_element)
            else if state = ''value_changed'' then
              Option.bind (element_of before key) oe_value_digest \<noteq> oe_value_digest after_element
            else False) PostconditionMismatch) (\<lambda>_. Ok [])))
     | ObsWindowState wid state \<Rightarrow>
         (let valid_state = (if is_choose_file action
            then state = ''file_selection_completed'' \<and> window_modal (ob_window before) \<and>
              \<not> window_modal (ob_window after)
            else state = ''focused_window_changed'') in
          and_then (ensure (\<not> (wid \<noteq> window_id (ob_window after) \<or> \<not> valid_state \<or>
            window_id (ob_window before) = window_id (ob_window after))) PostconditionMismatch) (\<lambda>_. Ok []))
     | ObsFileHash path sha256 \<Rightarrow>
         and_then (canonical_file fs path fr) (\<lambda>path'.
         and_then (ok_or (fs_hash_file fs path') PostconditionMismatch) (\<lambda>actual.
         and_then (ensure (\<not> (\<not> valid_sha256 sha256 \<or> actual \<noteq> sha256)) PostconditionMismatch) (\<lambda>_.
         Ok [(path', actual)])))
     | ObsApplicationState state \<Rightarrow>
         and_then (application_state_verified dg action state before after) (\<lambda>verified.
         and_then (ensure verified PostconditionMismatch) (\<lambda>_. Ok [])))"

subsection \<open>Facts\<close>

lemma resolve_reference_Ok:
  "resolve reference action modal cx vault = Ok t \<longleftrightarrow>
     (\<exists>b. hm_get vault reference = Some b \<and> t = rb_target b \<and>
        rb_bundle_id b = rx_bundle_id cx \<and> rb_process_id b = rx_process_id cx \<and> rb_window_id b = rx_window_id cx \<and>
        rb_session_id b = rx_session_id cx \<and> rb_project_id b = rx_project_id cx \<and>
        rb_task_run_id b = rx_task_run_id cx \<and> rb_revision b = rx_revision cx \<and>
        rb_generation b = rx_generation cx \<and> rx_now_ms cx \<le> rb_expires_at_ms b \<and>
        \<not> dt_secure (rb_target b) \<and> rb_visible b \<and> rb_enabled b \<and> (modal \<longrightarrow> rb_in_modal b) \<and>
        action \<in> set (rb_supported_actions b) \<and> (action = KDragDrop \<longrightarrow> dt_geometry (rb_target b) \<noteq> None))"
  unfolding resolve_def result_simps by (auto simp: not_less)

lemma adapter_Ok:
  "validate_typed_adapter bundle action = Ok u \<longleftrightarrow>
     bundle \<notin> set BROWSER_BUNDLES \<and>
     (\<exists>name icon allowed. map_of qualified_apps bundle = Some (name, icon, allowed) \<and> kind action \<in> set allowed) \<and>
     action \<noteq> InvokeMenu Export \<and> (kind action = KDragDrop \<longrightarrow> bundle = ''com.apple.finder'') \<and>
     (kind action = KChooseFile \<longrightarrow> bundle \<in> {''com.apple.Preview'', ''com.apple.Numbers'',
        ''com.apple.Keynote'', ''com.microsoft.Excel'', ''com.microsoft.Powerpoint''})"
proof -
  have ae: "(case action of AppleEvent command \<Rightarrow> command \<noteq> ActivateApplication | _ \<Rightarrow> False) = False"
    by (cases action) (auto intro: apple_event.exhaust)
  show ?thesis
    unfolding validate_typed_adapter_def Let_def result_simps ae app_profile_of_def
    by (auto split: option.splits)
qed

lemma normalize_action_Ok: "normalize_action fs action fr = Ok a \<Longrightarrow> a = action"
  by (cases action) (auto simp: normalize_action_def result_simps)

end
