(* ===== verification/App_Control.thy ===== *)
theory App_Control
  imports App_Control_Policy Approval_Scopes
begin

text \<open>
  The manager of app control sessions (\<open>src-tauri/src/computer_use\<close>: \<open>manager.rs\<close>, \<open>session.rs\<close>,
  \<open>state.rs\<close>, \<open>observation.rs\<close>, \<open>execution.rs\<close>, the authority of \<open>policy.rs\<close>).

  The manager's state is behind a mutex that an operation takes and releases several times; each
  stretch under the mutex is one function here, from the state to a result and the state after it
  (an error may leave a changed state). \<open>observe\<close> and \<open>execute\<close> are the stretches
  \<open>observe_begin\<close>, \<open>observe_finish\<close> and \<open>execute_prepare\<close>, \<open>execute_dispatch\<close>, \<open>execute_check\<close>,
  \<open>execute_finish\<close>. What a stretch takes from outside is its \<open>app_env\<close>: the readings of the
  clock, the physical input monitor, the file system, the digests, the task store. Fresh random
  identifiers are arguments. A poisoned mutex is not modelled: nothing panics while it is held.
\<close>

subsection \<open>State\<close>

definition TERMINAL_STATUS_GRACE_MS :: int where
  "TERMINAL_STATUS_GRACE_MS = 15000"

definition FILE_GRANT_TTL_MS :: int where
  "FILE_GRANT_TTL_MS = 10 * 60 * 1000"

definition REFERENCE_TTL_MS :: int where
  "REFERENCE_TTL_MS = 15000"

definition MAX_OBSERVED_ELEMENTS :: nat where
  "MAX_OBSERVED_ELEMENTS = 2000"

record pending_file_grant =
  pg_project_id :: string
  pg_task_run_id :: string
  pg_canonical_file :: string
  pg_expires_at_ms :: int

record action_view =
  av_kind :: desktop_action_kind
  av_target_label :: "string option"
  av_will_change_data :: bool

record outcome_view =
  ov_status :: outcome_status
  ov_action_kind :: desktop_action_kind
  ov_receipt_id :: string
  ov_recorded_at_ms :: int
  ov_details_available :: bool

record outcome_receipt =
  or_receipt_id :: string
  or_session_id :: string
  or_project_id :: string
  or_task_run_id :: string
  or_action_kind :: desktop_action_kind
  or_authority_decision_id :: string
  or_before_observation_id :: string
  or_before_observation_hash :: string
  or_after_observation_id :: string
  or_after_observation_hash :: string
  or_action_arguments_hash :: string
  or_driver_receipt_hash :: string
  or_postcondition_hash :: string
  or_file_hashes :: "(string \<times> string) list"
  or_status :: outcome_status
  or_recorded_at_ms :: int

record session_record =
  s_session_id :: string
  s_project_id :: string
  s_task_run_id :: string
  s_approved_bundle_ids :: "string list"
  s_file_roots :: scoped_file_roots
  s_state :: app_control_state
  s_generation :: nat
  s_revision :: nat
  s_current_action :: "action_view option"
  s_pause_reason :: "pause_reason option"
  s_last_outcome :: "outcome_view option"
  s_last_observation :: "desktop_observation option"
  s_updated_at_ms :: int
  s_cancellation_epoch :: nat
  s_mismatch_count :: nat

record manager_state =
  m_sessions :: "(string, session_record) hash_map"
  m_references :: reference_vault
  m_receipts :: "(string, outcome_receipt) hash_map"
  m_active_session_id :: "string option"
  m_pending_file_grants :: "(string, pending_file_grant) hash_map"
  m_acknowledged_input_epoch :: nat

record app_env =
  e_clock :: "nat \<Rightarrow> int"
  e_ready :: "bool option"
  e_epoch :: "nat option"
  e_fs :: fs_env
  e_digests :: digests
  e_task_bound :: "(string \<Rightarrow> string \<Rightarrow> bool) option"
  e_record_ok :: bool

type_synonym 'a stretch = "(app_control_error + 'a) \<times> manager_state"

definition manager_default :: manager_state where
  "manager_default = \<lparr>m_sessions = [], m_references = [], m_receipts = [], m_active_session_id = None,
     m_pending_file_grants = [], m_acknowledged_input_epoch = 0\<rparr>"

definition sat_u64_suc :: "nat \<Rightarrow> nat" where
  "sat_u64_suc n = min u64_max (n + 1)"

definition put_session :: "string \<Rightarrow> session_record \<Rightarrow> manager_state \<Rightarrow> manager_state" where
  "put_session sid s st = st\<lparr>m_sessions := hm_insert sid s (m_sessions st)\<rparr>"

subsection \<open>Pausing and invalidating\<close>

definition invalidated :: "int \<Rightarrow> session_record \<Rightarrow> session_record" where
  "invalidated now s = s\<lparr>s_generation := sat_u64_suc (s_generation s),
     s_cancellation_epoch := (s_cancellation_epoch s + 1) mod 2 ^ 64,
     s_current_action := None, s_updated_at_ms := now\<rparr>"

definition invalidate_generation ::
  "session_record \<Rightarrow> reference_vault \<Rightarrow> int \<Rightarrow> session_record \<times> reference_vault" where
  "invalidate_generation s vault now = (invalidated now s, invalidate_session (s_session_id s) vault)"

definition paused :: "int \<Rightarrow> pause_reason \<Rightarrow> session_record \<Rightarrow> session_record" where
  "paused now reason s = (invalidated now s)\<lparr>s_state := Paused, s_pause_reason := Some reason\<rparr>"

definition pause_session ::
  "session_record \<Rightarrow> reference_vault \<Rightarrow> int \<Rightarrow> pause_reason \<Rightarrow> session_record \<times> reference_vault" where
  "pause_session s vault now reason =
     (let (s', vault') = invalidate_generation s vault now in
      (s'\<lparr>s_state := Paused, s_pause_reason := Some reason\<rparr>, vault'))"

lemma pause_session_eq:
  "pause_session s vault now reason = (paused now reason s, invalidate_session (s_session_id s) vault)"
  by (simp add: pause_session_def invalidate_generation_def paused_def)

text \<open>\<open>for session in sessions.values_mut().filter(P)\<close>, with the references of each one dropped.\<close>

definition for_sessions ::
  "(session_record \<Rightarrow> bool) \<Rightarrow> (session_record \<Rightarrow> session_record) \<Rightarrow> manager_state \<Rightarrow> manager_state" where
  "for_sessions P f st = st\<lparr>m_sessions := hm_values_mut (\<lambda>s. if P s then f s else s) (m_sessions st),
     m_references := hm_retain (\<lambda>_ b. \<not> list_ex (\<lambda>(_, s). P s \<and> s_session_id s = rb_session_id b) (m_sessions st))
       (m_references st)\<rparr>"

definition monitor_pause :: "session_record \<Rightarrow> bool" where
  "monitor_pause s = (s_state s = Paused \<and> s_pause_reason s = Some DriverUnavailablePause)"

definition lock_ready :: "app_env \<Rightarrow> manager_state \<Rightarrow> manager_state" where
  "lock_ready env st =
     (case e_ready env of
        None \<Rightarrow> st
      | Some ready \<Rightarrow>
          if \<not> ready then
            for_sessions (\<lambda>s. active (s_state s) \<and> \<not> monitor_pause s)
              (paused (e_clock env 0) DriverUnavailablePause) st
          else
            for_sessions monitor_pause
              (\<lambda>s. (invalidated (e_clock env 0) s)\<lparr>s_state := ReturnPending, s_pause_reason := None\<rparr>) st)"

definition lock_epoch :: "app_env \<Rightarrow> manager_state \<Rightarrow> manager_state" where
  "lock_epoch env st =
     (case e_epoch env of
        None \<Rightarrow> st
      | Some current \<Rightarrow>
          (let st' = st\<lparr>m_acknowledged_input_epoch := current\<rparr> in
           if current \<noteq> m_acknowledged_input_epoch st then
             for_sessions (\<lambda>s. active (s_state s) \<and> s_state s \<noteq> Takeover)
               (paused (e_clock env 1) UserInput) st'
           else st'))"

definition lock :: "app_env \<Rightarrow> manager_state \<Rightarrow> manager_state" where
  "lock env st = lock_epoch env (lock_ready env st)"

definition require_task :: "session_record \<Rightarrow> string \<Rightarrow> app_control_error + unit" where
  "require_task s task = ensure (s_task_run_id s = task) TaskBindingMismatch"

text \<open>\<open>sessions.get(id).ok_or_else(session_not_found)?\<close> and \<open>require_task\<close>, as most stretches begin.\<close>

definition session_for :: "string \<Rightarrow> string \<Rightarrow> manager_state \<Rightarrow> app_control_error + session_record" where
  "session_for sid task st =
     and_then (ok_or (hm_get (m_sessions st) sid) SessionNotFound) (\<lambda>s.
     and_then (require_task s task) (\<lambda>_. Ok s))"

definition ensure_generation ::
  "manager_state \<Rightarrow> string \<Rightarrow> string \<Rightarrow> nat \<Rightarrow> nat option \<Rightarrow> app_control_error + unit" where
  "ensure_generation st sid task generation revision =
     and_then (session_for sid task st) (\<lambda>s.
     ensure (\<not> (s_generation s \<noteq> generation \<or>
       (case revision of None \<Rightarrow> False | Some r \<Rightarrow> s_revision s \<noteq> r))) StaleReference)"

definition in_session ::
  "string \<Rightarrow> string \<Rightarrow> (session_record \<Rightarrow> 'a stretch) \<Rightarrow> manager_state \<Rightarrow> 'a stretch" where
  "in_session sid task f st = (case session_for sid task st of Inl e \<Rightarrow> (Err e, st) | Inr s \<Rightarrow> f s)"

subsection \<open>Views\<close>

record session_view =
  vw_session_id :: string
  vw_task_run_id :: string
  vw_project_id :: string
  vw_state :: app_control_state
  vw_application :: "(string \<times> qualified_app_icon) option"
  vw_current_action :: "action_view option"
  vw_pause_reason :: "pause_reason option"
  vw_can_pause :: bool
  vw_can_take_control :: bool
  vw_can_return_to_oomu :: bool
  vw_observation_generation :: nat
  vw_last_outcome :: "outcome_view option"
  vw_updated_at_ms :: int

definition session_view_of :: "session_record \<Rightarrow> session_view" where
  "session_view_of s =
     \<lparr>vw_session_id = s_session_id s, vw_task_run_id = s_task_run_id s, vw_project_id = s_project_id s,
      vw_state = s_state s,
      vw_application = map_option (\<lambda>ob.
        let profile = app_profile_of (bundle_id (ob_application ob)) (display_name (ob_application ob)) in
        (profile_name profile, profile_icon profile)) (s_last_observation s),
      vw_current_action = s_current_action s, vw_pause_reason = s_pause_reason s,
      vw_can_pause = (s_state s \<in> {Observing, Running, ReturnPending}),
      vw_can_take_control = (s_state s \<in> {Observing, Running, Paused}),
      vw_can_return_to_oomu = (s_state s \<in> {Takeover, Paused}),
      vw_observation_generation = s_generation s, vw_last_outcome = s_last_outcome s,
      vw_updated_at_ms = s_updated_at_ms s\<rparr>"

subsection \<open>Grants of files, starting, status\<close>

definition parse_request_id :: "id_kind \<Rightarrow> string \<Rightarrow> app_control_error + string" where
  "parse_request_id k v = (case parse_id k v of Inl _ \<Rightarrow> Err InvalidRequest | Inr x \<Rightarrow> Ok x)"

definition require_bound_task :: "app_env \<Rightarrow> string \<Rightarrow> string \<Rightarrow> app_control_error + unit" where
  "require_bound_task env task project =
     (case e_task_bound env of None \<Rightarrow> Ok () | Some bound \<Rightarrow> ensure (bound task project) TaskBindingMismatch)"

record file_grant_view =
  fv_grant_id :: string
  fv_file_name :: string
  fv_expires_at_ms :: int

definition grant_selected_file ::
  "app_env \<Rightarrow> string \<Rightarrow> string \<Rightarrow> string \<Rightarrow> string \<Rightarrow> manager_state \<Rightarrow> file_grant_view stretch" where
  "grant_selected_file env grant_id project task selected st =
     (case and_then (parse_request_id ProjectId project) (\<lambda>p.
           and_then (parse_request_id TaskRunId task) (\<lambda>t.
           and_then (require_bound_task env t p) (\<lambda>_.
           and_then (new_file_roots (e_fs env) []) (\<lambda>validation.
           and_then (add_granted_file (e_fs env) grant_id selected validation) (\<lambda>validation.
           and_then (canonical_granted_file (e_fs env) grant_id validation) (\<lambda>canonical.
           and_then (ok_or (granted_file_name grant_id validation) FileScopeViolation) (\<lambda>name.
           Ok (canonical, name)))))))) of
        Inl e \<Rightarrow> (Err e, st)
      | Inr (canonical, name) \<Rightarrow>
          (let expires = saturating_add (e_clock env 2) FILE_GRANT_TTL_MS;
               st = lock env st;
               kept = hm_retain (\<lambda>_ g. pg_expires_at_ms g \<ge> e_clock env 3) (m_pending_file_grants st) in
           (Ok \<lparr>fv_grant_id = grant_id, fv_file_name = name, fv_expires_at_ms = expires\<rparr>,
            st\<lparr>m_pending_file_grants := hm_insert grant_id \<lparr>pg_project_id = project, pg_task_run_id = task,
              pg_canonical_file = canonical, pg_expires_at_ms = expires\<rparr> kept\<rparr>)))"

record start_request =
  st_project_id :: string
  st_task_run_id :: string
  st_approved_bundle_ids :: "string list"
  st_scoped_file_roots :: "string list"
  st_file_grant_ids :: "string list"

definition validate_file_grant_ids :: "string list \<Rightarrow> app_control_error + unit" where
  "validate_file_grant_ids ids =
     ensure (\<not> (length ids > 16 \<or> list_ex (\<lambda>g. \<not> valid_file_grant_id g) ids \<or> \<not> distinct ids))
       FileScopeViolation"

definition approve_bundle :: "string \<Rightarrow> app_control_error + unit" where
  "approve_bundle bundle =
     and_then (ensure (valid_bundle_id bundle) InvalidRequest) (\<lambda>_.
     ensure (\<not> qualification (app_profile_of bundle bundle) = Browser) BrowserRouteRequired)"

fun collect_grants ::
  "(string, pending_file_grant) hash_map \<Rightarrow> string \<Rightarrow> string \<Rightarrow> int \<Rightarrow> string list \<Rightarrow>
   app_control_error + (string \<times> pending_file_grant) list" where
  "collect_grants pending project task now [] = Ok []"
| "collect_grants pending project task now (gid # rest) =
     and_then (ok_or (Option.bind (hm_get pending gid) (\<lambda>g.
       if pg_project_id g = project \<and> pg_task_run_id g = task \<and> pg_expires_at_ms g \<ge> now
       then Some g else None)) FileScopeViolation) (\<lambda>g.
     and_then (collect_grants pending project task now rest) (\<lambda>gs. Ok ((gid, g) # gs)))"

fun add_granted_files ::
  "fs_env \<Rightarrow> (string \<times> pending_file_grant) list \<Rightarrow> scoped_file_roots \<Rightarrow> app_control_error + scoped_file_roots" where
  "add_granted_files fs [] fr = Ok fr"
| "add_granted_files fs ((gid, g) # rest) fr =
     and_then (add_granted_file fs gid (pg_canonical_file g) fr) (add_granted_files fs rest)"

definition new_session ::
  "string \<Rightarrow> string \<Rightarrow> string \<Rightarrow> string list \<Rightarrow> scoped_file_roots \<Rightarrow> int \<Rightarrow> session_record" where
  "new_session sid project task approved fr now =
     \<lparr>s_session_id = sid, s_project_id = project, s_task_run_id = task,
      s_approved_bundle_ids = approved, s_file_roots = fr, s_state = Observing, s_generation = 1,
      s_revision = 0, s_current_action = None, s_pause_reason = None, s_last_outcome = None,
      s_last_observation = None, s_updated_at_ms = now, s_cancellation_epoch = 1, s_mismatch_count = 0\<rparr>"

definition start_session ::
  "app_env \<Rightarrow> string \<Rightarrow> start_request \<Rightarrow> manager_state \<Rightarrow> session_view stretch" where
  "start_session env sid req st =
     (case and_then (parse_request_id ProjectId (st_project_id req)) (\<lambda>p.
           and_then (parse_request_id TaskRunId (st_task_run_id req)) (\<lambda>t.
           and_then (require_bound_task env t p) (\<lambda>_.
           and_then (ensure (\<not> (st_approved_bundle_ids req = [] \<or> length (st_approved_bundle_ids req) > 16))
             InvalidRequest) (\<lambda>_.
           and_then (try_for_each approve_bundle (st_approved_bundle_ids req)) (\<lambda>_.
           and_then (validate_file_grant_ids (st_file_grant_ids req)) (\<lambda>_.
           new_file_roots (e_fs env) (st_scoped_file_roots req))))))) of
        Inl e \<Rightarrow> (Err e, st)
      | Inr fr \<Rightarrow>
          (let now = e_clock env 2; st = lock env st in
           case and_then (collect_grants (m_pending_file_grants st) (st_project_id req) (st_task_run_id req)
                  now (st_file_grant_ids req)) (\<lambda>grants.
                add_granted_files (e_fs env) grants fr) of
             Inl e \<Rightarrow> (Err e, st)
           | Inr fr \<Rightarrow>
               (let record = new_session sid (st_project_id req) (st_task_run_id req)
                      (st_approved_bundle_ids req) fr now;
                    st = put_session sid record (st\<lparr>m_active_session_id := Some sid,
                      m_pending_file_grants := fold hm_remove (st_file_grant_ids req) (m_pending_file_grants st)\<rparr>) in
                (if e_record_ok env then Ok (session_view_of record) else Err DriverFailure, st))))"

text \<open>\<open>max_by_key\<close> returns the last of the greatest values; the order of a hash map is an argument.\<close>

definition max_by_updated :: "session_record list \<Rightarrow> session_record option" where
  "max_by_updated ss = fold (\<lambda>s best. case best of None \<Rightarrow> Some s
     | Some b \<Rightarrow> if s_updated_at_ms b \<le> s_updated_at_ms s then Some s else Some b) ss None"

definition get_status ::
  "app_env \<Rightarrow> (session_record list \<Rightarrow> session_record list) \<Rightarrow> string option \<Rightarrow> manager_state \<Rightarrow>
   session_view option stretch" where
  "get_status env hash_order task st =
     (let st = lock env st in
      case task of
        Some t \<Rightarrow>
          (case parse_request_id TaskRunId t of
             Inl e \<Rightarrow> (Err e, st)
           | Inr _ \<Rightarrow> (Ok (map_option session_view_of (max_by_updated
               (filter (\<lambda>s. s_task_run_id s = t) (hash_order (map snd (m_sessions st)))))), st))
      | None \<Rightarrow>
          (Ok (case Option.bind (m_active_session_id st) (hm_get (m_sessions st)) of
               None \<Rightarrow> None
             | Some s \<Rightarrow>
                 if active (s_state s) \<or>
                    saturating_sub (e_clock env 2) (s_updated_at_ms s) \<le> TERMINAL_STATUS_GRACE_MS
                 then Some (session_view_of s) else None), st))"

subsection \<open>The user's controls\<close>

datatype app_control_control = Pause | Stop | TakeControl | ReturnToOomu

text \<open>Whether a control applies in a state, and the state and pause reason it leads to.\<close>

fun control_applies :: "app_control_control \<Rightarrow> app_control_state \<Rightarrow> bool" where
  "control_applies Pause state = (state \<in> {Observing, Running, ReturnPending})"
| "control_applies Stop state = active state"
| "control_applies TakeControl state = (\<not> (\<not> active state \<or> state = Takeover))"
| "control_applies ReturnToOomu state = (state \<in> {Takeover, Paused})"

fun control_state :: "app_control_control \<Rightarrow> app_control_state \<times> pause_reason option" where
  "control_state Pause = (Paused, Some UserInput)"
| "control_state Stop = (Stopped, None)"
| "control_state TakeControl = (Takeover, Some UserInput)"
| "control_state ReturnToOomu = (ReturnPending, None)"

definition controlled :: "int \<Rightarrow> app_control_control \<Rightarrow> session_record \<Rightarrow> session_record" where
  "controlled now c s = (invalidated now s)\<lparr>s_state := fst (control_state c), s_pause_reason := snd (control_state c)\<rparr>"

definition control ::
  "app_env \<Rightarrow> string \<Rightarrow> string \<Rightarrow> app_control_control \<Rightarrow> manager_state \<Rightarrow> session_view stretch" where
  "control env sid task c st =
     (let now = e_clock env 2; st = lock env st in
      in_session sid task (\<lambda>s.
        if \<not> control_applies c (s_state s) then (Err NotRunning, st)
        else
          (let s' = controlled now c s;
               st = put_session sid s' (st\<lparr>m_references := invalidate_session (s_session_id s) (m_references st)\<rparr>) in
           (Ok (session_view_of s'),
            if c = Stop then st\<lparr>m_active_session_id := Some (s_session_id s)\<rparr> else st))) st)"

definition notify_user_input ::
  "app_env \<Rightarrow> string \<Rightarrow> string \<Rightarrow> manager_state \<Rightarrow> session_view stretch" where
  "notify_user_input env sid task st =
     (let now = e_clock env 2; st = lock env st in
      in_session sid task (\<lambda>s.
        if \<not> active (s_state s) then (Err NotRunning, st)
        else
          (let s' = paused now UserInput s in
           (Ok (session_view_of s'),
            put_session sid s' (st\<lparr>m_references := invalidate_session (s_session_id s) (m_references st)\<rparr>)))) st)"

subsection \<open>Observing\<close>

fun check_elements :: "driver_element list \<Rightarrow> string list \<Rightarrow> app_control_error + string list" where
  "check_elements [] keys = Ok keys"
| "check_elements (e # rest) keys =
     and_then (ensure (\<not> (blank (de_element_key e) \<or> chars_count (de_element_key e) > 512 \<or>
       blank (de_role e) \<or> chars_count (de_role e) > 120 \<or> de_element_key e \<in> set keys)) InvalidRequest) (\<lambda>_.
     and_then (ensure (\<not> (de_secure e \<and> de_value_digest e \<noteq> None)) InvalidRequest) (\<lambda>_.
     check_elements rest (de_element_key e # keys)))"

definition validate_raw_observation :: "driver_observation \<Rightarrow> app_control_error + unit" where
  "validate_raw_observation raw =
     and_then (ensure (\<not> (process_id (do_application raw) = 0 \<or>
       \<not> valid_bundle_id (bundle_id (do_application raw)) \<or>
       blank (display_name (do_application raw)) \<or> chars_count (display_name (do_application raw)) > 120 \<or>
       blank (window_id (do_window raw)) \<or> chars_count (window_id (do_window raw)) > 256 \<or>
       length (do_elements raw) > MAX_OBSERVED_ELEMENTS)) InvalidRequest) (\<lambda>_.
     and_then (ensure (\<not> (case do_screenshot raw of None \<Rightarrow> False
       | Some shot \<Rightarrow> \<not> valid_sha256 (shot_sha256 shot) \<or> shot_width shot = 0 \<or> shot_height shot = 0))
       InvalidRequest) (\<lambda>_.
     and_then (check_elements (do_elements raw) []) (\<lambda>keys.
     ensure (\<not> (case do_focused_element_key raw of None \<Rightarrow> False | Some f \<Rightarrow> f \<notin> set keys)) InvalidRequest)))"

fun issue_all ::
  "(nat \<Rightarrow> string) \<Rightarrow> nat \<Rightarrow> reference_context \<Rightarrow> int \<Rightarrow> driver_element list \<Rightarrow> reference_vault \<Rightarrow>
   observed_element list \<times> reference_vault" where
  "issue_all fresh i cx expires_at [] vault = ([], vault)"
| "issue_all fresh i cx expires_at (e # es) vault =
     (let (observed, vault) = issue (fresh i) cx e expires_at vault;
          (rest, vault) = issue_all fresh (Suc i) cx expires_at es vault in
      (observed # rest, vault))"

text \<open>
  The fresh identifiers of one observation: its own and one per element. The loop over the elements
  keeps the reference of the focused one and whether it is protected.
\<close>

record observation_ids =
  oi_observation_id :: string
  oi_reference :: "nat \<Rightarrow> string"

definition focus_of :: "string option \<Rightarrow> observed_element list \<Rightarrow> string option" where
  "focus_of focused es = (case focused of None \<Rightarrow> None
     | Some key \<Rightarrow> map_option oe_reference (find (\<lambda>e. oe_element_key e = key) es))"

definition focused_secure :: "driver_observation \<Rightarrow> bool" where
  "focused_secure raw = (case do_focused_element_key raw of None \<Rightarrow> False
     | Some key \<Rightarrow> list_ex (\<lambda>e. de_element_key e = key \<and> de_secure e) (do_elements raw))"

definition application_changed :: "session_record \<Rightarrow> driver_observation \<Rightarrow> bool" where
  "application_changed s raw = (case s_last_observation s of None \<Rightarrow> False
     | Some ob \<Rightarrow> bundle_id (ob_application ob) \<noteq> bundle_id (do_application raw) \<or>
         process_id (ob_application ob) \<noteq> process_id (do_application raw))"

definition window_changed :: "session_record \<Rightarrow> driver_observation \<Rightarrow> bool" where
  "window_changed s raw = (case s_last_observation s of None \<Rightarrow> False
     | Some ob \<Rightarrow> window_id (ob_window ob) \<noteq> window_id (do_window raw))"

definition before_issue :: "int \<Rightarrow> bool \<Rightarrow> driver_observation \<Rightarrow> session_record \<Rightarrow> session_record" where
  "before_issue now allow raw s =
     (if application_changed s raw then paused now ApplicationChanged s
      else if window_changed s raw \<and> \<not> allow then paused now UnexpectedNavigationPause s
      else s)"

definition resumed :: "application_qualification \<Rightarrow> bool \<Rightarrow> session_record \<Rightarrow> session_record" where
  "resumed q is_first s =
     (if s_state s = ReturnPending \<or> (is_first \<and> s_state s = Observing)
      then s\<lparr>s_state := (if q = Qualified then Running else Observing), s_pause_reason := None\<rparr>
      else s)"

definition observation_context :: "session_record \<Rightarrow> driver_observation \<Rightarrow> int \<Rightarrow> reference_context" where
  "observation_context s raw now =
     \<lparr>rx_session_id = s_session_id s, rx_project_id = s_project_id s, rx_task_run_id = s_task_run_id s,
      rx_bundle_id = bundle_id (do_application raw), rx_process_id = process_id (do_application raw),
      rx_window_id = window_id (do_window raw), rx_revision = s_revision s, rx_generation = s_generation s,
      rx_now_ms = now\<rparr>"

definition observed ::
  "observation_ids \<Rightarrow> session_record \<Rightarrow> driver_observation \<Rightarrow> int \<Rightarrow> observed_element list \<Rightarrow> desktop_observation" where
  "observed ids s raw now es =
     \<lparr>ob_observation_id = oi_observation_id ids, ob_session_id = s_session_id s,
      ob_project_id = s_project_id s, ob_task_run_id = s_task_run_id s, ob_revision = s_revision s,
      ob_generation = s_generation s, ob_observed_at_ms = now,
      ob_expires_at_ms = saturating_add now REFERENCE_TTL_MS, ob_permission = do_permission raw,
      ob_application = do_application raw, ob_window = do_window raw,
      ob_focused_element = focus_of (do_focused_element_key raw) es, ob_elements = es,
      ob_screenshot = do_screenshot raw, ob_observation_hash = []\<rparr>"

definition settle ::
  "int \<Rightarrow> bool \<Rightarrow> driver_observation \<Rightarrow> session_record \<Rightarrow> session_record \<Rightarrow> desktop_observation \<Rightarrow>
   session_record \<times> bool" where
  "settle now allow raw s0 s ob =
     (let q = qualification (app_profile_of (bundle_id (do_application raw)) (display_name (do_application raw)));
          s = s\<lparr>s_last_observation := Some ob, s_updated_at_ms := now\<rparr>;
          s = (if \<not> application_changed s0 raw \<and> (\<not> window_changed s0 raw \<or> allow)
               then resumed q (s_last_observation s0 = None) s else s) in
      if \<not> window_visible (ob_window ob) then (paused now HiddenWindowPause s, True)
      else if focused_secure raw then (paused now SecureFieldPause s, True)
      else (s, False))"

definition apply_observation ::
  "app_env \<Rightarrow> observation_ids \<Rightarrow> string \<Rightarrow> driver_observation \<Rightarrow> int \<Rightarrow> bool \<Rightarrow> manager_state \<Rightarrow>
   desktop_observation stretch" where
  "apply_observation env ids sid raw now allow st =
     (case and_then (validate_raw_observation raw) (\<lambda>_. ok_or (hm_get (m_sessions st) sid) SessionNotFound) of
        Inl e \<Rightarrow> (Err e, st)
      | Inr s0 \<Rightarrow>
          (let drop_refs = (\<lambda>st. st\<lparr>m_references := invalidate_session (s_session_id s0) (m_references st)\<rparr>);
               q = qualification (app_profile_of (bundle_id (do_application raw)) (display_name (do_application raw))) in
           if do_permission raw \<noteq> PermissionGranted then
             (Err AccessibilityPermissionMissing, put_session sid (paused now PermissionChangedPause s0) (drop_refs st))
           else if q = Browser then
             (Err BrowserRouteRequired,
              put_session sid (s0\<lparr>s_state := SessionFailed, s_current_action := None, s_updated_at_ms := now\<rparr>)
                (st\<lparr>m_references := invalidate_session sid (m_references st)\<rparr>))
           else if q = Qualified \<and> bundle_id (do_application raw) \<notin> set (s_approved_bundle_ids s0) then
             (Err ApplicationNotAllowlisted, st)
           else
             (let st = (if application_changed s0 raw \<or> (window_changed s0 raw \<and> \<not> allow) then drop_refs st
                    else st\<lparr>m_references := invalidate_session sid (m_references st)\<rparr>);
                  s1 = before_issue now allow raw s0;
                  s1 = s1\<lparr>s_revision := sat_u64_suc (s_revision s1)\<rparr>;
                  (es, vault) = issue_all (oi_reference ids) 0 (observation_context s1 raw now)
                    (saturating_add now REFERENCE_TTL_MS) (do_elements raw) (m_references st);
                  ob = observed ids s1 raw now es in
              case hash_observation (e_digests env) ob of
                Inl e \<Rightarrow> (Err e, put_session sid s1 (st\<lparr>m_references := vault\<rparr>))
              | Inr h \<Rightarrow>
                  (let ob = ob\<lparr>ob_observation_hash := h\<rparr>;
                       (s2, dropped) = settle now allow raw s0 s1 ob in
                   (Ok ob, put_session sid s2 (st\<lparr>m_references :=
                      (if dropped then invalidate_session (s_session_id s0) vault else vault)\<rparr>))))))"

definition observe_begin ::
  "app_env \<Rightarrow> string \<Rightarrow> string \<Rightarrow> manager_state \<Rightarrow> nat stretch" where
  "observe_begin env sid task st =
     (let st = lock env st in
      in_session sid task (\<lambda>s.
        if \<not> active (s_state s) \<or> s_state s = Takeover then (Err NotRunning, st)
        else (Ok (s_generation s), st)) st)"

definition pause_for_driver_error ::
  "app_env \<Rightarrow> string \<Rightarrow> string \<Rightarrow> nat \<Rightarrow> app_control_error \<Rightarrow> manager_state \<Rightarrow> manager_state" where
  "pause_for_driver_error env sid task generation err st =
     (let st = lock env st in
      case hm_get (m_sessions st) sid of
        None \<Rightarrow> st
      | Some s \<Rightarrow>
          if s_task_run_id s \<noteq> task \<or> s_generation s \<noteq> generation then st
          else
            (let reason = (case err of DriverUnavailable \<Rightarrow> DriverUnavailablePause
                | AccessibilityPermissionMissing \<Rightarrow> PermissionChangedPause
                | PermissionChanged \<Rightarrow> PermissionChangedPause | _ \<Rightarrow> AmbiguousTargetPause) in
             put_session sid (paused (e_clock env 2) reason s)
               (st\<lparr>m_references := invalidate_session (s_session_id s) (m_references st)\<rparr>)))"

definition observe_finish ::
  "app_env \<Rightarrow> observation_ids \<Rightarrow> string \<Rightarrow> string \<Rightarrow> nat \<Rightarrow> driver_observation \<Rightarrow> manager_state \<Rightarrow>
   desktop_observation stretch" where
  "observe_finish env ids sid task generation raw st =
     (let st = lock env st in
      case ensure_generation st sid task generation None of
        Inl e \<Rightarrow> (Err e, st)
      | Inr _ \<Rightarrow>
          (let (r, st) = apply_observation env ids sid raw (e_clock env 2) False st in
           (and_then r (\<lambda>ob. and_then (ensure (e_record_ok env) DriverFailure) (\<lambda>_. Ok ob)), st)))"

subsection \<open>The authority\<close>

record authority_request =
  au_project_id :: string
  au_task_run_id :: string
  au_session_id :: string
  au_bundle_id :: string
  au_action_kind :: desktop_action_kind
  au_action_arguments_hash :: string
  au_will_change_data :: bool

record authority_decision =
  ad_authorized :: bool
  ad_decision_id :: string

record approval_binding =
  bd_principal :: string
  bd_action_class :: string
  bd_canonical_resource :: string
  bd_argument_class :: string

fun kind_debug :: "desktop_action_kind \<Rightarrow> string" where
  "kind_debug KFocus = ''Focus''"
| "kind_debug KPress = ''Press''"
| "kind_debug KSelect = ''Select''"
| "kind_debug KTypeText = ''TypeText''"
| "kind_debug KInvokeMenu = ''InvokeMenu''"
| "kind_debug KScroll = ''Scroll''"
| "kind_debug KDragDrop = ''DragDrop''"
| "kind_debug KChooseFile = ''ChooseFile''"
| "kind_debug KAppleEvent = ''AppleEvent''"

definition approval_binding_of :: "authority_request \<Rightarrow> approval_binding" where
  "approval_binding_of r =
     \<lparr>bd_principal = ''local_principal'', bd_action_class = ''app_control'',
      bd_canonical_resource = to_ascii_lowercase (au_bundle_id r @ ''/'' @ kind_debug (au_action_kind r)),
      bd_argument_class = ''exact:'' @ au_action_arguments_hash r\<rparr>"

definition direct_approval_key :: "authority_request \<Rightarrow> string" where
  "direct_approval_key r = au_project_id r @ '':'' @ au_task_run_id r @ '':'' @ au_session_id r @ '':'' @
     au_bundle_id r @ '':'' @ au_action_arguments_hash r"

definition authority_call :: "int \<Rightarrow> authority_request \<Rightarrow> scope_call" where
  "authority_call now r =
     (let b = approval_binding_of r in
      \<lparr>c_principal = bd_principal b, c_project_id = Some (au_project_id r),
       c_task_run_id = Some (au_task_run_id r), c_action_class = bd_action_class b,
       c_resource = bd_canonical_resource b, c_argument_class = bd_argument_class b,
       c_estimated_uses = 1, c_now = now\<rparr>)"

record scope_env =
  sc_sha :: "string \<Rightarrow> string"
  sc_ties :: "grant_row list \<Rightarrow> grant_row list"
  sc_faults :: faults
  sc_now :: int

type_synonym authority_state = "string list \<times> scope_store"

definition evaluate ::
  "scope_env \<Rightarrow> authority_request \<Rightarrow> authority_state \<Rightarrow>
   (app_control_error + authority_decision) \<times> authority_state" where
  "evaluate sc r au =
     (let (direct, store) = au; key = direct_approval_key r; b = approval_binding_of r;
          decide = (\<lambda>authorized. \<lparr>ad_authorized = authorized, ad_decision_id = ''appauthority_'' @
            take 32 (sc_sha sc (au_task_run_id r @ '':'' @ bd_canonical_resource b @ '':'' @
              bd_argument_class b @ '':'' @ (if authorized then ''true'' else ''false'')))\<rparr>) in
      if key \<in> set direct then (Ok (decide True), (removeAll key direct, store))
      else case authorize (sc_sha sc) (sc_ties sc) (sc_faults sc) (authority_call (sc_now sc) r) store of
        Inl _ \<Rightarrow> (Err Unauthorized, (direct, store))
      | Inr (authorized, store') \<Rightarrow> (Ok (decide authorized), (direct, store')))"

definition register_direct_approval :: "authority_request \<Rightarrow> authority_state \<Rightarrow> authority_state" where
  "register_direct_approval r au = (direct_approval_key r # fst au, snd au)"

subsection \<open>Executing\<close>

record execute_request =
  x_session_id :: string
  x_task_run_id :: string
  x_observation_revision :: nat
  x_action :: semantic_action
  x_expected_outcome :: expected_outcome

record prepared =
  p_before :: desktop_observation
  p_action :: semantic_action
  p_targets :: "driver_target list"
  p_selected_file :: "string option"
  p_target_label :: "string option"
  p_authority :: authority_request
  p_generation :: nat

definition reference_context_of :: "session_record \<Rightarrow> desktop_observation \<Rightarrow> int \<Rightarrow> reference_context" where
  "reference_context_of s ob now =
     \<lparr>rx_session_id = s_session_id s, rx_project_id = s_project_id s, rx_task_run_id = s_task_run_id s,
      rx_bundle_id = bundle_id (ob_application ob), rx_process_id = process_id (ob_application ob),
      rx_window_id = window_id (ob_window ob), rx_revision = ob_revision ob,
      rx_generation = ob_generation ob, rx_now_ms = now\<rparr>"

fun resolve_all ::
  "desktop_action_kind \<Rightarrow> bool \<Rightarrow> reference_context \<Rightarrow> reference_vault \<Rightarrow> string list \<Rightarrow>
   app_control_error + driver_target list" where
  "resolve_all k modal cx vault [] = Ok []"
| "resolve_all k modal cx vault (r # rs) =
     and_then (resolve r k modal cx vault) (\<lambda>t.
     and_then (resolve_all k modal cx vault rs) (\<lambda>ts. Ok (t # ts)))"

text \<open>Everything between the visibility check and the authority, a function of session and vault.\<close>

definition prepare_action ::
  "app_env \<Rightarrow> int \<Rightarrow> execute_request \<Rightarrow> session_record \<Rightarrow> desktop_observation \<Rightarrow> reference_vault \<Rightarrow>
   app_control_error + prepared" where
  "prepare_action env now req s before vault =
     and_then (ensure (bundle_id (ob_application before) \<in> set (s_approved_bundle_ids s)) ApplicationNotAllowlisted) (\<lambda>_.
     and_then (validate_typed_adapter (bundle_id (ob_application before)) (x_action req)) (\<lambda>_.
     and_then (validate_expected_outcome (x_action req) (x_expected_outcome req)) (\<lambda>_.
     and_then (normalize_action (e_fs env) (x_action req) (s_file_roots s)) (\<lambda>action.
     and_then (ensure (\<not> (is_choose_file action \<and> \<not> window_modal (ob_window before))) AmbiguousTarget) (\<lambda>_.
     and_then (resolved_file_for_action (e_fs env) action (s_file_roots s)) (\<lambda>selected.
     let label = (case action of ChooseFile _ gid \<Rightarrow> granted_file_name gid (s_file_roots s) | _ \<Rightarrow> None) in
     and_then (hash_action_binding (e_digests env) action selected) (\<lambda>action_hash.
     and_then (resolve_all (kind action) (window_modal (ob_window before))
       (reference_context_of s before now) vault (references action)) (\<lambda>targets.
     and_then (ensure (\<not> (is_choose_file action \<and> list_ex (\<lambda>t. \<not> dt_in_modal t) targets)) AmbiguousTarget) (\<lambda>_.
     Ok \<lparr>p_before = before, p_action = action, p_targets = targets, p_selected_file = selected,
         p_target_label = label,
         p_authority = \<lparr>au_project_id = s_project_id s, au_task_run_id = s_task_run_id s,
           au_session_id = s_session_id s, au_bundle_id = bundle_id (ob_application before),
           au_action_kind = kind action, au_action_arguments_hash = action_hash,
           au_will_change_data = will_change_data action\<rparr>,
         p_generation = s_generation s\<rparr>)))))))))"

definition execute_prepare ::
  "app_env \<Rightarrow> execute_request \<Rightarrow> manager_state \<Rightarrow> prepared stretch" where
  "execute_prepare env req st =
     (let now = e_clock env 2; st = lock env st; sid = x_session_id req in
      in_session sid (x_task_run_id req) (\<lambda>s.
        if s_state s \<noteq> Running then (Err NotRunning, st)
        else case s_last_observation s of
          None \<Rightarrow> (Err InvalidRequest, st)
        | Some before \<Rightarrow>
            if ob_revision before \<noteq> x_observation_revision req then (Err StaleReference, st)
            else if \<not> window_visible (ob_window before) then
              (Err HiddenWindow, put_session sid (paused now HiddenWindowPause s)
                 (st\<lparr>m_references := invalidate_session (s_session_id s) (m_references st)\<rparr>))
            else (prepare_action env now req s before (m_references st), st)) st)"

text \<open>
  \<open>authority_request_for\<close>, before the user is asked: the same checks on the current state, without
  changing it; it hashes the arguments after resolving the references.
\<close>

definition authority_request_for ::
  "app_env \<Rightarrow> execute_request \<Rightarrow> manager_state \<Rightarrow> authority_request stretch" where
  "authority_request_for env req st =
     (let st = lock env st in
      in_session (x_session_id req) (x_task_run_id req) (\<lambda>s.
        (if s_state s \<noteq> Running then Err NotRunning
         else case s_last_observation s of
           None \<Rightarrow> Err InvalidRequest
         | Some ob \<Rightarrow>
             and_then (ensure (\<not> ob_revision ob \<noteq> x_observation_revision req) StaleReference) (\<lambda>_.
             and_then (ensure (window_visible (ob_window ob)) HiddenWindow) (\<lambda>_.
             and_then (ensure (bundle_id (ob_application ob) \<in> set (s_approved_bundle_ids s)) ApplicationNotAllowlisted) (\<lambda>_.
             and_then (validate_typed_adapter (bundle_id (ob_application ob)) (x_action req)) (\<lambda>_.
             and_then (validate_expected_outcome (x_action req) (x_expected_outcome req)) (\<lambda>_.
             and_then (normalize_action (e_fs env) (x_action req) (s_file_roots s)) (\<lambda>action.
             and_then (ensure (\<not> (is_choose_file action \<and> \<not> window_modal (ob_window ob))) AmbiguousTarget) (\<lambda>_.
             and_then (resolved_file_for_action (e_fs env) action (s_file_roots s)) (\<lambda>selected.
             and_then (try_for_each (\<lambda>r.
               and_then (resolve r (kind action) (window_modal (ob_window ob))
                 (reference_context_of s ob (e_clock env 2)) (m_references st)) (\<lambda>t.
               ensure (\<not> (is_choose_file action \<and> \<not> dt_in_modal t)) AmbiguousTarget)) (references action)) (\<lambda>_.
             and_then (hash_action_binding (e_digests env) action selected) (\<lambda>action_hash.
             Ok \<lparr>au_project_id = s_project_id s, au_task_run_id = s_task_run_id s,
                 au_session_id = s_session_id s, au_bundle_id = bundle_id (ob_application ob),
                 au_action_kind = kind action, au_action_arguments_hash = action_hash,
                 au_will_change_data = will_change_data action\<rparr>)))))))))), st)) st)"

definition execute_dispatch ::
  "app_env \<Rightarrow> execute_request \<Rightarrow> prepared \<Rightarrow> nat option \<Rightarrow> manager_state \<Rightarrow> driver_action_request stretch" where
  "execute_dispatch env req p input_epoch st =
     (let st = lock env st; sid = x_session_id req in
      case ensure_generation st sid (x_task_run_id req) (p_generation p) (Some (ob_revision (p_before p))) of
        Inl e \<Rightarrow> (Err e, st)
      | Inr _ \<Rightarrow>
          (case hm_get (m_sessions st) sid of
             None \<Rightarrow> (Err SessionNotFound, st)
           | Some s \<Rightarrow>
               if s_state s \<noteq> Running then (Err NotRunning, st)
               else
                 (Ok \<lparr>da_session_id = s_session_id s, da_project_id = s_project_id s,
                      da_task_run_id = s_task_run_id s, da_application = ob_application (p_before p),
                      da_window = ob_window (p_before p), da_action = p_action p,
                      da_expected_outcome = x_expected_outcome req, da_targets = p_targets p,
                      da_selected_file = p_selected_file p,
                      da_cancellation = \<lparr>tok_session_id = sid, tok_expected = s_cancellation_epoch s,
                        tok_input_epoch = input_epoch\<rparr>\<rparr>,
                  put_session sid (s\<lparr>s_current_action := Some \<lparr>av_kind = kind (p_action p),
                     av_target_label = p_target_label p, av_will_change_data = will_change_data (p_action p)\<rparr>,
                     s_updated_at_ms := e_clock env 2\<rparr>) st)))"

text \<open>The token reads the session's epoch and the input monitor's; the first names the session here.\<close>

definition cancelled :: "manager_state \<Rightarrow> nat option \<Rightarrow> cancellation_token \<Rightarrow> bool" where
  "cancelled st epoch_now tok =
     (map_option s_cancellation_epoch (hm_get (m_sessions st) (tok_session_id tok)) \<noteq> Some (tok_expected tok) \<or>
      (case tok_input_epoch tok of None \<Rightarrow> False | Some expected \<Rightarrow> epoch_now \<noteq> Some expected))"

definition record_action_failure ::
  "app_env \<Rightarrow> string \<Rightarrow> execute_request \<Rightarrow> prepared \<Rightarrow> authority_decision \<Rightarrow> app_control_error \<times> string \<Rightarrow>
   manager_state \<Rightarrow> manager_state" where
  "record_action_failure env receipt_id req p decision err st =
     (let st = lock env st; now = e_clock env 2; sid = x_session_id req in
      case hm_get (m_sessions st) sid of
        None \<Rightarrow> st
      | Some s \<Rightarrow>
          if s_task_run_id s \<noteq> x_task_run_id req \<or> s_generation s \<noteq> p_generation p then st
          else
            (let receipt = \<lparr>or_receipt_id = receipt_id, or_session_id = sid,
                   or_project_id = ob_project_id (p_before p), or_task_run_id = x_task_run_id req,
                   or_action_kind = au_action_kind (p_authority p),
                   or_authority_decision_id = ad_decision_id decision,
                   or_before_observation_id = ob_observation_id (p_before p),
                   or_before_observation_hash = ob_observation_hash (p_before p),
                   or_after_observation_id = ob_observation_id (p_before p),
                   or_after_observation_hash = ob_observation_hash (p_before p),
                   or_action_arguments_hash = au_action_arguments_hash (p_authority p),
                   or_driver_receipt_hash = hash_bytes (e_digests env) (error_debug (fst err)),
                   or_postcondition_hash = hash_bytes (e_digests env) (snd err), or_file_hashes = [],
                   or_status = FailedStatus, or_recorded_at_ms = now\<rparr>;
                 s = s\<lparr>s_current_action := None,
                   s_last_outcome := Some \<lparr>ov_status = FailedStatus,
                     ov_action_kind = au_action_kind (p_authority p), ov_receipt_id = receipt_id,
                     ov_recorded_at_ms = now, ov_details_available = True\<rparr>,
                   s_updated_at_ms := now\<rparr> in
             put_session sid s (st\<lparr>m_receipts := hm_insert receipt_id receipt (m_receipts st)\<rparr>)))"

definition execute_check :: "app_env \<Rightarrow> execute_request \<Rightarrow> prepared \<Rightarrow> manager_state \<Rightarrow> unit stretch" where
  "execute_check env req p st =
     (let st = lock env st in
      (ensure_generation st (x_session_id req) (x_task_run_id req) (p_generation p)
         (Some (ob_revision (p_before p))), st))"

definition mismatched :: "int \<Rightarrow> session_record \<Rightarrow> session_record \<times> bool" where
  "mismatched now s =
     (let s = s\<lparr>s_current_action := None, s_mismatch_count := min 255 (s_mismatch_count s + 1)\<rparr> in
      if s_mismatch_count s \<ge> 2 then (paused now RepeatedMismatch s, True) else (s, False))"

definition success_status :: "expected_outcome \<Rightarrow> outcome_status" where
  "success_status e = (if e = NoChange then NoChangeStatus else Verified)"

definition execute_finish ::
  "app_env \<Rightarrow> observation_ids \<Rightarrow> string \<Rightarrow> execute_request \<Rightarrow> prepared \<Rightarrow> authority_decision \<Rightarrow>
   driver_action_result \<Rightarrow> driver_observation \<Rightarrow> manager_state \<Rightarrow> outcome_receipt stretch" where
  "execute_finish env ids receipt_id req p decision result raw st =
     (let st = lock env st; sid = x_session_id req in
      case ensure_generation st sid (x_task_run_id req) (p_generation p) (Some (ob_revision (p_before p))) of
        Inl e \<Rightarrow> (Err e, st)
      | Inr _ \<Rightarrow>
          (case apply_observation env ids sid raw (e_clock env 2) (x_expected_outcome req = WindowState) st of
             (Inl e, st) \<Rightarrow> (Err e, st)
           | (Inr after, st) \<Rightarrow>
               (case hm_get (m_sessions st) sid of
                  None \<Rightarrow> (Err SessionNotFound, st)
                | Some s \<Rightarrow>
                    (case verify_postcondition (e_fs env) (e_digests env) (dr_postcondition result)
                        (x_expected_outcome req) (p_action p) (p_targets p) (p_before p) after (s_file_roots s) of
                       Inl e \<Rightarrow>
                         (let (s', dropped) = mismatched (e_clock env 3) s in
                          (Err e, put_session sid s' (if dropped
                             then st\<lparr>m_references := invalidate_session (s_session_id s) (m_references st)\<rparr>
                             else st)))
                     | Inr file_hashes \<Rightarrow>
                         (case hash_postcondition (e_digests env) (dr_postcondition result) of
                            Inl e \<Rightarrow> (Err e, st)
                          | Inr post_hash \<Rightarrow>
                              if s_state s \<noteq> Running then (Err UnexpectedNavigation, st)
                              else
                                (let now = e_clock env 4; status = success_status (x_expected_outcome req);
                                     receipt = \<lparr>or_receipt_id = receipt_id, or_session_id = sid,
                                       or_project_id = ob_project_id (p_before p),
                                       or_task_run_id = x_task_run_id req, or_action_kind = kind (p_action p),
                                       or_authority_decision_id = ad_decision_id decision,
                                       or_before_observation_id = ob_observation_id (p_before p),
                                       or_before_observation_hash = ob_observation_hash (p_before p),
                                       or_after_observation_id = ob_observation_id after,
                                       or_after_observation_hash = ob_observation_hash after,
                                       or_action_arguments_hash = au_action_arguments_hash (p_authority p),
                                       or_driver_receipt_hash = hash_bytes (e_digests env) (dr_receipt_token result),
                                       or_postcondition_hash = post_hash, or_file_hashes = file_hashes,
                                       or_status = status, or_recorded_at_ms = now\<rparr>;
                                     s = s\<lparr>s_current_action := None, s_mismatch_count := 0,
                                       s_last_outcome := Some \<lparr>ov_status = status,
                                         ov_action_kind = kind (p_action p), ov_receipt_id = receipt_id,
                                         ov_recorded_at_ms = now, ov_details_available = True\<rparr>,
                                       s_updated_at_ms := now\<rparr>;
                                     st = put_session sid s
                                       (st\<lparr>m_receipts := hm_insert receipt_id receipt (m_receipts st)\<rparr>) in
                                 (and_then (ensure (e_record_ok env) DriverFailure) (\<lambda>_. Ok receipt), st)))))))"

definition receipt_of :: "app_env \<Rightarrow> string \<Rightarrow> string \<Rightarrow> manager_state \<Rightarrow> outcome_receipt option stretch" where
  "receipt_of env receipt_id task st =
     (case parse_request_id TaskRunId task of
        Inl e \<Rightarrow> (Err e, st)
      | Inr _ \<Rightarrow> (let st = lock env st in
          (Ok (Option.bind (hm_get (m_receipts st) receipt_id) (\<lambda>r.
             if or_task_run_id r = task then Some r else None)), st)))"

end
