(* ===== verification/App_Control_Inv.thy ===== *)
theory App_Control_Inv
  imports App_Control
begin

text \<open>
  Invariants of the app control manager, kept by every stretch: what holds of a session in each of
  its states, that every reference in the vault belongs to the current generation and revision of
  its session, and how a session may evolve.
\<close>

subsection \<open>The invariant\<close>

definition reason_ok :: "app_control_state \<Rightarrow> pause_reason option \<Rightarrow> bool" where
  "reason_ok state reason =
     (case state of
        Paused \<Rightarrow> reason \<noteq> None
      | Takeover \<Rightarrow> reason = Some UserInput
      | SessionFailed \<Rightarrow> True
      | _ \<Rightarrow> reason = None)"

definition ready_to_act :: "session_record \<Rightarrow> desktop_observation \<Rightarrow> bool" where
  "ready_to_act s ob \<longleftrightarrow> window_visible (ob_window ob) \<and> ob_generation ob = s_generation s \<and>
     ob_revision ob \<le> s_revision s \<and>
     bundle_id (ob_application ob) \<in> set (s_approved_bundle_ids s) \<and>
     bundle_id (ob_application ob) \<in> dom (map_of qualified_apps)"

definition session_ok :: "string \<Rightarrow> session_record \<Rightarrow> bool" where
  "session_ok k s \<longleftrightarrow> s_session_id s = k \<and> 1 \<le> s_generation s \<and> s_generation s \<le> u64_max \<and> s_revision s \<le> u64_max \<and>
     (s_generation s < u64_max \<longrightarrow> s_cancellation_epoch s = s_generation s) \<and>
     (s_current_action s \<noteq> None \<longrightarrow> s_state s = Running) \<and> reason_ok (s_state s) (s_pause_reason s) \<and>
     s_state s \<noteq> Completed \<and>
     (s_state s = Running \<longrightarrow> (\<exists>ob. s_last_observation s = Some ob \<and> ready_to_act s ob)) \<and>
     (\<forall>ob. s_last_observation s = Some ob \<longrightarrow> ob_generation ob \<le> s_generation s)"

definition session_base :: "string \<Rightarrow> session_record \<Rightarrow> bool" where
  "session_base k s \<longleftrightarrow> s_session_id s = k \<and> 1 \<le> s_generation s \<and> s_generation s \<le> u64_max \<and> s_revision s \<le> u64_max \<and>
     (s_generation s < u64_max \<longrightarrow> s_cancellation_epoch s = s_generation s) \<and>
     (\<forall>ob. s_last_observation s = Some ob \<longrightarrow> ob_generation ob \<le> s_generation s)"

definition bound_to :: "reference_binding \<Rightarrow> session_record \<Rightarrow> bool" where
  "bound_to b s \<longleftrightarrow> rb_session_id b = s_session_id s \<and> rb_project_id b = s_project_id s \<and>
     rb_task_run_id b = s_task_run_id s \<and> rb_generation b = s_generation s \<and> rb_revision b = s_revision s"

definition sessions_ok :: "manager_state \<Rightarrow> bool" where
  "sessions_ok st \<longleftrightarrow> hm_ok (m_sessions st) \<and> (\<forall>k s. hm_get (m_sessions st) k = Some s \<longrightarrow> session_ok k s)"

definition vault_ok :: "manager_state \<Rightarrow> bool" where
  "vault_ok st \<longleftrightarrow> hm_ok (m_references st) \<and>
     (\<forall>r b. hm_get (m_references st) r = Some b \<longrightarrow>
        (\<exists>s. hm_get (m_sessions st) (rb_session_id b) = Some s \<and> bound_to b s))"

definition mgr_inv :: "manager_state \<Rightarrow> bool" where
  "mgr_inv st \<longleftrightarrow> sessions_ok st \<and> vault_ok st"

text \<open>
  How a session evolves: its identity and scope stay, its generation grows, and without a new
  generation its state changes only by resuming after an observation or by failing.
\<close>

definition evolve :: "session_record \<Rightarrow> session_record \<Rightarrow> bool" where
  "evolve s t \<longleftrightarrow> s_session_id t = s_session_id s \<and> s_project_id t = s_project_id s \<and>
     s_task_run_id t = s_task_run_id s \<and> s_approved_bundle_ids t = s_approved_bundle_ids s \<and>
     s_file_roots t = s_file_roots s \<and> s_generation s \<le> s_generation t \<and> s_revision s \<le> s_revision t \<and>
     (s_generation t = s_generation s \<and> s_generation s < u64_max \<longrightarrow>
        s_state t = s_state s \<or> s_state t = SessionFailed \<or>
        (s_state s \<in> {Observing, ReturnPending} \<and> s_state t \<in> {Observing, Running})) \<and>
     (s_state s = Stopped \<and> s_generation t < u64_max \<longrightarrow> s_state t = Stopped)"

definition mgr_le :: "manager_state \<Rightarrow> manager_state \<Rightarrow> bool" where
  "mgr_le st st' \<longleftrightarrow> (\<forall>k s. hm_get (m_sessions st) k = Some s \<longrightarrow>
     (\<exists>t. hm_get (m_sessions st') k = Some t \<and> evolve s t))"

lemma evolve_refl [simp]: "evolve s s"
  by (simp add: evolve_def)

lemma evolve_trans: "evolve s t \<Longrightarrow> evolve t u \<Longrightarrow> evolve s u"
  unfolding evolve_def by (elim conjE) (intro conjI impI; force)

lemma mgr_le_refl [simp]: "mgr_le st st"
  by (simp add: mgr_le_def)

lemma mgr_le_trans: "mgr_le st st' \<Longrightarrow> mgr_le st' st'' \<Longrightarrow> mgr_le st st''"
  unfolding mgr_le_def using evolve_trans by meson

subsection \<open>One session\<close>

lemma sat_u64_suc_bounds: "n \<le> u64_max \<Longrightarrow> n \<le> sat_u64_suc n \<and> sat_u64_suc n \<le> u64_max"
  by (simp add: sat_u64_suc_def)

lemma sat_u64_suc_grows: "sat_u64_suc n = n \<Longrightarrow> n < u64_max \<Longrightarrow> False"
  by (simp add: sat_u64_suc_def)

lemma invalidated_sel [simp]:
  "s_session_id (invalidated now s) = s_session_id s" "s_project_id (invalidated now s) = s_project_id s"
  "s_task_run_id (invalidated now s) = s_task_run_id s"
  "s_approved_bundle_ids (invalidated now s) = s_approved_bundle_ids s"
  "s_file_roots (invalidated now s) = s_file_roots s" "s_state (invalidated now s) = s_state s"
  "s_generation (invalidated now s) = sat_u64_suc (s_generation s)" "s_revision (invalidated now s) = s_revision s"
  "s_current_action (invalidated now s) = None" "s_pause_reason (invalidated now s) = s_pause_reason s"
  "s_last_observation (invalidated now s) = s_last_observation s"
  "s_cancellation_epoch (invalidated now s) = (s_cancellation_epoch s + 1) mod 2 ^ 64"
  by (simp_all add: invalidated_def)

lemma epoch_follows:
  assumes "s_generation s < u64_max \<Longrightarrow> s_cancellation_epoch s = s_generation s"
    and "sat_u64_suc (s_generation s) < u64_max"
  shows "(s_cancellation_epoch s + 1) mod 2 ^ 64 = sat_u64_suc (s_generation s)"
proof -
  have "s_generation s < u64_max" "s_generation s + 1 < u64_max"
    using assms(2) by (auto simp: sat_u64_suc_def)
  with assms(1) show ?thesis by (simp add: sat_u64_suc_def u64_max_def)
qed

text \<open>Any control, pause or resumption that invalidates the generation.\<close>

lemma restated_ok:
  assumes "session_base k s" "state \<notin> {Running, Completed}" "reason_ok state reason"
  shows "session_ok k ((invalidated now s)\<lparr>s_state := state, s_pause_reason := reason\<rparr>)"
  using assms epoch_follows [of s] sat_u64_suc_bounds [of "s_generation s"]
  by (auto simp: session_ok_def session_base_def intro: le_trans)

lemma session_ok_base: "session_ok k s \<Longrightarrow> session_base k s"
  by (simp add: session_ok_def session_base_def)

lemma restated_evolves:
  assumes "s_generation s \<le> u64_max" "s_state s = Stopped \<Longrightarrow> s_generation s < u64_max \<Longrightarrow> state = Stopped"
  shows "evolve s ((invalidated now s)\<lparr>s_state := state, s_pause_reason := reason\<rparr>)"
  using assms sat_u64_suc_bounds [of "s_generation s"] sat_u64_suc_grows [of "s_generation s"]
  by (auto simp: evolve_def)

lemma paused_ok: "session_base k s \<Longrightarrow> session_ok k (paused now reason s)"
  unfolding paused_def by (rule restated_ok) (simp_all add: reason_ok_def)

lemma paused_evolves:
  "s_generation s \<le> u64_max \<Longrightarrow> s_generation s < u64_max \<longrightarrow> s_state s \<noteq> Stopped \<Longrightarrow> evolve s (paused now reason s)"
  unfolding paused_def by (rule restated_evolves) simp_all

lemma controlled_ok: "session_ok k s \<Longrightarrow> session_ok k (controlled now c s)"
  unfolding controlled_def by (cases c) (auto intro!: restated_ok session_ok_base simp: reason_ok_def)

lemma controlled_evolves:
  assumes "s_generation s \<le> u64_max" "control_applies c (s_state s)"
  shows "evolve s (controlled now c s)"
  unfolding controlled_def using assms by (intro restated_evolves) (cases c; auto)+

subsection \<open>The vault\<close>

lemma invalidate_session_get:
  assumes "hm_ok vault" "hm_get (invalidate_session sid vault) r = Some b"
  shows "rb_session_id b \<noteq> sid \<and> hm_get vault r = Some b"
  using assms by (auto simp: invalidate_session_def hm_get_retain split: option.splits if_splits)

lemma invalidate_session_ok [simp]: "hm_ok vault \<Longrightarrow> hm_ok (invalidate_session sid vault)"
  by (simp add: invalidate_session_def)

definition issued_from :: "reference_context \<Rightarrow> reference_binding \<Rightarrow> bool" where
  "issued_from cx b \<longleftrightarrow> rb_session_id b = rx_session_id cx \<and> rb_project_id b = rx_project_id cx \<and>
     rb_task_run_id b = rx_task_run_id cx \<and> rb_generation b = rx_generation cx \<and> rb_revision b = rx_revision cx"

lemma issue_all_vault:
  assumes "hm_ok vault" "issue_all fresh i cx expires_at es vault = (oes, vault')"
  shows "hm_ok vault' \<and> (\<forall>r b. hm_get vault' r = Some b \<longrightarrow> hm_get vault r = Some b \<or> issued_from cx b)"
  using assms
proof (induction es arbitrary: i vault oes vault')
  case (Cons e es)
  obtain o1 v1 where i1: "issue (fresh i) cx e expires_at vault = (o1, v1)" by fastforce
  obtain o2 v2 where i2: "issue_all fresh (Suc i) cx expires_at es v1 = (o2, v2)" by fastforce
  have v1: "hm_ok v1" "\<And>r b. hm_get v1 r = Some b \<Longrightarrow> hm_get vault r = Some b \<or> issued_from cx b"
    using i1 Cons.prems(1) by (auto simp: issue_def Let_def issued_from_def split: if_splits)
  have "v2 = vault'" using Cons.prems(2) i1 i2 by simp
  with Cons.IH [OF v1(1) i2] v1(2) show ?case by blast
qed simp

subsection \<open>One stretch\<close>

lemma put_inv:
  assumes inv: "mgr_inv st" and s: "session_ok sid t"
    and v: "hm_ok vault" "\<And>r b. hm_get vault r = Some b \<Longrightarrow>
      (rb_session_id b \<noteq> sid \<and> hm_get (m_references st) r = Some b) \<or> bound_to b t"
  shows "mgr_inv (put_session sid t (st\<lparr>m_references := vault\<rparr>))"
  unfolding mgr_inv_def
proof
  show "sessions_ok (put_session sid t (st\<lparr>m_references := vault\<rparr>))"
    using inv s by (auto simp: mgr_inv_def sessions_ok_def put_session_def)
  have "s_session_id t = sid" using s by (simp add: session_ok_def)
  then have "\<exists>s'. hm_get (hm_insert sid t (m_sessions st)) (rb_session_id b) = Some s' \<and> bound_to b s'"
    if "hm_get vault r = Some b" for r b
    using v(2) [OF that] inv by (auto simp: mgr_inv_def vault_ok_def bound_to_def)
  then show "vault_ok (put_session sid t (st\<lparr>m_references := vault\<rparr>))"
    using v(1) by (simp add: vault_ok_def put_session_def)
qed

lemma put_le:
  assumes "hm_get (m_sessions st) sid = Some s" "evolve s t"
  shows "mgr_le st (put_session sid t (st\<lparr>m_references := vault\<rparr>))"
  using assms by (auto simp: mgr_le_def put_session_def)

lemma mgr_inv_session: "mgr_inv st \<Longrightarrow> hm_get (m_sessions st) sid = Some s \<Longrightarrow> session_ok sid s"
  by (simp add: mgr_inv_def sessions_ok_def)

lemma mgr_inv_vault: "mgr_inv st \<Longrightarrow> hm_ok (m_references st)"
  by (simp add: mgr_inv_def vault_ok_def)

text \<open>Replacing a session after dropping its references.\<close>

lemma put_dropped_inv:
  assumes "mgr_inv st" "session_ok sid t"
  shows "mgr_inv (put_session sid t (st\<lparr>m_references := invalidate_session sid (m_references st)\<rparr>))"
proof (rule put_inv [OF assms])
  show "hm_ok (invalidate_session sid (m_references st))" using assms by (simp add: mgr_inv_vault)
qed (use invalidate_session_get [OF mgr_inv_vault [OF assms(1)]] in blast)

text \<open>Replacing a session by one its references are still bound to.\<close>

lemma put_kept_inv:
  assumes "mgr_inv st" "hm_get (m_sessions st) sid = Some s" "session_ok sid t"
    and "\<And>b. bound_to b s \<Longrightarrow> bound_to b t"
  shows "mgr_inv (put_session sid t st)"
proof -
  have "mgr_inv (put_session sid t (st\<lparr>m_references := m_references st\<rparr>))"
  proof (rule put_inv [OF assms(1,3)])
    show "hm_ok (m_references st)" using assms(1) by (rule mgr_inv_vault)
    fix r b assume r: "hm_get (m_references st) r = Some b"
    with assms(1) obtain s' where "hm_get (m_sessions st) (rb_session_id b) = Some s'" "bound_to b s'"
      by (auto simp: mgr_inv_def vault_ok_def)
    with assms(2,4) r show "(rb_session_id b \<noteq> sid \<and> hm_get (m_references st) r = Some b) \<or> bound_to b t"
      by (cases "rb_session_id b = sid") auto
  qed
  then show ?thesis by simp
qed

lemma for_sessions_inv:
  assumes inv: "mgr_inv st"
    and f: "\<And>k s. P s \<Longrightarrow> session_ok k s \<Longrightarrow> session_ok k (f s) \<and> evolve s (f s)"
  shows "mgr_inv (for_sessions P f st) \<and> mgr_le st (for_sessions P f st)"
proof -
  let ?g = "\<lambda>s. if P s then f s else s"
  have ok: "session_ok k (?g s) \<and> evolve s (?g s)" if "hm_get (m_sessions st) k = Some s" for k s
    using f [of s k] mgr_inv_session [OF inv that] by simp
  have "\<exists>t. hm_get (hm_values_mut ?g (m_sessions st)) (rb_session_id b) = Some t \<and> bound_to b t"
    if r: "hm_get (m_references (for_sessions P f st)) r = Some b" for r b
  proof -
    from r have b: "hm_get (m_references st) r = Some b"
      "\<not> list_ex (\<lambda>(_, s). P s \<and> s_session_id s = rb_session_id b) (m_sessions st)"
      using mgr_inv_vault [OF inv]
      by (auto simp: for_sessions_def hm_get_retain split: option.splits if_splits)
    with inv obtain s where s: "hm_get (m_sessions st) (rb_session_id b) = Some s" "bound_to b s"
      by (auto simp: mgr_inv_def vault_ok_def)
    with b(2) have "\<not> P s"
      using hm_get_Some_in [OF s(1)] by (auto simp: list_ex_iff bound_to_def)
    with s show ?thesis by simp
  qed
  moreover have "hm_ok (m_references (for_sessions P f st))"
    using mgr_inv_vault [OF inv] by (simp add: for_sessions_def)
  ultimately have "vault_ok (for_sessions P f st)"
    by (simp add: vault_ok_def) (simp add: for_sessions_def)
  moreover have "session_ok k t" if "hm_get (m_sessions (for_sessions P f st)) k = Some t" for k t
    using that ok by (auto simp: for_sessions_def)
  then have "sessions_ok (for_sessions P f st)"
    using inv by (simp add: mgr_inv_def sessions_ok_def) (simp add: for_sessions_def)
  ultimately have "mgr_inv (for_sessions P f st)" by (simp add: mgr_inv_def)
  moreover have "mgr_le st (for_sessions P f st)"
    using ok by (auto simp: mgr_le_def for_sessions_def)
  ultimately show ?thesis ..
qed

lemma lock_inv:
  assumes "mgr_inv st"
  shows "mgr_inv (lock env st) \<and> mgr_le st (lock env st)"
proof -
  have gen: "session_ok k s \<Longrightarrow> s_generation s \<le> u64_max" for k s by (simp add: session_ok_def)
  have r: "mgr_inv (lock_ready env st) \<and> mgr_le st (lock_ready env st)"
  proof (cases "e_ready env")
    case (Some ready)
    have "monitor_pause s \<Longrightarrow> s_state s \<noteq> Stopped" "active (s_state s) \<Longrightarrow> s_state s \<noteq> Stopped" for s
      by (auto simp: monitor_pause_def)
    with Some assms gen show ?thesis
      by (cases ready) (auto simp: lock_ready_def reason_ok_def
        intro!: for_sessions_inv paused_ok paused_evolves restated_ok restated_evolves session_ok_base)
  qed (use assms in \<open>simp add: lock_ready_def\<close>)
  have e: "mgr_inv (lock_epoch env st') \<and> mgr_le st' (lock_epoch env st')" if "mgr_inv st'" for st'
  proof -
    have a: "mgr_inv (st'\<lparr>m_acknowledged_input_epoch := c\<rparr>)" "mgr_le st' (st'\<lparr>m_acknowledged_input_epoch := c\<rparr>)" for c
      using that by (simp_all add: mgr_inv_def sessions_ok_def vault_ok_def mgr_le_def)
    have p: "mgr_inv (for_sessions (\<lambda>s. active (s_state s) \<and> s_state s \<noteq> Takeover) (paused now UserInput) u) \<and>
        mgr_le u (for_sessions (\<lambda>s. active (s_state s) \<and> s_state s \<noteq> Takeover) (paused now UserInput) u)"
      if "mgr_inv u" for now u
      using gen that by (intro for_sessions_inv) (auto intro!: paused_ok paused_evolves session_ok_base)
    show ?thesis
    proof (cases "e_epoch env")
      case (Some c)
      show ?thesis
        using that Some a p [OF a(1) [of c]] mgr_le_trans [OF a(2) [of c]]
        by (simp add: lock_epoch_def Let_def)
    qed (use that in \<open>simp add: lock_epoch_def\<close>)
  qed
  from r e [of "lock_ready env st"] show ?thesis unfolding lock_def by (blast intro: mgr_le_trans)
qed

subsection \<open>Observations\<close>

lemma qualified_iff:
  "qualification (app_profile_of b n) = Qualified \<longleftrightarrow> b \<notin> set BROWSER_BUNDLES \<and> b \<in> dom (map_of qualified_apps)"
  by (auto simp: app_profile_of_def split: option.splits)

lemma before_issue_cases:
  obtains "before_issue now allow raw s = s" "\<not> application_changed s raw" "window_changed s raw \<longrightarrow> allow"
  | reason where "before_issue now allow raw s = paused now reason s"
      "application_changed s raw \<or> (window_changed s raw \<and> \<not> allow)"
proof (cases "application_changed s raw \<or> (window_changed s raw \<and> \<not> allow)")
  case True
  then show thesis by (intro that(2) [of "if application_changed s raw then ApplicationChanged else UnexpectedNavigationPause"])
    (auto simp: before_issue_def)
next
  case False
  then show thesis by (intro that(1)) (auto simp: before_issue_def)
qed

lemma bump_revision:
  assumes "session_ok k s"
  shows "session_ok k (s\<lparr>s_revision := sat_u64_suc (s_revision s)\<rparr>)"
    "evolve s (s\<lparr>s_revision := sat_u64_suc (s_revision s)\<rparr>)"
  using assms by (auto simp: session_ok_def ready_to_act_def evolve_def sat_u64_suc_def)

lemma session_ok_gen: "session_ok k s \<Longrightarrow> s_generation s \<le> u64_max"
  by (simp add: session_ok_def)

lemma before_issue_ok:
  assumes "session_ok k s" "s_generation s < u64_max \<longrightarrow> s_state s \<noteq> Stopped"
  shows "session_ok k (before_issue now allow raw s) \<and> evolve s (before_issue now allow raw s)"
  using before_issue_cases [of now allow raw s]
proof cases
  case (2 reason)
  then show ?thesis using assms paused_ok [OF session_ok_base] paused_evolves [OF session_ok_gen] by simp
qed (use assms in simp)

lemma resumed_sel [simp]:
  "s_session_id (resumed q f s) = s_session_id s" "s_project_id (resumed q f s) = s_project_id s"
  "s_task_run_id (resumed q f s) = s_task_run_id s" "s_file_roots (resumed q f s) = s_file_roots s"
  "s_approved_bundle_ids (resumed q f s) = s_approved_bundle_ids s"
  "s_generation (resumed q f s) = s_generation s" "s_revision (resumed q f s) = s_revision s"
  "s_cancellation_epoch (resumed q f s) = s_cancellation_epoch s"
  "s_current_action (resumed q f s) = s_current_action s"
  "s_last_observation (resumed q f s) = s_last_observation s"
  by (simp_all add: resumed_def)

text \<open>
  Recording an observation in a session \<open>s\<close>: if the session is or becomes running, the application
  is a qualified and approved one.
\<close>

lemma settle_ok:
  assumes s: "session_ok k s" and s0: "session_ok k s0" and st: "s_generation s < u64_max \<longrightarrow> s_state s \<noteq> Stopped"
    and same: "s = before_issue now allow raw s0\<lparr>s_revision := sat_u64_suc (s_revision (before_issue now allow raw s0))\<rparr>"
    and ob: "ob_generation ob = s_generation s" "ob_revision ob = s_revision s"
      "ob_window ob = do_window raw" "ob_application ob = do_application raw"
    and app: "qualification (app_profile_of (bundle_id (do_application raw)) (display_name (do_application raw))) = Qualified
      \<Longrightarrow> bundle_id (do_application raw) \<in> set (s_approved_bundle_ids s0)"
    and set: "settle now allow raw s0 s ob = (t, dropped)"
  shows "session_ok k t \<and> evolve s t \<and> (\<not> dropped \<longrightarrow> s_generation t = s_generation s) \<and>
    s_revision t = s_revision s \<and> s_project_id t = s_project_id s \<and> s_task_run_id t = s_task_run_id s"
proof -
  define q where "q = qualification (app_profile_of (bundle_id (do_application raw)) (display_name (do_application raw)))"
  define s1 where "s1 = s\<lparr>s_last_observation := Some ob, s_updated_at_ms := now\<rparr>"
  define s2 where "s2 = (if \<not> application_changed s0 raw \<and> (\<not> window_changed s0 raw \<or> allow)
    then resumed q (s_last_observation s0 = None) s1 else s1)"
  have set': "(if \<not> window_visible (ob_window ob) then (paused now HiddenWindowPause s2, True)
      else if focused_secure raw then (paused now SecureFieldPause s2, True) else (s2, False)) = (t, dropped)"
    using set by (simp only: settle_def Let_def s1_def q_def s2_def)
  have base: "session_base k s2" using s ob by (auto simp: s2_def s1_def session_base_def session_ok_def)
  have ev: "evolve s s2"
    using s by (auto simp: s2_def s1_def resumed_def evolve_def)
  have st2: "s_generation s2 < u64_max \<longrightarrow> s_state s2 \<noteq> Stopped"
    using st by (auto simp: s2_def s1_def resumed_def)
  have appr: "s_approved_bundle_ids s2 = s_approved_bundle_ids s0"
    by (simp add: s2_def s1_def same before_issue_def paused_def)
  have run: "bundle_id (do_application raw) \<in> set (s_approved_bundle_ids s0) \<and>
      bundle_id (do_application raw) \<in> dom (map_of qualified_apps)" if "s_state s2 = Running"
  proof (cases "s_state s = Running")
    case True
    from before_issue_cases [of now allow raw s0] show ?thesis
    proof cases
      case 1
      then have "s_state s0 = Running" using True same by simp
      then obtain ob0 where "s_last_observation s0 = Some ob0" "ready_to_act s0 ob0" using s0 by (auto simp: session_ok_def)
      with 1(2) show ?thesis by (simp add: application_changed_def ready_to_act_def)
    next
      case 2
      then show ?thesis using True same by (simp add: paused_def)
    qed
  next
    case False
    then have "q = Qualified" using that by (auto simp: s2_def s1_def resumed_def split: if_splits)
    then show ?thesis using app by (simp add: q_def qualified_iff)
  qed
  show ?thesis
  proof (cases dropped)
    case True
    then obtain reason where t: "t = paused now reason s2"
      using set' by (auto split: if_splits)
    have "evolve s2 t" unfolding t using base st2 by (intro paused_evolves) (auto simp: session_base_def)
    moreover have "s_revision t = s_revision s" "s_project_id t = s_project_id s" "s_task_run_id t = s_task_run_id s"
      by (simp_all add: t paused_def s2_def s1_def)
    ultimately show ?thesis using True paused_ok [OF base] evolve_trans [OF ev] by (simp add: t)
  next
    case False
    then have t: "t = s2" "window_visible (ob_window ob)"
      using set' by (auto split: if_splits)
    have "s_state s2 = s_state s \<and> s_pause_reason s2 = s_pause_reason s \<or>
        s_state s \<in> {Observing, ReturnPending} \<and> s_state s2 \<in> {Running, Observing} \<and> s_pause_reason s2 = None"
      by (auto simp: s2_def s1_def resumed_def)
    moreover have "reason_ok (s_state s) (s_pause_reason s)" "s_state s \<noteq> Completed"
      "s_current_action s2 \<noteq> None \<longrightarrow> s_state s = Running"
      using s by (simp_all add: session_ok_def s2_def s1_def)
    moreover have "reason_ok Running None" "reason_ok Observing None" by (simp_all add: reason_ok_def)
    ultimately have "reason_ok (s_state s2) (s_pause_reason s2) \<and> s_state s2 \<noteq> Completed \<and>
        (s_current_action s2 \<noteq> None \<longrightarrow> s_state s2 = Running)"
      by fastforce
    moreover have "ready_to_act s2 ob" if "s_state s2 = Running"
      using run [OF that] t(2) ob appr by (simp add: ready_to_act_def s2_def s1_def)
    moreover have "s_last_observation s2 = Some ob" by (simp add: s2_def s1_def)
    ultimately have "session_ok k s2" using base by (simp add: session_ok_def session_base_def)
    with ev t show ?thesis by (simp add: s2_def s1_def)
  qed
qed

definition raw_qualification :: "driver_observation \<Rightarrow> application_qualification" where
  "raw_qualification raw = qualification (app_profile_of (bundle_id (do_application raw)) (display_name (do_application raw)))"

definition observed_session :: "int \<Rightarrow> bool \<Rightarrow> driver_observation \<Rightarrow> session_record \<Rightarrow> session_record" where
  "observed_session now allow raw s =
     (let b = before_issue now allow raw s in b\<lparr>s_revision := sat_u64_suc (s_revision b)\<rparr>)"

definition dropped_for :: "string \<Rightarrow> manager_state \<Rightarrow> manager_state" where
  "dropped_for sid st = st\<lparr>m_references := invalidate_session sid (m_references st)\<rparr>"

text \<open>The ways an observation ends.\<close>

lemma apply_observation_cases:
  assumes "apply_observation env ids sid raw now allow st = (r, st')"
    and "\<forall>s. hm_get (m_sessions st) sid = Some s \<longrightarrow> s_session_id s = sid"
  obtains (same) e where "st' = st" "r = Err e"
  | (perm) s where "hm_get (m_sessions st) sid = Some s" "r = Err AccessibilityPermissionMissing"
      "st' = put_session sid (paused now PermissionChangedPause s) (dropped_for sid st)"
  | (browser) s where "hm_get (m_sessions st) sid = Some s" "r = Err BrowserRouteRequired"
      "st' = put_session sid (s\<lparr>s_state := SessionFailed, s_current_action := None, s_updated_at_ms := now\<rparr>) (dropped_for sid st)"
  | (issued) s es vault e where "hm_get (m_sessions st) sid = Some s" "r = Err e"
      "issue_all (oi_reference ids) 0 (observation_context (observed_session now allow raw s) raw now)
        (saturating_add now REFERENCE_TTL_MS) (do_elements raw) (invalidate_session sid (m_references st)) = (es, vault)"
      "st' = put_session sid (observed_session now allow raw s) (st\<lparr>m_references := vault\<rparr>)"
  | (settled) s es vault ob t dropped where "hm_get (m_sessions st) sid = Some s" "r = Ok ob"
      "issue_all (oi_reference ids) 0 (observation_context (observed_session now allow raw s) raw now)
        (saturating_add now REFERENCE_TTL_MS) (do_elements raw) (invalidate_session sid (m_references st)) = (es, vault)"
      "\<exists>h. ob = (observed ids (observed_session now allow raw s) raw now es)\<lparr>ob_observation_hash := h\<rparr>"
      "raw_qualification raw = Qualified \<longrightarrow> bundle_id (do_application raw) \<in> set (s_approved_bundle_ids s)"
      "settle now allow raw s (observed_session now allow raw s) ob = (t, dropped)"
      "st' = put_session sid t (st\<lparr>m_references := (if dropped then invalidate_session sid vault else vault)\<rparr>)"
proof (cases "and_then (validate_raw_observation raw) (\<lambda>_. ok_or (hm_get (m_sessions st) sid) SessionNotFound)")
  case (Inl e)
  then show thesis using assms(1) by (intro same [of e]) (simp_all add: apply_observation_def)
next
  case (Inr s)
  then have g: "hm_get (m_sessions st) sid = Some s" and v: "validate_raw_observation raw = Ok ()"
    by (auto simp: result_simps)
  have sid: "s_session_id s = sid" using assms(2) g by blast
  obtain es vault where iss: "issue_all (oi_reference ids) 0 (observation_context (observed_session now allow raw s) raw now)
      (saturating_add now REFERENCE_TTL_MS) (do_elements raw) (invalidate_session sid (m_references st)) = (es, vault)" by fastforce
  let ?ob = "observed ids (observed_session now allow raw s) raw now es"
  note defs = apply_observation_def v g ok_or_def sid Let_def raw_qualification_def dropped_for_def observed_session_def
  consider "do_permission raw \<noteq> PermissionGranted" | "do_permission raw = PermissionGranted" "raw_qualification raw = Browser"
    | "do_permission raw = PermissionGranted" "raw_qualification raw = Qualified" "bundle_id (do_application raw) \<notin> set (s_approved_bundle_ids s)"
    | "do_permission raw = PermissionGranted" "raw_qualification raw \<noteq> Browser"
      "raw_qualification raw = Qualified \<longrightarrow> bundle_id (do_application raw) \<in> set (s_approved_bundle_ids s)" by blast
  then show thesis
  proof cases
    case 4
    note q = 4(3)
    show thesis
    proof (cases "hash_observation (e_digests env) ?ob")
      case (Inl e)
      then show thesis using assms(1) g 4(1,2) q iss
        by (intro issued [of s e es vault]; cases "raw_qualification raw = Qualified") (simp_all add: defs)
    next
      case h: (Inr h)
      obtain t dropped where "settle now allow raw s (observed_session now allow raw s) (?ob\<lparr>ob_observation_hash := h\<rparr>) = (t, dropped)"
        by fastforce
      moreover from this have "(r, st') = (Ok (?ob\<lparr>ob_observation_hash := h\<rparr>),
          put_session sid t (st\<lparr>m_references := (if dropped then invalidate_session sid vault else vault)\<rparr>))"
        using assms(1) 4(1,2) q iss h by (cases dropped; cases "raw_qualification raw = Qualified") (simp_all add: defs)
      ultimately show thesis using g q iss
        by (intro settled [of s "?ob\<lparr>ob_observation_hash := h\<rparr>" es vault t dropped]) blast+
    qed
  qed (use assms(1) g in \<open>auto intro: same perm browser simp: defs\<close>)
qed

lemma observed_session_ok:
  assumes "session_ok k s" "s_generation s < u64_max \<longrightarrow> s_state s \<noteq> Stopped"
  shows "session_ok k (observed_session now allow raw s)" "evolve s (observed_session now allow raw s)"
    "s_generation (observed_session now allow raw s) < u64_max \<longrightarrow> s_state (observed_session now allow raw s) \<noteq> Stopped"
proof -
  note b = before_issue_ok [OF assms, of now allow raw]
  show "session_ok k (observed_session now allow raw s)" "evolve s (observed_session now allow raw s)"
    using b bump_revision [of k "before_issue now allow raw s"] evolve_trans
    unfolding observed_session_def Let_def by blast+
  show "s_generation (observed_session now allow raw s) < u64_max \<longrightarrow> s_state (observed_session now allow raw s) \<noteq> Stopped"
    using assms(2) by (auto simp: observed_session_def Let_def before_issue_def paused_def)
qed

lemma issued_vault:
  assumes inv: "mgr_inv st" and s1: "s_session_id s1 = sid"
    and iss: "issue_all fresh i (observation_context s1 raw now) expires es (invalidate_session sid (m_references st)) = (oes, vault)"
  shows "hm_ok vault" "hm_get vault r = Some b \<Longrightarrow>
    (rb_session_id b \<noteq> sid \<and> hm_get (m_references st) r = Some b) \<or> bound_to b s1"
proof -
  have w: "hm_ok vault \<and> (\<forall>r b. hm_get vault r = Some b \<longrightarrow>
      hm_get (invalidate_session sid (m_references st)) r = Some b \<or> issued_from (observation_context s1 raw now) b)"
    using iss mgr_inv_vault [OF inv] by (intro issue_all_vault [OF _ iss]) simp
  then show "hm_ok vault" ..
  have "issued_from (observation_context s1 raw now) b \<Longrightarrow> bound_to b s1" for b
    by (simp add: issued_from_def observation_context_def bound_to_def)
  with w show "hm_get vault r = Some b \<Longrightarrow>
      (rb_session_id b \<noteq> sid \<and> hm_get (m_references st) r = Some b) \<or> bound_to b s1"
    using invalidate_session_get [OF mgr_inv_vault [OF inv]] by blast
qed

lemma apply_observation_inv:
  assumes inv: "mgr_inv st" and ap: "apply_observation env ids sid raw now allow st = (r, st')"
    and st: "\<And>s. hm_get (m_sessions st) sid = Some s \<Longrightarrow> s_generation s < u64_max \<longrightarrow> s_state s \<noteq> Stopped"
  shows "mgr_inv st' \<and> mgr_le st st'"
proof -
  have ok: "hm_get (m_sessions st) sid = Some s \<Longrightarrow> session_ok sid s" for s by (rule mgr_inv_session [OF inv])
  then have sid: "\<forall>s. hm_get (m_sessions st) sid = Some s \<longrightarrow> s_session_id s = sid" by (simp add: session_ok_def)
  from ap sid show ?thesis
  proof (cases rule: apply_observation_cases)
    case (perm s)
    note g = perm(1) and s = ok [OF perm(1)]
    show ?thesis
      unfolding perm(3) dropped_for_def using put_dropped_inv [OF inv paused_ok [OF session_ok_base [OF s]]]
        put_le [OF g paused_evolves [OF session_ok_gen [OF s] st [OF g]]] by blast
  next
    case (browser s)
    let ?t = "s\<lparr>s_state := SessionFailed, s_current_action := None, s_updated_at_ms := now\<rparr>"
    have "session_ok sid ?t" "evolve s ?t"
      using ok [OF browser(1)] st [OF browser(1)] by (auto simp: session_ok_def reason_ok_def evolve_def)
    then show ?thesis
      unfolding browser(3) dropped_for_def using put_dropped_inv [OF inv] put_le [OF browser(1)] by blast
  next
    case (issued s es vault e)
    note o1 = observed_session_ok [OF ok [OF issued(1)] st [OF issued(1)], of now allow raw]
    have "s_session_id (observed_session now allow raw s) = sid" using o1(1) by (simp add: session_ok_def)
    from issued_vault [OF inv this issued(3)] show ?thesis
      unfolding issued(4) using put_inv [OF inv o1(1)] put_le [OF issued(1) o1(2)] by blast
  next
    case (settled s es vault ob t dropped)
    note o1 = observed_session_ok [OF ok [OF settled(1)] st [OF settled(1)], of now allow raw]
    let ?s1 = "observed_session now allow raw s"
    have id1: "s_session_id ?s1 = sid" using o1(1) by (simp add: session_ok_def)
    note v = issued_vault [OF inv id1 settled(3)]
    have "session_ok sid t \<and> evolve ?s1 t \<and> (\<not> dropped \<longrightarrow> s_generation t = s_generation ?s1) \<and>
        s_revision t = s_revision ?s1 \<and> s_project_id t = s_project_id ?s1 \<and> s_task_run_id t = s_task_run_id ?s1"
      using settled(4,5) by (intro settle_ok [OF o1(1) ok [OF settled(1)] o1(3) _ _ _ _ _ _ settled(6)])
        (auto simp: observed_def raw_qualification_def observed_session_def Let_def)
    then have t: "session_ok sid t" "evolve s t" "\<not> dropped \<Longrightarrow> bound_to b ?s1 \<Longrightarrow> bound_to b t" for b
      using evolve_trans [OF o1(2)] id1 by (auto simp: bound_to_def session_ok_def)
    have "mgr_inv st'" unfolding settled(7)
    proof (rule put_inv [OF inv t(1)])
      show "hm_ok (if dropped then invalidate_session sid vault else vault)" using v(1) by simp
      fix r b assume a: "hm_get (if dropped then invalidate_session sid vault else vault) r = Some b"
      have "bound_to b ?s1 \<Longrightarrow> rb_session_id b = sid" using id1 by (simp add: bound_to_def)
      with a show "(rb_session_id b \<noteq> sid \<and> hm_get (m_references st) r = Some b) \<or> bound_to b t"
        using v(2) [of r b] t(3) [of b] invalidate_session_get [OF v(1), of sid r b] by (auto split: if_splits)
    qed
    then show ?thesis unfolding settled(7) using put_le [OF settled(1) t(2)] by blast
  qed (use inv in simp)
qed

subsection \<open>Calls in flight\<close>

text \<open>
  What a call that released the mutex may still rely on: its session exists, and as long as the
  generation it remembers is current, the session's state is in a given set.
\<close>

definition live :: "app_control_state set \<Rightarrow> string \<Rightarrow> nat \<Rightarrow> manager_state \<Rightarrow> bool" where
  "live Q sid g st \<longleftrightarrow> (\<exists>s. hm_get (m_sessions st) sid = Some s \<and> g \<le> s_generation s \<and>
     (s_generation s = g \<and> g < u64_max \<longrightarrow> s_state s \<in> Q))"

definition closed :: "app_control_state set \<Rightarrow> bool" where
  "closed Q \<longleftrightarrow> SessionFailed \<in> Q \<and> (Observing \<in> Q \<or> ReturnPending \<in> Q \<longrightarrow> Observing \<in> Q \<and> Running \<in> Q)"

lemma live_mono:
  assumes "live Q sid g st" "mgr_le st st'" "closed Q"
  shows "live Q sid g st'"
proof -
  from assms(1) obtain s where s: "hm_get (m_sessions st) sid = Some s" "g \<le> s_generation s"
    "s_generation s = g \<and> g < u64_max \<longrightarrow> s_state s \<in> Q" by (auto simp: live_def)
  with assms(2) obtain t where t: "hm_get (m_sessions st') sid = Some t" "evolve s t" by (auto simp: mgr_le_def)
  have "s_state t \<in> Q" if "s_generation t = g" "g < u64_max"
    using that s t(2) assms(3) by (auto simp: evolve_def closed_def)
  then show ?thesis using s t by (auto simp: live_def evolve_def intro: le_trans)
qed

lemma closed_sets: "closed (- {Stopped})" "closed {Running, SessionFailed}"
  by (simp_all add: closed_def)

lemma live_weaken: "live Q sid g st \<Longrightarrow> Q \<subseteq> Q' \<Longrightarrow> live Q' sid g st"
  unfolding live_def by blast

subsection \<open>Every stretch\<close>

definition kept :: "manager_state \<Rightarrow> manager_state \<Rightarrow> bool" where
  "kept st st' \<longleftrightarrow> mgr_inv st' \<and> mgr_le st st'"

lemma keptD: "kept st st' \<Longrightarrow> mgr_inv st'" "kept st st' \<Longrightarrow> mgr_le st st'"
  by (simp_all add: kept_def)

lemma kept_trans: "kept st st' \<Longrightarrow> kept st' st'' \<Longrightarrow> kept st st''"
  using mgr_le_trans by (auto simp: kept_def)

lemma kept_refl: "mgr_inv st \<Longrightarrow> kept st st"
  by (simp add: kept_def)

lemma kept_lock: "mgr_inv st \<Longrightarrow> kept st (lock env st)"
  using lock_inv by (simp add: kept_def)

lemma kept_same:
  assumes "kept st st'" "m_sessions st'' = m_sessions st'" "m_references st'' = m_references st'"
  shows "kept st st''"
  using assms by (simp add: kept_def mgr_inv_def sessions_ok_def vault_ok_def mgr_le_def)

lemma kept_fields [simp]:
  "kept st (st'\<lparr>m_active_session_id := a\<rparr>) = kept st st'"
  "kept st (put_session sid t (st'\<lparr>m_active_session_id := a, m_pending_file_grants := g\<rparr>)) = kept st (put_session sid t st')"
  "kept st (put_session sid t (st'\<lparr>m_receipts := rs\<rparr>)) = kept st (put_session sid t st')"
  by (simp_all add: kept_def mgr_inv_def sessions_ok_def vault_ok_def mgr_le_def put_session_def)

lemma session_for_Ok:
  "session_for sid task st = Ok s \<longleftrightarrow> hm_get (m_sessions st) sid = Some s \<and> s_task_run_id s = task"
  by (auto simp: session_for_def require_task_def result_simps)

lemma ensure_generation_Ok:
  "ensure_generation st sid task g revision = Ok u \<longleftrightarrow> (\<exists>s. hm_get (m_sessions st) sid = Some s \<and>
     s_task_run_id s = task \<and> s_generation s = g \<and> (\<forall>r. revision = Some r \<longrightarrow> s_revision s = r))"
  by (auto simp: ensure_generation_def result_simps session_for_Ok split: option.splits)

text \<open>A stretch that replaces its session by one with a new generation.\<close>

lemma kept_restated:
  assumes "mgr_inv st" "hm_get (m_sessions st) sid = Some s"
    and "session_ok sid t" "evolve s t"
  shows "kept st (put_session sid t (st\<lparr>m_references := invalidate_session (s_session_id s) (m_references st)\<rparr>))"
proof -
  have "s_session_id s = sid" using mgr_inv_session [OF assms(1,2)] by (simp add: session_ok_def)
  then show ?thesis
    unfolding kept_def using put_dropped_inv [OF assms(1,3)] put_le [OF assms(2,4)] by simp
qed

lemma kept_put:
  assumes "mgr_inv st" "hm_get (m_sessions st) sid = Some s" "session_ok sid t" "evolve s t"
    and "s_generation t = s_generation s" "s_revision t = s_revision s"
  shows "kept st (put_session sid t st)"
proof -
  have "bound_to b s \<Longrightarrow> bound_to b t" for b using assms(4-6) by (simp add: bound_to_def evolve_def)
  then show ?thesis
    unfolding kept_def using put_kept_inv [OF assms(1-3)] put_le [OF assms(2,4), of "m_references st"] by simp
qed

lemma grant_kept:
  assumes "mgr_inv st" "grant_selected_file env gid project task file st = (r, st')"
  shows "kept st st'"
  using assms kept_lock [OF assms(1), of env]
  by (auto simp: grant_selected_file_def Let_def kept_refl split: sum.splits intro: kept_same)

lemma new_session_ok: "session_ok sid (new_session sid project task approved fr now)"
  by (simp add: session_ok_def new_session_def reason_ok_def u64_max_def)

lemma start_kept:
  assumes "mgr_inv st" "start_session env sid req st = (r, st')" "hm_get (m_sessions st) sid = None"
  shows "kept st st'"
proof -
  let ?l = "lock env st"
  have none: "hm_get (m_sessions ?l) sid = None"
    using assms(3) by (simp add: lock_def lock_epoch_def lock_ready_def for_sessions_def Let_def split: option.splits)
  note l = kept_lock [OF assms(1), of env]
  have "kept st (put_session sid (new_session sid p t a fr now) ?l)" for p t a fr now
  proof (rule kept_trans [OF l])
    have inv: "mgr_inv ?l" using l by (rule keptD)
    have "mgr_inv (put_session sid (new_session sid p t a fr now) (?l\<lparr>m_references := m_references ?l\<rparr>))"
    proof (rule put_inv [OF inv new_session_ok])
      fix r b assume r: "hm_get (m_references ?l) r = Some b"
      with inv obtain s where "hm_get (m_sessions ?l) (rb_session_id b) = Some s" by (auto simp: mgr_inv_def vault_ok_def)
      with none have "rb_session_id b \<noteq> sid" by auto
      with r show "(rb_session_id b \<noteq> sid \<and> hm_get (m_references ?l) r = Some b) \<or> bound_to b (new_session sid p t a fr now)"
        by simp
    qed (rule mgr_inv_vault [OF inv])
    moreover have "mgr_le ?l (put_session sid (new_session sid p t a fr now) ?l)"
      using none by (auto simp: mgr_le_def put_session_def)
    ultimately show "kept ?l (put_session sid (new_session sid p t a fr now) ?l)" by (simp add: kept_def)
  qed
  then show ?thesis
    using assms(1,2) l
    by (auto simp: start_session_def Let_def kept_refl split: sum.splits)
qed

lemma control_kept:
  assumes "mgr_inv st" "control env sid task c st = (r, st')"
  shows "kept st st'"
proof -
  let ?l = "lock env st"
  note l = kept_lock [OF assms(1), of env]
  have step: "kept ?l (put_session sid (controlled now c s) (?l\<lparr>m_references := invalidate_session (s_session_id s) (m_references ?l)\<rparr>))"
    if "hm_get (m_sessions ?l) sid = Some s" "control_applies c (s_state s)" for s now
    using kept_restated [OF keptD(1) [OF l] that(1)] mgr_inv_session [OF keptD(1) [OF l] that(1)]
      controlled_ok controlled_evolves [OF session_ok_gen] that(2) by blast
  show ?thesis
    using assms(2) l kept_trans [OF l step]
    by (auto simp: control_def in_session_def Let_def session_for_Ok split: sum.splits if_splits)
qed

lemma notify_kept:
  assumes "mgr_inv st" "notify_user_input env sid task st = (r, st')"
  shows "kept st st'"
proof -
  let ?l = "lock env st"
  note l = kept_lock [OF assms(1), of env]
  have step: "kept ?l (put_session sid (paused now UserInput s) (?l\<lparr>m_references := invalidate_session (s_session_id s) (m_references ?l)\<rparr>))"
    if "hm_get (m_sessions ?l) sid = Some s" "active (s_state s)" for s now
    using that mgr_inv_session [OF keptD(1) [OF l] that(1)]
    by (intro kept_restated [OF keptD(1) [OF l]] paused_ok session_ok_base paused_evolves session_ok_gen) auto
  show ?thesis
    using assms(2) l kept_trans [OF l step]
    by (auto simp: notify_user_input_def in_session_def Let_def session_for_Ok split: sum.splits if_splits)
qed

lemma lock_only_kept:
  assumes "mgr_inv st"
  shows "kept st (snd (observe_begin env sid task st))" "kept st (snd (execute_check env req p st))"
    "kept st (snd (authority_request_for env req st))" "kept st (snd (get_status env ho t st))"
    "kept st (snd (receipt_of env rid t' st))"
  using kept_lock [OF assms] kept_refl [OF assms]
  by (auto simp: observe_begin_def execute_check_def authority_request_for_def get_status_def receipt_of_def
      in_session_def Let_def split: sum.splits option.splits)

lemma live_lock: "mgr_inv st \<Longrightarrow> live Q sid g st \<Longrightarrow> closed Q \<Longrightarrow> live Q sid g (lock env st)"
  using live_mono kept_lock keptD(2) by blast

lemma live_not_stopped:
  assumes "live (- {Stopped}) sid g st" "hm_get (m_sessions st) sid = Some s" "s_generation s = g"
  shows "s_generation s < u64_max \<longrightarrow> s_state s \<noteq> Stopped"
  using assms by (auto simp: live_def)

lemma driver_error_kept:
  assumes "mgr_inv st" "live (- {Stopped}) sid g st"
  shows "kept st (pause_for_driver_error env sid task g err st)"
proof -
  let ?l = "lock env st"
  note l = kept_lock [OF assms(1), of env]
  note lv = live_lock [OF assms closed_sets(1), of env]
  have step: "kept ?l (put_session sid (paused now reason s) (?l\<lparr>m_references := invalidate_session (s_session_id s) (m_references ?l)\<rparr>))"
    if "hm_get (m_sessions ?l) sid = Some s" "s_generation s = g" for s now reason
    using live_not_stopped [OF lv that] mgr_inv_session [OF keptD(1) [OF l] that(1)]
    by (intro kept_restated [OF keptD(1) [OF l] that(1)] paused_ok session_ok_base paused_evolves session_ok_gen) auto
  show ?thesis
    using l kept_trans [OF l step] by (auto simp: pause_for_driver_error_def Let_def split: option.splits)
qed

lemma observe_finish_kept:
  assumes "mgr_inv st" "live (- {Stopped}) sid g st" "observe_finish env ids sid task g raw st = (r, st')"
  shows "kept st st'"
proof -
  let ?l = "lock env st"
  note l = kept_lock [OF assms(1), of env]
  note lv = live_lock [OF assms(1,2) closed_sets(1), of env]
  have step: "kept ?l st1" if "ensure_generation ?l sid task g None = Ok u"
    "apply_observation env ids sid raw now False ?l = (r1, st1)" for u now r1 st1
    unfolding kept_def
    using that live_not_stopped [OF lv]
    by (intro apply_observation_inv [OF keptD(1) [OF l] that(2)]) (auto simp: ensure_generation_Ok)
  show ?thesis
    using assms(3) l kept_trans [OF l step]
    by (auto simp: observe_finish_def Let_def split: sum.splits prod.splits)
qed

lemma prepare_kept:
  assumes "mgr_inv st" "execute_prepare env req st = (r, st')"
  shows "kept st st'"
proof -
  let ?l = "lock env st"
  note l = kept_lock [OF assms(1), of env]
  have step: "kept ?l (put_session sid (paused now HiddenWindowPause s) (?l\<lparr>m_references := invalidate_session (s_session_id s) (m_references ?l)\<rparr>))"
    if "hm_get (m_sessions ?l) sid = Some s" "s_state s = Running" for sid s now
    using that mgr_inv_session [OF keptD(1) [OF l] that(1)]
    by (intro kept_restated [OF keptD(1) [OF l]] paused_ok session_ok_base paused_evolves session_ok_gen) auto
  show ?thesis
    using assms(2) l kept_trans [OF l step]
    by (auto simp: execute_prepare_def in_session_def Let_def session_for_Ok split: sum.splits if_splits option.splits)
qed

lemma dispatch_kept:
  assumes "mgr_inv st" "execute_dispatch env req p ie st = (r, st')"
  shows "kept st st'"
proof -
  let ?l = "lock env st"
  note l = kept_lock [OF assms(1), of env]
  have step: "kept ?l (put_session sid (s\<lparr>s_current_action := a, s_updated_at_ms := now\<rparr>) ?l)"
    if "hm_get (m_sessions ?l) sid = Some s" "s_state s = Running" for sid s a now
    using that mgr_inv_session [OF keptD(1) [OF l] that(1)]
    by (intro kept_put [OF keptD(1) [OF l]]) (auto simp: session_ok_def ready_to_act_def evolve_def)
  show ?thesis
    using assms(2) l kept_trans [OF l step]
    by (auto simp: execute_dispatch_def Let_def split: sum.splits if_splits option.splits)
qed

lemma cleared_ok:
  assumes "session_ok k s"
  shows "session_ok k (s\<lparr>s_current_action := None, s_last_outcome := o', s_updated_at_ms := now\<rparr>)"
    "session_ok k (s\<lparr>s_current_action := None, s_mismatch_count := n, s_last_outcome := o', s_updated_at_ms := now\<rparr>)"
    "session_ok k (s\<lparr>s_current_action := None, s_mismatch_count := n\<rparr>)"
  using assms by (auto simp: session_ok_def ready_to_act_def)

lemma failure_kept:
  assumes "mgr_inv st"
  shows "kept st (record_action_failure env rid req p d err st)"
proof -
  let ?l = "lock env st"
  note l = kept_lock [OF assms(1), of env]
  have step: "kept ?l (put_session sid (s\<lparr>s_current_action := None, s_last_outcome := o', s_updated_at_ms := now\<rparr>) ?l)"
    if "hm_get (m_sessions ?l) sid = Some s" for sid s o' now
    using cleared_ok(1) [OF mgr_inv_session [OF keptD(1) [OF l] that]]
    by (intro kept_put [OF keptD(1) [OF l] that]) (auto simp: evolve_def)
  show ?thesis
    using l kept_trans [OF l step]
    by (auto simp: record_action_failure_def Let_def split: option.splits)
qed

lemma mismatched_kept:
  assumes inv: "mgr_inv st" and g: "hm_get (m_sessions st) sid = Some s"
    and ns: "s_generation s < u64_max \<longrightarrow> s_state s \<noteq> Stopped" and m: "mismatched now s = (t, dropped)"
  shows "kept st (put_session sid t (if dropped
    then st\<lparr>m_references := invalidate_session (s_session_id s) (m_references st)\<rparr> else st))"
proof -
  define s1 where "s1 = s\<lparr>s_current_action := None, s_mismatch_count := min 255 (s_mismatch_count s + 1)\<rparr>"
  have ok: "session_ok sid s" using inv g by (rule mgr_inv_session)
  have s1: "session_ok sid s1" "evolve s s1" using cleared_ok(3) [OF ok] by (auto simp: s1_def evolve_def)
  have "t = paused now RepeatedMismatch s1 \<and> dropped \<or> t = s1 \<and> \<not> dropped"
    using m by (auto simp: mismatched_def Let_def s1_def split: if_splits)
  then show ?thesis
  proof
    assume t: "t = paused now RepeatedMismatch s1 \<and> dropped"
    have "evolve s t" using t ns evolve_trans [OF s1(2) paused_evolves [OF session_ok_gen [OF s1(1)]]] by (simp add: s1_def)
    then show ?thesis using t kept_restated [OF inv g] paused_ok [OF session_ok_base [OF s1(1)]] by simp
  next
    assume t: "t = s1 \<and> \<not> dropped"
    then show ?thesis using kept_put [OF inv g s1] by (simp add: s1_def)
  qed
qed

lemma apply_observation_stopped:
  assumes "mgr_inv st" "apply_observation env ids sid raw now allow st = (r, st')"
    and "hm_get (m_sessions st) sid = Some s" "s_generation s < u64_max \<longrightarrow> s_state s \<noteq> Stopped"
    and "r = Ok ob" "hm_get (m_sessions st') sid = Some t"
  shows "s_generation t < u64_max \<longrightarrow> s_state t \<noteq> Stopped"
proof -
  have ok: "session_ok sid s" using assms(1,3) by (rule mgr_inv_session)
  then have sid: "\<forall>s. hm_get (m_sessions st) sid = Some s \<longrightarrow> s_session_id s = sid" using assms(3) by (simp add: session_ok_def)
  note o1 = observed_session_ok [OF ok assms(4), of now allow raw]
  from assms(2) sid show ?thesis
  proof (cases rule: apply_observation_cases)
    case (settled s' es vault ob' t' dropped)
    then have "settle now allow raw s (observed_session now allow raw s) ob' = (t, dropped)"
      using assms(3,6) by (auto simp: put_session_def)
    then show ?thesis
      using o1(3) by (auto simp: settle_def Let_def paused_def resumed_def split: if_splits)
  qed (use assms(5) in simp_all)
qed

lemma execute_finish_kept:
  assumes "mgr_inv st" "live (- {Stopped}) (x_session_id req) (p_generation p) st"
    and "execute_finish env ids rid req p d result raw st = (r, st')"
  shows "kept st st'"
proof -
  let ?l = "lock env st" and ?sid = "x_session_id req"
  note l = kept_lock [OF assms(1), of env]
  note lv = live_lock [OF assms(1,2) closed_sets(1), of env]
  show ?thesis
  proof (cases "ensure_generation ?l ?sid (x_task_run_id req) (p_generation p) (Some (ob_revision (p_before p)))")
    case (Inl e)
    then show ?thesis using assms(3) l by (simp add: execute_finish_def Let_def)
  next
    case en: (Inr u)
    then obtain s where s: "hm_get (m_sessions ?l) ?sid = Some s" "s_generation s = p_generation p"
      by (auto simp: ensure_generation_Ok)
    note ns = live_not_stopped [OF lv s]
    obtain r1 st1 where ap: "apply_observation env ids ?sid raw (e_clock env 2) (x_expected_outcome req = WindowState) ?l = (r1, st1)"
      by fastforce
    have k1: "kept ?l st1" unfolding kept_def
      using ns s(1) by (intro apply_observation_inv [OF keptD(1) [OF l] ap]) simp
    note k = kept_trans [OF l k1]
    show ?thesis
    proof (cases r1)
      case (Inl e)
      then show ?thesis using assms(3) en ap k by (simp add: execute_finish_def Let_def)
    next
      case (Inr ob)
      show ?thesis
      proof (cases "hm_get (m_sessions st1) ?sid")
        case None
        then show ?thesis using assms(3) en ap Inr k by (simp add: execute_finish_def Let_def)
      next
        case (Some s1)
        have c: "kept st (put_session ?sid (s1\<lparr>s_current_action := None, s_mismatch_count := 0, s_last_outcome := o', s_updated_at_ms := now\<rparr>) st1)"
          for o' now
          using cleared_ok(2) [OF mgr_inv_session [OF keptD(1) [OF k] Some]]
          by (intro kept_trans [OF k] kept_put [OF keptD(1) [OF k] Some]) (auto simp: evolve_def)
        obtain t dropped where m: "mismatched (e_clock env 3) s1 = (t, dropped)" by fastforce
        have "kept st (put_session ?sid t (if dropped
            then st1\<lparr>m_references := invalidate_session (s_session_id s1) (m_references st1)\<rparr> else st1))"
          using mismatched_kept [OF keptD(1) [OF k] Some apply_observation_stopped [OF keptD(1) [OF l] ap s(1) ns Inr Some] m]
          by (rule kept_trans [OF k])
        then have "dropped \<Longrightarrow> kept st (put_session ?sid t (st1\<lparr>m_references := invalidate_session (s_session_id s1) (m_references st1)\<rparr>))"
          "\<not> dropped \<Longrightarrow> kept st (put_session ?sid t st1)" by simp_all
        with assms(3) en ap Inr Some m k c show ?thesis
          by (auto simp: execute_finish_def Let_def split: sum.splits if_splits)
      qed
    qed
  qed
qed

end
