(* ===== verification/App_Control_Runs.thy ===== *)
theory App_Control_Runs
  imports App_Control_Inv Transition_System
begin

text \<open>
  Concurrent runs of app control. A system state holds the manager, the input monitor, the
  authority, the calls that are between two stretches, and two histories: how many reviews the user
  has approved and the effects the native driver has committed. The step relation interleaves the stretches of any number of calls with the user's
  controls and physical input.

  The driver is the trait \<open>DesktopDriver\<close>: it may fail at any time, and it commits an effect only
  while the cancellation token of the request is not cancelled, which the trait's documentation
  demands of every implementation. Grants, revocations and the authorizations of other callers may
  change the scope store at any time (\<open>scopes_change\<close>); the order of rows that SQL leaves open is any
  permutation. A new session's identifier is fresh (192 random bits).
\<close>

subsection \<open>Systems\<close>

datatype call =
  ObserveCall string string nat
| ReviewCall authority_request
| StartedCall execute_request "nat option"
| PreparedCall execute_request prepared "nat option"
| AuthorizedCall execute_request prepared "nat option" authority_decision
| DispatchedCall execute_request prepared authority_decision driver_action_request
| CommittedCall execute_request prepared authority_decision driver_action_request
| PerformedCall execute_request prepared authority_decision driver_action_result
| CheckedCall execute_request prepared authority_decision driver_action_result

record app_system =
  y_mgr :: manager_state
  y_epoch :: "nat option"
  y_ready :: "bool option"
  y_authority :: authority_state
  y_calls :: "call list"
  y_reviews :: nat
  y_effects :: "driver_action_request list"

definition env_of :: "app_system \<Rightarrow> app_env \<Rightarrow> bool" where
  "env_of y e \<longleftrightarrow> e_ready e = y_ready y \<and> e_epoch e = y_epoch y"

text \<open>The uses the audit table of the scopes records.\<close>

definition uses :: "scope_store \<Rightarrow> nat" where
  "uses store = length (filter (\<lambda>a. a_event_type a = Used) (audits store))"

text \<open>\<open>decision.authorized\<close> and a decision identifier that is not blank.\<close>

definition decided :: "authority_decision \<Rightarrow> bool" where
  "decided d = (\<not> (\<not> ad_authorized d \<or> blank (ad_decision_id d)))"

inductive app_step :: "app_system \<Rightarrow> app_system \<Rightarrow> bool" where
  input: "(ep = None) = (y_epoch y = None) \<Longrightarrow> (rd = None) = (y_ready y = None) \<Longrightarrow>
    app_step y (y\<lparr>y_epoch := ep, y_ready := rd\<rparr>)"
| grant_file: "env_of y e \<Longrightarrow> grant_selected_file e gid project task file (y_mgr y) = (r, st) \<Longrightarrow>
    app_step y (y\<lparr>y_mgr := st\<rparr>)"
| start: "env_of y e \<Longrightarrow> hm_get (m_sessions (y_mgr y)) sid = None \<Longrightarrow>
    start_session e sid sreq (y_mgr y) = (r', st) \<Longrightarrow> app_step y (y\<lparr>y_mgr := st\<rparr>)"
| status: "env_of y e \<Longrightarrow> st = snd (get_status e ho t (y_mgr y)) \<Longrightarrow> app_step y (y\<lparr>y_mgr := st\<rparr>)"
| receipt: "env_of y e \<Longrightarrow> st = snd (receipt_of e rid t' (y_mgr y)) \<Longrightarrow> app_step y (y\<lparr>y_mgr := st\<rparr>)"
| user_control: "env_of y e \<Longrightarrow> control e sid task c (y_mgr y) = (r', st) \<Longrightarrow> app_step y (y\<lparr>y_mgr := st\<rparr>)"
| user_input: "env_of y e \<Longrightarrow> notify_user_input e sid task (y_mgr y) = (r', st) \<Longrightarrow> app_step y (y\<lparr>y_mgr := st\<rparr>)"
| observe_begins: "env_of y e \<Longrightarrow> observe_begin e sid task (y_mgr y) = (Ok g, st) \<Longrightarrow>
    app_step y (y\<lparr>y_mgr := st, y_calls := ObserveCall sid task g # y_calls y\<rparr>)"
| observe_refused: "env_of y e \<Longrightarrow> observe_begin e sid task (y_mgr y) = (Err err, st) \<Longrightarrow>
    app_step y (y\<lparr>y_mgr := st\<rparr>)"
| observe_fails: "env_of y e \<Longrightarrow> y_calls y = xs @ ObserveCall sid task g # ys \<Longrightarrow>
    app_step y (y\<lparr>y_mgr := pause_for_driver_error e sid task g err (y_mgr y), y_calls := xs @ ys\<rparr>)"
| observe_ends: "env_of y e \<Longrightarrow> y_calls y = xs @ ObserveCall sid task g # ys \<Longrightarrow>
    observe_finish e ids sid task g raw (y_mgr y) = (ro, st) \<Longrightarrow>
    app_step y (y\<lparr>y_mgr := st, y_calls := xs @ ys\<rparr>)"
| review_begins: "env_of y e \<Longrightarrow> authority_request_for e req (y_mgr y) = (Ok au, st) \<Longrightarrow>
    app_step y (y\<lparr>y_mgr := st, y_calls := ReviewCall au # y_calls y\<rparr>)"
| review_refused: "env_of y e \<Longrightarrow> authority_request_for e req (y_mgr y) = (Err err, st) \<Longrightarrow>
    app_step y (y\<lparr>y_mgr := st\<rparr>)"
| review_denied: "y_calls y = xs @ ReviewCall au # ys \<Longrightarrow> app_step y (y\<lparr>y_calls := xs @ ys\<rparr>)"
| review_approved: "y_calls y = xs @ ReviewCall au # ys \<Longrightarrow>
    app_step y (y\<lparr>y_authority := register_direct_approval au (y_authority y), y_calls := xs @ ys,
      y_reviews := Suc (y_reviews y)\<rparr>)"
| execute_begins: "app_step y (y\<lparr>y_calls := StartedCall req (y_epoch y) # y_calls y\<rparr>)"
| execute_refused: "env_of y e \<Longrightarrow> y_calls y = xs @ StartedCall req ie # ys \<Longrightarrow>
    execute_prepare e req (y_mgr y) = (Err err, st) \<Longrightarrow> app_step y (y\<lparr>y_mgr := st, y_calls := xs @ ys\<rparr>)"
| execute_prepares: "env_of y e \<Longrightarrow> y_calls y = xs @ StartedCall req ie # ys \<Longrightarrow>
    execute_prepare e req (y_mgr y) = (Ok p, st) \<Longrightarrow>
    app_step y (y\<lparr>y_mgr := st, y_calls := xs @ PreparedCall req p ie # ys\<rparr>)"
| scopes_change: "store_inv store \<Longrightarrow> uses (snd (y_authority y)) \<le> uses store \<Longrightarrow>
    app_step y (y\<lparr>y_authority := (fst (y_authority y), store)\<rparr>)"
| unauthorized: "y_calls y = xs @ PreparedCall req p ie # ys \<Longrightarrow> permuting (sc_ties sc) \<Longrightarrow>
    evaluate sc (p_authority p) (y_authority y) = (rd', au') \<Longrightarrow> (\<forall>d. rd' = Ok d \<longrightarrow> \<not> decided d) \<Longrightarrow>
    app_step y (y\<lparr>y_authority := au', y_calls := xs @ ys\<rparr>)"
| authorized: "y_calls y = xs @ PreparedCall req p ie # ys \<Longrightarrow> permuting (sc_ties sc) \<Longrightarrow>
    evaluate sc (p_authority p) (y_authority y) = (Ok d, au') \<Longrightarrow> decided d \<Longrightarrow>
    app_step y (y\<lparr>y_authority := au', y_calls := xs @ AuthorizedCall req p ie d # ys\<rparr>)"
| dispatch_refused: "env_of y e \<Longrightarrow> y_calls y = xs @ AuthorizedCall req p ie d # ys \<Longrightarrow>
    execute_dispatch e req p ie (y_mgr y) = (Err err, st) \<Longrightarrow> app_step y (y\<lparr>y_mgr := st, y_calls := xs @ ys\<rparr>)"
| dispatches: "env_of y e \<Longrightarrow> y_calls y = xs @ AuthorizedCall req p ie d # ys \<Longrightarrow>
    execute_dispatch e req p ie (y_mgr y) = (Ok da, st) \<Longrightarrow>
    app_step y (y\<lparr>y_mgr := st, y_calls := xs @ DispatchedCall req p d da # ys\<rparr>)"
| commits: "y_calls y = xs @ DispatchedCall req p d da # ys \<Longrightarrow>
    \<not> cancelled (y_mgr y) (y_epoch y) (da_cancellation da) \<Longrightarrow>
    app_step y (y\<lparr>y_calls := xs @ CommittedCall req p d da # ys, y_effects := y_effects y @ [da]\<rparr>)"
| driver_fails: "env_of y e \<Longrightarrow> y_calls y = xs @ c' # ys \<Longrightarrow>
    c' \<in> {DispatchedCall req p d da, CommittedCall req p d da} \<Longrightarrow>
    app_step y (y\<lparr>y_mgr := record_action_failure e rid req p d derr (y_mgr y), y_calls := xs @ ys\<rparr>)"
| driver_returns: "y_calls y = xs @ CommittedCall req p d da # ys \<Longrightarrow>
    app_step y (y\<lparr>y_calls := xs @ PerformedCall req p d res # ys\<rparr>)"
| check_fails: "env_of y e \<Longrightarrow> y_calls y = xs @ PerformedCall req p d res # ys \<Longrightarrow>
    execute_check e req p (y_mgr y) = (Err err, st) \<Longrightarrow> app_step y (y\<lparr>y_mgr := st, y_calls := xs @ ys\<rparr>)"
| checks: "env_of y e \<Longrightarrow> y_calls y = xs @ PerformedCall req p d res # ys \<Longrightarrow>
    execute_check e req p (y_mgr y) = (Ok u, st) \<Longrightarrow>
    app_step y (y\<lparr>y_mgr := st, y_calls := xs @ CheckedCall req p d res # ys\<rparr>)"
| after_fails: "env_of y e \<Longrightarrow> y_calls y = xs @ CheckedCall req p d res # ys \<Longrightarrow>
    app_step y (y\<lparr>y_mgr := record_action_failure e rid req p d derr (y_mgr y), y_calls := xs @ ys\<rparr>)"
| finishes: "env_of y e \<Longrightarrow> y_calls y = xs @ CheckedCall req p d res # ys \<Longrightarrow>
    execute_finish e ids rid req p d res raw (y_mgr y) = (rr, st) \<Longrightarrow>
    app_step y (y\<lparr>y_mgr := st, y_calls := xs @ ys\<rparr>)"

definition initial :: "nat option \<Rightarrow> bool option \<Rightarrow> scope_store \<Rightarrow> app_system" where
  "initial ep rd store = \<lparr>y_mgr = manager_default\<lparr>m_acknowledged_input_epoch := (case ep of None \<Rightarrow> 0 | Some n \<Rightarrow> n)\<rparr>,
     y_epoch = ep, y_ready = rd, y_authority = ([], store), y_calls = [], y_reviews = 0, y_effects = []\<rparr>"

subsection \<open>What a call in flight rests on\<close>

text \<open>The part of a prepared action that no later step can change.\<close>

definition vetted :: "session_record \<Rightarrow> execute_request \<Rightarrow> prepared \<Rightarrow> bool" where
  "vetted s req p \<longleftrightarrow> p_action p = x_action req \<and>
     bundle_id (ob_application (p_before p)) \<in> set (s_approved_bundle_ids s) \<and>
     validate_typed_adapter (bundle_id (ob_application (p_before p))) (p_action p) = Ok () \<and>
     outcome_qualified (p_action p) (x_expected_outcome req) \<and>
     length (p_targets p) = length (references (p_action p)) \<and> (\<forall>t \<in> set (p_targets p). \<not> dt_secure t) \<and>
     au_project_id (p_authority p) = s_project_id s \<and> au_task_run_id (p_authority p) = s_task_run_id s \<and>
     au_session_id (p_authority p) = s_session_id s \<and>
     au_bundle_id (p_authority p) = bundle_id (ob_application (p_before p)) \<and>
     au_action_kind (p_authority p) = kind (p_action p)"

definition prep_ok :: "manager_state \<Rightarrow> execute_request \<Rightarrow> prepared \<Rightarrow> bool" where
  "prep_ok st req p \<longleftrightarrow> live {Running, SessionFailed} (x_session_id req) (p_generation p) st \<and>
     (\<exists>s. hm_get (m_sessions st) (x_session_id req) = Some s \<and> vetted s req p)"

definition request_ok :: "execute_request \<Rightarrow> prepared \<Rightarrow> driver_action_request \<Rightarrow> bool" where
  "request_ok req p da \<longleftrightarrow> da_session_id da = x_session_id req \<and> da_action da = p_action p \<and>
     da_targets da = p_targets p \<and> da_application da = ob_application (p_before p) \<and>
     da_selected_file da = p_selected_file p \<and> da_expected_outcome da = x_expected_outcome req \<and>
     tok_session_id (da_cancellation da) = x_session_id req \<and>
     (p_generation p < u64_max \<longrightarrow> tok_expected (da_cancellation da) = p_generation p)"

fun call_ok :: "manager_state \<Rightarrow> call \<Rightarrow> bool" where
  "call_ok st (ObserveCall sid task g) = live (- {Stopped}) sid g st"
| "call_ok st (ReviewCall au) = True"
| "call_ok st (StartedCall req ie) = True"
| "call_ok st (PreparedCall req p ie) = prep_ok st req p"
| "call_ok st (AuthorizedCall req p ie d) = (prep_ok st req p \<and> decided d)"
| "call_ok st (DispatchedCall req p d da) = (prep_ok st req p \<and> decided d \<and> request_ok req p da)"
| "call_ok st (CommittedCall req p d da) = (prep_ok st req p \<and> decided d \<and> request_ok req p da)"
| "call_ok st (PerformedCall req p d res) = (prep_ok st req p \<and> decided d)"
| "call_ok st (CheckedCall req p d res) = (prep_ok st req p \<and> decided d)"

definition effect_ok :: "manager_state \<Rightarrow> driver_action_request \<Rightarrow> bool" where
  "effect_ok st da \<longleftrightarrow> (\<exists>req p. prep_ok st req p \<and> request_ok req p da)"

definition sys_ok :: "app_system \<Rightarrow> bool" where
  "sys_ok y \<longleftrightarrow> mgr_inv (y_mgr y) \<and> (\<forall>c \<in> set (y_calls y). call_ok (y_mgr y) c) \<and>
     (\<forall>da \<in> set (y_effects y). effect_ok (y_mgr y) da)"

lemma vetted_evolve: "vetted s req p \<Longrightarrow> evolve s t \<Longrightarrow> vetted t req p"
  unfolding vetted_def evolve_def by (elim conjE) (intro conjI; simp only:)

lemma prep_ok_mono: "prep_ok st req p \<Longrightarrow> mgr_le st st' \<Longrightarrow> prep_ok st' req p"
  unfolding prep_ok_def using live_mono [OF _ _ closed_sets(2)] vetted_evolve unfolding mgr_le_def by meson

lemma call_ok_mono: "call_ok st c \<Longrightarrow> mgr_le st st' \<Longrightarrow> call_ok st' c"
  using prep_ok_mono live_mono [OF _ _ closed_sets(1)] by (cases c) auto

lemma effect_ok_mono: "effect_ok st da \<Longrightarrow> mgr_le st st' \<Longrightarrow> effect_ok st' da"
  unfolding effect_ok_def using prep_ok_mono by blast

lemma prep_live: "prep_ok st req p \<Longrightarrow> live (- {Stopped}) (x_session_id req) (p_generation p) st"
  unfolding prep_ok_def by (auto intro: live_weaken)

definition sys_step :: "app_system \<Rightarrow> app_system \<Rightarrow> bool" where
  "sys_step y y' \<longleftrightarrow> sys_ok y' \<and> mgr_le (y_mgr y) (y_mgr y')"

lemma sys_okD:
  assumes "sys_ok y"
  shows "mgr_inv (y_mgr y)" "c \<in> set (y_calls y) \<Longrightarrow> call_ok (y_mgr y) c"
  using assms by (simp_all add: sys_ok_def)

text \<open>A stretch of the manager, which leaves the other calls alone.\<close>

lemma sys_step_kept:
  assumes "sys_ok y" "kept (y_mgr y) st" "\<And>c. c \<in> set cs \<Longrightarrow> c \<in> set (y_calls y) \<or> call_ok st c"
  shows "sys_step y (y\<lparr>y_mgr := st, y_calls := cs\<rparr>)"
  using assms call_ok_mono [OF _ keptD(2) [OF assms(2)]] effect_ok_mono [OF _ keptD(2) [OF assms(2)]] keptD [OF assms(2)]
  by (auto simp: sys_ok_def sys_step_def)

lemma sys_step_only:
  assumes "sys_ok y" "kept (y_mgr y) st"
  shows "sys_step y (y\<lparr>y_mgr := st\<rparr>)"
  using sys_step_kept [OF assms, of "y_calls y"] by simp

text \<open>A step that leaves the manager alone.\<close>

lemma sys_step_calls:
  assumes "sys_ok y" "\<And>c. c \<in> set (y_calls y') \<Longrightarrow> c \<in> set (y_calls y) \<or> call_ok (y_mgr y) c"
    and "y_mgr y' = y_mgr y" "\<And>da. da \<in> set (y_effects y') \<Longrightarrow> da \<in> set (y_effects y) \<or> effect_ok (y_mgr y) da"
  shows "sys_step y y'"
  using assms by (auto simp: sys_ok_def sys_step_def)

lemma resolve_all_Ok:
  "resolve_all k modal cx vault rs = Ok ts \<Longrightarrow> length ts = length rs \<and> (\<forall>t \<in> set ts. \<not> dt_secure t)"
  by (induction rs arbitrary: ts) (auto simp: result_simps resolve_reference_Ok)

lemma ex_unit_Ok: "(\<exists>x. r = Ok (x :: unit)) \<longleftrightarrow> r = Ok ()"
  by auto

lemma prepare_action_parts:
  "prepare_action env now req s before vault = Ok p \<longleftrightarrow>
     bundle_id (ob_application before) \<in> set (s_approved_bundle_ids s) \<and>
     validate_typed_adapter (bundle_id (ob_application before)) (x_action req) = Ok () \<and>
     validate_expected_outcome (x_action req) (x_expected_outcome req) = Ok () \<and>
     (\<exists>a selected h ts. normalize_action (e_fs env) (x_action req) (s_file_roots s) = Ok a \<and>
        \<not> (is_choose_file a \<and> \<not> window_modal (ob_window before)) \<and>
        resolved_file_for_action (e_fs env) a (s_file_roots s) = Ok selected \<and>
        hash_action_binding (e_digests env) a selected = Ok h \<and>
        resolve_all (kind a) (window_modal (ob_window before)) (reference_context_of s before now) vault
          (references a) = Ok ts \<and>
        \<not> (is_choose_file a \<and> list_ex (\<lambda>t. \<not> dt_in_modal t) ts) \<and>
        \<lparr>p_before = before, p_action = a, p_targets = ts, p_selected_file = selected,
          p_target_label = (case a of ChooseFile _ gid \<Rightarrow> granted_file_name gid (s_file_roots s) | _ \<Rightarrow> None),
          p_authority = \<lparr>au_project_id = s_project_id s, au_task_run_id = s_task_run_id s,
            au_session_id = s_session_id s, au_bundle_id = bundle_id (ob_application before),
            au_action_kind = kind a, au_action_arguments_hash = h, au_will_change_data = will_change_data a\<rparr>,
          p_generation = s_generation s\<rparr> = p)"
  by (simp only: prepare_action_def Let_def and_then_eq_Ok ensure_eq_Ok ex_unit_Ok sum.inject ex_simps simp_thms)

lemma prepare_action_vetted:
  assumes "prepare_action env now req s before vault = Ok p"
  shows "vetted s req p \<and> p_generation p = s_generation s \<and> p_before p = before"
proof -
  from assms [unfolded prepare_action_parts] obtain a selected h ts where
    n: "normalize_action (e_fs env) (x_action req) (s_file_roots s) = Ok a"
    and r: "resolve_all (kind a) (window_modal (ob_window before)) (reference_context_of s before now) vault
          (references a) = Ok ts"
    and g: "bundle_id (ob_application before) \<in> set (s_approved_bundle_ids s)"
      "validate_typed_adapter (bundle_id (ob_application before)) (x_action req) = Ok ()"
      "validate_expected_outcome (x_action req) (x_expected_outcome req) = Ok ()"
    and p: "\<lparr>p_before = before, p_action = a, p_targets = ts, p_selected_file = selected,
          p_target_label = (case a of ChooseFile _ gid \<Rightarrow> granted_file_name gid (s_file_roots s) | _ \<Rightarrow> None),
          p_authority = \<lparr>au_project_id = s_project_id s, au_task_run_id = s_task_run_id s,
            au_session_id = s_session_id s, au_bundle_id = bundle_id (ob_application before),
            au_action_kind = kind a, au_action_arguments_hash = h, au_will_change_data = will_change_data a\<rparr>,
          p_generation = s_generation s\<rparr> = p" by blast
  have a: "a = x_action req" using n by (rule normalize_action_Ok)
  from g resolve_all_Ok [OF r] show ?thesis
    by (simp add: p [symmetric] a vetted_def validate_expected_outcome_def ensure_eq_Ok)
qed

lemma prepared_ok:
  assumes "mgr_inv st" "execute_prepare env req st = (Ok p, st')"
  shows "prep_ok st' req p"
proof -
  let ?l = "lock env st"
  from assms(2) obtain s where s: "session_for (x_session_id req) (x_task_run_id req) ?l = Ok s"
    by (cases "session_for (x_session_id req) (x_task_run_id req) ?l") (simp_all add: execute_prepare_def in_session_def Let_def)
  with assms(2) obtain before where b: "s_last_observation s = Some before" "s_state s = Running"
    by (cases "s_last_observation s") (auto simp: execute_prepare_def in_session_def Let_def split: if_splits)
  with assms(2) s have p: "prepare_action env (e_clock env 2) req s before (m_references ?l) = Ok p" "st' = ?l"
    by (auto simp: execute_prepare_def in_session_def Let_def split: if_splits)
  with s b prepare_action_vetted [OF p(1)] show ?thesis by (auto simp: prep_ok_def live_def session_for_Ok)
qed

lemma dispatched_ok:
  assumes "mgr_inv st" "execute_dispatch env req p ie st = (Ok da, st')"
  shows "request_ok req p da"
proof -
  have inv: "mgr_inv (lock env st)" using kept_lock [OF assms(1)] keptD(1) by blast
  from assms(2) obtain s where s: "hm_get (m_sessions (lock env st)) (x_session_id req) = Some s"
    "s_generation s = p_generation p" "da = \<lparr>da_session_id = s_session_id s, da_project_id = s_project_id s,
                      da_task_run_id = s_task_run_id s, da_application = ob_application (p_before p),
                      da_window = ob_window (p_before p), da_action = p_action p,
                      da_expected_outcome = x_expected_outcome req, da_targets = p_targets p,
                      da_selected_file = p_selected_file p,
                      da_cancellation = \<lparr>tok_session_id = x_session_id req, tok_expected = s_cancellation_epoch s,
                        tok_input_epoch = ie\<rparr>\<rparr>"
    by (auto simp: execute_dispatch_def Let_def ensure_generation_Ok split: sum.splits option.splits if_splits)
  with mgr_inv_session [OF inv s(1)] show ?thesis by (simp add: request_ok_def session_ok_def)
qed

lemma begun_live:
  assumes "observe_begin env sid task st = (Ok g, st')"
  shows "live (- {Stopped}) sid g st'"
  using assms by (auto simp: observe_begin_def in_session_def Let_def session_for_Ok live_def split: sum.splits if_splits)

lemma app_step_sys:
  assumes ok: "sys_ok y" and st: "app_step y y'"
  shows "sys_step y y'"
proof -
  note inv = sys_okD(1) [OF ok] and calls = sys_okD(2) [OF ok] and only = lock_only_kept [OF sys_okD(1) [OF ok]]
  from st show ?thesis
  proof cases
    case (observe_begins e sid task g st)
    then show ?thesis using only(1) [of e sid task] begun_live [of e sid task "y_mgr y" g st]
      by (auto intro!: sys_step_kept [OF ok])
  next
    case (observe_refused e sid task err st)
    then show ?thesis using only(1) [of e sid task] by (auto intro!: sys_step_only [OF ok])
  next
    case (observe_fails e xs sid task g ys err)
    then show ?thesis using driver_error_kept [OF inv, of sid g] calls [of "ObserveCall sid task g"]
      by (auto intro!: sys_step_kept [OF ok])
  next
    case (observe_ends e xs sid task g ys ids raw ro st)
    then show ?thesis using observe_finish_kept [OF inv, of sid g] calls [of "ObserveCall sid task g"]
      by (auto intro!: sys_step_kept [OF ok])
  next
    case (review_begins e req au st)
    then show ?thesis using only(3) [of e req] by (auto intro!: sys_step_kept [OF ok])
  next
    case (review_refused e req err st)
    then show ?thesis using only(3) [of e req] by (auto intro!: sys_step_only [OF ok])
  next
    case (execute_refused e xs req ie ys err st)
    then show ?thesis using prepare_kept [OF inv] by (auto intro!: sys_step_kept [OF ok])
  next
    case (execute_prepares e xs req ie ys p st)
    then show ?thesis using prepare_kept [OF inv] prepared_ok [OF inv] by (auto intro!: sys_step_kept [OF ok])
  next
    case (dispatch_refused e xs req p ie d ys err st)
    then show ?thesis using dispatch_kept [OF inv] by (auto intro!: sys_step_kept [OF ok])
  next
    case (dispatches e xs req p ie d ys da st)
    then show ?thesis
      using dispatch_kept [OF inv, of e req p ie "Ok da" st] dispatched_ok [OF inv, of e req p ie da st]
        calls [of "AuthorizedCall req p ie d"] prep_ok_mono [of "y_mgr y" req p st] keptD(2) [of "y_mgr y" st]
      by (auto intro!: sys_step_kept [OF ok])
  next
    case (commits xs req p d da ys)
    then show ?thesis using calls [of "DispatchedCall req p d da"]
      by (intro sys_step_calls [OF ok]) (auto simp: effect_ok_def)
  next
    case (check_fails e xs req p d res ys err st)
    then show ?thesis using only(2) [of e req p] by (auto intro!: sys_step_kept [OF ok])
  next
    case (checks e xs req p d res ys u st)
    then show ?thesis using only(2) [of e req p] calls [of "PerformedCall req p d res"]
        prep_ok_mono [of "y_mgr y" req p st] keptD(2) [of "y_mgr y" st]
      by (auto intro!: sys_step_kept [OF ok])
  next
    case (finishes e xs req p d res ys ids rid raw rr st)
    then show ?thesis using execute_finish_kept [OF inv prep_live] calls [of "CheckedCall req p d res"]
      by (auto intro!: sys_step_kept [OF ok])
  next
    case (authorized xs req p ie ys sc d au')
    then show ?thesis using calls [of "PreparedCall req p ie"] by (intro sys_step_calls [OF ok]) auto
  next
    case (driver_returns xs req p d da ys res)
    then show ?thesis using calls [of "CommittedCall req p d da"] by (intro sys_step_calls [OF ok]) auto
  qed (use only grant_kept [OF inv] start_kept [OF inv] control_kept [OF inv] notify_kept [OF inv] failure_kept [OF inv]
      in \<open>auto intro!: sys_step_only [OF ok] sys_step_kept [OF ok] sys_step_calls [OF ok]\<close>)
qed

interpretation app_runs: monotone_system app_step sys_ok "\<lambda>y y'. mgr_le (y_mgr y) (y_mgr y')"
  by unfold_locales (use app_step_sys mgr_le_trans in \<open>auto simp: sys_step_def\<close>)

subsection \<open>Every effect is paid for\<close>

text \<open>The calls that hold an authorization they have not used yet.\<close>

fun holds_authorization :: "call \<Rightarrow> bool" where
  "holds_authorization (AuthorizedCall _ _ _ _) = True"
| "holds_authorization (DispatchedCall _ _ _ _) = True"
| "holds_authorization _ = False"

definition paid :: "nat \<Rightarrow> app_system \<Rightarrow> bool" where
  "paid u y \<longleftrightarrow> store_inv (snd (y_authority y)) \<and>
     length (y_effects y) + length (filter holds_authorization (y_calls y)) + card (set (fst (y_authority y))) + u
       \<le> y_reviews y + uses (snd (y_authority y))"

lemma evaluate_paid:
  assumes ev: "evaluate sc r (direct, store) = (rd, (direct', store'))"
    and inv: "store_inv store" and ties: "permuting (sc_ties sc)"
  shows "store_inv store' \<and> card (set direct') \<le> card (set direct) \<and> uses store \<le> uses store' \<and>
    (\<forall>d. rd = Ok d \<and> ad_authorized d \<longrightarrow> Suc (card (set direct') + uses store) \<le> card (set direct) + uses store')"
proof (cases "direct_approval_key r \<in> set direct")
  case True
  then have "store' = store" "direct' = removeAll (direct_approval_key r) direct"
    using ev by (auto simp: evaluate_def Let_def)
  moreover from True have "Suc (card (set (removeAll (direct_approval_key r) direct))) = card (set direct)"
    by (simp only: set_removeAll card_Suc_Diff1 [OF finite_set])
  ultimately show ?thesis using inv by simp
next
  case False
  have call: "c_estimated_uses (authority_call (sc_now sc) r) \<le> u32_max"
    by (simp add: authority_call_def Let_def u32_max_def)
  show ?thesis
  proof (cases "authorize (sc_sha sc) (sc_ties sc) (sc_faults sc) (authority_call (sc_now sc) r) store")
    case (Inl e)
    then show ?thesis using ev False inv by (auto simp: evaluate_def Let_def)
  next
    case (Inr bs)
    obtain b st where bs: "bs = (b, st)" by fastforce
    with Inr ev False have eq: "direct' = direct" "store' = st" "\<forall>d. rd = Ok d \<longrightarrow> ad_authorized d = b"
      by (auto simp: evaluate_def Let_def)
    note au = Inr [unfolded bs]
    have "sys_inv (store, [])" using inv by (simp add: sys_inv_def)
    then have "sys_inv (st, [])" using scopes.run_inv authorize_is_run [OF ties au] by blast
    moreover have "uses st = uses store + (if b then 1 else 0)"
      using authorize_spends [OF inv ties call, of "sc_sha sc" "sc_faults sc" st] authorize_denies [OF au] au
      by (cases b) (auto simp: uses_def)
    ultimately show ?thesis using eq by (auto simp: sys_inv_def)
  qed
qed

lemma app_step_paid:
  assumes "paid u y" "app_step y y'"
  shows "paid u y'"
  using assms(2,1)
proof cases
  case (authorized xs req p ie ys sc d au')
  then show ?thesis
    using assms(1) evaluate_paid [of sc "p_authority p" "fst (y_authority y)" "snd (y_authority y)" "Ok d" "fst au'" "snd au'"]
    by (auto simp: paid_def decided_def)
next
  case (unauthorized xs req p ie ys sc rd' au')
  then show ?thesis
    using assms(1) evaluate_paid [of sc "p_authority p" "fst (y_authority y)" "snd (y_authority y)" rd' "fst au'" "snd au'"]
    by (auto simp: paid_def)
next
  case (review_approved xs au ys)
  then show ?thesis using assms(1) card_insert_le_m1
    by (auto simp: paid_def register_direct_approval_def card_insert_if)
qed (auto simp: paid_def)

interpretation app_paid: invariant_system app_step "paid u" for u
  by unfold_locales (rule app_step_paid)

lemma initial_paid: "store_inv store \<Longrightarrow> paid (uses store) (initial ep rd store)"
  by (simp add: paid_def initial_def)

lemma initial_ok: "sys_ok (initial ep rd store)"
  by (simp add: sys_ok_def initial_def manager_default_def mgr_inv_def sessions_ok_def vault_ok_def hm_ok_def)

end
