(* ===== verification/App_Control_Props.thy ===== *)
theory App_Control_Props
  imports App_Control_Runs
begin

text \<open>
  What the concurrent runs of app control guarantee, and one run that reaches a committed effect.
\<close>

subsection \<open>A run\<close>

definition demo_env :: app_env where
  "demo_env = \<lparr>e_clock = (\<lambda>_. 1000), e_ready = Some True, e_epoch = Some 5,
     e_fs = \<lparr>fs_canonicalize = (\<lambda>p. Some p), fs_is_dir = (\<lambda>_. True), fs_is_file = (\<lambda>_. True),
       fs_hash_file = (\<lambda>_. None)\<rparr>,
     e_digests = \<lparr>hash_observation = (\<lambda>_. Ok ''h''), hash_view = (\<lambda>_. Ok ''v''),
       hash_action_binding = (\<lambda>_ _. Ok ''a''), hash_postcondition = (\<lambda>_. Ok ''p''), hash_bytes = (\<lambda>_. ''b'')\<rparr>,
     e_task_bound = None, e_record_ok = True\<rparr>"

definition demo_task :: string where
  "demo_task = new_id TaskRunId (replicate 16 7)"

definition demo_project :: string where
  "demo_project = new_id ProjectId (replicate 16 7)"

definition demo_start :: start_request where
  "demo_start = \<lparr>st_project_id = demo_project, st_task_run_id = demo_task,
     st_approved_bundle_ids = [''com.apple.mail''], st_scoped_file_roots = [], st_file_grant_ids = []\<rparr>"

definition demo_raw :: driver_observation where
  "demo_raw = \<lparr>do_permission = PermissionGranted,
     do_application = \<lparr>bundle_id = ''com.apple.mail'', display_name = ''Mail'', process_id = 7\<rparr>,
     do_window = \<lparr>window_id = ''w'', window_title = [], window_visible = True, window_modal = False\<rparr>,
     do_focused_element_key = None,
     do_elements = [\<lparr>de_element_key = ''k'', de_role = ''field'', de_label = None, de_value_digest = None,
       de_secure = False, de_visible = True, de_enabled = True, de_in_modal = False,
       de_supported_actions = [KPress], de_geometry = None\<rparr>],
     do_screenshot = None\<rparr>"

definition demo_ids :: observation_ids where
  "demo_ids = \<lparr>oi_observation_id = ''obs'', oi_reference = (\<lambda>_. ''appref_1'')\<rparr>"

definition demo_request :: execute_request where
  "demo_request = \<lparr>x_session_id = ''s'', x_task_run_id = demo_task, x_observation_revision = 1,
     x_action = Press ''appref_1'', x_expected_outcome = WindowState\<rparr>"

definition demo_scope :: scope_env where
  "demo_scope = \<lparr>sc_sha = (\<lambda>s. s), sc_ties = (\<lambda>rs. rs), sc_faults = no_faults, sc_now = 1000\<rparr>"

definition demo_session1 :: session_record where
  "demo_session1 = new_session ''s'' demo_project demo_task [''com.apple.mail''] \<lparr>roots = [], granted_files = []\<rparr> 1000"

definition demo_mgr :: "session_record \<Rightarrow> reference_vault \<Rightarrow> manager_state" where
  "demo_mgr s vault = \<lparr>m_sessions = [(''s'', s)], m_references = vault, m_receipts = [],
     m_active_session_id = Some ''s'', m_pending_file_grants = [], m_acknowledged_input_epoch = 5\<rparr>"

definition demo_element :: observed_element where
  "demo_element = \<lparr>oe_element_key = ''k'', oe_reference = ''appref_1'', oe_role = ''field'', oe_label = None,
     oe_value_digest = None, oe_secure = False, oe_visible = True, oe_enabled = True, oe_in_modal = False,
     oe_supported_actions = [KPress], oe_geometry = None, oe_expires_at_ms = 16000\<rparr>"

definition demo_target :: driver_target where
  "demo_target = \<lparr>dt_element_key = ''k'', dt_role = ''field'', dt_secure = False, dt_in_modal = False, dt_geometry = None\<rparr>"

definition demo_binding :: reference_binding where
  "demo_binding = \<lparr>rb_session_id = ''s'', rb_project_id = demo_project, rb_task_run_id = demo_task,
     rb_bundle_id = ''com.apple.mail'', rb_process_id = 7, rb_window_id = ''w'', rb_revision = 1, rb_generation = 1,
     rb_expires_at_ms = 16000, rb_target = demo_target, rb_visible = True, rb_enabled = True, rb_in_modal = False,
     rb_supported_actions = [KPress]\<rparr>"

definition demo_observation :: desktop_observation where
  "demo_observation = \<lparr>ob_observation_id = ''obs'', ob_session_id = ''s'', ob_project_id = demo_project,
     ob_task_run_id = demo_task, ob_revision = 1, ob_generation = 1, ob_observed_at_ms = 1000,
     ob_expires_at_ms = 16000, ob_permission = PermissionGranted, ob_application = do_application demo_raw,
     ob_window = do_window demo_raw, ob_focused_element = None, ob_elements = [demo_element],
     ob_screenshot = None, ob_observation_hash = ''h''\<rparr>"

definition demo_session2 :: session_record where
  "demo_session2 = demo_session1\<lparr>s_state := Running, s_revision := 1, s_last_observation := Some demo_observation\<rparr>"

definition demo_prepared :: prepared where
  "demo_prepared = \<lparr>p_before = demo_observation, p_action = Press ''appref_1'', p_targets = [demo_target],
     p_selected_file = None, p_target_label = None,
     p_authority = \<lparr>au_project_id = demo_project, au_task_run_id = demo_task, au_session_id = ''s'',
       au_bundle_id = ''com.apple.mail'', au_action_kind = KPress, au_action_arguments_hash = ''a'',
       au_will_change_data = True\<rparr>, p_generation = 1\<rparr>"

lemmas demo_data = demo_env_def demo_start_def demo_raw_def demo_ids_def demo_request_def demo_session1_def
  demo_mgr_def demo_element_def demo_target_def demo_binding_def demo_observation_def demo_session2_def demo_prepared_def

lemma demo_parsed: "parse_request_id TaskRunId demo_task = Ok demo_task" "parse_request_id ProjectId demo_project = Ok demo_project"
proof -
  have "parse_id k (new_id k (replicate 16 7)) = Ok (new_id k (replicate 16 7))" for k
    using new_uuid_valid [of "replicate 16 7"] by (simp add: parse_id_Ok new_id_def)
  then show "parse_request_id TaskRunId demo_task = Ok demo_task" "parse_request_id ProjectId demo_project = Ok demo_project"
    by (simp_all add: parse_request_id_def demo_task_def demo_project_def)
qed

lemma demo_mail:
  "valid_bundle_id ''com.apple.mail''" "''com.apple.mail'' \<notin> set BROWSER_BUNDLES"
  "map_of qualified_apps ''com.apple.mail'' = Some (''Mail'', MailIcon, [KFocus, KPress, KSelect, KTypeText, KInvokeMenu, KScroll, KAppleEvent])"
  by code_simp+

lemma demo_lock: "s_state s \<noteq> Paused \<Longrightarrow> lock demo_env (demo_mgr s vault) = demo_mgr s vault"
  by (simp add: lock_def lock_ready_def lock_epoch_def for_sessions_def monitor_pause_def demo_data
      hm_values_mut_def hm_retain_def)

lemma demo_start_ok:
  "start_session demo_env ''s'' demo_start (y_mgr (initial (Some 5) (Some True) empty_store)) =
     (Ok (session_view_of demo_session1), demo_mgr demo_session1 [])"
proof -
  have l: "lock demo_env (manager_default\<lparr>m_acknowledged_input_epoch := 5\<rparr>) = manager_default\<lparr>m_acknowledged_input_epoch := 5\<rparr>"
    by (simp add: lock_def lock_ready_def lock_epoch_def for_sessions_def demo_data manager_default_def hm_values_mut_def hm_retain_def)
  have f: "new_file_roots (e_fs demo_env) [] = Ok \<lparr>roots = [], granted_files = []\<rparr>" by (simp add: new_file_roots_def demo_env_def ensure_def)
  have b: "approve_bundle ''com.apple.mail'' = Ok ()"
    using demo_mail by (simp add: approve_bundle_def app_profile_of_def ensure_def)
  show ?thesis
    using demo_parsed l f b
    by (simp add: start_session_def demo_start_def require_bound_task_def initial_def validate_file_grant_ids_def ensure_def)
      (simp add: demo_env_def demo_session1_def demo_mgr_def manager_default_def put_session_def Let_def)
qed

lemma demo_state: "s_state demo_session1 = Observing" "s_state demo_session2 = Running"
  by (simp_all add: demo_session1_def demo_session2_def new_session_def)

lemma demo_observe_begin:
  "observe_begin demo_env ''s'' demo_task (demo_mgr demo_session1 []) = (Ok 1, demo_mgr demo_session1 [])"
  using demo_lock [of demo_session1 "[]"] demo_state
  by (simp add: observe_begin_def in_session_def session_for_def require_task_def ensure_def ok_or_def)
    (simp add: demo_mgr_def demo_session1_def new_session_def ensure_def)

lemma demo_observe_finish:
  "observe_finish demo_env demo_ids ''s'' demo_task 1 demo_raw (demo_mgr demo_session1 []) =
     (Ok demo_observation, demo_mgr demo_session2 [(''appref_1'', demo_binding)])"
proof -
  have raw: "validate_raw_observation demo_raw = Ok ()"
    using demo_mail(1) by (simp add: validate_raw_observation_def demo_raw_def ensure_def MAX_OBSERVED_ELEMENTS_def) code_simp
  have prof: "app_profile_of ''com.apple.mail'' n = \<lparr>qualification = Qualified, profile_name = ''Mail'', profile_icon = MailIcon,
      allowed_actions = [KFocus, KPress, KSelect, KTypeText, KInvokeMenu, KScroll, KAppleEvent]\<rparr>" for n
    using demo_mail by (simp add: app_profile_of_def)
  have gen: "ensure_generation (demo_mgr demo_session1 []) ''s'' demo_task 1 None = Ok ()"
    by (simp add: ensure_generation_Ok demo_mgr_def demo_session1_def new_session_def)
  have ap: "apply_observation demo_env demo_ids ''s'' demo_raw 1000 False (demo_mgr demo_session1 []) =
      (Ok demo_observation, demo_mgr demo_session2 [(''appref_1'', demo_binding)])"
    using raw prof
    by (simp add: apply_observation_def)
      (simp add: demo_data new_session_def application_changed_def window_changed_def before_issue_def invalidate_session_def
        hm_retain_def sat_u64_suc_def u64_max_def issue_def observation_context_def observed_def settle_def resumed_def
        focus_of_def focused_secure_def put_session_def REFERENCE_TTL_MS_def saturating_add_def clamp_i64_def i64_min_def i64_max_def ok_or_def Let_def)
  show ?thesis
    using gen ap demo_lock [of demo_session1 "[]"] demo_state
    by (simp add: observe_finish_def Let_def ensure_def) (simp add: demo_env_def)
qed

abbreviation demo_vault :: reference_vault where
  "demo_vault \<equiv> [(''appref_1'', demo_binding)]"

lemma demo_checks:
  "validate_typed_adapter (bundle_id (ob_application demo_observation)) (x_action demo_request) = Ok ()"
  "validate_expected_outcome (x_action demo_request) (x_expected_outcome demo_request) = Ok ()"
  "normalize_action (e_fs demo_env) (x_action demo_request) (s_file_roots demo_session2) = Ok (Press ''appref_1'')"
  "resolve ''appref_1'' KPress (window_modal (ob_window demo_observation))
     (reference_context_of demo_session2 demo_observation 1000) demo_vault = Ok demo_target"
proof -
  show "validate_typed_adapter (bundle_id (ob_application demo_observation)) (x_action demo_request) = Ok ()"
    using demo_mail by (auto simp: adapter_Ok demo_data)
  show "normalize_action (e_fs demo_env) (x_action demo_request) (s_file_roots demo_session2) = Ok (Press ''appref_1'')"
    by (simp add: normalize_action_def demo_request_def valid_ref_def ensure_def starts_with_def is_ascii_str_def)
qed (simp_all add: resolve_reference_Ok reference_context_of_def demo_data new_session_def validate_expected_outcome_def ensure_def)

lemma demo_prepare:
  "execute_prepare demo_env demo_request (demo_mgr demo_session2 demo_vault) =
     (Ok demo_prepared, demo_mgr demo_session2 demo_vault)"
proof -
  have "prepare_action demo_env 1000 demo_request demo_session2 demo_observation demo_vault = Ok demo_prepared"
    using demo_checks by (simp add: prepare_action_def ensure_def)
      (simp add: demo_data new_session_def resolved_file_for_action_def)
  then show ?thesis
    using demo_lock [of demo_session2 demo_vault] demo_state
    by (simp add: execute_prepare_def in_session_def session_for_def require_task_def ok_or_def ensure_def Let_def)
      (simp add: demo_mgr_def demo_session2_def demo_session1_def new_session_def demo_observation_def demo_request_def
        demo_env_def demo_raw_def ensure_def ok_or_def)
qed

lemma demo_review:
  "authority_request_for demo_env demo_request (demo_mgr demo_session2 demo_vault) =
     (Ok (p_authority demo_prepared), demo_mgr demo_session2 demo_vault)"
proof -
  have s: "session_for (x_session_id demo_request) (x_task_run_id demo_request) (demo_mgr demo_session2 demo_vault) = Ok demo_session2"
    by (simp add: session_for_Ok demo_data new_session_def)
  show ?thesis
    using demo_lock [of demo_session2 demo_vault] demo_state demo_checks s
    by (simp add: authority_request_for_def in_session_def Let_def)
      (simp add: demo_data new_session_def ensure_def resolved_file_for_action_def)
qed

definition demo_decision :: authority_decision where
  "demo_decision = \<lparr>ad_authorized = True, ad_decision_id = ''appauthority_'' @ take 32 (au_task_run_id (p_authority demo_prepared) @ '':'' @
     bd_canonical_resource (approval_binding_of (p_authority demo_prepared)) @ '':'' @
     bd_argument_class (approval_binding_of (p_authority demo_prepared)) @ '':true'')\<rparr>"

definition demo_action :: driver_action_request where
  "demo_action = \<lparr>da_session_id = ''s'', da_project_id = demo_project, da_task_run_id = demo_task,
     da_application = do_application demo_raw, da_window = do_window demo_raw, da_action = Press ''appref_1'',
     da_expected_outcome = WindowState, da_targets = [demo_target], da_selected_file = None,
     da_cancellation = \<lparr>tok_session_id = ''s'', tok_expected = 1, tok_input_epoch = Some 5\<rparr>\<rparr>"

definition demo_session3 :: session_record where
  "demo_session3 = demo_session2\<lparr>s_current_action := Some \<lparr>av_kind = KPress, av_target_label = None, av_will_change_data = True\<rparr>\<rparr>"

definition demo_sys :: "manager_state \<Rightarrow> nat \<Rightarrow> string list \<Rightarrow> call list \<Rightarrow> driver_action_request list \<Rightarrow> app_system" where
  "demo_sys st reviews direct calls effects = \<lparr>y_mgr = st, y_epoch = Some 5, y_ready = Some True,
     y_authority = (direct, empty_store), y_calls = calls, y_reviews = reviews, y_effects = effects\<rparr>"

lemma demo_evaluate:
  "evaluate demo_scope (p_authority demo_prepared) ([direct_approval_key (p_authority demo_prepared)], empty_store) =
     (Ok demo_decision, ([], empty_store))"
  by (simp add: evaluate_def demo_decision_def demo_scope_def Let_def)

lemma demo_decided: "decided demo_decision"
proof -
  have "solid CHR ''a''" by code_simp
  then show ?thesis using blank_solid by (simp add: decided_def demo_decision_def)
qed

lemma demo_dispatch:
  "execute_dispatch demo_env demo_request demo_prepared (Some 5) (demo_mgr demo_session2 demo_vault) =
     (Ok demo_action, demo_mgr demo_session3 demo_vault)"
proof -
  have "ensure_generation (demo_mgr demo_session2 demo_vault) ''s'' demo_task 1 (Some 1) = Ok ()"
    by (simp add: ensure_generation_Ok demo_data new_session_def)
  then show ?thesis
    using demo_lock [of demo_session2 demo_vault] demo_state
    by (simp add: execute_dispatch_def Let_def)
      (simp add: demo_data new_session_def demo_session3_def demo_action_def put_session_def)
qed

lemma demo_env_of: "env_of (demo_sys st n direct calls effects) demo_env"
  by (simp add: env_of_def demo_sys_def demo_env_def)

abbreviation demo_effect :: app_system where
  "demo_effect \<equiv> demo_sys (demo_mgr demo_session3 demo_vault) 1 []
     [CommittedCall demo_request demo_prepared demo_decision demo_action] [demo_action]"

abbreviation demo_dispatched :: app_system where
  "demo_dispatched \<equiv> demo_sys (demo_mgr demo_session3 demo_vault) 1 []
     [DispatchedCall demo_request demo_prepared demo_decision demo_action] []"

lemma demo_sys_simps [simp]:
  "y_mgr (demo_sys st n direct calls effects) = st" "y_calls (demo_sys st n direct calls effects) = calls"
  "y_authority (demo_sys st n direct calls effects) = (direct, empty_store)"
  "y_epoch (demo_sys st n direct calls effects) = Some 5" "y_effects (demo_sys st n direct calls effects) = effects"
  "demo_sys st n direct calls effects\<lparr>y_mgr := st'\<rparr> = demo_sys st' n direct calls effects"
  "demo_sys st n direct calls effects\<lparr>y_calls := calls'\<rparr> = demo_sys st n direct calls' effects"
  "demo_sys st n direct calls effects\<lparr>y_authority := (direct', empty_store)\<rparr> = demo_sys st n direct' calls effects"
  "demo_sys st n direct calls effects\<lparr>y_reviews := n'\<rparr> = demo_sys st n' direct calls effects"
  "y_reviews (demo_sys st n direct calls effects) = n"
  "demo_sys st n direct calls effects\<lparr>y_effects := effects'\<rparr> = demo_sys st n direct calls effects'"
  by (simp_all add: demo_sys_def)

lemma demo_initial:
  "initial (Some 5) (Some True) empty_store = demo_sys (manager_default\<lparr>m_acknowledged_input_epoch := 5\<rparr>) 0 [] [] []"
  by (simp add: initial_def demo_sys_def)

lemma demo_run_observed:
  "app_step\<^sup>*\<^sup>* (initial (Some 5) (Some True) empty_store) (demo_sys (demo_mgr demo_session2 demo_vault) 0 [] [] [])"
proof -
  let ?m1 = "demo_mgr demo_session1 []" let ?m2 = "demo_mgr demo_session2 demo_vault"
  let ?i = "initial (Some 5) (Some True) empty_store"
  have "app_step ?i (demo_sys ?m1 0 [] [] [])"
    using app_step.start [where y = ?i, OF _ _ demo_start_ok] demo_env_of by (simp add: demo_initial manager_default_def)
  moreover have "app_step (demo_sys ?m1 0 [] [] []) (demo_sys ?m1 0 [] [ObserveCall ''s'' demo_task 1] [])"
    using app_step.observe_begins [where y = "demo_sys ?m1 0 [] [] []" and e = demo_env] demo_observe_begin demo_env_of by simp
  moreover have "app_step (demo_sys ?m1 0 [] [ObserveCall ''s'' demo_task 1] []) (demo_sys ?m2 0 [] [] [])"
    using app_step.observe_ends [where y = "demo_sys ?m1 0 [] [ObserveCall ''s'' demo_task 1] []" and xs = "[]" and e = demo_env]
      demo_observe_finish demo_env_of by simp
  ultimately show ?thesis by (meson converse_rtranclp_into_rtranclp rtranclp.rtrancl_refl)
qed

lemma demo_run_dispatched: "app_step\<^sup>*\<^sup>* (initial (Some 5) (Some True) empty_store) demo_dispatched"
proof -
  let ?k = "direct_approval_key (p_authority demo_prepared)" let ?m2 = "demo_mgr demo_session2 demo_vault"
  let ?au = "p_authority demo_prepared"
  let ?start = "StartedCall demo_request (Some 5)" let ?prep = "PreparedCall demo_request demo_prepared (Some 5)"
  let ?auth = "AuthorizedCall demo_request demo_prepared (Some 5) demo_decision"
  have "app_step (demo_sys ?m2 0 [] [] []) (demo_sys ?m2 0 [] [ReviewCall ?au] [])"
    using app_step.review_begins [where y = "demo_sys ?m2 0 [] [] []" and e = demo_env] demo_review demo_env_of by simp
  moreover have "app_step (demo_sys ?m2 0 [] [ReviewCall ?au] []) (demo_sys ?m2 1 [?k] [] [])"
    using app_step.review_approved [where y = "demo_sys ?m2 0 [] [ReviewCall ?au] []" and xs = "[]"]
    by (simp add: register_direct_approval_def)
  moreover have "app_step (demo_sys ?m2 1 [?k] [] []) (demo_sys ?m2 1 [?k] [?start] [])"
    using app_step.execute_begins [where y = "demo_sys ?m2 1 [?k] [] []"] by simp
  moreover have "app_step (demo_sys ?m2 1 [?k] [?start] []) (demo_sys ?m2 1 [?k] [?prep] [])"
    using app_step.execute_prepares [where y = "demo_sys ?m2 1 [?k] [?start] []" and xs = "[]" and e = demo_env]
      demo_prepare demo_env_of by simp
  moreover have "app_step (demo_sys ?m2 1 [?k] [?prep] []) (demo_sys ?m2 1 [] [?auth] [])"
    using app_step.authorized [where y = "demo_sys ?m2 1 [?k] [?prep] []" and xs = "[]" and sc = demo_scope]
      demo_evaluate demo_decided by (simp add: demo_scope_def permuting_id)
  moreover have "app_step (demo_sys ?m2 1 [] [?auth] []) demo_dispatched"
    using app_step.dispatches [where y = "demo_sys ?m2 1 [] [?auth] []" and xs = "[]" and e = demo_env]
      demo_dispatch demo_env_of by simp
  ultimately have "app_step\<^sup>*\<^sup>* (demo_sys ?m2 0 [] [] []) demo_dispatched"
    by (meson converse_rtranclp_into_rtranclp rtranclp.rtrancl_refl)
  with demo_run_observed show ?thesis by (rule rtranclp_trans)
qed

lemma demo_commit: "app_step demo_dispatched demo_effect"
  using app_step.commits [where y = demo_dispatched and xs = "[]"]
  by (simp add: cancelled_def demo_mgr_def demo_session3_def demo_session2_def demo_session1_def
      new_session_def demo_action_def)

lemma demo_run: "app_step\<^sup>*\<^sup>* (initial (Some 5) (Some True) empty_store) demo_effect"
  using demo_run_dispatched demo_commit by (rule rtranclp.rtrancl_into_rtrancl)

subsection \<open>Controls\<close>

lemma control_Ok:
  assumes "control env sid task c st = (Ok v, st')"
  obtains s where "hm_get (m_sessions (lock env st)) sid = Some s" "s_task_run_id s = task"
    "control_applies c (s_state s)" "v = session_view_of (controlled (e_clock env 2) c s)"
    "hm_get (m_sessions st') sid = Some (controlled (e_clock env 2) c s)"
proof (cases "session_for sid task (lock env st)")
  case (Inr s)
  with assms show thesis
    by (intro that [of s]) (auto simp: control_def in_session_def Let_def session_for_Ok put_session_def split: if_splits)
qed (use assms in \<open>simp add: control_def in_session_def Let_def\<close>)

lemma mgr_leD:
  assumes "mgr_le st st'" "hm_get (m_sessions st) k = Some s" "hm_get (m_sessions st') k = Some t"
  shows "evolve s t" "s_generation s \<le> s_generation t"
  using assms by (force simp: mgr_le_def evolve_def)+

text \<open>After a control every action prepared before it belongs to an older generation, for ever.\<close>

lemma control_outdates:
  assumes ok: "sys_ok y" and env: "env_of y e" and c: "control e sid task c (y_mgr y) = (Ok v, st)"
    and run: "app_step\<^sup>*\<^sup>* (y\<lparr>y_mgr := st\<rparr>) z"
    and t: "hm_get (m_sessions (y_mgr z)) sid = Some t" "s_generation t < u64_max"
    and g: "live Q sid g (y_mgr y)"
  shows "g < s_generation t"
proof -
  let ?y = "y\<lparr>y_mgr := st\<rparr>"
  obtain s where s: "hm_get (m_sessions (lock e (y_mgr y))) sid = Some s"
    "hm_get (m_sessions st) sid = Some (controlled (e_clock e 2) c s)" using control_Ok [OF c] by blast
  have "mgr_le (y_mgr y) (lock e (y_mgr y))" using kept_lock [OF sys_okD(1) [OF ok]] keptD(2) by blast
  with g s(1) have "g \<le> s_generation s" using mgr_leD(2) by (fastforce simp: live_def)
  moreover have "mgr_le st (y_mgr z)"
    using app_runs.run_le [OF run] app_runs.step_inv [OF ok app_step.user_control [OF env c]] by simp
  from mgr_leD(2) [OF this s(2) t(1)] have "sat_u64_suc (s_generation s) \<le> s_generation t"
    by (simp add: controlled_def)
  ultimately show ?thesis using t(2) by (simp add: sat_u64_suc_def)
qed

lemma dispatch_current:
  assumes "mgr_inv st" "execute_dispatch env req p ie st = (Ok da, st')" "hm_get (m_sessions st) (x_session_id req) = Some t"
  shows "s_generation t \<le> p_generation p"
proof -
  from assms(2) obtain s where "hm_get (m_sessions (lock env st)) (x_session_id req) = Some s" "s_generation s = p_generation p"
    by (auto simp: execute_dispatch_def Let_def ensure_generation_Ok split: sum.splits option.splits if_splits)
  moreover have "mgr_le st (lock env st)" using kept_lock [OF assms(1)] keptD(2) by blast
  ultimately show ?thesis using mgr_leD(2) assms(3) by metis
qed

lemma commit_state:
  assumes "sys_ok y" and "app_step y y'" and "y_effects y' = y_effects y @ [da]"
  shows "\<exists>s req p d. hm_get (m_sessions (y_mgr y)) (da_session_id da) = Some s \<and>
    DispatchedCall req p d da \<in> set (y_calls y) \<and> ad_authorized d \<and>
    s_cancellation_epoch s = tok_expected (da_cancellation da) \<and>
    (\<forall>n. tok_input_epoch (da_cancellation da) = Some n \<longrightarrow> y_epoch y = Some n) \<and>
    (s_generation s < u64_max \<longrightarrow> s_generation s = p_generation p \<and> s_state s \<in> {Running, SessionFailed})"
  using assms(2,3)
proof cases
  case (commits xs req p d da' ys)
  with assms(3) have da: "da' = da" by simp
  from assms(1) commits have ok: "mgr_inv (y_mgr y)" "prep_ok (y_mgr y) req p" "decided d" "request_ok req p da"
    by (auto simp: sys_ok_def da)
  then obtain s where s: "hm_get (m_sessions (y_mgr y)) (x_session_id req) = Some s" "p_generation p \<le> s_generation s"
    "s_generation s = p_generation p \<and> p_generation p < u64_max \<longrightarrow> s_state s \<in> {Running, SessionFailed}"
    by (auto simp: prep_ok_def live_def)
  have "session_ok (x_session_id req) s" using ok(1) s(1) by (rule mgr_inv_session)
  then have "s_generation s < u64_max \<longrightarrow> s_cancellation_epoch s = s_generation s" by (simp add: session_ok_def)
  with s ok(3,4) commits(3) show ?thesis
    by (intro exI [of _ s] exI [of _ req] exI [of _ p] exI [of _ d])
      (auto simp: da commits(2) request_ok_def cancelled_def decided_def split: option.splits)
qed auto

lemma effects_step: "app_step y y' \<Longrightarrow> y_effects y' = y_effects y \<or> (\<exists>da. y_effects y' = y_effects y @ [da])"
  by (induction rule: app_step.induct) auto

abbreviation effects_of :: "string \<Rightarrow> app_system \<Rightarrow> driver_action_request list" where
  "effects_of sid y \<equiv> filter (\<lambda>da. da_session_id da = sid) (y_effects y)"

lemma stopped_step:
  assumes ok: "sys_ok y" and st: "app_step y z" and s: "hm_get (m_sessions (y_mgr y)) sid = Some s" "s_state s = Stopped"
    and t: "hm_get (m_sessions (y_mgr z)) sid = Some t" "s_generation t < u64_max"
  shows "s_state t = Stopped \<and> effects_of sid z = effects_of sid y"
proof -
  have ev: "evolve s t" using mgr_leD(1) [OF app_runs.step_le [OF ok st] s(1) t(1)] .
  then have "s_generation s < u64_max" using t(2) by (simp add: evolve_def)
  then have "da_session_id da \<noteq> sid" if "y_effects z = y_effects y @ [da]" for da
    using commit_state [OF ok st that] s by auto
  then show ?thesis using ev s(2) t(2) effects_step [OF st] by (auto simp: evolve_def)
qed

subsection \<open>Properties\<close>

lemmas reached = app_runs.run_inv [OF _ initial_ok]

text \<open>
  C3. Every effect stays inside what the user approved: in every state any interleaving of calls,
  controls and physical input can reach, an action the native driver has committed went to an
  application of the session's approved list, through an adapter that allows this action there, with a
  result that may be claimed for it, and to targets none of which is a protected field.
\<close>

theorem effects_guarded:
  assumes "app_step\<^sup>*\<^sup>* (initial ep rd store) y" and "da \<in> set (y_effects y)"
  shows "\<exists>s. hm_get (m_sessions (y_mgr y)) (da_session_id da) = Some s \<and>
    bundle_id (da_application da) \<in> set (s_approved_bundle_ids s) \<and>
    validate_typed_adapter (bundle_id (da_application da)) (da_action da) = Ok () \<and>
    outcome_qualified (da_action da) (da_expected_outcome da) \<and>
    length (da_targets da) = length (references (da_action da)) \<and> (\<forall>t \<in> set (da_targets da). \<not> dt_secure t)"
proof -
  from reached [OF assms(1)] assms(2) obtain req p s where "request_ok req p da"
    "hm_get (m_sessions (y_mgr y)) (x_session_id req) = Some s" "vetted s req p"
    by (auto simp: sys_ok_def effect_ok_def prep_ok_def)
  then show ?thesis unfolding request_ok_def vetted_def by (elim conjE) (intro exI [of _ s] conjI; simp only:)
qed

theorem effects_guarded_witness:
  "\<exists>s. hm_get (m_sessions (y_mgr demo_effect)) ''s'' = Some s \<and>
     bundle_id (da_application demo_action) \<in> set (s_approved_bundle_ids s)"
  using effects_guarded [OF demo_run, of demo_action] by (auto simp: demo_action_def)

text \<open>
  An effect is committed only while nothing has intervened: at the moment the driver commits, the
  session exists with the epoch the action was dispatched in, no physical input has happened since the
  call began, the action was authorized, and, below the last generation, the session still is in the
  generation of the observation that was acted on, running or failed.
\<close>

theorem commit_undisturbed:
  assumes "app_step\<^sup>*\<^sup>* (initial ep rd store) y" and "app_step y y'" and "y_effects y' = y_effects y @ [da]"
  shows "\<exists>s req p d. hm_get (m_sessions (y_mgr y)) (da_session_id da) = Some s \<and>
    DispatchedCall req p d da \<in> set (y_calls y) \<and> ad_authorized d \<and>
    s_cancellation_epoch s = tok_expected (da_cancellation da) \<and>
    (\<forall>n. tok_input_epoch (da_cancellation da) = Some n \<longrightarrow> y_epoch y = Some n) \<and>
    (s_generation s < u64_max \<longrightarrow> s_generation s = p_generation p \<and> s_state s \<in> {Running, SessionFailed})"
  using commit_state [OF reached [OF assms(1)] assms(2,3)] .

theorem commit_undisturbed_witness:
  "\<exists>s. hm_get (m_sessions (y_mgr demo_dispatched)) ''s'' = Some s \<and> s_cancellation_epoch s = 1"
  using commit_undisturbed [OF demo_run_dispatched demo_commit, of demo_action] by (auto simp: demo_action_def)

text \<open>
  C5. A control of the user is final for what was under way: once Pause, Stop, Take control or Return
  has succeeded, every action of that session which was already dispatched stays cancelled in every
  later state, so the driver may not commit it, and an action that was only prepared or authorized is
  never dispatched; this holds until the 64-bit generation counter reaches its last value.
\<close>

theorem user_control_cancels:
  assumes "app_step\<^sup>*\<^sup>* (initial ep rd store) y" and "env_of y e"
    and "control e sid task c (y_mgr y) = (Ok v, st)" and "app_step\<^sup>*\<^sup>* (y\<lparr>y_mgr := st\<rparr>) z"
    and "hm_get (m_sessions (y_mgr z)) sid = Some t" and "s_generation t < u64_max" and "x_session_id req = sid"
  shows "(DispatchedCall req p d da \<in> set (y_calls y) \<longrightarrow> cancelled (y_mgr z) (y_epoch z) (da_cancellation da)) \<and>
    (PreparedCall req p ie \<in> set (y_calls y) \<or> AuthorizedCall req p ie d \<in> set (y_calls y) \<longrightarrow>
       \<not> is_ok (fst (execute_dispatch e' req p ie (y_mgr z))))"
proof -
  note ok = reached [OF assms(1)]
  have newer: "p_generation p < s_generation t" if "prep_ok (y_mgr y) req p"
    using control_outdates [OF ok assms(2-6)] that assms(7) by (auto simp: prep_ok_def)
  have zok: "mgr_inv (y_mgr z)"
    using app_runs.run_inv [OF assms(4)] app_runs.step_inv [OF ok app_step.user_control [OF assms(2,3)]] sys_okD(1) by blast
  then have tok: "s_cancellation_epoch t = s_generation t"
    using mgr_inv_session [OF zok assms(5)] assms(6) by (simp add: session_ok_def)
  show ?thesis
  proof (intro conjI impI)
    assume "DispatchedCall req p d da \<in> set (y_calls y)"
    then have "prep_ok (y_mgr y) req p" "request_ok req p da" using sys_okD(2) [OF ok] by fastforce+
    with newer tok assms(5-7) show "cancelled (y_mgr z) (y_epoch z) (da_cancellation da)"
      by (auto simp: cancelled_def request_ok_def)
  next
    assume "PreparedCall req p ie \<in> set (y_calls y) \<or> AuthorizedCall req p ie d \<in> set (y_calls y)"
    then have "prep_ok (y_mgr y) req p" using sys_okD(2) [OF ok] by fastforce
    with newer have "p_generation p < s_generation t" by blast
    with assms(5,7) dispatch_current [OF zok] show "\<not> is_ok (fst (execute_dispatch e' req p ie (y_mgr z)))"
      by (cases "execute_dispatch e' req p ie (y_mgr z)") (fastforce simp: is_ok_iff)
  qed
qed

definition demo_paused :: "session_view stretch" where
  "demo_paused = control demo_env ''s'' demo_task Pause (demo_mgr demo_session3 demo_vault)"

lemma demo_paused_eq:
  "demo_paused = (Ok (session_view_of (controlled 1000 Pause demo_session3)), demo_mgr (controlled 1000 Pause demo_session3) [])"
proof -
  have s: "s_state demo_session3 = Running" "s_session_id demo_session3 = ''s''"
    by (simp_all add: demo_session3_def demo_session2_def demo_session1_def new_session_def)
  have "session_for ''s'' demo_task (demo_mgr demo_session3 demo_vault) = Ok demo_session3"
    by (simp add: session_for_Ok demo_mgr_def demo_session3_def demo_session2_def demo_session1_def new_session_def)
  with demo_lock [of demo_session3 demo_vault] s show ?thesis
    by (simp add: demo_paused_def control_def in_session_def Let_def)
      (simp add: demo_mgr_def put_session_def invalidate_session_def hm_retain_def demo_binding_def demo_env_def)
qed

theorem user_control_cancels_witness:
  "cancelled (snd demo_paused) (Some 5) (da_cancellation demo_action)"
proof -
  let ?z = "demo_dispatched\<lparr>y_mgr := snd demo_paused\<rparr>"
  have c: "control demo_env ''s'' demo_task Pause (y_mgr demo_dispatched) =
      (Ok (session_view_of (controlled 1000 Pause demo_session3)), snd demo_paused)"
    using demo_paused_eq by (simp add: demo_paused_def)
  have t: "hm_get (m_sessions (y_mgr ?z)) ''s'' = Some (controlled 1000 Pause demo_session3)"
    by (simp add: demo_paused_eq demo_mgr_def)
  have g: "s_generation (controlled 1000 Pause demo_session3) < u64_max"
    by (simp add: controlled_def demo_session3_def demo_session2_def demo_session1_def new_session_def sat_u64_suc_def u64_max_def)
  have x: "x_session_id demo_request = ''s''" by (simp add: demo_request_def)
  from user_control_cancels [OF demo_run_dispatched demo_env_of c rtranclp.rtrancl_refl t g x]
  show ?thesis by simp
qed

text \<open>
  A stopped session stays stopped: from the state in which a session is stopped, no run brings it
  back, and the native driver commits no further effect for it, whatever was in flight; this holds until
  the generation counter reaches its last value.
\<close>

theorem stopped_is_final:
  assumes "app_step\<^sup>*\<^sup>* (initial ep rd store) y" and "hm_get (m_sessions (y_mgr y)) sid = Some s"
    and "s_state s = Stopped" and "app_step\<^sup>*\<^sup>* y z" and "hm_get (m_sessions (y_mgr z)) sid = Some t"
    and "s_generation t < u64_max"
  shows "s_state t = Stopped \<and> effects_of sid z = effects_of sid y"
  using assms(4-6)
proof (induction arbitrary: t rule: rtranclp_induct)
  case base
  then show ?case using assms(2,3) by simp
next
  case (step z z')
  note ok = app_runs.run_inv [OF step.hyps(1) reached [OF assms(1)]]
  from app_runs.run_le [OF step.hyps(1) reached [OF assms(1)]] assms(2) obtain u
    where u: "hm_get (m_sessions (y_mgr z)) sid = Some u" by (auto simp: mgr_le_def)
  have "s_generation u < u64_max"
    using mgr_leD(2) [OF app_runs.step_le [OF ok step.hyps(2)] u step.prems(1)] step.prems(2) by simp
  from step.IH [OF u this] stopped_step [OF ok step.hyps(2) u _ step.prems] show ?case by simp
qed

definition demo_stopped :: "session_view stretch" where
  "demo_stopped = control demo_env ''s'' demo_task Stop (demo_mgr demo_session3 demo_vault)"

lemma demo_stopped_eq:
  "demo_stopped = (Ok (session_view_of (controlled 1000 Stop demo_session3)), demo_mgr (controlled 1000 Stop demo_session3) [])"
proof -
  have s: "s_state demo_session3 = Running" "s_session_id demo_session3 = ''s''"
    by (simp_all add: demo_session3_def demo_session2_def demo_session1_def new_session_def)
  have "session_for ''s'' demo_task (demo_mgr demo_session3 demo_vault) = Ok demo_session3"
    by (simp add: session_for_Ok demo_mgr_def demo_session3_def demo_session2_def demo_session1_def new_session_def)
  with demo_lock [of demo_session3 demo_vault] s show ?thesis
    by (simp add: demo_stopped_def control_def in_session_def Let_def)
      (simp add: demo_mgr_def put_session_def invalidate_session_def hm_retain_def demo_binding_def demo_env_def)
qed

theorem stopped_is_final_witness:
  "s_state (controlled 1000 Stop demo_session3) = Stopped \<and>
   effects_of ''s'' (demo_effect\<lparr>y_mgr := snd demo_stopped\<rparr>) = [demo_action]"
proof -
  let ?z = "demo_effect\<lparr>y_mgr := snd demo_stopped\<rparr>"
  have step: "app_step demo_effect ?z"
    using app_step.user_control [where y = demo_effect and e = demo_env and c = Stop, OF demo_env_of] demo_stopped_eq
    by (simp add: demo_stopped_def)
  have run: "app_step\<^sup>*\<^sup>* (initial (Some 5) (Some True) empty_store) ?z"
    using demo_run step by (rule rtranclp.rtrancl_into_rtrancl)
  have t: "hm_get (m_sessions (y_mgr ?z)) ''s'' = Some (controlled 1000 Stop demo_session3)"
    by (simp add: demo_stopped_eq demo_mgr_def)
  have g: "s_generation (controlled 1000 Stop demo_session3) < u64_max" "s_state (controlled 1000 Stop demo_session3) = Stopped"
    by (simp_all add: controlled_def demo_session3_def demo_session2_def demo_session1_def new_session_def sat_u64_suc_def u64_max_def)
  from stopped_is_final [OF run t g(2) rtranclp.rtrancl_refl t g(1)] show ?thesis
    by (simp add: demo_action_def)
qed

lemma reason_ok_cases:
  assumes "reason_ok q x" shows "q = Paused \<longrightarrow> x \<noteq> None" "x \<noteq> None \<longrightarrow> q \<in> {Paused, Takeover, SessionFailed}"
  using assms by (cases q; simp add: reason_ok_def)+

lemma session_ok_consistent:
  assumes "session_ok k s"
  shows "s_session_id s = k \<and>
      (s_state s = Paused \<longrightarrow> s_pause_reason s \<noteq> None) \<and>
      (s_pause_reason s \<noteq> None \<longrightarrow> s_state s \<in> {Paused, Takeover, SessionFailed}) \<and>
      (s_current_action s \<noteq> None \<longrightarrow> s_state s = Running) \<and>
      (s_state s = Running \<longrightarrow> (\<exists>ob. s_last_observation s = Some ob \<and> window_visible (ob_window ob) \<and>
         ob_generation ob = s_generation s \<and> bundle_id (ob_application ob) \<in> set (s_approved_bundle_ids s) \<and>
         bundle_id (ob_application ob) \<in> dom (map_of qualified_apps))) \<and>
      (s_generation s < u64_max \<longrightarrow> s_cancellation_epoch s = s_generation s)"
  using assms unfolding session_ok_def ready_to_act_def by (elim conjE) (use reason_ok_cases in blast)

text \<open>
  C8. The state of every reachable session is consistent: a pause has a reason and a state that is not
  paused, taken over or failed has none; an action is shown as current only while the session runs; a
  running session has seen a visible window of an approved, qualified application in its current
  generation; the cancellation epoch follows the generation; and every reference in the vault belongs
  to a session, with exactly its project, task, generation and revision, so no reference outlives the
  observation that issued it.
\<close>

theorem app_invariant:
  assumes "app_step\<^sup>*\<^sup>* (initial ep rd store) y"
  shows "(\<forall>k s. hm_get (m_sessions (y_mgr y)) k = Some s \<longrightarrow> s_session_id s = k \<and>
      (s_state s = Paused \<longrightarrow> s_pause_reason s \<noteq> None) \<and>
      (s_pause_reason s \<noteq> None \<longrightarrow> s_state s \<in> {Paused, Takeover, SessionFailed}) \<and>
      (s_current_action s \<noteq> None \<longrightarrow> s_state s = Running) \<and>
      (s_state s = Running \<longrightarrow> (\<exists>ob. s_last_observation s = Some ob \<and> window_visible (ob_window ob) \<and>
         ob_generation ob = s_generation s \<and> bundle_id (ob_application ob) \<in> set (s_approved_bundle_ids s) \<and>
         bundle_id (ob_application ob) \<in> dom (map_of qualified_apps))) \<and>
      (s_generation s < u64_max \<longrightarrow> s_cancellation_epoch s = s_generation s)) \<and>
    (\<forall>r b. hm_get (m_references (y_mgr y)) r = Some b \<longrightarrow>
      (\<exists>s. hm_get (m_sessions (y_mgr y)) (rb_session_id b) = Some s \<and> rb_project_id b = s_project_id s \<and>
         rb_task_run_id b = s_task_run_id s \<and> rb_generation b = s_generation s \<and> rb_revision b = s_revision s))"
proof -
  have inv: "mgr_inv (y_mgr y)" using reached [OF assms] by (rule sys_okD(1))
  show ?thesis
    using session_ok_consistent [OF mgr_inv_session [OF inv]] inv
    unfolding mgr_inv_def vault_ok_def bound_to_def by blast
qed

theorem app_invariant_witness:
  "s_state demo_session3 = Running \<and> s_cancellation_epoch demo_session3 = s_generation demo_session3 \<and>
   s_session_id demo_session3 = ''s''"
proof -
  have "hm_get (m_sessions (y_mgr demo_effect)) ''s'' = Some demo_session3" by (simp add: demo_mgr_def)
  moreover have "s_generation demo_session3 < u64_max" "s_state demo_session3 = Running"
    by (simp_all add: demo_session3_def demo_session2_def demo_session1_def new_session_def u64_max_def)
  ultimately show ?thesis using app_invariant [OF demo_run] by blast
qed

text \<open>
  C10. Every effect is paid for: however calls interleave, the actions the driver has committed are at
  most as many as the reviews the user approved plus the uses the scope engine has recorded since the
  start; a direct approval is spent by one action and never again.
\<close>

theorem effects_paid:
  assumes "store_inv store" and "app_step\<^sup>*\<^sup>* (initial ep rd store) y"
  shows "length (y_effects y) + uses store \<le> y_reviews y + uses (snd (y_authority y))"
  using app_paid.run_inv [OF assms(2) initial_paid [OF assms(1)]] by (simp add: paid_def)

theorem effects_paid_witness: "length (y_effects demo_effect) \<le> y_reviews demo_effect"
  using effects_paid [OF empty_store_inv demo_run] by (simp add: uses_def empty_store_def)

lemma append_colon_eq:
  assumes "list_all (\<lambda>c. c \<noteq> CHR '':'') a" "list_all (\<lambda>c. c \<noteq> CHR '':'') b"
  shows "a @ CHR '':'' # x = b @ CHR '':'' # y \<longleftrightarrow> a = b \<and> x = y"
  using assms
proof (induction a arbitrary: b)
  case Nil
  then show ?case by (cases b) auto
next
  case (Cons c a)
  then show ?case by (cases b) auto
qed

text \<open>
  A direct approval is exact: between requests whose project, task, session and application
  identifiers hold no colon, the approval of one serves another only if all of these and the hash of the
  action with its arguments agree.
\<close>

theorem direct_approval_exact:
  assumes "list_all (list_all (\<lambda>c. c \<noteq> CHR '':''))
      [au_project_id r, au_task_run_id r, au_session_id r, au_bundle_id r,
       au_project_id r', au_task_run_id r', au_session_id r', au_bundle_id r']"
    and "evaluate sc r' ([direct_approval_key r], store) = (Ok d, ([], store'))"
  shows "store' = store \<and> ad_authorized d \<and>
    au_project_id r' = au_project_id r \<and> au_task_run_id r' = au_task_run_id r \<and>
    au_session_id r' = au_session_id r \<and> au_bundle_id r' = au_bundle_id r \<and>
    au_action_arguments_hash r' = au_action_arguments_hash r"
proof -
  have key: "direct_approval_key r' = direct_approval_key r" "store' = store" "ad_authorized d"
    using assms(2) by (auto simp: evaluate_def Let_def split: if_splits sum.splits)
  then show ?thesis
    using assms(1) by (simp add: direct_approval_key_def append_colon_eq)
qed

theorem direct_approval_exact_witness:
  "ad_authorized demo_decision \<and> au_session_id (p_authority demo_prepared) = ''s''"
proof -
  have "list_all id_char demo_task" "list_all id_char demo_project"
    using demo_parsed by (auto simp: parse_request_id_def dest: parse_id_chars split: sum.splits)
  moreover have "id_char c \<Longrightarrow> c \<noteq> CHR '':''" for c by (auto simp: id_char_def is_ascii_lowercase_def is_ascii_digit_def)
  ultimately have "list_all (\<lambda>c. c \<noteq> CHR '':'') demo_task" "list_all (\<lambda>c. c \<noteq> CHR '':'') demo_project"
    by (auto simp: list_all_iff)
  then have "list_all (list_all (\<lambda>c. c \<noteq> CHR '':''))
      [au_project_id r, au_task_run_id r, au_session_id r, au_bundle_id r,
       au_project_id r, au_task_run_id r, au_session_id r, au_bundle_id r]" if "r = p_authority demo_prepared" for r
    using that by (simp add: demo_prepared_def)
  from direct_approval_exact [OF this [OF refl] demo_evaluate] show ?thesis by (simp add: demo_prepared_def)
qed

text \<open>
  An outage of the input monitor ends the user's control: a session the user has taken over, or
  paused, is ready to be continued by the agent after the monitor was away and came back, without the
  user having returned it.
\<close>

theorem takeover_lost:
  assumes "hm_get (m_sessions st) sid = Some s" and "s_state s \<in> {Takeover, Paused}"
    and "e_ready down = Some False" and "e_ready up = Some True"
    and "e_epoch down = Some (m_acknowledged_input_epoch st)" and "e_epoch up = Some (m_acknowledged_input_epoch st)"
  shows "\<exists>t. hm_get (m_sessions (lock up (lock down st))) sid = Some t \<and> s_state t = ReturnPending"
  using assms by (auto simp: lock_def lock_ready_def lock_epoch_def for_sessions_def Let_def monitor_pause_def paused_def)

definition demo_taken :: manager_state where
  "demo_taken = demo_mgr (controlled 1000 TakeControl demo_session2) []"

theorem takeover_lost_witness:
  "s_state (controlled 1000 TakeControl demo_session2) = Takeover \<and>
   (\<exists>t. hm_get (m_sessions (lock demo_env (lock (demo_env\<lparr>e_ready := Some False\<rparr>) demo_taken))) ''s'' = Some t \<and>
      s_state t = ReturnPending)"
  using takeover_lost [of demo_taken "''s''" "controlled 1000 TakeControl demo_session2" "demo_env\<lparr>e_ready := Some False\<rparr>" demo_env]
  by (simp add: demo_taken_def demo_mgr_def controlled_def demo_env_def)

end
