(* ===== verification/Remote_Store.thy ===== *)
theory Remote_Store
  imports Sql_Table Opaque_Ids Hash_Map
begin

text \<open>
  Commands from paired devices (\<open>src-tauri/src/remote_access\<close>: \<open>contracts.rs\<close>, \<open>crypto.rs\<close>,
  \<open>command_store.rs\<close>): the tables, and the acceptance of a signed command. Acceptance reads the
  database in several statements; each is a function of the store here, so that other connections
  may write in between, and \<open>accept\<close> is their sequence on one store.

  Arguments (\<open>remote_env\<close>) are the hash, the hexadecimal decoder, the JSON encoder, Ed25519, the
  signature of this Mac (\<open>sovereign_identity.rs\<close>) and the calendar. A JSON column is its parsed value,
  \<open>None\<close> when it has another shape. The checks and triggers of the migrations are part of the
  insertions.
\<close>

subsection \<open>Contracts\<close>

record signed_command =
  sg_command_id :: string
  sg_device :: string
  sg_project :: string
  sg_task_run :: "string option"
  sg_kind :: string
  sg_nonce :: string
  sg_expires_at :: int
  sg_expected :: "nat option"
  sg_payload_sha :: string
  sg_signer :: string
  sg_payload :: json
  sg_signature :: string

record remote_device =
  rd_id :: string
  rd_label :: string
  rd_public_key :: string
  rd_projects :: "string list option"
  rd_scopes :: "string list option"
  rd_paired_at :: int
  rd_expires_at :: int
  rd_last_used :: "int option"
  rd_revoked :: "int option"

record stored_command =
  cm_id :: string
  cm_device :: string
  cm_project :: string
  cm_task_run :: "string option"
  cm_kind :: string
  cm_nonce :: string
  cm_expires_at :: int
  cm_expected :: "nat option"
  cm_payload_sha :: string
  cm_signer :: string
  cm_signature :: string
  cm_status :: string
  cm_outcome :: "string option"
  cm_result :: "json option"
  cm_received :: int
  cm_completed :: "int option"

record audit_receipt =
  rc_id :: string
  rc_device :: string
  rc_command :: "string option"
  rc_kind :: string
  rc_payload_sha :: string
  rc_signature :: string
  rc_created :: int
  rc_signer :: "string option"

record artifact_grant =
  ag_id :: string
  ag_token_hash :: string
  ag_device :: string
  ag_project :: string
  ag_artifact :: string
  ag_format :: string
  ag_private_path :: string
  ag_sha :: string
  ag_redaction :: string
  ag_protected :: bool
  ag_expires_at :: int
  ag_created :: int
  ag_content_state :: string
  ag_source_sha :: string
  ag_transfer_sha :: string
  ag_source_path :: string
  ag_transfer_path :: string
  ag_manifest_sha :: "string option"
  ag_approval :: string
  ag_opened :: "int option"
  ag_revoked :: "int option"

record task_run_row =
  tk_id :: string
  tk_task :: string
  tk_project :: "string option"
  tk_runtime :: string
  tk_record :: string
  tk_state :: string
  tk_origin :: string
  tk_correlation :: string
  tk_updated :: int
  tk_completed :: "int option"
  tk_recovery :: string

record task_event_row =
  te_run :: string
  te_sequence :: int
  te_event :: "json p0_event_envelope"
  te_created :: int

record runtime_row =
  rt_id :: string
  rt_status :: string
  rt_updated :: int
  rt_error :: "string option"

record artifact_record =
  ar_id :: string
  ar_project :: string
  ar_version :: int

record artifact_version =
  vr_artifact :: string
  vr_version :: int
  vr_status :: string
  vr_pdf_path :: string
  vr_pdf_sha :: string
  vr_docx_path :: string
  vr_docx_sha :: string
  vr_protected :: bool

record remote_store =
  r_devices :: "remote_device list"
  r_commands :: "stored_command list"
  r_receipts :: "audit_receipt list"
  r_grants :: "artifact_grant list"
  r_projects :: "(string \<times> string) list"
  r_runs :: "task_run_row list"
  r_events :: "task_event_row list"
  r_flow_steps :: "runtime_row list"
  r_flows :: "runtime_row list"
  r_agents :: "runtime_row list"
  r_queue :: "runtime_row list"
  r_artifacts :: "artifact_record list"
  r_versions :: "artifact_version list"

datatype remote_error =
  IdentityInvalid | NonceInvalid | ProjectInvalid | TaskInvalid | KindUnsupported | PayloadInvalid
| PayloadDigestMismatch | DeviceUnknown | DeviceRevoked | DeviceExpired | SignerKeyMismatch
| SignatureMismatch | CommandExpired | ExpiryUnbounded | DeviceProjectsInvalid | DeviceScopesInvalid
| ProjectScopeMismatch | TaskRequired | TaskScopeMismatch | ArtifactRequired | ArtifactScopeMismatch
| DuplicateId | ReplayedNonce | SequenceRequired | SequenceInvalid | StoreWriteFailed
| TaskMissing | TaskNotStoppable | StopRejected | TaskFinalizeFailed | TimeInvalid | EventInvalid
| EventStoreFailed | CommandMissing | CommandUnavailable | DeviceUnavailable | DeviceReadFailed
| CommandFinalizeFailed | DeviceUpdateFailed | ReceiptSigningFailed | ReceiptStoreFailed
| ReconcileFailed | FormatUnsupported | ArtifactIdInvalid | NotVerified | ArtifactProjectMismatch
| ProtectedArtifact | ArtifactMissing | SourceChanged | TransferMissing | TransferChanged | UserDenied
| ApprovalSigningFailed | ApprovalReceiptFailed | GrantStoreFailed | LinkInvalid | LinkUnavailable
| DeclarationMismatch | EncryptionFailed | LinkUsed | DeviceIdInvalid | DeviceLabelInvalid

record remote_env =
  v_sha256_hex :: "string \<Rightarrow> string"
  v_hex_decode :: "string \<Rightarrow> string option"
  v_json_bytes :: "json \<Rightarrow> string option"
  v_json_text :: "json \<Rightarrow> string"
  v_key_ok :: "string \<Rightarrow> bool"
  v_signature_ok :: "string \<Rightarrow> bool"
  v_ed25519 :: "string \<Rightarrow> string \<Rightarrow> string \<Rightarrow> bool"
  v_sign :: "string \<Rightarrow> (string \<times> string \<times> string) option"
  v_rfc3339 :: "int \<Rightarrow> string option"
  v_aead :: "string \<Rightarrow> string \<Rightarrow> string \<Rightarrow> string \<Rightarrow> string option"

subsection \<open>Acceptance\<close>

definition COMMAND_MAX_TTL_MS :: int where
  "COMMAND_MAX_TTL_MS = 5 * 60 * 1000"

definition supported_scope :: "string \<Rightarrow> string option" where
  "supported_scope k =
     (if k \<in> {''view_task'', ''stop_task'', ''request_artifact'', ''create_task'', ''steer_task'',
        ''answer_clarification'', ''approve_bounded_action''} then Some k else None)"

definition canonical_json :: "signed_command \<Rightarrow> json" where
  "canonical_json c = JObj
     [(''commandId'', JStr (sg_command_id c)), (''remoteDeviceId'', JStr (sg_device c)),
      (''projectId'', JStr (sg_project c)), (''taskRunId'', json_opt JStr (sg_task_run c)),
      (''commandKind'', JStr (sg_kind c)), (''nonce'', JStr (sg_nonce c)),
      (''expiresAtMs'', JInt (sg_expires_at c)),
      (''expectedTaskSequence'', json_opt (\<lambda>n. JInt (int n)) (sg_expected c)),
      (''payloadSha256'', JStr (sg_payload_sha c)), (''signerPublicKey'', JStr (sg_signer c))]"

definition canonical :: "remote_env \<Rightarrow> signed_command \<Rightarrow> string" where
  "canonical env c = v_json_text env (canonical_json c)"

definition verify :: "remote_env \<Rightarrow> string \<Rightarrow> string \<Rightarrow> string \<Rightarrow> bool" where
  "verify env key message signature =
     (case (v_hex_decode env key, v_hex_decode env signature) of
        (Some k, Some s) \<Rightarrow> length k = 32 \<and> v_key_ok env k \<and> v_signature_ok env s \<and> v_ed25519 env k message s
      | _ \<Rightarrow> False)"

definition validate_hex :: "remote_env \<Rightarrow> string \<Rightarrow> nat \<Rightarrow> bool" where
  "validate_hex env v bytes = (length v = bytes * 2 \<and>
     (case v_hex_decode env v of None \<Rightarrow> False | Some d \<Rightarrow> length d = bytes))"

text \<open>What needs no database.\<close>

definition check_request :: "remote_env \<Rightarrow> signed_command \<Rightarrow> remote_error + string" where
  "check_request env c =
     and_then (ensure (\<not> (blank (sg_command_id c) \<or> length (sg_command_id c) > 160)) IdentityInvalid) (\<lambda>_.
     and_then (ensure (validate_hex env (sg_nonce c) 32) NonceInvalid) (\<lambda>_.
     and_then (ensure (is_ok (parse_id ProjectId (sg_project c))) ProjectInvalid) (\<lambda>_.
     and_then (ensure (case sg_task_run c of None \<Rightarrow> True | Some t \<Rightarrow> is_ok (parse_id TaskRunId t)) TaskInvalid) (\<lambda>_.
     and_then (ok_or (supported_scope (sg_kind c)) KindUnsupported) (\<lambda>scope.
     and_then (ok_or (v_json_bytes env (sg_payload c)) PayloadInvalid) (\<lambda>encoded.
     and_then (ensure (\<not> (\<not> validate_hex env (sg_payload_sha c) 32 \<or>
       sg_payload_sha c \<noteq> v_sha256_hex env encoded)) PayloadDigestMismatch) (\<lambda>_.
     Ok scope)))))))"

definition find_device :: "string \<Rightarrow> remote_store \<Rightarrow> remote_device option" where
  "find_device d st = find (\<lambda>r. rd_id r = d) (r_devices st)"

definition check_device ::
  "remote_env \<Rightarrow> int \<Rightarrow> signed_command \<Rightarrow> remote_store \<Rightarrow> remote_error + string list \<times> string list" where
  "check_device env now c st =
     and_then (ok_or (find_device (sg_device c) st) DeviceUnknown) (\<lambda>d.
     and_then (ensure (\<not> rd_revoked d \<noteq> None) DeviceRevoked) (\<lambda>_.
     and_then (ensure (\<not> rd_expires_at d < now) DeviceExpired) (\<lambda>_.
     and_then (ensure (\<not> sg_signer c \<noteq> rd_public_key d) SignerKeyMismatch) (\<lambda>_.
     and_then (ensure (verify env (rd_public_key d) (canonical env c) (sg_signature c)) SignatureMismatch) (\<lambda>_.
     and_then (ensure (\<not> sg_expires_at c < now) CommandExpired) (\<lambda>_.
     and_then (ensure (\<not> sg_expires_at c > saturating_add now COMMAND_MAX_TTL_MS) ExpiryUnbounded) (\<lambda>_.
     and_then (ok_or (rd_projects d) DeviceProjectsInvalid) (\<lambda>projects.
     and_then (ok_or (rd_scopes d) DeviceScopesInvalid) (\<lambda>scopes.
     Ok (projects, scopes))))))))))"

definition check_project ::
  "signed_command \<Rightarrow> string \<Rightarrow> string list \<times> string list \<Rightarrow> remote_store \<Rightarrow> remote_error + unit" where
  "check_project c required allowed st =
     ensure (\<not> (\<not> list_ex (\<lambda>p. fst p = sg_project c) (r_projects st) \<or>
       \<not> sg_project c \<in> set (fst allowed) \<or> \<not> required \<in> set (snd allowed))) ProjectScopeMismatch"

definition find_run :: "string \<Rightarrow> remote_store \<Rightarrow> task_run_row option" where
  "find_run t st = find (\<lambda>r. tk_id r = t) (r_runs st)"

definition check_task :: "signed_command \<Rightarrow> remote_store \<Rightarrow> remote_error + unit" where
  "check_task c st =
     (if sg_kind c \<in> {''view_task'', ''stop_task''} then
        and_then (ok_or (sg_task_run c) TaskRequired) (\<lambda>t.
        ensure (\<not> Option.bind (find_run t st) tk_project \<noteq> Some (sg_project c)) TaskScopeMismatch)
      else Ok ())"

definition check_artifact :: "signed_command \<Rightarrow> remote_store \<Rightarrow> remote_error + unit" where
  "check_artifact c st =
     (if sg_kind c = ''request_artifact'' then
        and_then (ok_or (Option.bind (json_get (sg_payload c) ''artifactId'') json_str) ArtifactRequired) (\<lambda>a.
        ensure (\<not> map_option ar_project (find (\<lambda>r. ar_id r = a) (r_artifacts st)) \<noteq> Some (sg_project c))
          ArtifactScopeMismatch)
      else Ok ())"

definition check_command_id :: "signed_command \<Rightarrow> remote_store \<Rightarrow> remote_error + unit" where
  "check_command_id c st = ensure (\<not> list_ex (\<lambda>r. cm_id r = sg_command_id c) (r_commands st)) DuplicateId"

definition check_nonce :: "signed_command \<Rightarrow> remote_store \<Rightarrow> remote_error + unit" where
  "check_nonce c st =
     ensure (\<not> list_ex (\<lambda>r. cm_device r = sg_device c \<and> cm_nonce r = sg_nonce c) (r_commands st)) ReplayedNonce"

definition next_sequence :: "string \<Rightarrow> remote_store \<Rightarrow> int" where
  "next_sequence t st = fold (\<lambda>e m. max m (te_sequence e)) (filter (\<lambda>e. te_run e = t) (r_events st)) (-1) + 1"

definition current_task_sequence :: "string \<Rightarrow> remote_store \<Rightarrow> remote_error + nat" where
  "current_task_sequence t st =
     (let v = next_sequence t st in if v < 0 then Err SequenceInvalid else Ok (nat v))"

text \<open>Whether the task moved on since the device saw it; only a command to stop asks.\<close>

definition check_sequence :: "signed_command \<Rightarrow> remote_store \<Rightarrow> remote_error + bool" where
  "check_sequence c st =
     and_then (if sg_kind c = ''stop_task'' then
         and_then (ok_or (sg_expected c) SequenceRequired) (\<lambda>expected.
         and_then (current_task_sequence (the (sg_task_run c)) st) (\<lambda>current. Ok (expected \<noteq> current)))
       else Ok False) (\<lambda>conflict.
     and_then (ensure (case sg_expected c of None \<Rightarrow> True | Some n \<Rightarrow> int n \<le> i64_max) SequenceInvalid) (\<lambda>_.
     Ok conflict))"

definition accepted_row :: "int \<Rightarrow> signed_command \<Rightarrow> stored_command" where
  "accepted_row now c =
     \<lparr>cm_id = sg_command_id c, cm_device = sg_device c, cm_project = sg_project c,
      cm_task_run = sg_task_run c, cm_kind = sg_kind c, cm_nonce = sg_nonce c,
      cm_expires_at = sg_expires_at c, cm_expected = sg_expected c, cm_payload_sha = sg_payload_sha c,
      cm_signer = sg_signer c, cm_signature = sg_signature c, cm_status = ''accepted'',
      cm_outcome = None, cm_result = None, cm_received = now, cm_completed = None\<rparr>"

text \<open>The insertion, atomic, under the keys of the table and the reference to the device.\<close>

definition insert_command :: "int \<Rightarrow> signed_command \<Rightarrow> remote_store \<Rightarrow> remote_error + remote_store" where
  "insert_command now c st =
     and_then (check_command_id c st) (\<lambda>_.
     and_then (check_nonce c st) (\<lambda>_.
     and_then (ensure (find_device (sg_device c) st \<noteq> None) StoreWriteFailed) (\<lambda>_.
     Ok (st\<lparr>r_commands := r_commands st @ [accepted_row now c]\<rparr>))))"

definition load :: "string \<Rightarrow> remote_store \<Rightarrow> stored_command option" where
  "load command_id st = find (\<lambda>r. cm_id r = command_id) (r_commands st)"

definition accept ::
  "remote_env \<Rightarrow> int \<Rightarrow> signed_command \<Rightarrow> remote_store \<Rightarrow>
   remote_error + (stored_command \<times> bool) \<times> remote_store" where
  "accept env now c st =
     and_then (check_request env c) (\<lambda>required.
     and_then (check_device env now c st) (\<lambda>allowed.
     and_then (check_project c required allowed st) (\<lambda>_.
     and_then (check_task c st) (\<lambda>_.
     and_then (check_artifact c st) (\<lambda>_.
     and_then (check_command_id c st) (\<lambda>_.
     and_then (check_nonce c st) (\<lambda>_.
     and_then (check_sequence c st) (\<lambda>conflict.
     and_then (insert_command now c st) (\<lambda>st'.
     and_then (ok_or (load (sg_command_id c) st') StoreWriteFailed) (\<lambda>stored.
     Ok ((stored, conflict), st')))))))))))"

subsection \<open>Facts\<close>

lemma find_device_Some:
  assumes "find_device d st = Some r" shows "r \<in> set (r_devices st) \<and> rd_id r = d"
  using assms unfolding find_device_def by (auto simp: find_Some_iff)

lemma insert_command_Ok:
  "insert_command now c st = Ok st' \<longleftrightarrow>
     (\<forall>r \<in> set (r_commands st). cm_id r \<noteq> sg_command_id c \<and> \<not> (cm_device r = sg_device c \<and> cm_nonce r = sg_nonce c)) \<and>
     find_device (sg_device c) st \<noteq> None \<and> st' = st\<lparr>r_commands := r_commands st @ [accepted_row now c]\<rparr>"
  unfolding insert_command_def check_command_id_def check_nonce_def result_simps
  by (auto simp: list_ex_iff)

lemma canonical_json_inj:
  "canonical_json c = canonical_json c' \<longleftrightarrow>
     sg_command_id c = sg_command_id c' \<and> sg_device c = sg_device c' \<and> sg_project c = sg_project c' \<and>
     sg_task_run c = sg_task_run c' \<and> sg_kind c = sg_kind c' \<and> sg_nonce c = sg_nonce c' \<and>
     sg_expires_at c = sg_expires_at c' \<and> sg_expected c = sg_expected c' \<and>
     sg_payload_sha c = sg_payload_sha c' \<and> sg_signer c = sg_signer c'"
  by (auto simp: canonical_json_def json_opt_def split: option.splits)

end
