(* ===== verification/Remote_Execution.thy ===== *)
theory Remote_Execution
  imports Remote_Store
begin

text \<open>
  Execution of accepted commands (\<open>remote_access/execution_commit.rs\<close>), the transfer of files to a
  device (\<open>artifact_transfer.rs\<close>) and the administration of devices (\<open>repository.rs\<close>). A transaction
  is a function from the store to an error, which leaves the store as it was, or the new store.
  Files are a function from paths to contents. The view of the task that a result carries
  (\<open>tasks\<close>) and the texts of the approval dialog are left out; the user's answer is an argument.
\<close>

subsection \<open>Files for a device\<close>

definition GRANT_TTL_MS :: int where
  "GRANT_TTL_MS = 10 * 60 * 1000"

definition FULL_CONTENT :: string where
  "FULL_CONTENT = ''full_content''"

record artifact_candidate =
  ac_artifact :: string
  ac_project_name :: string
  ac_format :: string
  ac_path :: string
  ac_digest :: string
  ac_bytes :: string
  ac_protected :: bool

record prepared_grant =
  pr_grant :: artifact_grant
  pr_token :: string
  pr_receipt :: audit_receipt

type_synonym files = "string \<Rightarrow> string option"

text \<open>The joined row: project, project name, path and digest of the format, protection.\<close>

definition artifact_row :: "string \<Rightarrow> string \<Rightarrow> remote_store \<Rightarrow> (string \<times> string \<times> string \<times> string \<times> bool) option" where
  "artifact_row artifact fmt st =
     (case [(ar_project r, name, if fmt = ''pdf'' then vr_pdf_path v else vr_docx_path v,
             if fmt = ''pdf'' then vr_pdf_sha v else vr_docx_sha v, vr_protected v).
            r \<leftarrow> r_artifacts st, ar_id r = artifact, (p, name) \<leftarrow> r_projects st, p = ar_project r,
            v \<leftarrow> r_versions st, vr_artifact v = ar_id r \<and> vr_version v = ar_version r \<and> vr_status v = ''verified''] of
        [] \<Rightarrow> None | row # _ \<Rightarrow> Some row)"

definition resolve_candidate ::
  "remote_env \<Rightarrow> files \<Rightarrow> signed_command \<Rightarrow> remote_store \<Rightarrow> remote_error + artifact_candidate" where
  "resolve_candidate env fs c st =
     and_then (ok_or (Option.bind (json_get (sg_payload c) ''artifactId'') json_str) ArtifactRequired) (\<lambda>artifact.
     and_then (ensure (is_ok (parse_id ArtifactId artifact)) ArtifactIdInvalid) (\<lambda>_.
     let fmt = (case Option.bind (json_get (sg_payload c) ''format'') json_str of None \<Rightarrow> ''pdf'' | Some f \<Rightarrow> f) in
     and_then (ensure (fmt \<in> {''pdf'', ''docx''}) FormatUnsupported) (\<lambda>_.
     and_then (ok_or (artifact_row artifact fmt st) NotVerified) (\<lambda>(project, name, path, digest, protected).
     and_then (ensure (\<not> project \<noteq> sg_project c) ArtifactProjectMismatch) (\<lambda>_.
     and_then (ensure (\<not> protected) ProtectedArtifact) (\<lambda>_.
     and_then (ok_or (fs path) ArtifactMissing) (\<lambda>bytes.
     and_then (ensure (\<not> v_sha256_hex env bytes \<noteq> digest) SourceChanged) (\<lambda>_.
     Ok \<lparr>ac_artifact = artifact, ac_project_name = name, ac_format = fmt, ac_path = path,
        ac_digest = v_sha256_hex env bytes, ac_bytes = bytes, ac_protected = False\<rparr>))))))))"

record fresh_ids =
  fi_grant :: string
  fi_token :: string
  fi_receipt :: string

definition approval_json :: "int \<Rightarrow> fresh_ids \<Rightarrow> signed_command \<Rightarrow> artifact_candidate \<Rightarrow> string \<Rightarrow> json" where
  "approval_json now ids c cand label = JObj
     [(''receiptId'', JStr (fi_receipt ids)), (''receiptKind'', JStr ''remote_artifact_approval''),
      (''commandId'', JStr (sg_command_id c)), (''remoteDeviceId'', JStr (sg_device c)),
      (''deviceLabel'', JStr label), (''deviceKey'', JStr (sg_signer c)), (''projectId'', JStr (sg_project c)),
      (''artifactId'', JStr (ac_artifact cand)), (''format'', JStr (ac_format cand)),
      (''bytes'', JInt (int (length (ac_bytes cand)))), (''contentState'', JStr FULL_CONTENT),
      (''sourceSha256'', JStr (ac_digest cand)), (''transferSha256'', JStr (ac_digest cand)),
      (''expiresAtMs'', JInt (saturating_add now GRANT_TTL_MS)), (''approvedAtMs'', JInt now)]"

definition prepare_with_decision ::
  "remote_env \<Rightarrow> int \<Rightarrow> fresh_ids \<Rightarrow> signed_command \<Rightarrow> artifact_candidate \<Rightarrow> string \<Rightarrow> bool \<Rightarrow>
   remote_error + prepared_grant" where
  "prepare_with_decision env now ids c cand label approved =
     and_then (ensure approved UserDenied) (\<lambda>_.
     and_then (ok_or (v_sign env (v_json_text env (approval_json now ids c cand label))) ApprovalSigningFailed)
       (\<lambda>(hash, key, signature).
     Ok \<lparr>pr_grant = \<lparr>ag_id = fi_grant ids, ag_token_hash = v_sha256_hex env (fi_token ids), ag_device = sg_device c,
           ag_project = sg_project c, ag_artifact = ac_artifact cand, ag_format = ac_format cand,
           ag_private_path = ac_path cand, ag_sha = ac_digest cand, ag_redaction = ''full_content'',
           ag_protected = ac_protected cand, ag_expires_at = saturating_add now GRANT_TTL_MS, ag_created = now,
           ag_content_state = FULL_CONTENT, ag_source_sha = ac_digest cand, ag_transfer_sha = ac_digest cand,
           ag_source_path = ac_path cand, ag_transfer_path = ac_path cand, ag_manifest_sha = None,
           ag_approval = fi_receipt ids, ag_opened = None, ag_revoked = None\<rparr>,
         pr_token = fi_token ids,
         pr_receipt = \<lparr>rc_id = fi_receipt ids, rc_device = sg_device c, rc_command = Some (sg_command_id c),
           rc_kind = ''remote_artifact_approval'', rc_payload_sha = hash, rc_signature = signature,
           rc_created = now, rc_signer = Some key\<rparr>\<rparr>))"

definition prepare_grant ::
  "remote_env \<Rightarrow> files \<Rightarrow> int \<Rightarrow> fresh_ids \<Rightarrow> bool \<Rightarrow> signed_command \<Rightarrow> string \<Rightarrow> remote_store \<Rightarrow>
   remote_error + prepared_grant" where
  "prepare_grant env fs now ids approved c label st =
     and_then (resolve_candidate env fs c st) (\<lambda>cand.
     prepare_with_decision env now ids c cand label approved)"

definition read_transfer ::
  "remote_env \<Rightarrow> files \<Rightarrow> string \<Rightarrow> string \<Rightarrow> string \<Rightarrow> string \<Rightarrow> remote_error + string" where
  "read_transfer env fs source transfer source_sha transfer_sha =
     and_then (ok_or (fs source) ArtifactMissing) (\<lambda>source_bytes.
     and_then (if source = transfer then Ok source_bytes else ok_or (fs transfer) TransferMissing) (\<lambda>transfer_bytes.
     and_then (ensure (\<not> v_sha256_hex env source_bytes \<noteq> source_sha) SourceChanged) (\<lambda>_.
     and_then (ensure (\<not> v_sha256_hex env transfer_bytes \<noteq> transfer_sha) TransferChanged) (\<lambda>_.
     Ok transfer_bytes))))"

definition revalidate_prepared :: "remote_env \<Rightarrow> files \<Rightarrow> prepared_grant \<Rightarrow> remote_error + unit" where
  "revalidate_prepared env fs p =
     (let g = pr_grant p in
      and_then (read_transfer env fs (ag_source_path g) (ag_transfer_path g) (ag_source_sha g) (ag_transfer_sha g))
        (\<lambda>_. Ok ()))"

subsection \<open>Receipts\<close>

text \<open>The keys of the table, its partial unique index and its trigger.\<close>

definition insert_receipt :: "remote_error \<Rightarrow> audit_receipt \<Rightarrow> remote_store \<Rightarrow> remote_error + remote_store" where
  "insert_receipt err r st =
     and_then (ensure (\<not> list_ex (\<lambda>x. rc_id x = rc_id r) (r_receipts st)) err) (\<lambda>_.
     and_then (ensure (rc_kind r = ''remote_command'' \<longrightarrow>
       rc_command r \<noteq> None \<and> \<not> sql_blank (case rc_signer r of None \<Rightarrow> [] | Some s \<Rightarrow> s) \<and>
       \<not> sql_blank (rc_payload_sha r) \<and> \<not> sql_blank (rc_signature r) \<and>
       \<not> list_ex (\<lambda>x. rc_command x = rc_command r \<and> rc_kind x = ''remote_command'') (r_receipts st)) err) (\<lambda>_.
     Ok (st\<lparr>r_receipts := r_receipts st @ [r]\<rparr>)))"

text \<open>The keys, checks, reference and trigger of the grants.\<close>

definition insert_grant :: "artifact_grant \<Rightarrow> remote_store \<Rightarrow> remote_error + remote_store" where
  "insert_grant g st =
     and_then (ensure (\<not> list_ex (\<lambda>x. ag_id x = ag_id g \<or> ag_token_hash x = ag_token_hash g) (r_grants st)) GrantStoreFailed) (\<lambda>_.
     and_then (ensure (ag_format g \<in> {''docx'', ''pdf''} \<and> find_device (ag_device g) st \<noteq> None) GrantStoreFailed) (\<lambda>_.
     and_then (ensure (ag_content_state g \<in> {''full_content'', ''verified_redacted_derivative''} \<and>
       \<not> sql_blank (ag_source_sha g) \<and> \<not> sql_blank (ag_transfer_sha g) \<and> \<not> sql_blank (ag_source_path g) \<and>
       \<not> sql_blank (ag_transfer_path g) \<and> \<not> sql_blank (ag_approval g) \<and>
       list_ex (\<lambda>x. rc_id x = ag_approval g \<and> rc_kind x = ''remote_artifact_approval'') (r_receipts st)) GrantStoreFailed) (\<lambda>_.
     and_then (ensure (ag_content_state g = ''full_content'' \<longrightarrow>
       ag_source_sha g = ag_transfer_sha g \<and> ag_source_path g = ag_transfer_path g) GrantStoreFailed) (\<lambda>_.
     and_then (ensure (ag_content_state g = ''verified_redacted_derivative'' \<longrightarrow>
       \<not> sql_blank (case ag_manifest_sha g of None \<Rightarrow> [] | Some s \<Rightarrow> s)) GrantStoreFailed) (\<lambda>_.
     Ok (st\<lparr>r_grants := r_grants st @ [g]\<rparr>))))))"

definition insert_prepared :: "prepared_grant \<Rightarrow> remote_store \<Rightarrow> remote_error + remote_store" where
  "insert_prepared p st =
     and_then (insert_receipt ApprovalReceiptFailed (pr_receipt p) st) (insert_grant (pr_grant p))"

subsection \<open>Executing a command\<close>

record final_outcome =
  fo_status :: string
  fo_code :: string
  fo_message :: string

definition outcome_for :: "string \<Rightarrow> final_outcome" where
  "outcome_for k =
     (if k \<in> {''view_task'', ''stop_task'', ''request_artifact''}
      then \<lparr>fo_status = ''completed'', fo_code = ''applied'', fo_message = ''Your Mac completed this request.''\<rparr>
      else \<lparr>fo_status = ''rejected'', fo_code = ''local_review_required'',
        fo_message = ''Open OOMU on your Mac to finish this request safely.''\<rparr>)"

definition sequence_conflict :: final_outcome where
  "sequence_conflict = \<lparr>fo_status = ''rejected'', fo_code = ''remote_command_sequence_conflict'',
     fo_message = ''This Task changed on your Mac. OOMU kept the Mac's version.''\<rparr>"

definition STOPPABLE :: "string list" where
  "STOPPABLE = [''queued'', ''planning'', ''awaiting_approval'', ''running'', ''blocked'']"

definition set_status :: "string \<Rightarrow> int \<Rightarrow> runtime_row \<Rightarrow> runtime_row" where
  "set_status status now r = r\<lparr>rt_status := status, rt_updated := now\<rparr>"

text \<open>The record the run stands for, cancelled; the number of rows it changed.\<close>

definition stop_runtime :: "string \<Rightarrow> string \<Rightarrow> int \<Rightarrow> remote_store \<Rightarrow> remote_error + nat \<times> remote_store" where
  "stop_runtime runtime record_id now st =
     (if runtime = ''taskflow'' then
        (let steps = update_rows (\<lambda>r. rt_id r = record_id \<and> rt_status r \<in> {''queued'', ''active''})
               (\<lambda>r. r\<lparr>rt_status := ''cancelled''\<rparr>) (r_flow_steps st);
             P = (\<lambda>r. rt_id r = record_id \<and> rt_status r \<notin> {''verified'', ''cancelled''}) in
         Ok (changed_rows P (r_flows st), st\<lparr>r_flow_steps := steps,
           r_flows := update_rows P (set_status ''cancelled'' now) (r_flows st)\<rparr>))
      else if runtime = ''agent'' then
        (let P = (\<lambda>r. rt_id r = record_id \<and> rt_status r \<in> {''running'', ''halted''}) in
         Ok (changed_rows P (r_agents st), st\<lparr>r_agents := update_rows P (set_status ''cancelled'' now) (r_agents st)\<rparr>))
      else if runtime = ''queued_message'' then
        (let P = (\<lambda>r. rt_id r = record_id \<and> rt_status r = ''queued'') in
         Ok (changed_rows P (r_queue st), st\<lparr>r_queue := update_rows P (\<lambda>r. (set_status ''cancelled'' now r)
           \<lparr>rt_error := Some ''Cancelled from a trusted remote device.''\<rparr>) (r_queue st)\<rparr>))
      else Err TaskNotStoppable)"

definition cancel_event :: "string \<Rightarrow> stored_command \<Rightarrow> task_run_row \<Rightarrow> string \<Rightarrow> nat \<Rightarrow> json p0_event_envelope" where
  "cancel_event timestamp c t run sequence =
     \<lparr>ev_schema_version = P0_CONTRACT_VERSION, ev_event_type = ''task.cancel'', ev_project_id = cm_project c,
      ev_task_id = tk_task t, ev_task_run_id = Some run, ev_correlation_id = tk_correlation t,
      ev_sequence = sequence, ev_timestamp = timestamp, ev_evidence_class = ExecutedMutation,
      ev_payload = JObj [(''previousState'', JStr (tk_state t)), (''state'', JStr ''cancelled''),
        (''runtime'', JStr (tk_runtime t)), (''origin'', JStr (tk_origin t)),
        (''source'', JStr ''trusted_remote_device'')]\<rparr>"

definition apply_stop_task ::
  "remote_env \<Rightarrow> int \<Rightarrow> stored_command \<Rightarrow> nat \<Rightarrow> remote_store \<Rightarrow> remote_error + remote_store" where
  "apply_stop_task env now c sequence st =
     and_then (ok_or (cm_task_run c) TaskRequired) (\<lambda>run.
     and_then (ok_or (find_run run st) TaskMissing) (\<lambda>t.
     and_then (ensure (\<not> tk_project t \<noteq> Some (cm_project c)) TaskScopeMismatch) (\<lambda>_.
     and_then (ensure (tk_state t \<in> set STOPPABLE) TaskNotStoppable) (\<lambda>_.
     and_then (stop_runtime (tk_runtime t) (tk_record t) now st) (\<lambda>(n, st).
     and_then (ensure (\<not> n \<noteq> 1) StopRejected) (\<lambda>_.
     let P = (\<lambda>r. tk_id r = run \<and> tk_state r \<in> set STOPPABLE) in
     and_then (ensure (\<not> changed_rows P (r_runs st) \<noteq> 1) TaskFinalizeFailed) (\<lambda>_.
     let st = st\<lparr>r_runs := update_rows P (\<lambda>r. r\<lparr>tk_state := ''cancelled'', tk_updated := now,
           tk_completed := Some now, tk_recovery := ''not_required''\<rparr>) (r_runs st)\<rparr> in
     and_then (ok_or (v_rfc3339 env now) TimeInvalid) (\<lambda>timestamp.
     and_then (ensure (is_ok (parse_id ProjectId (cm_project c)) \<and> is_ok (parse_id TaskId (tk_task t)) \<and>
       is_ok (parse_id TaskRunId run)) EventInvalid) (\<lambda>_.
     and_then (ensure (int sequence \<le> i64_max) SequenceInvalid) (\<lambda>_.
     and_then (ensure (\<not> list_ex (\<lambda>e. te_run e = run \<and> te_sequence e = int sequence) (r_events st)) EventStoreFailed) (\<lambda>_.
     Ok (st\<lparr>r_events := r_events st @ [\<lparr>te_run = run, te_sequence = int sequence,
       te_event = cancel_event timestamp c t run sequence, te_created = now\<rparr>]\<rparr>))))))))))))"

definition final_json :: "int \<Rightarrow> stored_command \<Rightarrow> final_outcome \<Rightarrow> prepared_grant option \<Rightarrow> json" where
  "final_json now c outcome artifact = JObj
     [(''commandId'', JStr (cm_id c)), (''remoteDeviceId'', JStr (cm_device c)), (''projectId'', JStr (cm_project c)),
      (''taskRunId'', json_opt JStr (cm_task_run c)), (''commandKind'', JStr (cm_kind c)),
      (''payloadSha256'', JStr (cm_payload_sha c)), (''status'', JStr (fo_status outcome)),
      (''outcomeCode'', JStr (fo_code outcome)),
      (''contentState'', json_opt (\<lambda>p. JStr (ag_content_state (pr_grant p))) artifact),
      (''transferSha256'', json_opt (\<lambda>p. JStr (ag_transfer_sha (pr_grant p))) artifact), (''completedAtMs'', JInt now)]"

definition signed_final_receipt ::
  "remote_env \<Rightarrow> string \<Rightarrow> stored_command \<Rightarrow> final_outcome \<Rightarrow> prepared_grant option \<Rightarrow> int \<Rightarrow> remote_error + audit_receipt" where
  "signed_final_receipt env receipt_id c outcome artifact now =
     and_then (ok_or (v_sign env (v_json_text env (final_json now c outcome artifact))) ReceiptSigningFailed)
       (\<lambda>(hash, key, signature).
     Ok \<lparr>rc_id = receipt_id, rc_device = cm_device c, rc_command = Some (cm_id c), rc_kind = ''remote_command'',
        rc_payload_sha = hash, rc_signature = signature, rc_created = now, rc_signer = Some key\<rparr>)"

record command_result =
  cr_command_id :: string
  cr_status :: string
  cr_code :: string
  cr_message :: string
  cr_token :: "string option"

definition has_receipt :: "string \<Rightarrow> remote_store \<Rightarrow> bool" where
  "has_receipt command_id st =
     list_ex (\<lambda>r. rc_command r = Some command_id \<and> rc_kind r = ''remote_command'') (r_receipts st)"

definition result_from_persisted ::
  "stored_command \<Rightarrow> prepared_grant option \<Rightarrow> remote_store \<Rightarrow> remote_error + command_result option" where
  "result_from_persisted c artifact st =
     and_then (ok_or (load (cm_id c) st) ReconcileFailed) (\<lambda>stored.
     if \<not> has_receipt (cm_id c) st \<or> cm_status stored \<notin> {''completed'', ''rejected''} then Ok None
     else Ok (Some \<lparr>cr_command_id = cm_id stored, cr_status = cm_status stored,
       cr_code = (case cm_outcome stored of None \<Rightarrow> ''remote_execution_outcome_missing'' | Some code \<Rightarrow> code),
       cr_message = (case Option.bind (Option.bind (cm_result stored) (\<lambda>j. json_get j ''message'')) json_str of
          None \<Rightarrow> ''Your Mac completed this request.'' | Some m \<Rightarrow> m),
       cr_token = map_option pr_token artifact\<rparr>))"

definition finalize_command ::
  "string \<Rightarrow> string \<Rightarrow> string \<Rightarrow> json \<Rightarrow> int \<Rightarrow> remote_store \<Rightarrow> nat \<times> remote_store" where
  "finalize_command command_id status code result now st =
     (let P = (\<lambda>r. cm_id r = command_id \<and> cm_status r = ''accepted'') in
      (changed_rows P (r_commands st), st\<lparr>r_commands := update_rows P (\<lambda>r. r\<lparr>cm_status := status,
         cm_outcome := Some code, cm_result := Some result, cm_completed := Some now\<rparr>) (r_commands st)\<rparr>))"

definition touch_device :: "string \<Rightarrow> int \<Rightarrow> remote_store \<Rightarrow> nat \<times> remote_store" where
  "touch_device d now st =
     (let P = (\<lambda>r. rd_id r = d \<and> rd_revoked r = None \<and> rd_expires_at r \<ge> now) in
      (changed_rows P (r_devices st), st\<lparr>r_devices := update_rows P (\<lambda>r. r\<lparr>rd_last_used := Some now\<rparr>) (r_devices st)\<rparr>))"

text \<open>The transaction of \<open>commit_sequence_conflict\<close>; \<open>None\<close> when another one decided the command first.\<close>

definition conflict_transaction ::
  "remote_env \<Rightarrow> int \<Rightarrow> string \<Rightarrow> stored_command \<Rightarrow> string \<Rightarrow> remote_store \<Rightarrow> remote_error + remote_store option" where
  "conflict_transaction env now receipt_id c message st =
     and_then (signed_final_receipt env receipt_id c sequence_conflict None now) (\<lambda>receipt.
     let (n, st') = finalize_command (cm_id c) ''rejected'' (fo_code sequence_conflict)
           (JObj [(''message'', JStr message)]) now st in
     if n \<noteq> 1 then Ok None
     else and_then (insert_receipt ReceiptStoreFailed receipt (snd (touch_device (cm_device c) now st'))) (\<lambda>st''. Ok (Some st'')))"

definition device_valid :: "stored_command \<Rightarrow> int \<Rightarrow> remote_store \<Rightarrow> bool" where
  "device_valid c now st = list_ex (\<lambda>r. rd_id r = cm_device c \<and> rd_public_key r = cm_signer c \<and>
     rd_revoked r = None \<and> rd_expires_at r \<ge> now) (r_devices st)"

text \<open>The task's next sequence number, for a command that names a task.\<close>

definition run_sequence :: "stored_command \<Rightarrow> remote_store \<Rightarrow> remote_error + nat option" where
  "run_sequence c st = (case cm_task_run c of
       None \<Rightarrow> Ok None
     | Some t \<Rightarrow> and_then (current_task_sequence t st) (\<lambda>n. Ok (Some n)))"

definition stop_conflict :: "stored_command \<Rightarrow> nat option \<Rightarrow> bool" where
  "stop_conflict c sequence = (cm_kind c = ''stop_task'' \<and> sequence \<noteq> cm_expected c)"

text \<open>The transaction of \<open>execute_accepted\<close>; \<open>None\<close> when the command is no longer open.\<close>

definition execute_transaction ::
  "remote_env \<Rightarrow> int \<Rightarrow> string \<Rightarrow> stored_command \<Rightarrow> prepared_grant option \<Rightarrow> remote_store \<Rightarrow>
   remote_error + remote_store option" where
  "execute_transaction env now receipt_id c artifact st =
     and_then (ok_or (load (cm_id c) st) CommandMissing) (\<lambda>current.
     if cm_status current \<noteq> ''accepted'' then Ok None
     else
       and_then (ensure (device_valid c now st) DeviceUnavailable) (\<lambda>_.
       and_then (run_sequence c st) (\<lambda>sequence.
       let outcome = (if stop_conflict c sequence then sequence_conflict else outcome_for (cm_kind c)) in
       and_then (if \<not> stop_conflict c sequence \<and> cm_kind c = ''stop_task''
         then apply_stop_task env now c (the sequence) st else Ok st) (\<lambda>st.
       and_then (case artifact of
           Some p \<Rightarrow> if fo_status outcome = ''completed'' then insert_prepared p st else Ok st
         | None \<Rightarrow> Ok st) (\<lambda>st.
       let (n, st) = finalize_command (cm_id c) (fo_status outcome) (fo_code outcome)
             (JObj [(''message'', JStr (fo_message outcome)),
                (''contentState'', json_opt (\<lambda>p. JStr (ag_content_state (pr_grant p))) artifact),
                (''transferSha256'', json_opt (\<lambda>p. JStr (ag_transfer_sha (pr_grant p))) artifact)]) now st in
       and_then (ensure (\<not> n \<noteq> 1) CommandFinalizeFailed) (\<lambda>_.
       let (m, st) = touch_device (cm_device c) now st in
       and_then (ensure (\<not> m \<noteq> 1) DeviceUpdateFailed) (\<lambda>_.
       and_then (signed_final_receipt env receipt_id c outcome artifact now) (\<lambda>receipt.
       and_then (insert_receipt ReceiptStoreFailed receipt st) (\<lambda>st. Ok (Some st))))))))))"

subsection \<open>Handing over a file\<close>

record encrypted_artifact =
  ea_artifact :: string
  ea_format :: string
  ea_nonce :: string
  ea_ciphertext :: string
  ea_source_sha :: string
  ea_transfer_sha :: string
  ea_content_state :: string
  ea_expires_at :: int
  ea_associated_data :: string

definition retrievable :: "string \<Rightarrow> string \<Rightarrow> int \<Rightarrow> remote_store \<Rightarrow> artifact_grant \<Rightarrow> bool" where
  "retrievable d token_hash now st g \<longleftrightarrow>
     list_ex (\<lambda>r. rd_id r = ag_device g \<and> rd_revoked r = None \<and> rd_expires_at r \<ge> now) (r_devices st) \<and>
     list_ex (\<lambda>r. rc_id r = ag_approval g \<and> rc_kind r = ''remote_artifact_approval'') (r_receipts st) \<and>
     ag_device g = d \<and> ag_token_hash g = token_hash \<and> ag_expires_at g \<ge> now \<and> ag_opened g = None \<and>
     ag_revoked g = None \<and> \<not> ag_protected g \<and>
     ag_content_state g \<in> {''full_content'', ''verified_redacted_derivative''}"

definition retrieve_read ::
  "remote_env \<Rightarrow> int \<Rightarrow> string \<Rightarrow> string \<Rightarrow> remote_store \<Rightarrow> remote_error + artifact_grant" where
  "retrieve_read env now d token st =
     and_then (ensure (\<not> (length token \<noteq> 64 \<or> v_hex_decode env token = None)) LinkInvalid) (\<lambda>_.
     ok_or (find (retrievable d (v_sha256_hex env token) now st) (r_grants st)) LinkUnavailable)"

definition associated_data :: "remote_env \<Rightarrow> string \<Rightarrow> artifact_grant \<Rightarrow> string" where
  "associated_data env d g = v_json_text env (JObj
     [(''remoteDeviceId'', JStr d), (''artifactId'', JStr (ag_artifact g)), (''format'', JStr (ag_format g)),
      (''contentState'', JStr (ag_content_state g)), (''transferSha256'', JStr (ag_transfer_sha g)),
      (''expiresAtMs'', JInt (ag_expires_at g))])"

text \<open>Reading and encrypting the file, before the grant is spent. The key is the token's hash.\<close>

definition retrieve_seal ::
  "remote_env \<Rightarrow> files \<Rightarrow> string \<Rightarrow> string \<Rightarrow> string \<Rightarrow> artifact_grant \<Rightarrow> remote_error + encrypted_artifact" where
  "retrieve_seal env fs nonce d token g =
     and_then (ensure (\<not> (ag_content_state g = FULL_CONTENT \<and>
       (ag_source_path g \<noteq> ag_transfer_path g \<or> ag_source_sha g \<noteq> ag_transfer_sha g))) DeclarationMismatch) (\<lambda>_.
     and_then (read_transfer env fs (ag_source_path g) (ag_transfer_path g) (ag_source_sha g) (ag_transfer_sha g)) (\<lambda>bytes.
     and_then (ok_or (v_aead env token nonce bytes (associated_data env d g)) EncryptionFailed) (\<lambda>ciphertext.
     Ok \<lparr>ea_artifact = ag_artifact g, ea_format = ag_format g, ea_nonce = nonce, ea_ciphertext = ciphertext,
        ea_source_sha = ag_source_sha g, ea_transfer_sha = ag_transfer_sha g,
        ea_content_state = ag_content_state g, ea_expires_at = ag_expires_at g,
        ea_associated_data = associated_data env d g\<rparr>)))"

definition consumes :: "string \<Rightarrow> string \<Rightarrow> string \<Rightarrow> int \<Rightarrow> artifact_grant \<Rightarrow> bool" where
  "consumes grant_id d token_hash now g \<longleftrightarrow> ag_id g = grant_id \<and> ag_device g = d \<and> ag_token_hash g = token_hash \<and>
     ag_opened g = None \<and> ag_revoked g = None \<and> ag_expires_at g \<ge> now"

definition retrieve_consume ::
  "string \<Rightarrow> string \<Rightarrow> string \<Rightarrow> int \<Rightarrow> remote_store \<Rightarrow> remote_error + remote_store" where
  "retrieve_consume grant_id d token_hash now st =
     and_then (ensure (\<not> changed_rows (consumes grant_id d token_hash now) (r_grants st) \<noteq> 1) LinkUsed) (\<lambda>_.
     Ok (st\<lparr>r_grants := update_rows (consumes grant_id d token_hash now) (\<lambda>g. g\<lparr>ag_opened := Some now\<rparr>) (r_grants st)\<rparr>))"

subsection \<open>Devices\<close>

definition device_id_ok :: "string \<Rightarrow> bool" where
  "device_id_ok v = (case strip_prefix ''device_'' v of None \<Rightarrow> False | Some rest \<Rightarrow> valid_uuid_suffix rest)"

definition get_device :: "string \<Rightarrow> remote_store \<Rightarrow> remote_error + remote_device" where
  "get_device d st =
     and_then (ensure (device_id_ok d) DeviceIdInvalid) (\<lambda>_. ok_or (find_device d st) DeviceUnknown)"

definition rename_device :: "string \<Rightarrow> string \<Rightarrow> remote_store \<Rightarrow> remote_error + remote_store" where
  "rename_device d label st =
     (let label = trim label; P = (\<lambda>r. rd_id r = d \<and> rd_revoked r = None) in
      and_then (ensure (\<not> (label = [] \<or> chars_count label > 80)) DeviceLabelInvalid) (\<lambda>_.
      and_then (ensure (\<not> changed_rows P (r_devices st) \<noteq> 1) DeviceUnknown) (\<lambda>_.
      Ok (st\<lparr>r_devices := update_rows P (\<lambda>r. r\<lparr>rd_label := label\<rparr>) (r_devices st)\<rparr>))))"

text \<open>Revocation takes two statements: first the device, then its open grants.\<close>

definition revoke_device_row :: "string \<Rightarrow> int \<Rightarrow> remote_store \<Rightarrow> remote_store" where
  "revoke_device_row d now st = st\<lparr>r_devices := update_rows (\<lambda>r. rd_id r = d)
     (\<lambda>r. r\<lparr>rd_revoked := (case rd_revoked r of None \<Rightarrow> Some now | Some t \<Rightarrow> Some t)\<rparr>) (r_devices st)\<rparr>"

definition revoke_grants :: "string \<Rightarrow> int \<Rightarrow> remote_store \<Rightarrow> remote_store" where
  "revoke_grants d now st = st\<lparr>r_grants := update_rows (\<lambda>g. ag_device g = d \<and> ag_revoked g = None)
     (\<lambda>g. g\<lparr>ag_revoked := Some now\<rparr>) (r_grants st)\<rparr>"

definition revoke_device :: "string \<Rightarrow> int \<Rightarrow> remote_store \<Rightarrow> remote_error + remote_device \<times> remote_store" where
  "revoke_device d now st =
     and_then (get_device d st) (\<lambda>_.
     let st = revoke_grants d now (revoke_device_row d now st) in
     and_then (get_device d st) (\<lambda>r. Ok (r, st)))"

end
