(* ===== verification/Remote_Runs.thy ===== *)
theory Remote_Runs
  imports Remote_Execution Transition_System
begin

text \<open>
  Concurrent runs of remote access: any number of calls, between any two database statements, with
  the rest of the application changing its own tables and files at any time. The histories of the
  system are the tasks stopped and the files handed over for a device. Any call may end early, by an
  error of the database or because a check failed. The deletion of a project
  (\<open>projects/deletion.rs\<close>) also deletes its commands and is not part of the relation.
\<close>

subsection \<open>Systems\<close>

datatype accept_phase =
  AtDevice | AtProject "string list \<times> string list" | AtTask | AtArtifact | AtCommandId | AtNonce | AtSequence
| AtInsert bool | AtLoad bool

datatype remote_call =
  Accepting signed_command int string accept_phase
| Deciding signed_command stored_command
| Approved signed_command stored_command prepared_grant
| Ready signed_command stored_command "prepared_grant option"
| Conflicting stored_command
| Opening string string artifact_grant int
| Sealed string string artifact_grant int encrypted_artifact
| Revoking string

datatype remote_effect =
  StopEffect string string string string nat
| FileEffect string string encrypted_artifact

record remote_system =
  w_store :: remote_store
  w_files :: files
  w_calls :: "remote_call list"
  w_effects :: "remote_effect list"

text \<open>The statements of \<open>accept\<close> before the insertion, in their order.\<close>

fun accept_next ::
  "remote_env \<Rightarrow> signed_command \<Rightarrow> int \<Rightarrow> string \<Rightarrow> accept_phase \<Rightarrow> remote_store \<Rightarrow> remote_error + accept_phase" where
  "accept_next env c now required AtDevice st = and_then (check_device env now c st) (\<lambda>allowed. Ok (AtProject allowed))"
| "accept_next env c now required (AtProject allowed) st = and_then (check_project c required allowed st) (\<lambda>_. Ok AtTask)"
| "accept_next env c now required AtTask st = and_then (check_task c st) (\<lambda>_. Ok AtArtifact)"
| "accept_next env c now required AtArtifact st = and_then (check_artifact c st) (\<lambda>_. Ok AtCommandId)"
| "accept_next env c now required AtCommandId st = and_then (check_command_id c st) (\<lambda>_. Ok AtNonce)"
| "accept_next env c now required AtNonce st = and_then (check_nonce c st) (\<lambda>_. Ok AtSequence)"
| "accept_next env c now required AtSequence st = and_then (check_sequence c st) (\<lambda>conflict. Ok (AtInsert conflict))"
| "accept_next env c now required (AtInsert conflict) st = Err StoreWriteFailed"
| "accept_next env c now required (AtLoad conflict) st = Err StoreWriteFailed"

text \<open>The task a transaction of a stop command has stopped.\<close>

definition stops :: "stored_command \<Rightarrow> remote_store \<Rightarrow> remote_effect list" where
  "stops c st = (case run_sequence c st of
       Inr (Some n) \<Rightarrow> if cm_kind c = ''stop_task'' \<and> \<not> stop_conflict c (Some n)
         then [StopEffect (cm_id c) (cm_device c) (cm_nonce c) (the (cm_task_run c)) n] else []
     | _ \<Rightarrow> [])"

definition same_remote :: "remote_store \<Rightarrow> remote_store \<Rightarrow> bool" where
  "same_remote st st' \<longleftrightarrow> r_devices st' = r_devices st \<and> r_commands st' = r_commands st \<and>
     r_receipts st' = r_receipts st \<and> r_grants st' = r_grants st"

inductive remote_step :: "remote_env \<Rightarrow> remote_system \<Rightarrow> remote_system \<Rightarrow> bool" for env :: remote_env where
  files_change: "remote_step env w (w\<lparr>w_files := fs\<rparr>)"
| application: "same_remote (w_store w) st \<Longrightarrow> remote_step env w (w\<lparr>w_store := st\<rparr>)"
| rename: "rename_device d label (w_store w) = Ok st \<Longrightarrow> remote_step env w (w\<lparr>w_store := st\<rparr>)"
| revoke_begins: "get_device d (w_store w) = Ok r \<Longrightarrow>
    remote_step env w (w\<lparr>w_store := revoke_device_row d now (w_store w), w_calls := Revoking d # w_calls w\<rparr>)"
| revoke_ends: "w_calls w = xs @ Revoking d # ys \<Longrightarrow>
    remote_step env w (w\<lparr>w_store := revoke_grants d now (w_store w), w_calls := xs @ ys\<rparr>)"
| call_ends: "w_calls w = xs @ k # ys \<Longrightarrow> remote_step env w (w\<lparr>w_calls := xs @ ys\<rparr>)"
| accept_begins: "check_request env c = Ok required \<Longrightarrow>
    remote_step env w (w\<lparr>w_calls := Accepting c now required AtDevice # w_calls w\<rparr>)"
| accept_reads: "w_calls w = xs @ Accepting c now required ph # ys \<Longrightarrow>
    accept_next env c now required ph (w_store w) = Ok ph' \<Longrightarrow>
    remote_step env w (w\<lparr>w_calls := xs @ Accepting c now required ph' # ys\<rparr>)"
| accept_inserts: "w_calls w = xs @ Accepting c now required (AtInsert conflict) # ys \<Longrightarrow>
    insert_command now c (w_store w) = Ok st \<Longrightarrow>
    remote_step env w (w\<lparr>w_store := st, w_calls := xs @ Accepting c now required (AtLoad conflict) # ys\<rparr>)"
| accept_loads: "w_calls w = xs @ Accepting c now required (AtLoad conflict) # ys \<Longrightarrow>
    load (sg_command_id c) (w_store w) = Some stored \<Longrightarrow>
    remote_step env w (w\<lparr>w_calls := xs @ (if conflict then Conflicting stored else Deciding c stored) # ys\<rparr>)"
| conflicts: "w_calls w = xs @ Conflicting stored # ys \<Longrightarrow>
    conflict_transaction env now rid stored message (w_store w) = Ok (Some st) \<Longrightarrow>
    remote_step env w (w\<lparr>w_store := st, w_calls := xs @ ys\<rparr>)"
| approves: "w_calls w = xs @ Deciding c stored # ys \<Longrightarrow> cm_kind stored = ''request_artifact'' \<Longrightarrow>
    find_device (cm_device stored) (w_store w) = Some dev \<Longrightarrow>
    prepare_grant env (w_files w) now ids approved c (rd_label dev) (w_store w) = Ok p \<Longrightarrow>
    remote_step env w (w\<lparr>w_calls := xs @ Approved c stored p # ys\<rparr>)"
| revalidates: "w_calls w = xs @ Approved c stored p # ys \<Longrightarrow> revalidate_prepared env (w_files w) p = Ok () \<Longrightarrow>
    remote_step env w (w\<lparr>w_calls := xs @ Ready c stored (Some p) # ys\<rparr>)"
| needs_no_file: "w_calls w = xs @ Deciding c stored # ys \<Longrightarrow> cm_kind stored \<noteq> ''request_artifact'' \<Longrightarrow>
    remote_step env w (w\<lparr>w_calls := xs @ Ready c stored None # ys\<rparr>)"
| executes: "w_calls w = xs @ Ready c stored artifact # ys \<Longrightarrow>
    execute_transaction env now rid stored artifact (w_store w) = Ok (Some st) \<Longrightarrow>
    remote_step env w (w\<lparr>w_store := st, w_calls := xs @ ys, w_effects := w_effects w @ stops stored (w_store w)\<rparr>)"
| retrieve_reads: "retrieve_read env now d token (w_store w) = Ok g \<Longrightarrow>
    remote_step env w (w\<lparr>w_calls := Opening d token g now # w_calls w\<rparr>)"
| seals: "w_calls w = xs @ Opening d token g now # ys \<Longrightarrow>
    retrieve_seal env (w_files w) nonce d token g = Ok ea \<Longrightarrow>
    remote_step env w (w\<lparr>w_calls := xs @ Sealed d token g now ea # ys\<rparr>)"
| hands_over: "w_calls w = xs @ Sealed d token g now ea # ys \<Longrightarrow>
    retrieve_consume (ag_id g) d (v_sha256_hex env token) now (w_store w) = Ok st \<Longrightarrow>
    remote_step env w (w\<lparr>w_store := st, w_calls := xs @ ys, w_effects := w_effects w @ [FileEffect (ag_id g) d ea]\<rparr>)"

definition remote_initial :: "remote_store \<Rightarrow> files \<Rightarrow> remote_system" where
  "remote_initial st fs = \<lparr>w_store = st, w_files = fs, w_calls = [], w_effects = []\<rparr>"

subsection \<open>The invariant\<close>

definition open_command :: "stored_command \<Rightarrow> bool" where
  "open_command c = (cm_status c = ''accepted'')"

definition final_receipts :: "remote_store \<Rightarrow> audit_receipt list" where
  "final_receipts st = filter (\<lambda>r. rc_kind r = ''remote_command'') (r_receipts st)"

definition remote_ok :: "remote_store \<Rightarrow> bool" where
  "remote_ok st \<longleftrightarrow> distinct (map rd_id (r_devices st)) \<and> distinct (map cm_id (r_commands st)) \<and>
     distinct (map (\<lambda>c. (cm_device c, cm_nonce c)) (r_commands st)) \<and> distinct (map ag_id (r_grants st)) \<and>
     distinct (map rc_command (final_receipts st)) \<and>
     (\<forall>c \<in> set (r_commands st). open_command c \<longleftrightarrow> Some (cm_id c) \<notin> rc_command ` set (final_receipts st)) \<and>
     (\<forall>c \<in> set (r_commands st). cm_status c \<in> {''accepted'', ''completed'', ''rejected''}) \<and>
     rc_command ` set (final_receipts st) \<subseteq> (\<lambda>c. Some (cm_id c)) ` set (r_commands st)"

text \<open>What a row keeps for ever.\<close>

definition command_le :: "stored_command \<Rightarrow> stored_command \<Rightarrow> bool" where
  "command_le c c' \<longleftrightarrow> cm_id c' = cm_id c \<and> cm_device c' = cm_device c \<and> cm_nonce c' = cm_nonce c \<and>
     cm_project c' = cm_project c \<and> cm_task_run c' = cm_task_run c \<and> cm_kind c' = cm_kind c \<and>
     cm_expected c' = cm_expected c \<and> cm_signer c' = cm_signer c \<and> cm_signature c' = cm_signature c \<and>
     cm_payload_sha c' = cm_payload_sha c \<and> cm_expires_at c' = cm_expires_at c \<and>
     (\<not> open_command c \<longrightarrow> c' = c)"

definition device_le :: "remote_device \<Rightarrow> remote_device \<Rightarrow> bool" where
  "device_le d d' \<longleftrightarrow> rd_id d' = rd_id d \<and> rd_public_key d' = rd_public_key d \<and> rd_projects d' = rd_projects d \<and>
     rd_scopes d' = rd_scopes d \<and> rd_expires_at d' = rd_expires_at d \<and> (rd_revoked d \<noteq> None \<longrightarrow> rd_revoked d' = rd_revoked d)"

definition grant_le :: "artifact_grant \<Rightarrow> artifact_grant \<Rightarrow> bool" where
  "grant_le g g' \<longleftrightarrow> ag_id g' = ag_id g \<and> ag_device g' = ag_device g \<and> ag_token_hash g' = ag_token_hash g \<and>
     ag_project g' = ag_project g \<and> ag_artifact g' = ag_artifact g \<and> ag_approval g' = ag_approval g \<and>
     ag_transfer_sha g' = ag_transfer_sha g \<and>
     (ag_opened g \<noteq> None \<longrightarrow> ag_opened g' = ag_opened g) \<and> (ag_revoked g \<noteq> None \<longrightarrow> ag_revoked g' = ag_revoked g)"

interpretation command_rows: row_order command_le
  by unfold_locales (auto simp: command_le_def)

interpretation device_rows: row_order device_le
  by unfold_locales (auto simp: device_le_def)

interpretation grant_rows: row_order grant_le
  by unfold_locales (auto simp: grant_le_def)

definition store_le :: "remote_store \<Rightarrow> remote_store \<Rightarrow> bool" where
  "store_le st st' \<longleftrightarrow> rows_keep command_le (r_commands st) (r_commands st') \<and>
     rows_keep device_le (r_devices st) (r_devices st') \<and> rows_keep grant_le (r_grants st) (r_grants st') \<and>
     set (r_receipts st) \<subseteq> set (r_receipts st')"

lemma store_le_refl [simp]: "store_le st st"
  by (simp add: store_le_def command_rows.keep_refl device_rows.keep_refl grant_rows.keep_refl)

lemma store_le_trans: "store_le st st' \<Longrightarrow> store_le st' st'' \<Longrightarrow> store_le st st''"
  unfolding store_le_def
  using command_rows.keep_trans device_rows.keep_trans grant_rows.keep_trans by (meson subset_trans)

lemma remote_okI:
  assumes "distinct (map rd_id (r_devices st))" "distinct (map cm_id (r_commands st))"
    and "distinct (map (\<lambda>c. (cm_device c, cm_nonce c)) (r_commands st))" "distinct (map ag_id (r_grants st))"
    and "distinct (map rc_command (final_receipts st))"
    and "\<And>c. c \<in> set (r_commands st) \<Longrightarrow> open_command c \<longleftrightarrow> Some (cm_id c) \<notin> rc_command ` set (final_receipts st)"
    and "\<And>c. c \<in> set (r_commands st) \<Longrightarrow> cm_status c \<in> {''accepted'', ''completed'', ''rejected''}"
    and "rc_command ` set (final_receipts st) \<subseteq> (\<lambda>c. Some (cm_id c)) ` set (r_commands st)"
  shows "remote_ok st"
  unfolding remote_ok_def using assms by blast

lemma remote_okD:
  assumes "remote_ok st"
  shows "distinct (map rd_id (r_devices st))" "distinct (map cm_id (r_commands st))"
    "distinct (map (\<lambda>c. (cm_device c, cm_nonce c)) (r_commands st))" "distinct (map ag_id (r_grants st))"
    "distinct (map rc_command (final_receipts st))"
    "c \<in> set (r_commands st) \<Longrightarrow> open_command c \<longleftrightarrow> Some (cm_id c) \<notin> rc_command ` set (final_receipts st)"
    "c \<in> set (r_commands st) \<Longrightarrow> cm_status c \<in> {''accepted'', ''completed'', ''rejected''}"
    "rc_command ` set (final_receipts st) \<subseteq> (\<lambda>c. Some (cm_id c)) ` set (r_commands st)"
  using assms unfolding remote_ok_def by blast+

subsection \<open>Statements and transactions\<close>

definition store_kept :: "remote_store \<Rightarrow> remote_store \<Rightarrow> bool" where
  "store_kept st st' \<longleftrightarrow> remote_ok st' \<and> store_le st st'"

lemma same_remote_kept: "remote_ok st \<Longrightarrow> same_remote st st' \<Longrightarrow> store_kept st st'"
  by (simp add: store_kept_def same_remote_def remote_ok_def final_receipts_def store_le_def
      command_rows.keep_refl device_rows.keep_refl grant_rows.keep_refl)

lemma store_kept_trans: "store_kept st st' \<Longrightarrow> store_kept st' st'' \<Longrightarrow> store_kept st st''"
  using store_le_trans by (auto simp: store_kept_def)

lemma devices_kept:
  assumes "remote_ok st" "\<And>r. r \<in> set (r_devices st) \<Longrightarrow> P r \<Longrightarrow> device_le r (f r)"
  shows "store_kept st (st\<lparr>r_devices := update_rows P f (r_devices st)\<rparr>)"
proof -
  have "map rd_id (update_rows P f (r_devices st)) = map rd_id (r_devices st)"
    using assms(2) by (simp add: update_rows_def device_le_def)
  with assms show ?thesis
    by (simp add: store_kept_def remote_ok_def final_receipts_def store_le_def command_rows.keep_refl
        grant_rows.keep_refl device_rows.keep_update)
qed

lemma grants_kept:
  assumes "remote_ok st" "\<And>r. r \<in> set (r_grants st) \<Longrightarrow> P r \<Longrightarrow> grant_le r (f r)"
  shows "store_kept st (st\<lparr>r_grants := update_rows P f (r_grants st)\<rparr>)"
proof -
  have "map ag_id (update_rows P f (r_grants st)) = map ag_id (r_grants st)"
    using assms(2) by (simp add: update_rows_def grant_le_def)
  with assms show ?thesis
    by (simp add: store_kept_def remote_ok_def final_receipts_def store_le_def command_rows.keep_refl
        device_rows.keep_refl grant_rows.keep_update)
qed

lemma rename_kept:
  assumes "remote_ok st" "rename_device d label st = Ok st'" shows "store_kept st st'"
  using assms by (auto simp: rename_device_def Let_def result_simps device_le_def intro!: devices_kept)

lemma revoke_row_kept: "remote_ok st \<Longrightarrow> store_kept st (revoke_device_row d now st)"
  unfolding revoke_device_row_def by (rule devices_kept) (auto simp: device_le_def)

lemma revoke_grants_kept: "remote_ok st \<Longrightarrow> store_kept st (revoke_grants d now st)"
  unfolding revoke_grants_def by (rule grants_kept) (auto simp: grant_le_def)

lemma consume_kept:
  assumes "remote_ok st" "retrieve_consume gid d h now st = Ok st'" shows "store_kept st st'"
  using assms by (auto simp: retrieve_consume_def result_simps grant_le_def consumes_def intro!: grants_kept)

lemma insert_command_kept:
  assumes ok: "remote_ok st" and ins: "insert_command now c st = Ok st'"
  shows "store_kept st st' \<and> accepted_row now c \<in> set (r_commands st')"
proof -
  let ?r = "accepted_row now c"
  have st': "st' = st\<lparr>r_commands := r_commands st @ [?r]\<rparr>"
    and new: "\<forall>r \<in> set (r_commands st). cm_id r \<noteq> sg_command_id c \<and> \<not> (cm_device r = sg_device c \<and> cm_nonce r = sg_nonce c)"
    using ins by (auto simp: insert_command_Ok)
  have r: "cm_id ?r = sg_command_id c" "cm_device ?r = sg_device c" "cm_nonce ?r = sg_nonce c" "open_command ?r"
    "cm_status ?r = ''accepted''" by (simp_all add: accepted_row_def open_command_def)
  have fr: "final_receipts st' = final_receipts st" by (simp add: st' final_receipts_def)
  have "sg_command_id c \<notin> cm_id ` set (r_commands st)" using new by auto
  then have nr: "Some (sg_command_id c) \<notin> rc_command ` set (final_receipts st)" using remote_okD(8) [OF ok] by auto
  have "remote_ok st'"
  proof (rule remote_okI)
    show "distinct (map cm_id (r_commands st'))" using remote_okD(2) [OF ok] new by (auto simp: st' r)
    show "distinct (map (\<lambda>c. (cm_device c, cm_nonce c)) (r_commands st'))" using remote_okD(3) [OF ok] new by (auto simp: st' r)
    show "distinct (map rd_id (r_devices st'))" "distinct (map ag_id (r_grants st'))" using remote_okD(1,4) [OF ok] by (simp_all add: st')
    show "distinct (map rc_command (final_receipts st'))" using remote_okD(5) [OF ok] by (simp add: fr)
    show "rc_command ` set (final_receipts st') \<subseteq> (\<lambda>c. Some (cm_id c)) ` set (r_commands st')"
      using remote_okD(8) [OF ok] unfolding fr by (auto simp: st')
    fix x assume "x \<in> set (r_commands st')"
    then consider "x \<in> set (r_commands st)" | "x = ?r" by (auto simp: st')
    then show "open_command x \<longleftrightarrow> Some (cm_id x) \<notin> rc_command ` set (final_receipts st')"
      "cm_status x \<in> {''accepted'', ''completed'', ''rejected''}"
      unfolding fr by (cases; use remote_okD(6,7) [OF ok] nr r in simp)+
  qed
  then show ?thesis
    by (simp add: store_kept_def st' store_le_def command_rows.keep_append device_rows.keep_refl grant_rows.keep_refl)
qed

text \<open>Closing an open command and filing its receipt, which is what both transactions end with.\<close>

definition closing :: "string \<Rightarrow> stored_command \<Rightarrow> bool" where
  "closing cid r \<longleftrightarrow> cm_id r = cid \<and> open_command r"

lemma closed_kept:
  assumes ok: "remote_ok st" and st: "status \<in> {''completed'', ''rejected''}"
    and n: "changed_rows (closing cid) (r_commands st) = 1"
    and r: "rc_kind receipt = ''remote_command''" "rc_command receipt = Some cid"
    and new: "Some cid \<notin> rc_command ` set (final_receipts st)"
    and st': "st' = st\<lparr>r_commands := update_rows (closing cid) (\<lambda>r. r\<lparr>cm_status := status, cm_outcome := Some code,
       cm_result := Some result, cm_completed := Some now\<rparr>) (r_commands st), r_receipts := r_receipts st @ [receipt]\<rparr>"
  shows "store_kept st st'"
proof -
  let ?f = "\<lambda>r. if closing cid r then r\<lparr>cm_status := status, cm_outcome := Some code,
       cm_result := Some result, cm_completed := Some now\<rparr> else r"
  have rows: "set (r_commands st') = ?f ` set (r_commands st)" by (simp add: st' set_update_rows)
  have fr: "final_receipts st' = final_receipts st @ [receipt]" by (simp add: st' final_receipts_def r)
  have keys: "map cm_id (r_commands st') = map cm_id (r_commands st)"
    "map (\<lambda>c. (cm_device c, cm_nonce c)) (r_commands st') = map (\<lambda>c. (cm_device c, cm_nonce c)) (r_commands st)"
    by (simp_all add: st' update_rows_def)
  have opened: "open_command (?f c) \<longleftrightarrow> Some (cm_id (?f c)) \<notin> rc_command ` set (final_receipts st')"
    if "c \<in> set (r_commands st)" for c
    using remote_okD(6) [OF ok that] st r new by (auto simp: fr closing_def open_command_def)
  obtain c where "c \<in> set (r_commands st)" "cm_id c = cid" using changed_rows_pos [OF n] by (auto simp: closing_def)
  then have "Some cid \<in> (\<lambda>c. Some (cm_id c)) ` set (r_commands st)" by force
  moreover have "(\<lambda>c. Some (cm_id c)) ` set (r_commands st') = (\<lambda>c. Some (cm_id c)) ` set (r_commands st)"
    using arg_cong [OF keys(1), of "\<lambda>xs. Some ` set xs"] by (simp add: image_image)
  ultimately have sub: "rc_command ` set (final_receipts st') \<subseteq> (\<lambda>c. Some (cm_id c)) ` set (r_commands st')"
    using remote_okD(8) [OF ok] r by (simp add: fr)
  have "remote_ok st'"
  proof (rule remote_okI)
    show "distinct (map rc_command (final_receipts st'))" using remote_okD(5) [OF ok] new r by (simp add: fr)
    show "distinct (map rd_id (r_devices st'))" "distinct (map ag_id (r_grants st'))" using remote_okD(1,4) [OF ok] by (simp_all add: st')
    fix x assume "x \<in> set (r_commands st')"
    then obtain c where c: "c \<in> set (r_commands st)" "x = ?f c" unfolding rows by blast
    show "open_command x \<longleftrightarrow> Some (cm_id x) \<notin> rc_command ` set (final_receipts st')"
      using opened [OF c(1)] c(2) by simp
    show "cm_status x \<in> {''accepted'', ''completed'', ''rejected''}" using remote_okD(7) [OF ok c(1)] st c(2) by auto
  qed (use keys remote_okD(2,3) [OF ok] sub in simp_all)
  moreover have "rows_keep command_le (r_commands st) (r_commands st')"
    unfolding st' by simp (rule command_rows.keep_update, simp add: closing_def command_le_def)
  then have "store_le st st'"
    by (auto simp: store_le_def st' device_rows.keep_refl grant_rows.keep_refl)
  ultimately show ?thesis by (simp add: store_kept_def)
qed

lemma touch_kept:
  assumes "remote_ok st" "touch_device d now st = (m, st')" shows "store_kept st st'"
  using assms by (auto simp: touch_device_def Let_def device_le_def intro!: devices_kept)

lemma insert_receipt_Ok:
  assumes "insert_receipt err r st = Ok st'" "rc_kind r = ''remote_command''"
  shows "rc_command r \<notin> rc_command ` set (final_receipts st)" "st' = st\<lparr>r_receipts := r_receipts st @ [r]\<rparr>"
  using assms by (auto simp: insert_receipt_def result_simps final_receipts_def list_ex_iff)

lemma signed_receipt_Ok:
  assumes "signed_final_receipt env rid c outcome artifact now = Ok r"
  shows "rc_kind r = ''remote_command'' \<and> rc_command r = Some (cm_id c)"
  using assms by (auto simp: signed_final_receipt_def result_simps split: prod.splits)

text \<open>Finalizing, touching the device and filing the receipt.\<close>

lemma decided_kept:
  assumes ok: "remote_ok st" and st: "status \<in> {''completed'', ''rejected''}"
    and f: "finalize_command cid status code result now st = (1, st1)" and t: "touch_device d now st1 = (m, st2)"
    and r: "rc_kind receipt = ''remote_command''" "rc_command receipt = Some cid"
    and i: "insert_receipt err receipt st2 = Ok st3"
  shows "store_kept st st3"
proof -
  have P: "(\<lambda>r. cm_id r = cid \<and> cm_status r = ''accepted'') = closing cid"
    by (simp add: closing_def open_command_def fun_eq_iff)
  let ?st = "st\<lparr>r_commands := update_rows (closing cid) (\<lambda>r. r\<lparr>cm_status := status, cm_outcome := Some code,
       cm_result := Some result, cm_completed := Some now\<rparr>) (r_commands st), r_receipts := r_receipts st @ [receipt]\<rparr>"
  have n: "changed_rows (closing cid) (r_commands st) = 1" and st1: "st1 = ?st\<lparr>r_receipts := r_receipts st\<rparr>"
    using f by (auto simp: finalize_command_def Let_def P)
  have fr: "final_receipts st2 = final_receipts st" "st3 = st2\<lparr>r_receipts := r_receipts st2 @ [receipt]\<rparr>"
    using t st1 insert_receipt_Ok(2) [OF i r(1)] by (auto simp: touch_device_def Let_def final_receipts_def)
  have "store_kept st ?st"
    using closed_kept [OF ok st n r _ refl] insert_receipt_Ok(1) [OF i r(1)] fr r(2) by simp
  moreover have "touch_device d now ?st = (m, st3)"
    using t fr(2) st1 by (auto simp: touch_device_def Let_def)
  with calculation have "store_kept ?st st3" using touch_kept [of ?st] unfolding store_kept_def by blast
  with calculation(1) show ?thesis by (rule store_kept_trans)
qed

lemma conflict_kept:
  assumes "remote_ok st" "conflict_transaction env now rid c message st = Ok (Some st')"
  shows "store_kept st st'"
proof -
  obtain n st1 where f: "finalize_command (cm_id c) ''rejected'' (fo_code sequence_conflict)
      (JObj [(''message'', JStr message)]) now st = (n, st1)" by fastforce
  obtain m st2 where t: "touch_device (cm_device c) now st1 = (m, st2)" by fastforce
  from assms(2) f t obtain receipt where n: "n = 1"
    and r: "signed_final_receipt env rid c sequence_conflict None now = Ok receipt"
    and i: "insert_receipt ReceiptStoreFailed receipt st2 = Ok st'"
    by (auto simp: conflict_transaction_def result_simps split: if_splits)
  from signed_receipt_Ok [OF r] have "rc_kind receipt = ''remote_command''" "rc_command receipt = Some (cm_id c)"
    by simp_all
  from decided_kept [OF assms(1) _ f [unfolded n] t this i] show ?thesis by simp
qed

text \<open>Stopping a task leaves the tables of remote access alone.\<close>

lemma stop_runtime_same:
  assumes "stop_runtime runtime record_id now st = Ok (n, st')"
  shows "same_remote st st' \<and> r_runs st' = r_runs st \<and> r_events st' = r_events st"
  using assms by (auto simp: stop_runtime_def Let_def same_remote_def split: if_splits)

lemma apply_stop_task_Ok:
  assumes "apply_stop_task env now c sequence st = Ok st'"
  obtains run t timestamp st1 where "cm_task_run c = Some run" "find_run run st = Some t"
    "tk_project t = Some (cm_project c)" "tk_state t \<in> set STOPPABLE"
    "stop_runtime (tk_runtime t) (tk_record t) now st = Ok (1, st1)"
    "changed_rows (\<lambda>r. tk_id r = run \<and> tk_state r \<in> set STOPPABLE) (r_runs st) = 1"
    "\<forall>e \<in> set (r_events st). \<not> (te_run e = run \<and> te_sequence e = int sequence)"
    "st' = st1\<lparr>r_runs := update_rows (\<lambda>r. tk_id r = run \<and> tk_state r \<in> set STOPPABLE)
       (\<lambda>r. r\<lparr>tk_state := ''cancelled'', tk_updated := now, tk_completed := Some now, tk_recovery := ''not_required''\<rparr>) (r_runs st),
       r_events := r_events st @ [\<lparr>te_run = run, te_sequence = int sequence,
       te_event = cancel_event timestamp c t run sequence, te_created = now\<rparr>]\<rparr>"
proof -
  from assms obtain run t n st1 timestamp where *: "cm_task_run c = Some run" "find_run run st = Some t"
    "tk_project t = Some (cm_project c)" "tk_state t \<in> set STOPPABLE"
    "stop_runtime (tk_runtime t) (tk_record t) now st = Ok (n, st1)" "n = 1"
    "changed_rows (\<lambda>r. tk_id r = run \<and> tk_state r \<in> set STOPPABLE) (r_runs st1) = 1"
    "\<not> list_ex (\<lambda>e. te_run e = run \<and> te_sequence e = int sequence) (r_events st1)"
    "st' = st1\<lparr>r_runs := update_rows (\<lambda>r. tk_id r = run \<and> tk_state r \<in> set STOPPABLE)
       (\<lambda>r. r\<lparr>tk_state := ''cancelled'', tk_updated := now, tk_completed := Some now, tk_recovery := ''not_required''\<rparr>) (r_runs st1),
       r_events := r_events st1 @ [\<lparr>te_run = run, te_sequence = int sequence,
       te_event = cancel_event timestamp c t run sequence, te_created = now\<rparr>]\<rparr>"
    unfolding apply_stop_task_def Let_def by (auto simp: result_simps)
  with stop_runtime_same [OF *(5)] show ?thesis by (intro that [of run t st1 timestamp]) (auto simp: list_ex_iff)
qed

lemma apply_stop_task_same:
  assumes "apply_stop_task env now c sequence st = Ok st'" shows "same_remote st st'"
  using assms by (elim apply_stop_task_Ok) (auto dest: stop_runtime_same simp: same_remote_def)

text \<open>Filing the approval and the grant it allows.\<close>

lemma insert_prepared_Ok:
  assumes "insert_prepared p st = Ok st'"
  shows "st' = st\<lparr>r_receipts := r_receipts st @ [pr_receipt p], r_grants := r_grants st @ [pr_grant p]\<rparr>"
    "ag_id (pr_grant p) \<notin> ag_id ` set (r_grants st)"
  using assms by (auto simp: insert_prepared_def insert_receipt_def insert_grant_def result_simps list_ex_iff)

lemma prepared_kept:
  assumes ok: "remote_ok st" and p: "insert_prepared p st = Ok st'" and k: "rc_kind (pr_receipt p) \<noteq> ''remote_command''"
  shows "store_kept st st'"
  unfolding store_kept_def insert_prepared_Ok(1) [OF p]
  using ok k insert_prepared_Ok(2) [OF p]
  by (auto simp: remote_ok_def final_receipts_def store_le_def command_rows.keep_refl device_rows.keep_refl
      grant_rows.keep_append)

text \<open>A transaction that commits: the open command, the device still trusted, and its three parts.\<close>

lemma execute_transaction_Ok:
  assumes "execute_transaction env now rid c artifact st = Ok (Some st')"
  obtains current sequence outcome st1 st2 result st3 st4 receipt where
    "load (cm_id c) st = Some current" "cm_status current = ''accepted''" "device_valid c now st"
    "run_sequence c st = Ok sequence"
    "outcome = (if stop_conflict c sequence then sequence_conflict else outcome_for (cm_kind c))"
    "if \<not> stop_conflict c sequence \<and> cm_kind c = ''stop_task'' then apply_stop_task env now c (the sequence) st = Ok st1
       else st1 = st"
    "case artifact of Some p \<Rightarrow> if fo_status outcome = ''completed'' then insert_prepared p st1 = Ok st2 else st2 = st1
       | None \<Rightarrow> st2 = st1"
    "finalize_command (cm_id c) (fo_status outcome) (fo_code outcome) result now st2 = (1, st3)"
    "touch_device (cm_device c) now st3 = (1, st4)"
    "signed_final_receipt env rid c outcome artifact now = Ok receipt"
    "insert_receipt ReceiptStoreFailed receipt st4 = Ok st'"
proof -
  define out where "out sequence = (if stop_conflict c sequence then sequence_conflict else outcome_for (cm_kind c))" for sequence
  define body where "body outcome = JObj [(''message'', JStr (fo_message outcome)),
    (''contentState'', json_opt (\<lambda>p. JStr (ag_content_state (pr_grant p))) artifact),
    (''transferSha256'', json_opt (\<lambda>p. JStr (ag_transfer_sha (pr_grant p))) artifact)]" for outcome :: final_outcome
  define fin where "fin outcome s = finalize_command (cm_id c) (fo_status outcome) (fo_code outcome) (body outcome) now s"
    for outcome :: final_outcome and s
  define tch where "tch s = touch_device (cm_device c) now s" for s
  define stp where "stp sequence = (if \<not> stop_conflict c sequence \<and> cm_kind c = ''stop_task''
     then apply_stop_task env now c (the sequence) st else Ok st)" for sequence
  define prep where "prep sequence s = (case artifact of
       Some p \<Rightarrow> if fo_status (out sequence) = ''completed'' then insert_prepared p s else Ok s
     | None \<Rightarrow> Ok s)" for sequence s
  have "\<exists>current. load (cm_id c) st = Some current \<and> cm_status current = ''accepted'' \<and> device_valid c now st \<and>
    (\<exists>sequence. run_sequence c st = Ok sequence \<and>
    (\<exists>st1. stp sequence = Ok st1 \<and>
    (\<exists>st2. prep sequence st1 = Ok st2 \<and> fst (fin (out sequence) st2) = 1 \<and>
    fst (tch (snd (fin (out sequence) st2))) = 1 \<and>
    (\<exists>receipt. signed_final_receipt env rid c (out sequence) artifact now = Ok receipt \<and>
       insert_receipt ReceiptStoreFailed receipt (snd (tch (snd (fin (out sequence) st2)))) = Ok st'))))"
    using assms unfolding execute_transaction_def Let_def
      out_def [symmetric] body_def [symmetric] fin_def [symmetric] tch_def [symmetric] stp_def [symmetric]
      prep_def [symmetric] case_prod_beta
    by (simp add: result_simps split: if_split_asm) blast
  then obtain current sequence st1 st2 receipt where *: "load (cm_id c) st = Some current"
      "cm_status current = ''accepted''" "device_valid c now st" "run_sequence c st = Ok sequence"
      "stp sequence = Ok st1"
      "prep sequence st1 = Ok st2"
      "fst (fin (out sequence) st2) = 1" "fst (tch (snd (fin (out sequence) st2))) = 1"
      "signed_final_receipt env rid c (out sequence) artifact now = Ok receipt"
      "insert_receipt ReceiptStoreFailed receipt (snd (tch (snd (fin (out sequence) st2)))) = Ok st'"
    by blast
  show ?thesis
  proof (rule that [OF *(1-4) out_def _ _ _ _ *(9,10)])
    show "if \<not> stop_conflict c sequence \<and> cm_kind c = ''stop_task''
       then apply_stop_task env now c (the sequence) st = Ok st1 else st1 = st"
      using *(5) by (auto simp add: stp_def split: if_splits)
    show "case artifact of Some p \<Rightarrow> if fo_status (out sequence) = ''completed'' then insert_prepared p st1 = Ok st2 else st2 = st1
       | None \<Rightarrow> st2 = st1"
      using *(6) by (auto simp add: prep_def split: if_splits option.splits)
    show "finalize_command (cm_id c) (fo_status (out sequence)) (fo_code (out sequence)) (body (out sequence)) now st2 =
       (1, snd (fin (out sequence) st2))"
      using *(7) by (simp add: fin_def prod_eq_iff)
    show "touch_device (cm_device c) now (snd (fin (out sequence) st2)) = (1, snd (tch (snd (fin (out sequence) st2))))"
      using *(8) by (simp add: tch_def prod_eq_iff)
  qed
qed

lemma outcome_status: "fo_status (if b then sequence_conflict else outcome_for k) \<in> {''completed'', ''rejected''}"
  by (simp add: sequence_conflict_def outcome_for_def)

lemma execute_kept:
  assumes ok: "remote_ok st" and ex: "execute_transaction env now rid c artifact st = Ok (Some st')"
    and p: "\<And>p. artifact = Some p \<Longrightarrow> rc_kind (pr_receipt p) \<noteq> ''remote_command''"
  shows "store_kept st st'"
  using ex
proof (cases rule: execute_transaction_Ok)
  case (1 current sequence outcome st1 st2 result st3 st4 receipt)
  have s1: "store_kept st st1"
    using 1(6) same_remote_kept [OF ok] apply_stop_task_same ok by (auto simp: store_kept_def split: if_splits)
  then have ok1: "remote_ok st1" by (simp add: store_kept_def)
  have s2: "store_kept st1 st2"
    using 1(7) prepared_kept [OF ok1] p ok1 by (auto simp: store_kept_def split: option.splits if_splits)
  then have ok2: "remote_ok st2" by (simp add: store_kept_def)
  from signed_receipt_Ok [OF 1(10)]
  have r: "rc_kind receipt = ''remote_command''" "rc_command receipt = Some (cm_id c)" by simp_all
  have "fo_status outcome \<in> {''completed'', ''rejected''}" unfolding 1(5) by (rule outcome_status)
  from decided_kept [OF ok2 this 1(8,9) r 1(11)] s1 s2 show ?thesis by (blast intro: store_kept_trans)
qed

end
