(* ===== verification/Remote_Inv.thy ===== *)
theory Remote_Inv
  imports Remote_Runs
begin

text \<open>
  What every reachable state of remote access keeps: each stored command is one that a paired device
  signed and was entitled to, each grant answers an approved request of its device, each call in
  progress speaks of rows that are still there, and each effect is recorded in a row that is closed
  for ever.
\<close>

subsection \<open>Signed commands\<close>

text \<open>The device vouches for the command, with the projects and scopes it was paired for.\<close>

definition vouched :: "remote_env \<Rightarrow> int \<Rightarrow> signed_command \<Rightarrow> string list \<times> string list \<Rightarrow> remote_device \<Rightarrow> bool" where
  "vouched env now c allowed d \<longleftrightarrow> rd_id d = sg_device c \<and> rd_public_key d = sg_signer c \<and>
     verify env (sg_signer c) (canonical env c) (sg_signature c) \<and>
     now \<le> sg_expires_at c \<and> sg_expires_at c \<le> saturating_add now COMMAND_MAX_TTL_MS \<and>
     rd_projects d = Some (fst allowed) \<and> rd_scopes d = Some (snd allowed)"

definition entitled :: "remote_env \<Rightarrow> int \<Rightarrow> signed_command \<Rightarrow> remote_store \<Rightarrow> bool" where
  "entitled env now c st \<longleftrightarrow> (\<exists>d \<in> set (r_devices st). \<exists>allowed. vouched env now c allowed d \<and>
     sg_project c \<in> set (fst allowed) \<and> sg_kind c \<in> set (snd allowed))"

fun phase_ok :: "remote_env \<Rightarrow> signed_command \<Rightarrow> int \<Rightarrow> accept_phase \<Rightarrow> remote_store \<Rightarrow> bool" where
  "phase_ok env c now AtDevice st = True"
| "phase_ok env c now (AtProject allowed) st = (\<exists>d \<in> set (r_devices st). vouched env now c allowed d)"
| "phase_ok env c now (AtLoad conflict) st =
     (entitled env now c st \<and> (\<exists>r \<in> set (r_commands st). command_le (accepted_row now c) r))"
| "phase_ok env c now _ st = entitled env now c st"

text \<open>A row of the commands, as the signed command that put it there.\<close>

definition signed_row :: "remote_env \<Rightarrow> remote_store \<Rightarrow> stored_command \<Rightarrow> bool" where
  "signed_row env st r \<longleftrightarrow> (\<exists>c now required. check_request env c = Ok required \<and> entitled env now c st \<and>
     command_le (accepted_row now c) r)"

definition backed_grant :: "remote_store \<Rightarrow> artifact_grant \<Rightarrow> bool" where
  "backed_grant st g \<longleftrightarrow> (\<exists>r \<in> set (r_commands st). \<exists>x \<in> set (r_receipts st).
     cm_device r = ag_device g \<and> cm_project r = ag_project g \<and> cm_kind r = ''request_artifact'' \<and>
     cm_status r = ''completed'' \<and> rc_id x = ag_approval g \<and> rc_kind x = ''remote_artifact_approval'' \<and>
     rc_command x = Some (cm_id r))"

subsection \<open>Calls in progress\<close>

definition known_command :: "remote_store \<Rightarrow> stored_command \<Rightarrow> bool" where
  "known_command st c \<longleftrightarrow> (\<exists>r \<in> set (r_commands st). command_le c r)"

definition decided_for :: "signed_command \<Rightarrow> stored_command \<Rightarrow> bool" where
  "decided_for c stored \<longleftrightarrow> (\<exists>now. command_le (accepted_row now c) stored)"

definition prepared_ok :: "stored_command \<Rightarrow> prepared_grant \<Rightarrow> bool" where
  "prepared_ok c p \<longleftrightarrow> cm_kind c = ''request_artifact'' \<and> ag_device (pr_grant p) = cm_device c \<and>
     ag_project (pr_grant p) = cm_project c \<and> ag_opened (pr_grant p) = None \<and> ag_revoked (pr_grant p) = None \<and>
     ag_approval (pr_grant p) = rc_id (pr_receipt p) \<and> rc_kind (pr_receipt p) = ''remote_artifact_approval'' \<and>
     rc_command (pr_receipt p) = Some (cm_id c)"

definition sealed_ok :: "remote_env \<Rightarrow> string \<Rightarrow> artifact_grant \<Rightarrow> encrypted_artifact \<Rightarrow> bool" where
  "sealed_ok env token g ea \<longleftrightarrow> ea_artifact ea = ag_artifact g \<and> ea_transfer_sha ea = ag_transfer_sha g \<and>
     (\<exists>bytes. v_sha256_hex env bytes = ag_transfer_sha g \<and>
       v_aead env token (ea_nonce ea) bytes (ea_associated_data ea) = Some (ea_ciphertext ea))"

definition link_ok :: "remote_env \<Rightarrow> remote_store \<Rightarrow> string \<Rightarrow> string \<Rightarrow> artifact_grant \<Rightarrow> bool" where
  "link_ok env st d token g \<longleftrightarrow> ag_device g = d \<and> ag_token_hash g = v_sha256_hex env token \<and>
     (\<exists>g' \<in> set (r_grants st). grant_le g g')"

fun call_ok :: "remote_env \<Rightarrow> remote_store \<Rightarrow> remote_call \<Rightarrow> bool" where
  "call_ok env st (Accepting c now required ph) = (check_request env c = Ok required \<and> phase_ok env c now ph st)"
| "call_ok env st (Deciding c stored) = (decided_for c stored \<and> known_command st stored)"
| "call_ok env st (Approved c stored p) = (known_command st stored \<and> prepared_ok stored p)"
| "call_ok env st (Ready c stored artifact) =
     (known_command st stored \<and> (case artifact of None \<Rightarrow> True | Some p \<Rightarrow> prepared_ok stored p))"
| "call_ok env st (Conflicting stored) = known_command st stored"
| "call_ok env st (Opening d token g now) = link_ok env st d token g"
| "call_ok env st (Sealed d token g now ea) = (link_ok env st d token g \<and> sealed_ok env token g ea)"
| "call_ok env st (Revoking d) = (\<exists>r \<in> set (r_devices st). rd_id r = d \<and> rd_revoked r \<noteq> None)"

subsection \<open>Effects\<close>

fun effect_key :: "remote_effect \<Rightarrow> string + string" where
  "effect_key (StopEffect cid d nonce run sequence) = Inl cid"
| "effect_key (FileEffect gid d ea) = Inr gid"

fun effect_device :: "remote_effect \<Rightarrow> string" where
  "effect_device (StopEffect cid d nonce run sequence) = d"
| "effect_device (FileEffect gid d ea) = d"

fun effect_ok :: "remote_env \<Rightarrow> remote_store \<Rightarrow> remote_effect \<Rightarrow> bool" where
  "effect_ok env st (StopEffect cid d nonce run sequence) = (\<exists>r \<in> set (r_commands st). cm_id r = cid \<and>
     cm_device r = d \<and> cm_nonce r = nonce \<and> cm_kind r = ''stop_task'' \<and> cm_task_run r = Some run \<and>
     cm_expected r = Some sequence \<and> \<not> open_command r)"
| "effect_ok env st (FileEffect gid d ea) = (\<exists>g \<in> set (r_grants st). ag_id g = gid \<and> ag_device g = d \<and>
     ag_opened g \<noteq> None \<and> (\<exists>token. ag_token_hash g = v_sha256_hex env token \<and> sealed_ok env token g ea))"

definition remote_inv :: "remote_env \<Rightarrow> remote_system \<Rightarrow> bool" where
  "remote_inv env w \<longleftrightarrow> remote_ok (w_store w) \<and> list_all (signed_row env (w_store w)) (r_commands (w_store w)) \<and>
     list_all (backed_grant (w_store w)) (r_grants (w_store w)) \<and> list_all (call_ok env (w_store w)) (w_calls w) \<and>
     list_all (effect_ok env (w_store w)) (w_effects w) \<and> distinct (map effect_key (w_effects w))"

text \<open>A store with devices and nothing else.\<close>

definition paired_store :: "remote_store \<Rightarrow> bool" where
  "paired_store st \<longleftrightarrow> distinct (map rd_id (r_devices st)) \<and> r_commands st = [] \<and> r_receipts st = [] \<and> r_grants st = []"

lemma remote_initial_inv: "paired_store st \<Longrightarrow> remote_inv env (remote_initial st fs)"
  by (simp add: paired_store_def remote_inv_def remote_initial_def remote_ok_def final_receipts_def)

subsection \<open>All of it grows with the store\<close>

lemma store_leD:
  assumes "store_le st st'"
  shows "r \<in> set (r_commands st) \<Longrightarrow> \<exists>r' \<in> set (r_commands st'). command_le r r'"
    "d \<in> set (r_devices st) \<Longrightarrow> \<exists>d' \<in> set (r_devices st'). device_le d d'"
    "g \<in> set (r_grants st) \<Longrightarrow> \<exists>g' \<in> set (r_grants st'). grant_le g g'"
    "x \<in> set (r_receipts st) \<Longrightarrow> x \<in> set (r_receipts st')"
  using assms by (auto simp: store_le_def rows_keep_def)

lemma vouched_mono: "vouched env now c allowed d \<Longrightarrow> device_le d d' \<Longrightarrow> vouched env now c allowed d'"
  by (auto simp: vouched_def device_le_def)

lemma entitled_mono: "store_le st st' \<Longrightarrow> entitled env now c st \<Longrightarrow> entitled env now c st'"
  unfolding entitled_def using store_leD(2) vouched_mono by meson

lemma known_mono: "store_le st st' \<Longrightarrow> known_command st c \<Longrightarrow> known_command st' c"
  unfolding known_command_def using store_leD(1) command_rows.trans by meson

lemma accepted_mono:
  "store_le st st' \<Longrightarrow> \<exists>r \<in> set (r_commands st). command_le c r \<Longrightarrow> \<exists>r \<in> set (r_commands st'). command_le c r"
  using known_mono unfolding known_command_def .

lemma vouched_ex_mono:
  "store_le st st' \<Longrightarrow> \<exists>d \<in> set (r_devices st). vouched env now c allowed d \<Longrightarrow>
   \<exists>d \<in> set (r_devices st'). vouched env now c allowed d"
  using store_leD(2) vouched_mono by meson

lemma phase_mono: "store_le st st' \<Longrightarrow> phase_ok env c now ph st \<Longrightarrow> phase_ok env c now ph st'"
  by (cases ph) (simp_all add: entitled_mono vouched_ex_mono accepted_mono)

lemma link_mono: "store_le st st' \<Longrightarrow> link_ok env st d token g \<Longrightarrow> link_ok env st' d token g"
  unfolding link_ok_def using store_leD(3) grant_rows.trans by meson

lemma revoked_mono:
  "store_le st st' \<Longrightarrow> \<exists>r \<in> set (r_devices st). rd_id r = d \<and> rd_revoked r \<noteq> None \<Longrightarrow>
   \<exists>r \<in> set (r_devices st'). rd_id r = d \<and> rd_revoked r \<noteq> None"
  using store_leD(2) unfolding device_le_def by metis

lemma call_mono: "store_le st st' \<Longrightarrow> call_ok env st k \<Longrightarrow> call_ok env st' k"
  by (cases k) (simp_all add: phase_mono known_mono link_mono revoked_mono del: not_None_eq)

lemma signed_mono: "store_le st st' \<Longrightarrow> signed_row env st r \<Longrightarrow> command_le r r' \<Longrightarrow> signed_row env st' r'"
  unfolding signed_row_def using entitled_mono command_rows.trans by meson

lemma backed_mono:
  assumes le: "store_le st st'" and b: "backed_grant st g" and g: "grant_le g g'"
  shows "backed_grant st' g'"
proof -
  from b obtain r x where r: "r \<in> set (r_commands st)" "cm_status r = ''completed''" "cm_device r = ag_device g"
      "cm_project r = ag_project g" "cm_kind r = ''request_artifact''"
    and x: "x \<in> set (r_receipts st)" "rc_id x = ag_approval g" "rc_kind x = ''remote_artifact_approval''"
      "rc_command x = Some (cm_id r)"
    unfolding backed_grant_def by blast
  obtain r' where r': "r' \<in> set (r_commands st')" "command_le r r'" using store_leD(1) [OF le r(1)] by blast
  then have "r' = r" using r(2) by (simp add: command_le_def open_command_def)
  with r r' x store_leD(4) [OF le x(1)] g show ?thesis unfolding backed_grant_def grant_le_def by metis
qed

lemma effect_mono: "store_le st st' \<Longrightarrow> effect_ok env st e \<Longrightarrow> effect_ok env st' e"
proof (cases e)
  case (StopEffect cid d nonce run sequence)
  assume le: "store_le st st'" and "effect_ok env st e"
  then obtain r where r: "r \<in> set (r_commands st)" "cm_id r = cid" "cm_device r = d" "cm_nonce r = nonce"
     "cm_kind r = ''stop_task''" "cm_task_run r = Some run" "cm_expected r = Some sequence" "\<not> open_command r"
    by (auto simp: StopEffect)
  obtain r' where "r' \<in> set (r_commands st')" "command_le r r'" using store_leD(1) [OF le r(1)] by blast
  with r have "r \<in> set (r_commands st')" by (simp add: command_le_def)
  with r show ?thesis by (auto simp: StopEffect)
next
  case (FileEffect gid d ea)
  assume le: "store_le st st'" and "effect_ok env st e"
  then obtain g token where g: "g \<in> set (r_grants st)" "ag_id g = gid" "ag_device g = d" "ag_opened g \<noteq> None"
      "ag_token_hash g = v_sha256_hex env token" "sealed_ok env token g ea"
    by (auto simp: FileEffect)
  obtain g' where "g' \<in> set (r_grants st')" "grant_le g g'" using store_leD(3) [OF le g(1)] by blast
  moreover from this g have "sealed_ok env token g' ea" by (simp add: sealed_ok_def grant_le_def)
  ultimately show ?thesis using g unfolding FileEffect effect_ok.simps grant_le_def by metis
qed

subsection \<open>Steps\<close>

lemma old_command:
  assumes k: "store_kept st st'" and r: "r \<in> set (r_commands st')" "cm_id r \<in> cm_id ` set (r_commands st)"
  shows "\<exists>r0 \<in> set (r_commands st). command_le r0 r"
proof -
  from r(2) obtain r0 where r0: "r0 \<in> set (r_commands st)" "cm_id r0 = cm_id r" by force
  from k have le: "store_le st st'" and ok: "remote_ok st'" by (simp_all add: store_kept_def)
  from store_leD(1) [OF le r0(1)] obtain r' where r': "r' \<in> set (r_commands st')" "command_le r0 r'" by blast
  then have "r' = r" using distinct_key_eq [OF remote_okD(2) [OF ok]] r(1) r0(2) by (simp add: command_le_def)
  with r0 r' show ?thesis by blast
qed

lemma old_grant:
  assumes k: "store_kept st st'" and g: "g \<in> set (r_grants st')" "ag_id g \<in> ag_id ` set (r_grants st)"
  shows "\<exists>g0 \<in> set (r_grants st). grant_le g0 g"
proof -
  from g(2) obtain g0 where g0: "g0 \<in> set (r_grants st)" "ag_id g0 = ag_id g" by force
  from k have le: "store_le st st'" and ok: "remote_ok st'" by (simp_all add: store_kept_def)
  from store_leD(3) [OF le g0(1)] obtain g' where g': "g' \<in> set (r_grants st')" "grant_le g0 g'" by blast
  then have "g' = g" using distinct_key_eq [OF remote_okD(4) [OF ok]] g(1) g0(2) by (simp add: grant_le_def)
  with g0 g' show ?thesis by blast
qed

text \<open>What a step has to show: the store is kept, and what is new is in order.\<close>

lemma remote_inv_step:
  assumes inv: "remote_inv env w" and k: "store_kept (w_store w) (w_store w')"
    and commands: "\<And>r. r \<in> set (r_commands (w_store w')) \<Longrightarrow>
      cm_id r \<in> cm_id ` set (r_commands (w_store w)) \<or> signed_row env (w_store w') r"
    and grants: "\<And>g. g \<in> set (r_grants (w_store w')) \<Longrightarrow>
      ag_id g \<in> ag_id ` set (r_grants (w_store w)) \<or> backed_grant (w_store w') g"
    and calls: "\<And>k. k \<in> set (w_calls w') \<Longrightarrow> k \<in> set (w_calls w) \<or> call_ok env (w_store w') k"
    and effects: "w_effects w' = w_effects w @ new" "list_all (effect_ok env (w_store w')) new"
      "distinct (map effect_key new)" "effect_key ` set new \<inter> effect_key ` set (w_effects w) = {}"
  shows "remote_inv env w'"
proof -
  from k have le: "store_le (w_store w) (w_store w')" and ok: "remote_ok (w_store w')"
    by (simp_all add: store_kept_def)
  have "signed_row env (w_store w') r" if "r \<in> set (r_commands (w_store w'))" for r
    using commands [OF that] old_command [OF k that] signed_mono [OF le] inv
    by (auto simp: remote_inv_def list_all_iff)
  moreover have "backed_grant (w_store w') g" if "g \<in> set (r_grants (w_store w'))" for g
    using grants [OF that] old_grant [OF k that] backed_mono [OF le] inv
    by (auto simp: remote_inv_def list_all_iff)
  moreover have "call_ok env (w_store w') c" if "c \<in> set (w_calls w')" for c
    using calls [OF that] call_mono [OF le] inv by (auto simp: remote_inv_def list_all_iff)
  moreover have "list_all (effect_ok env (w_store w')) (w_effects w')"
    using effects(1,2) effect_mono [OF le] inv by (auto simp: remote_inv_def list_all_iff)
  moreover have "distinct (map effect_key (w_effects w'))"
    using effects(1,3,4) inv by (auto simp: remote_inv_def)
  ultimately show ?thesis using ok by (simp add: remote_inv_def list_all_iff)
qed

text \<open>A step that adds no row and has no effect.\<close>

lemma remote_inv_quiet:
  assumes inv: "remote_inv env w" and k: "store_kept (w_store w) (w_store w')"
    and "map cm_id (r_commands (w_store w')) = map cm_id (r_commands (w_store w))"
    and "map ag_id (r_grants (w_store w')) = map ag_id (r_grants (w_store w))"
    and "\<And>k. k \<in> set (w_calls w') \<Longrightarrow> k \<in> set (w_calls w) \<or> call_ok env (w_store w') k"
    and "w_effects w' = w_effects w"
  shows "remote_inv env w'"
proof (rule remote_inv_step [OF inv k, where new = "[]"])
  fix r assume "r \<in> set (r_commands (w_store w'))"
  then have "cm_id r \<in> set (map cm_id (r_commands (w_store w')))" by simp
  then show "cm_id r \<in> cm_id ` set (r_commands (w_store w)) \<or> signed_row env (w_store w') r"
    unfolding assms(3) by simp
next
  fix g assume "g \<in> set (r_grants (w_store w'))"
  then have "ag_id g \<in> set (map ag_id (r_grants (w_store w')))" by simp
  then show "ag_id g \<in> ag_id ` set (r_grants (w_store w)) \<or> backed_grant (w_store w') g"
    unfolding assms(4) by simp
qed (use assms(5,6) in auto)

text \<open>A step of one call that leaves the store.\<close>

lemma remote_inv_call:
  assumes inv: "remote_inv env w" and "w_store w' = w_store w" "w_effects w' = w_effects w"
    and "\<And>k. k \<in> set (w_calls w') \<Longrightarrow> k \<in> set (w_calls w) \<or> call_ok env (w_store w') k"
  shows "remote_inv env w'"
proof (rule remote_inv_quiet [OF inv])
  show "store_kept (w_store w) (w_store w')" using inv by (simp add: assms(2) store_kept_def remote_inv_def)
qed (use assms in auto)

subsection \<open>Acceptance\<close>

lemma check_device_vouched:
  assumes "check_device env now c st = Ok allowed"
  shows "\<exists>d \<in> set (r_devices st). vouched env now c allowed d"
proof -
  from assms obtain d projects scopes where d: "find_device (sg_device c) st = Some d"
    and *: "sg_signer c = rd_public_key d" "verify env (rd_public_key d) (canonical env c) (sg_signature c)"
      "now \<le> sg_expires_at c" "sg_expires_at c \<le> saturating_add now COMMAND_MAX_TTL_MS"
      "rd_projects d = Some projects" "rd_scopes d = Some scopes" "allowed = (projects, scopes)"
    unfolding check_device_def by (auto simp: result_simps)
  from find_device_Some [OF d] * show ?thesis by (intro bexI [of _ d]) (simp_all add: vouched_def)
qed

lemma check_request_scope:
  assumes "check_request env c = Ok required" shows "required = sg_kind c"
  using assms by (auto simp: check_request_def result_simps supported_scope_def split: if_splits)

lemma accept_next_ok:
  assumes "check_request env c = Ok required" "accept_next env c now required ph st = Ok ph'" "phase_ok env c now ph st"
  shows "phase_ok env c now ph' st"
proof (cases ph)
  case AtDevice
  with assms(2) show ?thesis by (auto simp: result_simps dest: check_device_vouched)
next
  case (AtProject allowed)
  with assms obtain d where "d \<in> set (r_devices st)" "vouched env now c allowed d" by auto
  moreover have "sg_project c \<in> set (fst allowed)" "sg_kind c \<in> set (snd allowed)" "ph' = AtTask"
    using assms(2) AtProject check_request_scope [OF assms(1)] by (auto simp: result_simps check_project_def)
  ultimately have "entitled env now c st" unfolding entitled_def by blast
  with \<open>ph' = AtTask\<close> show ?thesis by simp
qed (use assms in \<open>auto simp: result_simps\<close>)

text \<open>The row an acceptance reads back is its own.\<close>

lemma accept_loads_own:
  assumes ok: "remote_ok st" and ph: "phase_ok env c now (AtLoad conflict) st"
    and l: "load (sg_command_id c) st = Some stored"
  shows "decided_for c stored" "known_command st stored"
proof -
  from ph obtain r where r: "r \<in> set (r_commands st)" "command_le (accepted_row now c) r" by auto
  from l have s: "stored \<in> set (r_commands st)" "cm_id stored = sg_command_id c"
    by (auto simp: load_def find_Some_iff)
  with r have "stored = r" using distinct_key_eq [OF remote_okD(2) [OF ok]] by (simp add: command_le_def accepted_row_def)
  with r show "decided_for c stored" "known_command st stored"
    by (auto simp: decided_for_def known_command_def intro: command_rows.refl)
qed

lemma insert_command_inv:
  assumes inv: "remote_inv env w" and calls: "w_calls w = xs @ Accepting c now required (AtInsert conflict) # ys"
    and ins: "insert_command now c (w_store w) = Ok st"
  shows "remote_inv env (w\<lparr>w_store := st, w_calls := xs @ Accepting c now required (AtLoad conflict) # ys\<rparr>)"
proof (rule remote_inv_step [OF inv, where new = "[]"])
  have ok: "remote_ok (w_store w)" using inv by (simp add: remote_inv_def)
  note k = insert_command_kept [OF ok ins]
  from inv calls have req: "check_request env c = Ok required" "entitled env now c (w_store w)"
    by (simp_all add: remote_inv_def)
  have en: "entitled env now c st" using entitled_mono req(2) k by (auto simp: store_kept_def)
  show "store_kept (w_store w) (w_store (w\<lparr>w_store := st, w_calls := xs @ Accepting c now required (AtLoad conflict) # ys\<rparr>))"
    using k by simp
  have st: "st = (w_store w)\<lparr>r_commands := r_commands (w_store w) @ [accepted_row now c]\<rparr>"
    using ins by (simp add: insert_command_Ok)
  have "signed_row env st (accepted_row now c)"
    unfolding signed_row_def using req(1) en command_rows.refl by blast
  then show "cm_id r \<in> cm_id ` set (r_commands (w_store w)) \<or>
      signed_row env (w_store (w\<lparr>w_store := st, w_calls := xs @ Accepting c now required (AtLoad conflict) # ys\<rparr>)) r"
    if "r \<in> set (r_commands (w_store (w\<lparr>w_store := st, w_calls := xs @ Accepting c now required (AtLoad conflict) # ys\<rparr>)))" for r
    using that by (auto simp: st)
  have "call_ok env st (Accepting c now required (AtLoad conflict))"
    using req(1) en k command_rows.refl by auto
  then show "x \<in> set (w_calls w) \<or>
      call_ok env (w_store (w\<lparr>w_store := st, w_calls := xs @ Accepting c now required (AtLoad conflict) # ys\<rparr>)) x"
    if "x \<in> set (w_calls (w\<lparr>w_store := st, w_calls := xs @ Accepting c now required (AtLoad conflict) # ys\<rparr>))" for x
    using that by (auto simp: calls)
qed (auto simp: insert_command_Ok [THEN iffD1, OF ins])

subsection \<open>Files\<close>

lemma prepare_grant_ok:
  assumes "prepare_grant env fs now ids approved c label st = Ok p" "decided_for c stored"
    "cm_kind stored = ''request_artifact''"
  shows "prepared_ok stored p"
  using assms by (auto simp: prepare_grant_def prepare_with_decision_def result_simps prepared_ok_def
      decided_for_def command_le_def accepted_row_def)

lemma retrieve_read_ok:
  assumes "retrieve_read env now d token st = Ok g" shows "link_ok env st d token g"
proof -
  from assms have "find (retrievable d (v_sha256_hex env token) now st) (r_grants st) = Some g"
    by (simp add: retrieve_read_def result_simps)
  from find_SomeD [OF this] show ?thesis using grant_rows.refl by (auto simp: link_ok_def retrievable_def)
qed

lemma read_transfer_Ok:
  assumes "read_transfer env fs source transfer source_sha transfer_sha = Ok bytes"
  shows "v_sha256_hex env bytes = transfer_sha" "fs transfer = Some bytes"
  using assms by (auto simp: read_transfer_def result_simps split: if_splits)

lemma retrieve_seal_ok:
  assumes "retrieve_seal env fs nonce d token g = Ok ea" shows "sealed_ok env token g ea"
  using assms by (auto simp: retrieve_seal_def result_simps sealed_ok_def dest: read_transfer_Ok)

lemma hand_over_inv:
  assumes inv: "remote_inv env w" and calls: "w_calls w = xs @ Sealed d token g now ea # ys"
    and c: "retrieve_consume (ag_id g) d (v_sha256_hex env token) now (w_store w) = Ok st"
  shows "remote_inv env (w\<lparr>w_store := st, w_calls := xs @ ys, w_effects := w_effects w @ [FileEffect (ag_id g) d ea]\<rparr>)"
proof -
  let ?P = "consumes (ag_id g) d (v_sha256_hex env token) now"
  from inv have ok: "remote_ok (w_store w)" by (simp add: remote_inv_def)
  from c have n: "changed_rows ?P (r_grants (w_store w)) = 1"
    and st: "st = (w_store w)\<lparr>r_grants := update_rows ?P (\<lambda>g. g\<lparr>ag_opened := Some now\<rparr>) (r_grants (w_store w))\<rparr>"
    by (auto simp: retrieve_consume_def result_simps)
  from changed_rows_pos [OF n] obtain g0 where g0: "g0 \<in> set (r_grants (w_store w))" "?P g0" by blast
  from inv calls have link: "link_ok env (w_store w) d token g" and seal: "sealed_ok env token g ea"
    by (simp_all add: remote_inv_def)
  then obtain g1 where g1: "g1 \<in> set (r_grants (w_store w))" "grant_le g g1" by (auto simp: link_ok_def)
  have eq: "g1 = g0"
    using distinct_key_eq [OF remote_okD(4) [OF ok]] g0 g1 by (simp add: consumes_def grant_le_def)
  let ?g = "g0\<lparr>ag_opened := Some now\<rparr>"
  have "?g \<in> set (r_grants st)" using g0 by (force simp: st set_update_rows)
  moreover have "sealed_ok env token ?g ea" using seal g1(2) by (simp add: sealed_ok_def grant_le_def eq)
  ultimately have new: "effect_ok env st (FileEffect (ag_id g) d ea)"
    using g0(2) unfolding effect_ok.simps consumes_def by (intro bexI [of _ ?g] conjI exI [of _ token]) simp_all
  have fresh: "Inr (ag_id g) \<notin> effect_key ` set (w_effects w)"
  proof
    assume "Inr (ag_id g) \<in> effect_key ` set (w_effects w)"
    then obtain e where e: "e \<in> set (w_effects w)" "effect_key e = Inr (ag_id g)" by force
    with inv have "effect_ok env (w_store w) e" by (simp add: remote_inv_def list_all_iff)
    with e(2) obtain g2 where "g2 \<in> set (r_grants (w_store w))" "ag_id g2 = ag_id g" "ag_opened g2 \<noteq> None"
      by (cases e) auto
    moreover from this g0 have "g2 = g0"
      using distinct_key_eq [OF remote_okD(4) [OF ok]] by (simp add: consumes_def)
    ultimately show False using g0(2) by (simp add: consumes_def)
  qed
  have keys: "map ag_id (r_grants st) = map ag_id (r_grants (w_store w))" by (simp add: st update_rows_def)
  have grants: "ag_id x \<in> ag_id ` set (r_grants (w_store w))" if "x \<in> set (r_grants st)" for x
    using arg_cong [OF keys, of set] that by auto
  show ?thesis
    by (rule remote_inv_step [OF inv, where new = "[FileEffect (ag_id g) d ea]"])
      (use consume_kept [OF ok c] new fresh grants calls in \<open>auto simp: st\<close>)
qed

subsection \<open>Transactions\<close>

lemma finalize_keys:
  assumes "finalize_command cid status code result now st = (n, st')"
  shows "map cm_id (r_commands st') = map cm_id (r_commands st)" "r_grants st' = r_grants st"
    "r_receipts st' = r_receipts st"
  using assms by (auto simp: finalize_command_def Let_def update_rows_def)

lemma finalize_status:
  assumes "finalize_command cid status code result now st = (1, st')"
  shows "\<exists>r \<in> set (r_commands st'). cm_id r = cid \<and> cm_status r = status"
proof -
  let ?P = "\<lambda>r. cm_id r = cid \<and> cm_status r = ''accepted''"
  from assms have n: "changed_rows ?P (r_commands st) = 1"
    and st': "r_commands st' = update_rows ?P (\<lambda>r. r\<lparr>cm_status := status, cm_outcome := Some code,
      cm_result := Some result, cm_completed := Some now\<rparr>) (r_commands st)"
    by (auto simp: finalize_command_def Let_def)
  from changed_rows_pos [OF n] obtain r where "r \<in> set (r_commands st)" "?P r" by blast
  then show ?thesis unfolding st' by (intro bexI [OF _ updated_row]) simp_all
qed

lemma touch_keys:
  assumes "touch_device d now st = (m, st')"
  shows "r_commands st' = r_commands st" "r_grants st' = r_grants st" "r_receipts st' = r_receipts st"
  using assms by (auto simp: touch_device_def Let_def)

lemma conflict_keys:
  assumes "conflict_transaction env now rid c message st = Ok (Some st')"
  shows "map cm_id (r_commands st') = map cm_id (r_commands st)" "r_grants st' = r_grants st"
proof -
  obtain n st1 where f: "finalize_command (cm_id c) ''rejected'' (fo_code sequence_conflict)
      (JObj [(''message'', JStr message)]) now st = (n, st1)" by fastforce
  obtain m st2 where t: "touch_device (cm_device c) now st1 = (m, st2)" by fastforce
  from assms f t obtain receipt where "insert_receipt ReceiptStoreFailed receipt st2 = Ok st'"
    by (auto simp: conflict_transaction_def result_simps split: if_splits)
  then have "r_commands st' = r_commands st2" "r_grants st' = r_grants st2"
    by (auto simp: insert_receipt_def result_simps)
  with finalize_keys [OF f] touch_keys [OF t]
  show "map cm_id (r_commands st') = map cm_id (r_commands st)" "r_grants st' = r_grants st" by simp_all
qed

lemma insert_prepared_commands: "insert_prepared p st = Ok st' \<Longrightarrow> r_commands st' = r_commands st"
  by (drule insert_prepared_Ok(1)) simp

text \<open>What a committed transaction has done to the tables of remote access.\<close>

lemma execute_results:
  assumes "execute_transaction env now rid c artifact st = Ok (Some st')"
  shows "map cm_id (r_commands st') = map cm_id (r_commands st) \<and>
    (\<exists>current \<in> set (r_commands st). cm_id current = cm_id c \<and> open_command current) \<and>
    device_valid c now st \<and> Some (cm_id c) \<in> rc_command ` set (final_receipts st') \<and>
    (r_grants st' = r_grants st \<or> (\<exists>p. artifact = Some p \<and> r_grants st' = r_grants st @ [pr_grant p] \<and>
      pr_receipt p \<in> set (r_receipts st') \<and>
      (\<exists>r \<in> set (r_commands st'). cm_id r = cm_id c \<and> cm_status r = ''completed'')))"
  using assms
proof (cases rule: execute_transaction_Ok)
  case (1 current sequence outcome st1 st2 result st3 st4 receipt)
  note f = finalize_keys [OF 1(8)] and t = touch_keys [OF 1(9)]
  have i: "r_receipts st' = r_receipts st4 @ [receipt]" "r_commands st' = r_commands st4" "r_grants st' = r_grants st4"
    using 1(11) by (auto simp: insert_receipt_def result_simps)
  have s1: "same_remote st st1" using 1(6) apply_stop_task_same by (auto simp: same_remote_def split: if_splits)
  have s2: "r_commands st2 = r_commands st1"
    using 1(7) insert_prepared_commands [of _ st1 st2] by (cases artifact) (auto split: if_splits)
  have a: "map cm_id (r_commands st') = map cm_id (r_commands st)"
    using i f t s1 s2 by (simp add: same_remote_def)
  have b: "\<exists>current \<in> set (r_commands st). cm_id current = cm_id c \<and> open_command current"
    using find_SomeD [OF 1(1) [unfolded load_def]] 1(2) by (auto simp: open_command_def)
  have c: "Some (cm_id c) \<in> rc_command ` set (final_receipts st')"
    using signed_receipt_Ok [OF 1(10)] by (auto simp: final_receipts_def i(1))
  have "r_grants st' = r_grants st \<or> (\<exists>p. artifact = Some p \<and> r_grants st' = r_grants st @ [pr_grant p] \<and>
      pr_receipt p \<in> set (r_receipts st') \<and>
      (\<exists>r \<in> set (r_commands st'). cm_id r = cm_id c \<and> cm_status r = ''completed''))"
  proof (cases "st2 = st1")
    case True
    then show ?thesis using i f t s1 by (simp add: same_remote_def)
  next
    case False
    with 1(7) obtain p where p: "artifact = Some p" "insert_prepared p st1 = Ok st2" "fo_status outcome = ''completed''"
      by (auto split: option.splits if_splits)
    with finalize_status [OF 1(8)] insert_prepared_Ok(1) [OF p(2)] show ?thesis
      using i f t s1 by (simp add: same_remote_def)
  qed
  with a b 1(3) c show ?thesis by blast
qed

lemmas execute_facts = execute_results [THEN conjunct1] execute_results [THEN conjunct2, THEN conjunct1]
  execute_results [THEN conjunct2, THEN conjunct2, THEN conjunct1]
  execute_results [THEN conjunct2, THEN conjunct2, THEN conjunct2, THEN conjunct1]
  execute_results [THEN conjunct2, THEN conjunct2, THEN conjunct2, THEN conjunct2]

lemma stops_cases:
  "stops c st = [] \<or> (\<exists>run n. stops c st = [StopEffect (cm_id c) (cm_device c) (cm_nonce c) run n] \<and>
     cm_kind c = ''stop_task'' \<and> cm_task_run c = Some run \<and> cm_expected c = Some n)"
  by (auto simp: stops_def run_sequence_def stop_conflict_def split: sum.splits option.splits)

lemma execute_inv:
  assumes inv: "remote_inv env w" and calls: "w_calls w = xs @ Ready c stored artifact # ys"
    and ex: "execute_transaction env now rid stored artifact (w_store w) = Ok (Some st)"
  shows "remote_inv env (w\<lparr>w_store := st, w_calls := xs @ ys, w_effects := w_effects w @ stops stored (w_store w)\<rparr>)"
proof -
  from inv have ok: "remote_ok (w_store w)" by (simp add: remote_inv_def)
  from inv calls have known: "known_command (w_store w) stored"
    and prep: "\<And>p. artifact = Some p \<Longrightarrow> prepared_ok stored p"
    by (auto simp: remote_inv_def split: option.splits)
  have k: "store_kept (w_store w) st" by (rule execute_kept [OF ok ex]) (use prep in \<open>auto simp: prepared_ok_def\<close>)
  then have ok': "remote_ok st" and le: "store_le (w_store w) st" by (simp_all add: store_kept_def)
  note res = execute_facts [OF ex]
  from known_mono [OF le known] obtain r where r: "r \<in> set (r_commands st)" "command_le stored r"
    by (auto simp: known_command_def)
  then have row: "x = r" if "x \<in> set (r_commands st)" "cm_id x = cm_id stored" for x
    using distinct_key_eq [OF remote_okD(2) [OF ok']] that by (simp add: command_le_def)
  have closed: "\<not> open_command r" using remote_okD(6) [OF ok' r(1)] res(4) r(2) by (simp add: command_le_def)
  have "ag_id g \<in> ag_id ` set (r_grants (w_store w)) \<or> backed_grant st g" if g: "g \<in> set (r_grants st)" for g
  proof (cases "r_grants st = r_grants (w_store w)")
    case True
    with g show ?thesis by simp
  next
    case False
    with res(5) obtain p where p: "artifact = Some p" "r_grants st = r_grants (w_store w) @ [pr_grant p]"
        "pr_receipt p \<in> set (r_receipts st)"
      and "\<exists>r \<in> set (r_commands st). cm_id r = cm_id stored \<and> cm_status r = ''completed''" by auto
    then have "cm_status r = ''completed''" using row by auto
    moreover from prep [OF p(1)] have "prepared_ok stored p" .
    ultimately have "backed_grant st (pr_grant p)"
      using r p(3) unfolding backed_grant_def prepared_ok_def command_le_def by metis
    with g p(2) show ?thesis by auto
  qed
  moreover have "cm_id x \<in> cm_id ` set (r_commands (w_store w))" if "x \<in> set (r_commands st)" for x
    using arg_cong [OF res(1), of set] that by auto
  moreover have "list_all (effect_ok env st) (stops stored (w_store w))"
    using stops_cases [of stored "w_store w"] r closed by (auto simp: command_le_def)
  moreover have "Inl (cm_id stored) \<notin> effect_key ` set (w_effects w)"
  proof
    assume "Inl (cm_id stored) \<in> effect_key ` set (w_effects w)"
    then obtain e where e: "e \<in> set (w_effects w)" "effect_key e = Inl (cm_id stored)" by force
    with inv have "effect_ok env (w_store w) e" by (simp add: remote_inv_def list_all_iff)
    with e(2) obtain x where "x \<in> set (r_commands (w_store w))" "cm_id x = cm_id stored" "\<not> open_command x"
      by (cases e) auto
    with res(2) distinct_key_eq [OF remote_okD(2) [OF ok]] show False by metis
  qed
  then have "effect_key ` set (stops stored (w_store w)) \<inter> effect_key ` set (w_effects w) = {}"
    "distinct (map effect_key (stops stored (w_store w)))"
    using stops_cases [of stored "w_store w"] by auto
  ultimately show ?thesis
    by (intro remote_inv_step [OF inv, where new = "stops stored (w_store w)"]) (use k calls in auto)
qed

lemma rename_keys:
  assumes "rename_device d label st = Ok st'"
  shows "r_commands st' = r_commands st" "r_grants st' = r_grants st"
  using assms by (auto simp: rename_device_def Let_def result_simps)

lemma revoke_row_revokes:
  assumes "get_device d st = Ok r"
  shows "\<exists>r \<in> set (r_devices (revoke_device_row d now st)). rd_id r = d \<and> rd_revoked r \<noteq> None"
proof -
  from assms have "r \<in> set (r_devices st)" "rd_id r = d"
    by (auto simp: get_device_def result_simps dest: find_device_Some)
  then show ?thesis unfolding revoke_device_row_def
    by simp (intro bexI [OF _ updated_row], auto split: option.splits)
qed

lemma remote_step_inv:
  assumes "remote_step env w w'" "remote_inv env w" shows "remote_inv env w'"
  using assms
proof (induction rule: remote_step.induct)
  case (application w st)
  then have "store_kept (w_store w) st" by (auto simp: remote_inv_def intro: same_remote_kept)
  with application show ?case by (intro remote_inv_quiet [OF application(2)]) (auto simp: same_remote_def)
next
  case (rename d label w st)
  then have "store_kept (w_store w) st" by (auto simp: remote_inv_def intro: rename_kept)
  with rename_keys [OF rename(1)] show ?case by (intro remote_inv_quiet [OF rename(2)]) auto
next
  case (revoke_begins d w r now)
  then have "store_kept (w_store w) (revoke_device_row d now (w_store w))"
    by (auto simp: remote_inv_def intro: revoke_row_kept)
  with revoke_row_revokes [OF revoke_begins(1), of now] show ?case
    by (intro remote_inv_quiet [OF revoke_begins(2)]) (auto simp: revoke_device_row_def)
next
  case (revoke_ends w xs d ys now)
  then have "store_kept (w_store w) (revoke_grants d now (w_store w))"
    by (auto simp: remote_inv_def intro: revoke_grants_kept)
  with revoke_ends(1) show ?case
    by (intro remote_inv_quiet [OF revoke_ends(2)]) (auto simp: revoke_grants_def update_rows_def)
next
  case (accept_begins c required w now)
  then show ?case by (intro remote_inv_call [OF accept_begins(2)]) auto
next
  case (accept_reads w xs c now required ph ys ph')
  then have "call_ok env (w_store w) (Accepting c now required ph')"
    by (auto simp: remote_inv_def intro: accept_next_ok)
  with accept_reads(1) show ?case by (intro remote_inv_call [OF accept_reads(3)]) auto
next
  case (accept_inserts w xs c now required conflict ys st)
  then show ?case by (intro insert_command_inv)
next
  case (accept_loads w xs c now required conflict ys stored)
  then have "decided_for c stored" "known_command (w_store w) stored"
    using accept_loads_own [of "w_store w" env c now conflict stored] by (auto simp: remote_inv_def)
  with accept_loads(1) show ?case by (intro remote_inv_call [OF accept_loads(3)]) auto
next
  case (conflicts w xs stored ys now rid message st)
  then have "store_kept (w_store w) st" by (auto simp: remote_inv_def intro: conflict_kept)
  with conflicts(1) conflict_keys [OF conflicts(2)] show ?case
    by (intro remote_inv_quiet [OF conflicts(3)]) auto
next
  case (approves w xs c stored ys dev now ids approved p)
  then have "known_command (w_store w) stored" "prepared_ok stored p"
    using prepare_grant_ok [OF approves(4)] by (auto simp: remote_inv_def)
  with approves(1) show ?case by (intro remote_inv_call [OF approves(5)]) auto
next
  case (revalidates w xs c stored p ys)
  then have "call_ok env (w_store w) (Ready c stored (Some p))" by (simp add: remote_inv_def)
  with revalidates(1) show ?case by (intro remote_inv_call [OF revalidates(3)]) auto
next
  case (needs_no_file w xs c stored ys)
  then have "call_ok env (w_store w) (Ready c stored None)" by (simp add: remote_inv_def)
  with needs_no_file(1) show ?case by (intro remote_inv_call [OF needs_no_file(3)]) auto
next
  case (executes w xs c stored artifact ys now rid st)
  then show ?case by (intro execute_inv)
next
  case (retrieve_reads now d token w g)
  with retrieve_read_ok [OF retrieve_reads(1)] show ?case by (intro remote_inv_call [OF retrieve_reads(2)]) auto
next
  case (seals w xs d token g now ys nonce ea)
  then have "call_ok env (w_store w) (Sealed d token g now ea)"
    using retrieve_seal_ok [OF seals(2)] by (simp add: remote_inv_def)
  with seals(1) show ?case by (intro remote_inv_call [OF seals(3)]) auto
next
  case (hands_over w xs d token g now ea ys st)
  then show ?case by (intro hand_over_inv)
qed (auto intro: remote_inv_call)

lemma remote_step_le:
  assumes "remote_step env w w'" "remote_inv env w"
  shows "store_le (w_store w) (w_store w')"
proof -
  have ok: "remote_ok (w_store w)" using assms(2) by (simp add: remote_inv_def)
  from assms(1) show ?thesis
  proof cases
    case (application st)
    with same_remote_kept [OF ok] show ?thesis by (auto simp: store_kept_def)
  next
    case (rename d label st)
    with rename_kept [OF ok] show ?thesis by (auto simp: store_kept_def)
  next
    case (revoke_begins d r now)
    with revoke_row_kept [OF ok] show ?thesis by (auto simp: store_kept_def)
  next
    case (revoke_ends xs d ys now)
    with revoke_grants_kept [OF ok] show ?thesis by (auto simp: store_kept_def)
  next
    case (accept_inserts xs c now required conflict ys st)
    with insert_command_kept [OF ok] show ?thesis by (auto simp: store_kept_def)
  next
    case (conflicts xs stored ys now rid message st)
    with conflict_kept [OF ok] show ?thesis by (auto simp: store_kept_def)
  next
    case (executes xs c stored artifact ys now rid st)
    then have "prepared_ok stored p" if "artifact = Some p" for p
      using assms(2) that by (simp add: remote_inv_def)
    with execute_kept [OF ok executes(3)] have "store_kept (w_store w) st" by (simp add: prepared_ok_def)
    with executes show ?thesis by (simp add: store_kept_def)
  next
    case (hands_over xs d token g now ea ys st)
    with consume_kept [OF ok] show ?thesis by (auto simp: store_kept_def)
  qed auto
qed

definition remote_le :: "remote_system \<Rightarrow> remote_system \<Rightarrow> bool" where
  "remote_le w w' \<longleftrightarrow> store_le (w_store w) (w_store w')"

interpretation remote_runs: monotone_system "remote_step env" "remote_inv env" remote_le for env
  by unfold_locales (auto simp: remote_le_def intro: remote_step_inv remote_step_le store_le_trans)

end
