(* ===== verification/Remote_Demo.thy ===== *)
theory Remote_Demo
  imports Remote_Inv
begin

text \<open>
  Calls that run without interference are runs of the step relation, and a run that stops a task,
  hands a file over and revokes the device.
\<close>

subsection \<open>Calls without interference\<close>

lemma accept_run:
  assumes "accept env now c (w_store w) = Ok ((stored, conflict), st)"
  shows "(remote_step env)\<^sup>*\<^sup>* w
    (w\<lparr>w_store := st, w_calls := (if conflict then Conflicting stored else Deciding c stored) # w_calls w\<rparr>)"
proof -
  from assms obtain required allowed where steps:
    "check_request env c = Ok required" "check_device env now c (w_store w) = Ok allowed"
    "check_project c required allowed (w_store w) = Ok ()" "check_task c (w_store w) = Ok ()"
    "check_artifact c (w_store w) = Ok ()" "check_command_id c (w_store w) = Ok ()" "check_nonce c (w_store w) = Ok ()"
    "check_sequence c (w_store w) = Ok conflict" "insert_command now c (w_store w) = Ok st"
    "load (sg_command_id c) st = Some stored"
    unfolding accept_def by (auto simp: result_simps)
  let ?at = "\<lambda>ph. w\<lparr>w_calls := Accepting c now required ph # w_calls w\<rparr>"
  let ?loading = "w\<lparr>w_store := st, w_calls := Accepting c now required (AtLoad conflict) # w_calls w\<rparr>"
  have reads: "remote_step env (?at ph) (?at ph')" if "accept_next env c now required ph (w_store w) = Ok ph'" for ph ph'
    using remote_step.accept_reads [of "?at ph" "[]" c now required ph "w_calls w" env ph'] that by simp
  note [trans] = rtranclp.rtrancl_into_rtrancl
  have "(remote_step env)\<^sup>*\<^sup>* w (?at AtDevice)"
    by (rule r_into_rtranclp) (rule remote_step.accept_begins [OF steps(1)])
  also have "remote_step env (?at AtDevice) (?at (AtProject allowed))" by (rule reads) (simp add: steps)
  also have "remote_step env (?at (AtProject allowed)) (?at AtTask)" by (rule reads) (simp add: steps)
  also have "remote_step env (?at AtTask) (?at AtArtifact)" by (rule reads) (simp add: steps)
  also have "remote_step env (?at AtArtifact) (?at AtCommandId)" by (rule reads) (simp add: steps)
  also have "remote_step env (?at AtCommandId) (?at AtNonce)" by (rule reads) (simp add: steps)
  also have "remote_step env (?at AtNonce) (?at AtSequence)" by (rule reads) (simp add: steps)
  also have "remote_step env (?at AtSequence) (?at (AtInsert conflict))" by (rule reads) (simp add: steps)
  also have "remote_step env (?at (AtInsert conflict)) ?loading"
    using remote_step.accept_inserts [of "?at (AtInsert conflict)" "[]" c now required conflict "w_calls w" st] steps(9) by simp
  also have "remote_step env ?loading
      (w\<lparr>w_store := st, w_calls := (if conflict then Conflicting stored else Deciding c stored) # w_calls w\<rparr>)"
    using remote_step.accept_loads [of ?loading "[]" c now required conflict "w_calls w" stored]
      steps(10) by simp
  finally show ?thesis .
qed

subsection \<open>Data\<close>

text \<open>A stand-in for the cryptography: the signature of a message is the key itself.\<close>

definition phone_env :: remote_env where
  "phone_env = \<lparr>v_sha256_hex = (\<lambda>s. take 64 (s @ replicate 64 (CHR ''0''))),
     v_hex_decode = (\<lambda>s. Some (take (length s div 2) s)), v_json_bytes = (\<lambda>_. Some ''{}''), v_json_text = (\<lambda>_. ''{}''),
     v_key_ok = (\<lambda>_. True), v_signature_ok = (\<lambda>_. True), v_ed25519 = (\<lambda>k m s. s = k),
     v_sign = (\<lambda>m. Some (''hash'', ''key'', ''signature'')), v_rfc3339 = (\<lambda>_. Some ''time''),
     v_aead = (\<lambda>key nonce bytes ad. Some (rev bytes))\<rparr>"

definition phone_uuid :: string where
  "phone_uuid = ''01234567-89ab-4cde-8f01-23456789abcd''"

definition phone_device_id :: string where "phone_device_id = ''device_'' @ phone_uuid"
definition phone_project_id :: string where "phone_project_id = ''project_'' @ phone_uuid"
definition phone_run_id :: string where "phone_run_id = ''taskrun_'' @ phone_uuid"
definition phone_artifact_id :: string where "phone_artifact_id = ''artifact_'' @ phone_uuid"

definition phone_sha :: string where
  "phone_sha = ''{}'' @ replicate 62 (CHR ''0'')"

definition phone_device :: remote_device where
  "phone_device = \<lparr>rd_id = phone_device_id, rd_label = ''Phone'', rd_public_key = replicate 64 (CHR ''a''),
     rd_projects = Some [phone_project_id], rd_scopes = Some [''stop_task'', ''request_artifact''],
     rd_paired_at = 0, rd_expires_at = 90000, rd_last_used = None, rd_revoked = None\<rparr>"

definition phone_run_row :: task_run_row where
  "phone_run_row = \<lparr>tk_id = phone_run_id, tk_task = ''task_'' @ phone_uuid, tk_project = Some phone_project_id,
     tk_runtime = ''agent'', tk_record = ''agent_1'', tk_state = ''running'', tk_origin = ''chat'',
     tk_correlation = ''c'', tk_updated = 0, tk_completed = None, tk_recovery = ''none''\<rparr>"

definition phone_remote_store :: remote_store where
  "phone_remote_store = \<lparr>r_devices = [phone_device], r_commands = [], r_receipts = [], r_grants = [],
     r_projects = [(phone_project_id, ''Work'')], r_runs = [phone_run_row], r_events = [], r_flow_steps = [],
     r_flows = [], r_agents = [\<lparr>rt_id = ''agent_1'', rt_status = ''running'', rt_updated = 0, rt_error = None\<rparr>],
     r_queue = [], r_artifacts = [\<lparr>ar_id = phone_artifact_id, ar_project = phone_project_id, ar_version = 1\<rparr>],
     r_versions = [\<lparr>vr_artifact = phone_artifact_id, vr_version = 1, vr_status = ''verified'', vr_pdf_path = ''/a.pdf'',
       vr_pdf_sha = ''pdf'' @ replicate 61 (CHR ''0''), vr_docx_path = ''/a.docx'', vr_docx_sha = [], vr_protected = False\<rparr>]\<rparr>"

definition phone_files :: files where
  "phone_files = (\<lambda>p. if p = ''/a.pdf'' then Some ''pdf'' else None)"

definition phone_stop :: signed_command where
  "phone_stop = \<lparr>sg_command_id = ''cmd_1'', sg_device = phone_device_id, sg_project = phone_project_id,
     sg_task_run = Some phone_run_id, sg_kind = ''stop_task'', sg_nonce = replicate 64 (CHR ''1''),
     sg_expires_at = 2000, sg_expected = Some 0, sg_payload_sha = phone_sha, sg_signer = replicate 64 (CHR ''a''),
     sg_payload = JObj [], sg_signature = replicate 64 (CHR ''a'')\<rparr>"

definition phone_fetch :: signed_command where
  "phone_fetch = phone_stop\<lparr>sg_command_id := ''cmd_2'', sg_kind := ''request_artifact'', sg_task_run := None,
     sg_expected := None, sg_nonce := replicate 64 (CHR ''2''),
     sg_payload := JObj [(''artifactId'', JStr phone_artifact_id), (''format'', JStr ''pdf'')]\<rparr>"

definition phone_token :: string where
  "phone_token = replicate 64 (CHR ''t'')"

definition phone_fresh :: fresh_ids where
  "phone_fresh = \<lparr>fi_grant = ''grant_1'', fi_token = phone_token, fi_receipt = ''approval_1''\<rparr>"

definition phone_receipt :: "string \<Rightarrow> string \<Rightarrow> string \<Rightarrow> int \<Rightarrow> audit_receipt" where
  "phone_receipt rid cid k now = \<lparr>rc_id = rid, rc_device = phone_device_id, rc_command = Some cid, rc_kind = k,
     rc_payload_sha = ''hash'', rc_signature = ''signature'', rc_created = now, rc_signer = Some ''key''\<rparr>"

definition phone_closed :: "int \<Rightarrow> prepared_grant option \<Rightarrow> stored_command \<Rightarrow> stored_command" where
  "phone_closed now artifact c = c\<lparr>cm_status := ''completed'', cm_outcome := Some ''applied'',
     cm_result := Some (JObj [(''message'', JStr ''Your Mac completed this request.''),
       (''contentState'', json_opt (\<lambda>p. JStr (ag_content_state (pr_grant p))) artifact),
       (''transferSha256'', json_opt (\<lambda>p. JStr (ag_transfer_sha (pr_grant p))) artifact)]), cm_completed := Some now\<rparr>"

subsection \<open>The calls, evaluated\<close>

definition phone_accepted :: remote_store where
  "phone_accepted = phone_remote_store\<lparr>r_commands := [accepted_row 1000 phone_stop]\<rparr>"

lemma phone_accept_stop:
  "accept phone_env 1000 phone_stop phone_remote_store = Ok ((accepted_row 1000 phone_stop, False), phone_accepted)"
  by code_simp

definition phone_stopped :: remote_store where
  "phone_stopped = phone_accepted\<lparr>r_devices := [phone_device\<lparr>rd_last_used := Some 1001\<rparr>],
     r_commands := [phone_closed 1001 None (accepted_row 1000 phone_stop)],
     r_receipts := [phone_receipt ''receipt_1'' ''cmd_1'' ''remote_command'' 1001],
     r_runs := [phone_run_row\<lparr>tk_state := ''cancelled'', tk_updated := 1001, tk_completed := Some 1001, tk_recovery := ''not_required''\<rparr>],
     r_agents := [\<lparr>rt_id = ''agent_1'', rt_status = ''cancelled'', rt_updated = 1001, rt_error = None\<rparr>],
     r_events := [\<lparr>te_run = phone_run_id, te_sequence = 0,
       te_event = cancel_event ''time'' (accepted_row 1000 phone_stop) phone_run_row phone_run_id 0, te_created = 1001\<rparr>]\<rparr>"

lemma phone_execute_stop:
  "execute_transaction phone_env 1001 ''receipt_1'' (accepted_row 1000 phone_stop) None phone_accepted = Ok (Some phone_stopped)"
  by code_simp

definition phone_requested :: remote_store where
  "phone_requested = phone_stopped\<lparr>r_commands := r_commands phone_stopped @ [accepted_row 1002 phone_fetch]\<rparr>"

lemma phone_accept_fetch:
  "accept phone_env 1002 phone_fetch phone_stopped = Ok ((accepted_row 1002 phone_fetch, False), phone_requested)"
  by code_simp

definition phone_prepared_grant :: prepared_grant where
  "phone_prepared_grant =
     (let receipt = phone_receipt ''approval_1'' ''cmd_2'' ''remote_artifact_approval'' 1003;
          sha = ''pdf'' @ replicate 61 (CHR ''0'') in
      \<lparr>pr_grant = \<lparr>ag_id = ''grant_1'', ag_token_hash = phone_token, ag_device = phone_device_id,
         ag_project = phone_project_id, ag_artifact = phone_artifact_id, ag_format = ''pdf'',
         ag_private_path = ''/a.pdf'', ag_sha = sha, ag_redaction = ''full_content'', ag_protected = False,
         ag_expires_at = 601003, ag_created = 1003, ag_content_state = ''full_content'', ag_source_sha = sha,
         ag_transfer_sha = sha, ag_source_path = ''/a.pdf'', ag_transfer_path = ''/a.pdf'', ag_manifest_sha = None,
         ag_approval = ''approval_1'', ag_opened = None, ag_revoked = None\<rparr>,
       pr_token = phone_token, pr_receipt = receipt\<rparr>)"

lemma phone_prepare:
  "prepare_grant phone_env phone_files 1003 phone_fresh True phone_fetch ''Phone'' phone_requested = Ok phone_prepared_grant"
  by code_simp

lemma phone_revalidate: "revalidate_prepared phone_env phone_files phone_prepared_grant = Ok ()"
  by code_simp

definition phone_granted :: remote_store where
  "phone_granted = phone_requested\<lparr>r_devices := [phone_device\<lparr>rd_last_used := Some 1004\<rparr>],
     r_commands := r_commands phone_stopped @ [phone_closed 1004 (Some phone_prepared_grant) (accepted_row 1002 phone_fetch)],
     r_receipts := r_receipts phone_stopped @ [phone_receipt ''approval_1'' ''cmd_2'' ''remote_artifact_approval'' 1003,
       phone_receipt ''receipt_2'' ''cmd_2'' ''remote_command'' 1004],
     r_grants := [pr_grant phone_prepared_grant]\<rparr>"

lemma phone_execute_fetch:
  "execute_transaction phone_env 1004 ''receipt_2'' (accepted_row 1002 phone_fetch) (Some phone_prepared_grant) phone_requested =
     Ok (Some phone_granted)"
  by code_simp

lemma phone_read: "retrieve_read phone_env 1005 phone_device_id phone_token phone_granted = Ok (pr_grant phone_prepared_grant)"
  by code_simp

definition phone_sealed :: encrypted_artifact where
  "phone_sealed =
     (let sha = ''pdf'' @ replicate 61 (CHR ''0'') in
      \<lparr>ea_artifact = phone_artifact_id, ea_format = ''pdf'', ea_nonce = ''n'', ea_ciphertext = ''fdp'', ea_source_sha = sha,
       ea_transfer_sha = sha, ea_content_state = ''full_content'', ea_expires_at = 601003, ea_associated_data = ''{}''\<rparr>)"

lemma phone_seal:
  "retrieve_seal phone_env phone_files ''n'' phone_device_id phone_token (pr_grant phone_prepared_grant) = Ok phone_sealed"
  by code_simp

definition phone_opened :: remote_store where
  "phone_opened = phone_granted\<lparr>r_grants := [(pr_grant phone_prepared_grant)\<lparr>ag_opened := Some 1005\<rparr>]\<rparr>"

lemma phone_consume:
  "retrieve_consume (ag_id (pr_grant phone_prepared_grant)) phone_device_id (v_sha256_hex phone_env phone_token) 1005 phone_granted =
     Ok phone_opened"
  by code_simp

lemma phone_get: "get_device phone_device_id phone_opened =
    Ok (phone_device\<lparr>rd_last_used := Some 1004\<rparr>)"
  by code_simp

lemma phone_find: "find_device phone_device_id phone_requested = Some (phone_device\<lparr>rd_last_used := Some 1001\<rparr>)"
  by code_simp

lemma phone_stops:
  "stops (accepted_row 1000 phone_stop) phone_accepted =
     [StopEffect ''cmd_1'' phone_device_id (replicate 64 (CHR ''1'')) phone_run_id 0]"
  "stops (accepted_row 1002 phone_fetch) phone_requested = []"
  by code_simp+

subsection \<open>The run\<close>

definition phone_state :: "remote_store \<Rightarrow> remote_call list \<Rightarrow> remote_effect list \<Rightarrow> remote_system" where
  "phone_state st calls effects = \<lparr>w_store = st, w_files = phone_files, w_calls = calls, w_effects = effects\<rparr>"

lemma phone_start: "remote_initial phone_remote_store phone_files = phone_state phone_remote_store [] []"
  by (simp add: remote_initial_def phone_state_def)

definition phone_effects :: "remote_effect list" where
  "phone_effects = [StopEffect ''cmd_1'' phone_device_id (replicate 64 (CHR ''1'')) phone_run_id 0,
     FileEffect ''grant_1'' phone_device_id phone_sealed]"

lemma phone_paired: "paired_store phone_remote_store"
  by (simp add: paired_store_def phone_remote_store_def)

lemma phone_stop_run:
  "(remote_step phone_env)\<^sup>*\<^sup>* (remote_initial phone_remote_store phone_files)
     (phone_state phone_stopped [] [StopEffect ''cmd_1'' phone_device_id (replicate 64 (CHR ''1'')) phone_run_id 0])"
proof -
  let ?c = "accepted_row 1000 phone_stop"
  note [trans] = rtranclp.rtrancl_into_rtrancl
  have "(remote_step phone_env)\<^sup>*\<^sup>* (remote_initial phone_remote_store phone_files) (phone_state phone_accepted [Deciding phone_stop ?c] [])"
    using accept_run [of phone_env 1000 phone_stop "phone_state phone_remote_store [] []" ?c False phone_accepted] phone_accept_stop
    by (simp add: phone_start phone_state_def)
  also have "remote_step phone_env (phone_state phone_accepted [Deciding phone_stop ?c] []) (phone_state phone_accepted [Ready phone_stop ?c None] [])"
    using remote_step.needs_no_file [of "phone_state phone_accepted [Deciding phone_stop ?c] []" "[]" phone_stop ?c "[]"]
    by (simp add: phone_state_def accepted_row_def phone_stop_def)
  also have "remote_step phone_env (phone_state phone_accepted [Ready phone_stop ?c None] [])
      (phone_state phone_stopped [] (stops ?c phone_accepted))"
    using remote_step.executes [of "phone_state phone_accepted [Ready phone_stop ?c None] []" "[]" phone_stop ?c None "[]"] phone_execute_stop
    by (simp add: phone_state_def)
  finally show ?thesis by (simp add: phone_stops)
qed

lemma phone_file_run:
  "(remote_step phone_env)\<^sup>*\<^sup>* (remote_initial phone_remote_store phone_files) (phone_state phone_opened [] phone_effects)"
proof -
  let ?c = "accepted_row 1002 phone_fetch" and ?p = phone_prepared_grant
  let ?E = "[StopEffect ''cmd_1'' phone_device_id (replicate 64 (CHR ''1'')) phone_run_id 0]"
  let ?run = "(remote_step phone_env)\<^sup>*\<^sup>*"
  note [trans] = rtranclp.rtrancl_into_rtrancl
  have k: "cm_kind ?c = ''request_artifact''" "cm_device ?c = phone_device_id"
    by (simp_all add: accepted_row_def phone_fetch_def phone_stop_def)
  have "?run (phone_state phone_stopped [] ?E) (phone_state phone_requested [Deciding phone_fetch ?c] ?E)"
    using accept_run [of phone_env 1002 phone_fetch "phone_state phone_stopped [] ?E" ?c False phone_requested] phone_accept_fetch
    by (simp add: phone_state_def)
  with phone_stop_run have "?run (remote_initial phone_remote_store phone_files) (phone_state phone_requested [Deciding phone_fetch ?c] ?E)"
    by (rule rtranclp_trans)
  also have "remote_step phone_env (phone_state phone_requested [Deciding phone_fetch ?c] ?E)
      (phone_state phone_requested [Approved phone_fetch ?c ?p] ?E)"
    using remote_step.approves [of "phone_state phone_requested [Deciding phone_fetch ?c] ?E" "[]" phone_fetch ?c "[]" _
        phone_env 1003 phone_fresh True ?p] phone_find phone_prepare k
    by (simp add: phone_state_def phone_device_def)
  also have "remote_step phone_env (phone_state phone_requested [Approved phone_fetch ?c ?p] ?E)
      (phone_state phone_requested [Ready phone_fetch ?c (Some ?p)] ?E)"
    using remote_step.revalidates [of "phone_state phone_requested [Approved phone_fetch ?c ?p] ?E" "[]" phone_fetch ?c ?p "[]"] phone_revalidate
    by (simp add: phone_state_def)
  also have "remote_step phone_env (phone_state phone_requested [Ready phone_fetch ?c (Some ?p)] ?E) (phone_state phone_granted [] ?E)"
    using remote_step.executes [of "phone_state phone_requested [Ready phone_fetch ?c (Some ?p)] ?E" "[]" phone_fetch ?c "Some ?p" "[]"]
      phone_execute_fetch phone_stops(2)
    by (simp add: phone_state_def)
  also have "remote_step phone_env (phone_state phone_granted [] ?E)
      (phone_state phone_granted [Opening phone_device_id phone_token (pr_grant ?p) 1005] ?E)"
    using remote_step.retrieve_reads [of phone_env 1005 phone_device_id phone_token "phone_state phone_granted [] ?E"] phone_read
    by (simp add: phone_state_def)
  also have "remote_step phone_env (phone_state phone_granted [Opening phone_device_id phone_token (pr_grant ?p) 1005] ?E)
      (phone_state phone_granted [Sealed phone_device_id phone_token (pr_grant ?p) 1005 phone_sealed] ?E)"
    using remote_step.seals [of "phone_state phone_granted [Opening phone_device_id phone_token (pr_grant ?p) 1005] ?E" "[]"
        phone_device_id phone_token "pr_grant ?p" 1005 "[]"] phone_seal
    by (simp add: phone_state_def)
  also have "remote_step phone_env (phone_state phone_granted [Sealed phone_device_id phone_token (pr_grant ?p) 1005 phone_sealed] ?E)
      (phone_state phone_opened [] (?E @ [FileEffect (ag_id (pr_grant ?p)) phone_device_id phone_sealed]))"
    using remote_step.hands_over [of "phone_state phone_granted [Sealed phone_device_id phone_token (pr_grant ?p) 1005 phone_sealed] ?E" "[]"
        phone_device_id phone_token "pr_grant ?p" 1005 phone_sealed "[]"] phone_consume
    by (simp add: phone_state_def)
  finally show ?thesis by (simp add: phone_effects_def phone_prepared_grant_def Let_def)
qed

end
