(* ===== verification/Remote_Props.thy ===== *)
theory Remote_Props
  imports Remote_Demo
begin

text \<open>
  What runs of remote access guarantee, whatever the interleaving of calls, of the application and
  of the user's administration of devices.
\<close>

subsection \<open>Revocation\<close>

lemma remote_step_grants:
  assumes "remote_step env w w'" "remote_inv env w" "g \<in> set (r_grants (w_store w'))"
  shows "ag_id g \<in> ag_id ` set (r_grants (w_store w)) \<or>
    (\<exists>stored now. device_valid stored now (w_store w) \<and> ag_device g = cm_device stored)"
  using assms(1)
proof cases
  case (application st)
  with assms(3) show ?thesis by (auto simp: same_remote_def)
next
  case (rename d label st)
  with assms(3) rename_keys show ?thesis by auto
next
  case (revoke_ends xs d ys now)
  with assms(3) show ?thesis by (auto simp: revoke_grants_def set_update_rows)
next
  case (accept_inserts xs c now required conflict ys st)
  with assms(3) show ?thesis by (auto simp: insert_command_Ok)
next
  case (conflicts xs stored ys now rid message st)
  with assms(3) conflict_keys show ?thesis by auto
next
  case (executes xs c stored artifact ys now rid st)
  then have "prepared_ok stored p" if "artifact = Some p" for p using assms(2) that by (simp add: remote_inv_def)
  then have new: "ag_device g = cm_device stored" if "g \<notin> set (r_grants (w_store w))"
    using executes assms(3) execute_facts(5) [OF executes(3)] that by (auto simp: prepared_ok_def)
  with execute_facts(3) [OF executes(3)] show ?thesis by blast
next
  case (hands_over xs d token g now ea ys st)
  with assms(3) show ?thesis by (auto simp: retrieve_consume_def result_simps set_update_rows)
qed (use assms(3) in \<open>auto simp: revoke_device_row_def\<close>)

lemma remote_step_effects:
  assumes "remote_step env w w'" "remote_inv env w"
  shows "\<exists>new. w_effects w' = w_effects w @ new \<and> (\<forall>e \<in> set new.
    (\<exists>stored now. device_valid stored now (w_store w) \<and> effect_device e = cm_device stored) \<or>
    (\<exists>g \<in> set (r_grants (w_store w)). ag_device g = effect_device e \<and> ag_revoked g = None))"
  using assms(1)
proof cases
  case (executes xs c stored artifact ys now rid st)
  then show ?thesis using execute_facts(3) [OF executes(3)] stops_cases [of stored "w_store w"]
    by (intro exI [of _ "stops stored (w_store w)"]) auto
next
  case (hands_over xs d token g now ea ys st)
  then have "changed_rows (consumes (ag_id g) d (v_sha256_hex env token) now) (r_grants (w_store w)) = 1"
    by (simp add: retrieve_consume_def result_simps)
  from changed_rows_pos [OF this] hands_over show ?thesis by (auto simp: consumes_def)
qed auto

definition silenced :: "string \<Rightarrow> remote_effect list \<Rightarrow> remote_system \<Rightarrow> bool" where
  "silenced d es w \<longleftrightarrow> (\<exists>r \<in> set (r_devices (w_store w)). rd_id r = d \<and> rd_revoked r \<noteq> None) \<and>
     (\<forall>g \<in> set (r_grants (w_store w)). ag_device g = d \<longrightarrow> ag_revoked g \<noteq> None) \<and>
     filter (\<lambda>e. effect_device e = d) (w_effects w) = es"

lemma revoked_invalid:
  assumes "remote_ok st" "\<exists>r \<in> set (r_devices st). rd_id r = d \<and> rd_revoked r \<noteq> None" "device_valid c now st"
  shows "cm_device c \<noteq> d"
proof
  assume "cm_device c = d"
  with assms(3) obtain r where "r \<in> set (r_devices st)" "rd_id r = d" "rd_revoked r = None"
    by (auto simp: device_valid_def list_ex_iff)
  with assms(2) distinct_key_eq [OF remote_okD(1) [OF assms(1)]] show False by metis
qed

lemma silenced_step:
  assumes step: "remote_step env w w'" and inv: "remote_inv env w" and s: "silenced d es w"
  shows "silenced d es w'"
proof -
  have ok: "remote_ok (w_store w)" using inv by (simp add: remote_inv_def)
  have k: "store_kept (w_store w) (w_store w')"
    using remote_step_inv [OF step inv] remote_step_le [OF step inv] by (simp add: store_kept_def remote_inv_def)
  have revoked: "\<exists>r \<in> set (r_devices (w_store w)). rd_id r = d \<and> rd_revoked r \<noteq> None"
    using s unfolding silenced_def by blast
  note other = revoked_invalid [OF ok revoked]
  have "ag_revoked g \<noteq> None" if g: "g \<in> set (r_grants (w_store w'))" "ag_device g = d" for g
  proof -
    have "ag_id g \<in> ag_id ` set (r_grants (w_store w))"
      using remote_step_grants [OF step inv g(1)] other g(2) by metis
    from old_grant [OF k g(1) this] s g(2) show ?thesis by (auto simp: silenced_def grant_le_def)
  qed
  moreover have "filter (\<lambda>e. effect_device e = d) (w_effects w') = es"
  proof -
    from remote_step_effects [OF step inv] obtain new where new: "w_effects w' = w_effects w @ new"
      and "\<forall>e \<in> set new. (\<exists>stored now. device_valid stored now (w_store w) \<and> effect_device e = cm_device stored) \<or>
        (\<exists>g \<in> set (r_grants (w_store w)). ag_device g = effect_device e \<and> ag_revoked g = None)" by blast
    with other s have "filter (\<lambda>e. effect_device e = d) new = []"
      unfolding silenced_def filter_empty_conv by metis
    with new s show ?thesis by (simp add: silenced_def)
  qed
  moreover have "\<exists>r \<in> set (r_devices (w_store w')). rd_id r = d \<and> rd_revoked r \<noteq> None"
    using revoked_mono [OF _ revoked] k by (simp add: store_kept_def)
  ultimately show ?thesis unfolding silenced_def by blast
qed

interpretation silenced_runs: invariant_system "remote_step env" "\<lambda>w. remote_inv env w \<and> silenced d es w" for env d es
  by unfold_locales (blast intro: silenced_step remote_step_inv)

lemma revoke_grants_silences:
  assumes "remote_inv env w" "w_calls w = xs @ Revoking d # ys"
  shows "silenced d (filter (\<lambda>e. effect_device e = d) (w_effects w))
    (w\<lparr>w_store := revoke_grants d now (w_store w), w_calls := zs\<rparr>)"
  using assms by (auto simp: silenced_def remote_inv_def revoke_grants_def set_update_rows)

subsection \<open>Properties\<close>

text \<open>
  C4. Once the revocation of a device has gone through, nothing happens for that device any more: in
  every later state the tasks stopped and the files handed over for it are those of the moment of
  the revocation, whatever calls of it were in progress.
\<close>

theorem revoked_device_silent:
  assumes "paired_store st" "(remote_step env)\<^sup>*\<^sup>* (remote_initial st fs) w" "w_calls w = xs @ Revoking d # ys"
    and "(remote_step env)\<^sup>*\<^sup>* (w\<lparr>w_store := revoke_grants d now (w_store w), w_calls := xs @ ys\<rparr>) w'"
  shows "filter (\<lambda>e. effect_device e = d) (w_effects w') = filter (\<lambda>e. effect_device e = d) (w_effects w)"
proof -
  have inv: "remote_inv env w" using remote_runs.run_inv [OF assms(2)] remote_initial_inv [OF assms(1)] by blast
  let ?w = "w\<lparr>w_store := revoke_grants d now (w_store w), w_calls := xs @ ys\<rparr>"
  have "remote_inv env ?w" using remote_step_inv [OF remote_step.revoke_ends [OF assms(3)] inv] .
  with revoke_grants_silences [OF inv assms(3)] silenced_runs.run_inv [OF assms(4)]
  have "silenced d (filter (\<lambda>e. effect_device e = d) (w_effects w)) w'" by blast
  then show ?thesis by (simp add: silenced_def)
qed

text \<open>
  C2. Every task a device stopped was stopped by a command which the device's own key signed, for
  that task and at that position of its event log, in a project and with a scope the device was
  paired for, and within five minutes of its arrival.
\<close>

theorem stops_signed:
  assumes "paired_store st" "(remote_step env)\<^sup>*\<^sup>* (remote_initial st fs) w"
    and "StopEffect cid d nonce run sequence \<in> set (w_effects w)"
  shows "\<exists>c now. sg_command_id c = cid \<and> sg_device c = d \<and> sg_nonce c = nonce \<and> sg_kind c = ''stop_task'' \<and>
    sg_task_run c = Some run \<and> sg_expected c = Some sequence \<and> check_request env c = Ok ''stop_task'' \<and>
    entitled env now c (w_store w)"
proof -
  have inv: "remote_inv env w" using remote_runs.run_inv [OF assms(2)] remote_initial_inv [OF assms(1)] by blast
  with assms(3) have "effect_ok env (w_store w) (StopEffect cid d nonce run sequence)"
    unfolding remote_inv_def list_all_iff by blast
  then obtain r where r: "r \<in> set (r_commands (w_store w))" "cm_id r = cid" "cm_device r = d" "cm_nonce r = nonce"
    "cm_kind r = ''stop_task''" "cm_task_run r = Some run" "cm_expected r = Some sequence" by auto
  with inv have "signed_row env (w_store w) r" by (simp add: remote_inv_def list_all_iff)
  then obtain c now required where c: "check_request env c = Ok required" "entitled env now c (w_store w)"
    "command_le (accepted_row now c) r" by (auto simp: signed_row_def)
  with r check_request_scope [OF c(1)] show ?thesis
    by (intro exI [of _ c] exI [of _ now]) (auto simp: command_le_def accepted_row_def)
qed

text \<open>
  C7. Every file handed over to a device is a file the user approved: the bytes under the seal have
  the digest of the grant, and the grant belongs to a completed request of the same device in the
  same project, whose approval is on record.
\<close>

theorem files_approved:
  assumes "paired_store st" "(remote_step env)\<^sup>*\<^sup>* (remote_initial st fs) w" "FileEffect gid d ea \<in> set (w_effects w)"
  shows "\<exists>g token bytes r x. g \<in> set (r_grants (w_store w)) \<and> ag_id g = gid \<and> ag_device g = d \<and>
    v_sha256_hex env token = ag_token_hash g \<and> v_sha256_hex env bytes = ag_transfer_sha g \<and>
    v_aead env token (ea_nonce ea) bytes (ea_associated_data ea) = Some (ea_ciphertext ea) \<and>
    r \<in> set (r_commands (w_store w)) \<and> cm_device r = d \<and> cm_project r = ag_project g \<and>
    cm_kind r = ''request_artifact'' \<and> cm_status r = ''completed'' \<and> signed_row env (w_store w) r \<and>
    x \<in> set (r_receipts (w_store w)) \<and> rc_id x = ag_approval g \<and> rc_kind x = ''remote_artifact_approval'' \<and>
    rc_command x = Some (cm_id r)"
proof -
  have inv: "remote_inv env w" using remote_runs.run_inv [OF assms(2)] remote_initial_inv [OF assms(1)] by blast
  with assms(3) have "effect_ok env (w_store w) (FileEffect gid d ea)"
    unfolding remote_inv_def list_all_iff by blast
  then obtain g token where g: "g \<in> set (r_grants (w_store w))" "ag_id g = gid" "ag_device g = d"
    "v_sha256_hex env token = ag_token_hash g" "sealed_ok env token g ea" by auto
  with inv have "backed_grant (w_store w) g" by (simp add: remote_inv_def list_all_iff)
  then obtain r x where r: "r \<in> set (r_commands (w_store w))" "x \<in> set (r_receipts (w_store w))" "cm_device r = ag_device g"
    "cm_project r = ag_project g" "cm_kind r = ''request_artifact''" "cm_status r = ''completed''" "rc_id x = ag_approval g"
    "rc_kind x = ''remote_artifact_approval''" "rc_command x = Some (cm_id r)" by (auto simp: backed_grant_def)
  with inv have "signed_row env (w_store w) r" by (simp add: remote_inv_def list_all_iff)
  with g r show ?thesis unfolding sealed_ok_def by blast
qed

text \<open>
  C6. No command and no link works twice: over a whole run, with calls interleaved and requests
  repeated at will, each command stops at most one task, each link hands over at most one file, and
  no two stops of one device carry the same nonce.
\<close>

theorem remote_effects_once:
  assumes "paired_store st" "(remote_step env)\<^sup>*\<^sup>* (remote_initial st fs) w"
  shows "distinct (map effect_key (w_effects w)) \<and>
    (\<forall>cid d nonce run n cid' run' n'. StopEffect cid d nonce run n \<in> set (w_effects w) \<longrightarrow>
       StopEffect cid' d nonce run' n' \<in> set (w_effects w) \<longrightarrow> cid' = cid \<and> run' = run \<and> n' = n)"
proof -
  have inv: "remote_inv env w" using remote_runs.run_inv [OF assms(2)] remote_initial_inv [OF assms(1)] by blast
  then have ok: "remote_ok (w_store w)" by (simp add: remote_inv_def)
  have "cid' = cid \<and> run' = run \<and> n' = n"
    if "StopEffect cid d nonce run n \<in> set (w_effects w)" "StopEffect cid' d nonce run' n' \<in> set (w_effects w)"
    for cid d nonce run n cid' run' n'
  proof -
    from inv that have "effect_ok env (w_store w) (StopEffect cid d nonce run n)"
      "effect_ok env (w_store w) (StopEffect cid' d nonce run' n')"
      unfolding remote_inv_def list_all_iff by blast+
    then obtain r r' where r: "r \<in> set (r_commands (w_store w))" "r' \<in> set (r_commands (w_store w))"
       "(cm_device r, cm_nonce r) = (cm_device r', cm_nonce r')" "cm_id r = cid" "cm_id r' = cid'"
       "cm_task_run r = Some run" "cm_task_run r' = Some run'" "cm_expected r = Some n" "cm_expected r' = Some n'" by auto
    moreover from r have "r = r'" using distinct_key_eq [OF remote_okD(3) [OF ok] r(1,2)] by simp
    ultimately show ?thesis by auto
  qed
  with inv show ?thesis unfolding remote_inv_def by blast
qed

text \<open>
  C14. The tables of remote access stay consistent: identifiers of devices, commands and grants and
  the nonces of a device are unique, and a command is open exactly while it has no final receipt,
  of which it never has two.
\<close>

theorem remote_invariant:
  assumes "paired_store st" "(remote_step env)\<^sup>*\<^sup>* (remote_initial st fs) w"
  shows "remote_ok (w_store w)"
  using remote_runs.run_inv [OF assms(2)] remote_initial_inv [OF assms(1)] by (simp add: remote_inv_def)

text \<open>
  A decision on a command is final: the row of a command that is no longer open is the same in
  every later state, and a link that was used or revoked stays so.
\<close>

theorem decided_is_final:
  assumes "paired_store st" "(remote_step env)\<^sup>*\<^sup>* (remote_initial st fs) w" "(remote_step env)\<^sup>*\<^sup>* w w'"
  shows "(\<forall>r \<in> set (r_commands (w_store w)). cm_status r \<noteq> ''accepted'' \<longrightarrow> r \<in> set (r_commands (w_store w'))) \<and>
    (\<forall>g \<in> set (r_grants (w_store w)). \<exists>g' \<in> set (r_grants (w_store w')). ag_id g' = ag_id g \<and>
      (ag_opened g \<noteq> None \<longrightarrow> ag_opened g' = ag_opened g) \<and> (ag_revoked g \<noteq> None \<longrightarrow> ag_revoked g' = ag_revoked g))"
proof -
  have inv: "remote_inv env w" using remote_runs.run_inv [OF assms(2)] remote_initial_inv [OF assms(1)] by blast
  with remote_runs.run_le [OF assms(3)] have le: "store_le (w_store w) (w_store w')" by (simp add: remote_le_def)
  have "r \<in> set (r_commands (w_store w'))" if "r \<in> set (r_commands (w_store w))" "cm_status r \<noteq> ''accepted''" for r
    using store_leD(1) [OF le that(1)] that(2) by (auto simp: command_le_def open_command_def)
  moreover have "\<exists>g' \<in> set (r_grants (w_store w')). ag_id g' = ag_id g \<and>
      (ag_opened g \<noteq> None \<longrightarrow> ag_opened g' = ag_opened g) \<and> (ag_revoked g \<noteq> None \<longrightarrow> ag_revoked g' = ag_revoked g)"
    if "g \<in> set (r_grants (w_store w))" for g
    using store_leD(3) [OF le that] unfolding grant_le_def by blast
  ultimately show ?thesis by blast
qed

subsection \<open>Stopping a task\<close>

lemma insert_prepared_tasks:
  "insert_prepared p st = Ok st' \<Longrightarrow> r_runs st' = r_runs st \<and> r_events st' = r_events st"
  by (drule insert_prepared_Ok(1)) simp

text \<open>The transaction touches the tasks only where it stops one.\<close>

lemma execute_tasks:
  assumes "execute_transaction env now rid c artifact st = Ok (Some st')"
  obtains sequence st1 where "run_sequence c st = Ok sequence"
    "if \<not> stop_conflict c sequence \<and> cm_kind c = ''stop_task'' then apply_stop_task env now c (the sequence) st = Ok st1
       else st1 = st"
    "r_runs st' = r_runs st1" "r_events st' = r_events st1"
    "\<exists>r \<in> set (r_commands st'). cm_id r = cm_id c \<and>
       cm_status r = fo_status (if stop_conflict c sequence then sequence_conflict else outcome_for (cm_kind c))"
  using assms
proof (cases rule: execute_transaction_Ok)
  case (1 current sequence outcome st1 st2 result st3 st4 receipt)
  have "r_runs st2 = r_runs st1 \<and> r_events st2 = r_events st1"
    using 1(7) insert_prepared_tasks [of _ st1 st2] by (cases artifact) (auto split: if_splits)
  moreover have "r_runs st4 = r_runs st2 \<and> r_events st4 = r_events st2"
    using 1(8,9) by (auto simp: finalize_command_def touch_device_def Let_def)
  moreover have i: "r_runs st' = r_runs st4 \<and> r_events st' = r_events st4 \<and> r_commands st' = r_commands st4"
    using 1(11) by (auto simp: insert_receipt_def result_simps)
  moreover have "\<exists>r \<in> set (r_commands st'). cm_id r = cm_id c \<and> cm_status r = fo_status outcome"
    using finalize_status [OF 1(8)] touch_keys(1) [OF 1(9)] i by simp
  ultimately show ?thesis using that [OF 1(4,6)] 1(5) by simp
qed

lemma find_update_rows:
  assumes "find P rows = Some r" "Q r" "P (f r)" "\<And>x. x \<in> set rows \<Longrightarrow> Q x \<Longrightarrow> P x"
  shows "find P (update_rows Q f rows) = Some (f r)"
  using assms by (induction rows) (auto simp: update_rows_def split: if_splits)

text \<open>
  C9. A command to stop a task does exactly that or nothing to the task: when the task's event log is
  at the position the device signed, the task, which belongs to the command's project and could be
  stopped, is cancelled, no other task changes, one event is appended at that position and the
  command is completed; when the log has moved on, no task and no event changes and the command is
  rejected.
\<close>

theorem stop_exact:
  assumes ex: "execute_transaction env now rid c artifact st = Ok (Some st')"
    and kind: "cm_kind c = ''stop_task''" and task: "cm_task_run c = Some run"
  shows "if cm_expected c = Some (nat (next_sequence run st)) then
    (\<exists>t timestamp. find_run run st = Some t \<and> tk_project t = Some (cm_project c) \<and> tk_state t \<in> set STOPPABLE \<and>
      find_run run st' = Some (t\<lparr>tk_state := ''cancelled'', tk_updated := now, tk_completed := Some now, tk_recovery := ''not_required''\<rparr>) \<and>
      filter (\<lambda>r. tk_id r \<noteq> run) (r_runs st') = filter (\<lambda>r. tk_id r \<noteq> run) (r_runs st) \<and>
      r_events st' = r_events st @ [\<lparr>te_run = run, te_sequence = next_sequence run st,
        te_event = cancel_event timestamp c t run (nat (next_sequence run st)), te_created = now\<rparr>] \<and>
      (\<exists>r \<in> set (r_commands st'). cm_id r = cm_id c \<and> cm_status r = ''completed''))
    else r_runs st' = r_runs st \<and> r_events st' = r_events st \<and>
      (\<exists>r \<in> set (r_commands st'). cm_id r = cm_id c \<and> cm_status r = ''rejected'')"
  using ex
proof (cases rule: execute_tasks)
  case (1 sequence st1)
  let ?n = "nat (next_sequence run st)" and ?P = "\<lambda>r. tk_id r = run \<and> tk_state r \<in> set STOPPABLE"
  have seq: "sequence = Some ?n" "0 \<le> next_sequence run st"
    using 1(1) task by (auto simp: run_sequence_def result_simps current_task_sequence_def Let_def split: if_splits)
  show ?thesis
  proof (cases "cm_expected c = Some ?n")
    case False
    then have "stop_conflict c sequence" using kind seq by (auto simp: stop_conflict_def)
    with 1 False show ?thesis by (simp add: sequence_conflict_def)
  next
    case True
    then have nc: "\<not> stop_conflict c sequence" using seq by (simp add: stop_conflict_def)
    with 1(2) kind seq have "apply_stop_task env now c ?n st = Ok st1" by simp
    then show ?thesis
    proof (cases rule: apply_stop_task_Ok)
      case (1 run' t timestamp st2)
      have run': "run' = run" using 1(1) task by simp
      let ?f = "\<lambda>r. r\<lparr>tk_state := ''cancelled'', tk_updated := now, tk_completed := Some now, tk_recovery := ''not_required''\<rparr>"
      have runs: "r_runs st' = update_rows ?P ?f (r_runs st)" and events: "r_events st' = r_events st @
          [\<lparr>te_run = run, te_sequence = next_sequence run st, te_event = cancel_event timestamp c t run ?n, te_created = now\<rparr>]"
        using \<open>r_runs st' = r_runs st1\<close> \<open>r_events st' = r_events st1\<close> 1(8) seq(2) by (simp_all add: run')
      have "find_run run st' = Some (?f t)"
        unfolding find_run_def runs
        by (rule find_update_rows) (use 1(2,4) find_SomeD [OF 1(2) [unfolded find_run_def]] in \<open>auto simp: find_run_def run'\<close>)
      moreover have "filter (\<lambda>r. tk_id r \<noteq> run) (update_rows ?P ?f rows) = filter (\<lambda>r. tk_id r \<noteq> run) rows" for rows
        by (induction rows) (auto simp: update_rows_def)
      ultimately show ?thesis
        using True 1(2-4) events nc kind \<open>\<exists>r \<in> set (r_commands st'). _\<close>
        unfolding run' runs by (auto simp: outcome_for_def)
    qed
  qed
qed

subsection \<open>The properties on the run\<close>

lemma phone_effect_members:
  "StopEffect ''cmd_1'' phone_device_id (replicate 64 (CHR ''1'')) phone_run_id 0 \<in> set (w_effects (phone_state phone_opened [] phone_effects))"
  "FileEffect ''grant_1'' phone_device_id phone_sealed \<in> set (w_effects (phone_state phone_opened [] phone_effects))"
  by (simp_all add: phone_state_def phone_effects_def)

theorem stops_signed_witness:
  "\<exists>c now. sg_command_id c = ''cmd_1'' \<and> sg_task_run c = Some phone_run_id \<and> sg_expected c = Some 0 \<and>
     entitled phone_env now c phone_opened"
  using stops_signed [OF phone_paired phone_file_run phone_effect_members(1)] by (auto simp: phone_state_def)

theorem files_approved_witness:
  "\<exists>g \<in> set (r_grants phone_opened). ag_id g = ''grant_1'' \<and> ag_device g = phone_device_id"
  using files_approved [OF phone_paired phone_file_run phone_effect_members(2)] by (auto simp: phone_state_def)

theorem remote_effects_once_witness: "distinct (map effect_key phone_effects)"
  using remote_effects_once [OF phone_paired phone_file_run] by (simp add: phone_state_def)

theorem remote_invariant_witness: "remote_ok phone_opened"
  using remote_invariant [OF phone_paired phone_file_run] by (simp add: phone_state_def)

text \<open>The same run, up to the revocation of the device and the removal of the file.\<close>

definition phone_revoking :: remote_system where
  "phone_revoking = phone_state (revoke_device_row phone_device_id 1006 phone_opened) [Revoking phone_device_id] phone_effects"

lemma phone_revoking_step: "remote_step phone_env (phone_state phone_opened [] phone_effects) phone_revoking"
  using remote_step.revoke_begins [of phone_device_id "phone_state phone_opened [] phone_effects"] phone_get
  by (simp add: phone_state_def phone_revoking_def)

lemma phone_revoking_run: "(remote_step phone_env)\<^sup>*\<^sup>* (remote_initial phone_remote_store phone_files) phone_revoking"
  using phone_file_run phone_revoking_step by (rule rtranclp.rtrancl_into_rtrancl)

theorem decided_is_final_witness: "\<forall>r \<in> set (r_commands phone_opened). cm_status r \<noteq> ''accepted'' \<longrightarrow>
    r \<in> set (r_commands (revoke_device_row phone_device_id 1006 phone_opened))"
  using decided_is_final [OF phone_paired phone_file_run r_into_rtranclp [of "remote_step phone_env", OF phone_revoking_step]]
  by (simp add: phone_state_def phone_revoking_def)

theorem revoked_device_silent_witness:
  "\<exists>w'. (remote_step phone_env)\<^sup>*\<^sup>* (phone_revoking\<lparr>w_store := revoke_grants phone_device_id 1007 (w_store phone_revoking),
      w_calls := []\<rparr>) w' \<and> w_files w' = (\<lambda>_. None) \<and>
    filter (\<lambda>e. effect_device e = phone_device_id) (w_effects w') = phone_effects"
proof -
  let ?w = "phone_revoking\<lparr>w_store := revoke_grants phone_device_id 1007 (w_store phone_revoking), w_calls := []\<rparr>"
  have "(remote_step phone_env)\<^sup>*\<^sup>* ?w (?w\<lparr>w_files := \<lambda>_. None\<rparr>)" by (rule r_into_rtranclp) (rule remote_step.files_change)
  moreover have "filter (\<lambda>e. effect_device e = phone_device_id) (w_effects (?w\<lparr>w_files := \<lambda>_. None\<rparr>)) =
      filter (\<lambda>e. effect_device e = phone_device_id) (w_effects phone_revoking)"
    by (rule revoked_device_silent [OF phone_paired phone_revoking_run, of "[]" _ "[]" 1007])
      (use calculation in \<open>simp_all add: phone_revoking_def phone_state_def\<close>)
  ultimately show ?thesis
    by (intro exI [of _ "?w\<lparr>w_files := \<lambda>_. None\<rparr>"]) (simp add: phone_revoking_def phone_state_def phone_effects_def)
qed

lemma phone_stop_facts:
  "next_sequence phone_run_id phone_accepted = 0" "cm_kind (accepted_row 1000 phone_stop) = ''stop_task''"
  "cm_task_run (accepted_row 1000 phone_stop) = Some phone_run_id" "cm_expected (accepted_row 1000 phone_stop) = Some 0"
  by code_simp+

theorem stop_exact_witness:
  "\<exists>t. find_run phone_run_id phone_accepted = Some t \<and> tk_state t \<in> set STOPPABLE \<and>
     map_option tk_state (find_run phone_run_id phone_stopped) = Some ''cancelled''"
  using stop_exact [OF phone_execute_stop phone_stop_facts(2,3)] phone_stop_facts(1,4) by auto

end
