(* ===== verification/Task_Store.thy ===== *)
theory Task_Store
  imports Remote_Store
begin

text \<open>
  The control plane of tasks (\<open>tasks/repository.rs\<close>, \<open>tasks/adapters.rs\<close>, types of \<open>tasks/mod.rs\<close>): the
  tables of tasks, their events and protected effects, the records of the four runtimes, and the
  operations: reconciliation with the runtimes, the user's controls, events, and the reservation of
  effects. The instant of a call, fresh identifiers and the text of a timestamp are arguments. A row
  of a runtime carries the columns the queries read, computed ones included, and for an agent the
  project of its chat session. The internal project for local files (\<open>projects/repository.rs\<close>) is an
  argument. An operation is a function to its result and the store after it, or an error. The error
  stands for itself: the store after a failed operation, in which its earlier statements stay
  written where no transaction takes them back, is not described here.
\<close>

subsection \<open>Tables\<close>

datatype task_state = Queued | Planning | AwaitingApproval | Running | Blocked | Completed | Failed | Cancelled

fun state_text :: "task_state \<Rightarrow> string" where
  "state_text Queued = ''queued''"
| "state_text Planning = ''planning''"
| "state_text AwaitingApproval = ''awaiting_approval''"
| "state_text Running = ''running''"
| "state_text Blocked = ''blocked''"
| "state_text Completed = ''completed''"
| "state_text Failed = ''failed''"
| "state_text Cancelled = ''cancelled''"

record task_row =
  tr_id :: string
  tr_task :: string
  tr_project :: "string option"
  tr_runtime :: string
  tr_record :: string
  tr_state :: task_state
  tr_origin :: string
  tr_correlation :: string
  tr_summary :: string
  tr_last_error :: "string option"
  tr_created :: int
  tr_updated :: int
  tr_completed :: "int option"
  tr_acknowledged :: "int option"
  tr_recovery :: string

record effect_row =
  fx_run :: string
  fx_key :: string
  fx_kind :: string
  fx_state :: string
  fx_digest :: "string option"
  fx_updated :: int

record recovery_audit_row =
  ra_run :: string
  ra_resolved :: string
  ra_decision :: string
  ra_next_action :: string
  ra_created :: int

record runtime_record =
  rr_id :: string
  rr_project :: "string option"
  rr_status :: string
  rr_summary :: string
  rr_error :: "string option"
  rr_created :: int
  rr_updated :: int
  rr_active_node :: "string option"
  rr_completed :: "int option"
  rr_payloads :: json
  rr_chat :: "string option option"

record schedule_row =
  sc_id :: string
  sc_is_active :: bool
  sc_claimed :: "int option"
  sc_next_run :: "int option"
  sc_last_status :: string
  sc_last_error :: "string option"
  sc_last_instance :: "string option"
  sc_updated :: int

record task_store =
  t_runs :: "task_row list"
  t_events :: "task_event_row list"
  t_effects :: "effect_row list"
  t_audit :: "recovery_audit_row list"
  t_flows :: "runtime_record list"
  t_flow_steps :: "(string \<times> string) list"
  t_instances :: "runtime_record list"
  t_agents :: "runtime_record list"
  t_queue :: "runtime_record list"
  t_routine_runs :: "(string \<times> string \<times> string) list"
  t_schedules :: "schedule_row list"

datatype task_error =
  InvalidTaskRun | InvalidProject | InvalidTask | TaskNotFound | BadEventTime | NotBound | NoCancelSupport | CancelRejected
| NoResumeSupport | ResumeRejected | NoRetrySupport | RetryRejected | UnverifiedEffects | UnsupportedTransition
| OnlyFailed | StoreNotDurable | EffectIdentityRequired | DigestRequired | ReservationMissing | TaskStoreFailed | ProjectBindingRequired

subsection \<open>Adapters\<close>

definition canonical_state :: "string \<Rightarrow> string \<Rightarrow> task_state" where
  "canonical_state runtime state =
     (let s = to_ascii_lowercase state in
      if s \<in> {''queued'', ''pending''} then Queued
      else if s = ''planning'' then Planning
      else if s \<in> {''awaitingapproval'', ''awaiting_approval'', ''secure_pause''} then AwaitingApproval
      else if s \<in> {''running'', ''active'', ''processing''} then Running
      else if s \<in> {''paused'', ''diagnostic'', ''halted''} then Blocked
      else if s \<in> {''completed'', ''verified''} then Completed
      else if s = ''cancelled'' then Cancelled
      else Failed)"

definition runtime_table :: "string \<Rightarrow> task_store \<Rightarrow> runtime_record list option" where
  "runtime_table runtime st =
     (if runtime = ''taskflow'' then Some (t_flows st)
      else if runtime = ''workflow'' then Some (t_instances st)
      else if runtime = ''agent'' then Some (t_agents st)
      else if runtime = ''queued_message'' then Some (t_queue st)
      else None)"

definition runtime_error_text :: "string \<Rightarrow> runtime_record \<Rightarrow> string option" where
  "runtime_error_text runtime r =
     (if runtime = ''taskflow'' then None
      else if runtime = ''agent'' \<and> rr_status r \<notin> {''failed'', ''halted''} then None
      else rr_error r)"

definition runtime_state :: "string \<Rightarrow> string \<Rightarrow> task_store \<Rightarrow> (task_state \<times> string option) option" where
  "runtime_state runtime i st =
     (case runtime_table runtime st of None \<Rightarrow> None
      | Some rows \<Rightarrow> map_option (\<lambda>r. (canonical_state runtime (rr_status r), runtime_error_text runtime r))
          (find (\<lambda>r. rr_id r = i) rows))"

definition cancel_runtime :: "string \<Rightarrow> string \<Rightarrow> int \<Rightarrow> task_store \<Rightarrow> task_error + task_store" where
  "cancel_runtime runtime i now st =
     (let stamp = (\<lambda>r. r\<lparr>rr_status := ''cancelled'', rr_updated := now\<rparr>) in
      if runtime = ''taskflow'' then
        let st = st\<lparr>t_flow_steps := update_rows (\<lambda>(f, s). f = i \<and> s \<in> {''queued'', ''active''}) (\<lambda>(f, s). (f, ''cancelled'')) (t_flow_steps st)\<rparr>;
            P = (\<lambda>r. rr_id r = i \<and> rr_status r \<notin> {''verified'', ''cancelled''}) in
        and_then (ensure (changed_rows P (t_flows st) \<noteq> 0) CancelRejected) (\<lambda>_. Ok (st\<lparr>t_flows := update_rows P stamp (t_flows st)\<rparr>))
      else if runtime = ''agent'' then
        let P = (\<lambda>r. rr_id r = i \<and> rr_status r \<in> {''running'', ''halted''}) in
        and_then (ensure (changed_rows P (t_agents st) \<noteq> 0) CancelRejected) (\<lambda>_. Ok (st\<lparr>t_agents := update_rows P stamp (t_agents st)\<rparr>))
      else if runtime = ''queued_message'' then
        let P = (\<lambda>r. rr_id r = i \<and> rr_status r = ''queued'') in
        and_then (ensure (changed_rows P (t_queue st) \<noteq> 0) CancelRejected) (\<lambda>_.
          Ok (st\<lparr>t_queue := update_rows P (\<lambda>r. (stamp r)\<lparr>rr_error := Some ''Cancelled by user.''\<rparr>) (t_queue st)\<rparr>))
      else Err NoCancelSupport)"

definition resume_runtime :: "string \<Rightarrow> string \<Rightarrow> int \<Rightarrow> task_store \<Rightarrow> task_error + task_store" where
  "resume_runtime runtime i now st =
     (if runtime = ''taskflow'' then
        let P = (\<lambda>r. rr_id r = i \<and> rr_status r \<in> {''paused'', ''diagnostic''}) in
        and_then (ensure (changed_rows P (t_flows st) \<noteq> 0) ResumeRejected) (\<lambda>_.
          Ok (st\<lparr>t_flows := update_rows P (\<lambda>r. r\<lparr>rr_status := ''queued'', rr_updated := now\<rparr>) (t_flows st)\<rparr>))
      else if runtime = ''workflow'' then
        let P = (\<lambda>r. rr_id r = i \<and> rr_status r = ''Paused'') in
        and_then (ensure (changed_rows P (t_instances st) \<noteq> 0) ResumeRejected) (\<lambda>_.
          Ok (st\<lparr>t_instances := update_rows P (\<lambda>r. r\<lparr>rr_status := ''Pending'', rr_updated := now\<rparr>) (t_instances st)\<rparr>))
      else Err NoResumeSupport)"

definition retry_runtime :: "string \<Rightarrow> string \<Rightarrow> int \<Rightarrow> task_store \<Rightarrow> task_error + task_store" where
  "retry_runtime runtime i now st =
     (if runtime = ''taskflow'' then
        let P = (\<lambda>r. rr_id r = i \<and> rr_status r \<in> {''failed'', ''diagnostic''}) in
        and_then (ensure (changed_rows P (t_flows st) \<noteq> 0) RetryRejected) (\<lambda>_.
          Ok (st\<lparr>t_flows := update_rows P (\<lambda>r. r\<lparr>rr_status := ''queued'', rr_updated := now\<rparr>) (t_flows st)\<rparr>))
      else if runtime = ''workflow'' then
        let P = (\<lambda>r. rr_id r = i \<and> rr_status r = ''Failed'') in
        and_then (ensure (changed_rows P (t_instances st) \<noteq> 0) RetryRejected) (\<lambda>_.
          Ok (st\<lparr>t_instances := update_rows P (\<lambda>r. r\<lparr>rr_status := ''Pending'', rr_active_node := None, rr_error := None,
            rr_updated := now\<rparr>) (t_instances st)\<rparr>))
      else if runtime = ''queued_message'' then
        let P = (\<lambda>r. rr_id r = i \<and> rr_status r \<in> {''failed'', ''cancelled''}) in
        and_then (ensure (changed_rows P (t_queue st) \<noteq> 0) RetryRejected) (\<lambda>_.
          Ok (st\<lparr>t_queue := update_rows P (\<lambda>r. r\<lparr>rr_status := ''queued'', rr_error := None, rr_updated := now\<rparr>) (t_queue st)\<rparr>))
      else Err NoRetrySupport)"

subsection \<open>Tasks as they are read\<close>

definition controls :: "task_state \<Rightarrow> string \<Rightarrow> bool \<Rightarrow> bool \<Rightarrow> string list" where
  "controls state runtime verification_required has_unverified =
     (if verification_required \<and> state \<in> {Blocked, Failed} then []
      else if state = Queued \<and> runtime \<in> {''taskflow'', ''agent'', ''queued_message''} \<or>
        state \<in> {Planning, AwaitingApproval, Running} \<and> runtime \<in> {''taskflow'', ''agent''} then [''cancel'']
      else if state = Blocked \<and> runtime = ''taskflow'' then [''resume'', ''cancel'']
      else if state = Blocked \<and> runtime = ''workflow'' then [''resume'']
      else if state = Blocked \<and> runtime = ''agent'' then [''resume'', ''cancel'']
      else if state = Failed \<and> has_unverified then [''acknowledge_failure'']
      else if state = Failed \<and> runtime \<in> {''taskflow'', ''workflow'', ''queued_message''} then [''retry'', ''acknowledge_failure'']
      else if state = Failed then [''acknowledge_failure'']
      else [])"

text \<open>Equality of two extracted values as SQL has it: a missing value equals nothing.\<close>

definition sql_eq :: "json option \<Rightarrow> json option \<Rightarrow> bool" where
  "sql_eq a b = (case (a, b) of (Some x, Some y) \<Rightarrow> x = y \<and> x \<noteq> JNull | _ \<Rightarrow> False)"

definition payload_value :: "task_event_row \<Rightarrow> string \<Rightarrow> json option" where
  "payload_value e key = json_get (ev_payload (te_event e)) key"

definition typed :: "string \<Rightarrow> task_event_row \<Rightarrow> bool" where
  "typed t e = (ev_event_type (te_event e) = t)"

definition VERIFICATION_REQUIRED :: string where
  "VERIFICATION_REQUIRED = ''workflow.effect.verification_required''"

definition VERIFICATION_RESOLVED :: string where
  "VERIFICATION_RESOLVED = ''workflow.effect.verification_resolved''"

text \<open>The column \<open>effect_verification_required\<close> of the query.\<close>

definition resolved_later :: "task_store \<Rightarrow> task_event_row \<Rightarrow> effect_row \<Rightarrow> bool" where
  "resolved_later st e f = list_ex (\<lambda>d. te_run d = te_run e \<and> te_sequence d > te_sequence e \<and> typed VERIFICATION_RESOLVED d \<and>
     payload_value d ''idempotencyKey'' = Some (JStr (fx_key f)) \<and> payload_value d ''effectKind'' = Some (JStr (fx_kind f)) \<and>
     sql_eq (payload_value d ''nodeId'') (payload_value e ''nodeId'')) (t_events st)"

definition effect_verification_required :: "string \<Rightarrow> task_store \<Rightarrow> bool" where
  "effect_verification_required run st = list_ex (\<lambda>e. te_run e = run \<and> typed VERIFICATION_REQUIRED e \<and>
     list_ex (\<lambda>f. fx_run f = run \<and> payload_value e ''idempotencyKey'' = Some (JStr (fx_key f)) \<and>
       payload_value e ''effectKind'' = Some (JStr (fx_kind f)) \<and> fx_state f = ''executed'' \<and> \<not> resolved_later st e f) (t_effects st)) (t_events st)"

definition has_unverified_effects :: "string \<Rightarrow> task_store \<Rightarrow> bool" where
  "has_unverified_effects run st = list_ex (\<lambda>f. fx_run f = run \<and> fx_state f \<noteq> ''verified'') (t_effects st)"

record task_view =
  tv_row :: task_row
  tv_verification_required :: bool
  tv_controls :: "string list"

definition task_from_row :: "task_store \<Rightarrow> task_row \<Rightarrow> task_view" where
  "task_from_row st r = (let required = effect_verification_required (tr_id r) st in
     \<lparr>tv_row = r, tv_verification_required = required,
      tv_controls = controls (tr_state r) (tr_runtime r) required (has_unverified_effects (tr_id r) st)\<rparr>)"

definition get_task :: "string \<Rightarrow> task_store \<Rightarrow> task_error + task_view" where
  "get_task raw st =
     and_then (ensure (is_ok (parse_id TaskRunId raw)) InvalidTaskRun) (\<lambda>_.
     and_then (ok_or (find (\<lambda>r. tr_id r = raw) (t_runs st)) TaskNotFound) (\<lambda>r. Ok (task_from_row st r)))"

text \<open>The five hundred tasks changed last; of equal instants, in the order of the table.\<close>

definition recent_tasks :: "task_store \<Rightarrow> task_view list" where
  "recent_tasks st = map (task_from_row st) (take 500 (sort_key (\<lambda>r. - tr_updated r) (t_runs st)))"

record task_filter =
  tf_project :: "string option"
  tf_state :: "task_state option"
  tf_origin :: "string option"
  tf_runtime :: "string option"
  tf_from :: "int option"
  tf_to :: "int option"

definition wanted :: "'a option \<Rightarrow> ('a \<Rightarrow> bool) \<Rightarrow> bool" where
  "wanted x p = (case x of None \<Rightarrow> True | Some v \<Rightarrow> p v)"

definition list_tasks :: "task_filter \<Rightarrow> task_store \<Rightarrow> task_error + task_view list" where
  "list_tasks f st =
     and_then (ensure (wanted (tf_project f) (\<lambda>p. is_ok (parse_id ProjectId p))) InvalidProject) (\<lambda>_.
     Ok (filter (\<lambda>t. let r = tv_row t in wanted (tf_project f) (\<lambda>p. tr_project r = Some p) \<and>
       wanted (tf_state f) (\<lambda>s. tr_state r = s) \<and> wanted (tf_origin f) (\<lambda>s. tr_origin r = s) \<and>
       wanted (tf_runtime f) (\<lambda>s. tr_runtime r = s) \<and> wanted (tf_from f) (\<lambda>m. tr_created r \<ge> m) \<and>
       wanted (tf_to f) (\<lambda>m. tr_created r \<le> m)) (recent_tasks st)))"

definition terminal :: "task_state \<Rightarrow> bool" where
  "terminal s \<longleftrightarrow> s \<in> {Completed, Failed, Cancelled}"

definition require_bound_run :: "string \<Rightarrow> string \<Rightarrow> task_store \<Rightarrow> task_error + task_view" where
  "require_bound_run run project st =
     and_then (get_task run st) (\<lambda>t.
     and_then (ensure (\<not> tr_project (tv_row t) \<noteq> Some project) NotBound) (\<lambda>_. Ok t))"

subsection \<open>Events\<close>

definition next_event :: "string \<Rightarrow> task_store \<Rightarrow> int" where
  "next_event run st = fold (\<lambda>e m. max m (te_sequence e)) (filter (\<lambda>e. te_run e = run) (t_events st)) (-1) + 1"

record task_env =
  k_now :: int
  k_timestamp :: "string option"
  k_new_task :: "nat \<Rightarrow> string"
  k_new_run :: "nat \<Rightarrow> string"
  k_internal_project :: "task_error + string"
  k_durable :: bool

definition append_event_in_transaction ::
  "task_env \<Rightarrow> task_row \<Rightarrow> string \<Rightarrow> evidence_class \<Rightarrow> json \<Rightarrow> task_store \<Rightarrow> task_error + nat option \<times> task_store" where
  "append_event_in_transaction env t event_type evidence payload st =
     (case tr_project t of None \<Rightarrow> Ok (None, st) | Some project \<Rightarrow>
      let sequence = next_event (tr_id t) st in
      and_then (ok_or (k_timestamp env) BadEventTime) (\<lambda>timestamp.
      and_then (ensure (is_ok (parse_id ProjectId project)) InvalidProject) (\<lambda>_.
      and_then (ensure (is_ok (parse_id TaskId (tr_task t))) InvalidTask) (\<lambda>_.
      and_then (ensure (is_ok (parse_id TaskRunId (tr_id t))) InvalidTaskRun) (\<lambda>_.
      and_then (ensure (sequence \<ge> 0 \<and> list_ex (\<lambda>r. tr_id r = tr_id t) (t_runs st)) TaskStoreFailed) (\<lambda>_.
      Ok (Some (nat sequence), st\<lparr>t_events := t_events st @ [\<lparr>te_run = tr_id t, te_sequence = sequence,
        te_event = \<lparr>ev_schema_version = P0_CONTRACT_VERSION, ev_event_type = event_type, ev_project_id = project,
          ev_task_id = tr_task t, ev_task_run_id = Some (tr_id t), ev_correlation_id = tr_correlation t,
          ev_sequence = nat sequence, ev_timestamp = timestamp, ev_evidence_class = evidence, ev_payload = payload\<rparr>,
        te_created = k_now env\<rparr>]\<rparr>)))))))"

definition append_event ::
  "task_env \<Rightarrow> task_row \<Rightarrow> string \<Rightarrow> evidence_class \<Rightarrow> json \<Rightarrow> task_store \<Rightarrow> task_error + task_store" where
  "append_event env t event_type evidence payload st =
     and_then (append_event_in_transaction env t event_type evidence payload st) (\<lambda>(n, st). Ok st)"

definition record_domain_event ::
  "task_env \<Rightarrow> string \<Rightarrow> string \<Rightarrow> evidence_class \<Rightarrow> json \<Rightarrow> task_store \<Rightarrow> task_error + task_store" where
  "record_domain_event env run event_type evidence payload st =
     and_then (get_task run st) (\<lambda>t. append_event env (tv_row t) event_type evidence payload st)"

definition record_domain_event_with_sequence ::
  "task_env \<Rightarrow> string \<Rightarrow> string \<Rightarrow> evidence_class \<Rightarrow> json \<Rightarrow> task_store \<Rightarrow> task_error + nat \<times> task_store" where
  "record_domain_event_with_sequence env run event_type evidence payload st =
     and_then (get_task run st) (\<lambda>t.
     and_then (append_event_in_transaction env (tv_row t) event_type evidence payload st) (\<lambda>(n, st).
     case n of None \<Rightarrow> Err ProjectBindingRequired | Some k \<Rightarrow> Ok (k, st)))"

text \<open>\<open>value as i64\<close> of a 64-bit number.\<close>

definition sequence_as_i64 :: "nat \<Rightarrow> int" where
  "sequence_as_i64 n = (if int n \<le> i64_max then int n else int n - 2 ^ 64)"

definition task_events :: "string \<Rightarrow> nat option \<Rightarrow> task_store \<Rightarrow> task_error + json p0_event_envelope list" where
  "task_events run after st =
     and_then (ensure (is_ok (parse_id TaskRunId run)) InvalidTaskRun) (\<lambda>_.
     Ok (map te_event (take 500 (sort_key te_sequence (filter (\<lambda>e. te_run e = run \<and>
       te_sequence e > (case after of None \<Rightarrow> -1 | Some n \<Rightarrow> sequence_as_i64 n)) (t_events st))))))"

subsection \<open>Reconciliation\<close>

definition coalesce :: "'a option \<Rightarrow> 'a option \<Rightarrow> 'a option" where
  "coalesce a b = (case a of None \<Rightarrow> b | Some x \<Rightarrow> Some x)"

definition new_task_row ::
  "task_env \<Rightarrow> nat \<Rightarrow> string \<Rightarrow> string \<Rightarrow> string option \<Rightarrow> task_state \<Rightarrow> string \<Rightarrow> string \<Rightarrow> string option \<Rightarrow> int \<Rightarrow> int \<Rightarrow> task_row" where
  "new_task_row env n runtime i project state origin summary error created updated =
     \<lparr>tr_id = k_new_run env n, tr_task = k_new_task env n, tr_project = project, tr_runtime = runtime, tr_record = i, tr_state = state,
      tr_origin = origin, tr_correlation = k_new_task env n, tr_summary = summary, tr_last_error = error, tr_created = created,
      tr_updated = updated, tr_completed = (if terminal state then Some updated else None), tr_acknowledged = None, tr_recovery = ''reconciled''\<rparr>"

definition upsert_runtime ::
  "task_env \<Rightarrow> nat \<Rightarrow> string \<Rightarrow> string \<Rightarrow> string option \<Rightarrow> task_state \<Rightarrow> string \<Rightarrow> string \<Rightarrow> string option \<Rightarrow> int \<Rightarrow> int \<Rightarrow>
   task_store \<Rightarrow> task_error + bool \<times> task_store" where
  "upsert_runtime env n runtime i project state origin summary error created updated st =
     (case find (\<lambda>r. tr_runtime r = runtime \<and> tr_record r = i) (t_runs st) of
        Some old \<Rightarrow>
          let P = (\<lambda>r. tr_id r = tr_id old) in
          if effect_verification_required (tr_id old) st then
            Ok (False, st\<lparr>t_runs := update_rows P (\<lambda>r. r\<lparr>tr_project := coalesce project (tr_project r), tr_summary := summary,
              tr_updated := max (tr_updated r) updated\<rparr>) (t_runs st)\<rparr>)
          else Ok (False, st\<lparr>t_runs := update_rows P (\<lambda>r. r\<lparr>tr_project := coalesce project (tr_project r), tr_state := state,
              tr_summary := summary, tr_last_error := error, tr_updated := updated,
              tr_completed := (if terminal state then coalesce (tr_completed r) (Some updated) else None),
              tr_recovery := ''reconciled''\<rparr>) (t_runs st)\<rparr>)
      | None \<Rightarrow>
          and_then (ensure (\<not> list_ex (\<lambda>r. tr_id r = k_new_run env n) (t_runs st)) TaskStoreFailed) (\<lambda>_.
          Ok (True, st\<lparr>t_runs := t_runs st @ [new_task_row env n runtime i project state origin summary error created updated]\<rparr>)))"

text \<open>The counters are the rows inspected and the rows created.\<close>

fun ingest :: "task_env \<Rightarrow> string \<Rightarrow> string \<Rightarrow> runtime_record list \<Rightarrow> nat \<times> nat \<Rightarrow> task_store \<Rightarrow> task_error + (nat \<times> nat) \<times> task_store" where
  "ingest env runtime origin [] counts st = Ok (counts, st)"
| "ingest env runtime origin (r # rs) (inspected, reconciled) st =
     and_then (upsert_runtime env inspected runtime (rr_id r) (rr_project r) (canonical_state runtime (rr_status r)) origin (rr_summary r)
       (if runtime \<in> {''taskflow'', ''agent''} then None else rr_error r) (rr_created r) (rr_updated r) st) (\<lambda>(created, st).
     ingest env runtime origin rs (Suc inspected, if created then Suc reconciled else reconciled) st)"

fun register_tasks :: "task_env \<Rightarrow> task_view list \<Rightarrow> task_store \<Rightarrow> task_error + task_store" where
  "register_tasks env [] st = Ok st"
| "register_tasks env (t # ts) st =
     and_then (if list_ex (\<lambda>e. te_run e = tr_id (tv_row t)) (t_events st) then Ok st
       else append_event env (tv_row t) ''task.registered'' ObservedResult
         (JObj [(''state'', JStr (state_text (tr_state (tv_row t)))), (''runtime'', JStr (tr_runtime (tv_row t))),
           (''origin'', JStr (tr_origin (tv_row t)))]) st)
     (register_tasks env ts)"

definition reconcile_one :: "task_env \<Rightarrow> task_view \<Rightarrow> task_store \<Rightarrow> task_error + bool \<times> task_store" where
  "reconcile_one env t st =
     (let row = tv_row t; P = (\<lambda>r. tr_id r = tr_id row) in
      if tv_verification_required t then Ok (False, st)
      else case runtime_state (tr_runtime row) (tr_record row) st of
        Some (state, error) \<Rightarrow>
          let st = st\<lparr>t_runs := update_rows P (\<lambda>r. r\<lparr>tr_state := state, tr_last_error := error, tr_recovery := ''reconciled'',
                tr_updated := k_now env\<rparr>) (t_runs st)\<rparr> in
          if state \<noteq> tr_state row then
            and_then (get_task (tr_id row) st) (\<lambda>updated.
            and_then (append_event env (tv_row updated) ''task.reconciled'' ObservedResult
              (JObj [(''previousState'', JStr (state_text (tr_state row))), (''state'', JStr (state_text (tr_state (tv_row updated)))),
                (''runtime'', JStr (tr_runtime (tv_row updated)))]) st) (\<lambda>st. Ok (False, st)))
          else Ok (False, st)
      | None \<Rightarrow>
          let st = st\<lparr>t_runs := update_rows P (\<lambda>r. r\<lparr>tr_state := Failed, tr_recovery := ''lost'',
                tr_last_error := Some ''Owning runtime record is missing.'', tr_updated := k_now env\<rparr>) (t_runs st)\<rparr> in
          and_then (get_task (tr_id row) st) (\<lambda>updated.
          and_then (append_event env (tv_row updated) ''task.recovery_failed'' ObservedResult
            (JObj [(''previousState'', JStr (state_text (tr_state row))), (''state'', JStr (state_text (tr_state (tv_row updated)))),
              (''recoveryState'', JStr ''lost'')]) st) (\<lambda>st. Ok (True, st))))"

fun reconcile_each :: "task_env \<Rightarrow> task_view list \<Rightarrow> nat \<Rightarrow> task_store \<Rightarrow> task_error + nat \<times> task_store" where
  "reconcile_each env [] lost st = Ok (lost, st)"
| "reconcile_each env (t # ts) lost st =
     and_then (reconcile_one env t st) (\<lambda>(missing, st). reconcile_each env ts (if missing then Suc lost else lost) st)"

text \<open>Old tasks without effects are deleted, with their events.\<close>

definition expired_task :: "int \<Rightarrow> task_store \<Rightarrow> task_row \<Rightarrow> bool" where
  "expired_task cutoff st r \<longleftrightarrow> tr_state r \<in> {Completed, Cancelled} \<and>
     (case tr_completed r of None \<Rightarrow> False | Some c \<Rightarrow> c < cutoff) \<and> \<not> list_ex (\<lambda>f. fx_run f = tr_id r) (t_effects st)"

definition delete_tasks :: "(task_row \<Rightarrow> bool) \<Rightarrow> task_store \<Rightarrow> task_store" where
  "delete_tasks P st =
     (let gone = map tr_id (filter P (t_runs st)) in
      st\<lparr>t_runs := filter (\<lambda>r. \<not> P r) (t_runs st), t_events := filter (\<lambda>e. te_run e \<notin> set gone) (t_events st),
        t_effects := filter (\<lambda>f. fx_run f \<notin> set gone) (t_effects st), t_audit := filter (\<lambda>a. ra_run a \<notin> set gone) (t_audit st)\<rparr>)"

record recovery_report =
  rp_inspected :: nat
  rp_reconciled :: nat
  rp_lost :: nat
  rp_runtime_unavailable :: nat

definition reconcile_all :: "task_env \<Rightarrow> task_store \<Rightarrow> task_error + recovery_report \<times> task_store" where
  "reconcile_all env st =
     and_then (ingest env ''taskflow'' ''taskflow'' (t_flows st) (0, 0) st) (\<lambda>(counts, st).
     and_then (ingest env ''workflow'' ''workflow'' (t_instances st) counts st) (\<lambda>(counts, st).
     and_then (ingest env ''agent'' ''agent'' (t_agents st) counts st) (\<lambda>(counts, st).
     and_then (ingest env ''queued_message'' ''chat_queue'' (t_queue st) counts st) (\<lambda>((inspected, reconciled), st).
     let all_tasks = recent_tasks st in
     and_then (register_tasks env all_tasks st) (\<lambda>st.
     and_then (reconcile_each env (filter (\<lambda>t. \<not> terminal (tr_state (tv_row t))) all_tasks) 0 st) (\<lambda>(lost, st).
     Ok (\<lparr>rp_inspected = inspected, rp_reconciled = reconciled, rp_lost = lost, rp_runtime_unavailable = 0\<rparr>,
         delete_tasks (expired_task (k_now env - 90 * 24 * 60 * 60 * 1000) st) st)))))))"

subsection \<open>Controls\<close>

definition control_task :: "task_env \<Rightarrow> string \<Rightarrow> string \<Rightarrow> task_store \<Rightarrow> task_error + task_view \<times> task_store" where
  "control_task env raw action st =
     and_then (ensure (k_durable env) StoreNotDurable) (\<lambda>_.
     and_then (get_task raw st) (\<lambda>before.
     let row = tv_row before in
     and_then (if action = ''cancel'' \<and> tr_state row \<in> {Queued, Planning, AwaitingApproval, Running, Blocked}
         then cancel_runtime (tr_runtime row) (tr_record row) (k_now env) st
       else if action = ''resume'' \<and> tr_state row = Blocked then resume_runtime (tr_runtime row) (tr_record row) (k_now env) st
       else if action = ''retry'' \<and> tr_state row = Failed then
         and_then (ensure (\<not> changed_rows (\<lambda>f. fx_run f = tr_id row \<and> fx_state f \<noteq> ''verified'') (t_effects st) > 0) UnverifiedEffects)
           (\<lambda>_. retry_runtime (tr_runtime row) (tr_record row) (k_now env) st)
       else Err UnsupportedTransition) (\<lambda>st.
     and_then (reconcile_all env st) (\<lambda>(_, st).
     and_then (get_task raw st) (\<lambda>after.
     and_then (append_event env (tv_row after) (''task.'' @ action) ExecutedMutation
       (JObj [(''previousState'', JStr (state_text (tr_state row))), (''state'', JStr (state_text (tr_state (tv_row after)))),
         (''runtime'', JStr (tr_runtime (tv_row after)))]) st) (\<lambda>st. Ok (after, st)))))))"

definition acknowledge :: "task_env \<Rightarrow> string \<Rightarrow> task_store \<Rightarrow> task_error + task_view \<times> task_store" where
  "acknowledge env raw st =
     and_then (get_task raw st) (\<lambda>t.
     and_then (ensure (\<not> tr_state (tv_row t) \<noteq> Failed) OnlyFailed) (\<lambda>_.
     let st = st\<lparr>t_runs := update_rows (\<lambda>r. tr_id r = tr_id (tv_row t)) (\<lambda>r. r\<lparr>tr_acknowledged := Some (k_now env)\<rparr>) (t_runs st)\<rparr> in
     and_then (get_task raw st) (\<lambda>updated. Ok (updated, st))))"

subsection \<open>The task an execution belongs to\<close>

definition agent_project :: "runtime_record \<Rightarrow> task_row \<Rightarrow> string option" where
  "agent_project a t = coalesce (rr_project a) (coalesce (case rr_chat a of None \<Rightarrow> None | Some p \<Rightarrow> p) (tr_project t))"

definition require_agent_runtime_task :: "task_env \<Rightarrow> string \<Rightarrow> task_store \<Rightarrow> task_error + task_view \<times> task_store" where
  "require_agent_runtime_task env execution st =
     and_then (reconcile_all env st) (\<lambda>(_, st).
     let i = trim execution in
     case find (\<lambda>t. tr_runtime t = ''workflow'' \<and> tr_record t = i) (t_runs st) of
       Some t \<Rightarrow>
         and_then (ok_or (tr_project t) ProjectBindingRequired) (\<lambda>project.
         and_then (ensure (is_ok (parse_id ProjectId project)) InvalidProject) (\<lambda>_.
         and_then (get_task (tr_id t) st) (\<lambda>task.
         and_then (ensure (\<not> tr_project (tv_row task) \<noteq> Some project) NotBound) (\<lambda>_. Ok (task, st)))))
     | None \<Rightarrow>
         and_then (ok_or (find (\<lambda>(t, a). tr_runtime t = ''agent'' \<and> tr_record t = i \<and> rr_id a = i \<and> rr_chat a \<noteq> None)
           (List.product (t_runs st) (t_agents st))) TaskNotFound) (\<lambda>(t, a).
         and_then (case agent_project a t of
             Some project \<Rightarrow> and_then (ensure (is_ok (parse_id ProjectId project)) InvalidProject) (\<lambda>_. Ok (project, st))
           | None \<Rightarrow> and_then (k_internal_project env) (\<lambda>project. Ok (project,
               st\<lparr>t_agents := update_rows (\<lambda>r. rr_id r = i \<and> rr_project r = None)
                 (\<lambda>r. r\<lparr>rr_project := Some project, rr_updated := k_now env\<rparr>) (t_agents st)\<rparr>))) (\<lambda>(project, st).
         let st = st\<lparr>t_runs := update_rows (\<lambda>r. tr_id r = tr_id t \<and> (tr_project r = None \<or> tr_project r = Some project))
               (\<lambda>r. r\<lparr>tr_project := Some project, tr_updated := k_now env\<rparr>) (t_runs st)\<rparr> in
         and_then (get_task (tr_id t) st) (\<lambda>task.
         and_then (ensure (\<not> tr_project (tv_row task) \<noteq> Some project) NotBound) (\<lambda>_. Ok (task, st))))))"

subsection \<open>Effects by command\<close>

definition insert_effect :: "int \<Rightarrow> string \<Rightarrow> string \<Rightarrow> string \<Rightarrow> task_store \<Rightarrow> task_error + bool \<times> task_store" where
  "insert_effect now run key kind st =
     (if list_ex (\<lambda>f. fx_run f = run \<and> fx_key f = key) (t_effects st) then Ok (False, st)
      else and_then (ensure (list_ex (\<lambda>r. tr_id r = run) (t_runs st)) TaskStoreFailed) (\<lambda>_.
        Ok (True, st\<lparr>t_effects := t_effects st @ [\<lparr>fx_run = run, fx_key = key, fx_kind = kind, fx_state = ''reserved'',
          fx_digest = None, fx_updated = now\<rparr>]\<rparr>)))"

definition reserve_effect :: "task_env \<Rightarrow> string \<Rightarrow> string \<Rightarrow> string \<Rightarrow> task_store \<Rightarrow> task_error + bool \<times> task_store" where
  "reserve_effect env run key kind st =
     and_then (ensure (is_ok (parse_id TaskRunId run)) InvalidTaskRun) (\<lambda>_.
     and_then (ensure (\<not> (blank key \<or> blank kind)) EffectIdentityRequired) (\<lambda>_.
     insert_effect (k_now env) run key kind st))"

definition verify_effect_command :: "task_env \<Rightarrow> string \<Rightarrow> string \<Rightarrow> string option \<Rightarrow> task_store \<Rightarrow> task_error + task_store" where
  "verify_effect_command env run key digest st =
     and_then (ok_or (case digest of None \<Rightarrow> None | Some d \<Rightarrow> if length d \<ge> 16 then Some d else None) DigestRequired) (\<lambda>d.
     let P = (\<lambda>f. fx_run f = run \<and> fx_key f = key \<and> fx_state f \<in> {''reserved'', ''executed''}) in
     and_then (ensure (changed_rows P (t_effects st) \<noteq> 0) ReservationMissing) (\<lambda>_.
     Ok (st\<lparr>t_effects := update_rows P (\<lambda>f. f\<lparr>fx_state := ''verified'', fx_digest := Some d, fx_updated := k_now env\<rparr>) (t_effects st)\<rparr>)))"

end
