(* ===== verification/Effect_Journal.thy ===== *)
theory Effect_Journal
  imports Task_Store
begin

text \<open>
  The journal of protected effects (\<open>workflow_runtime/task_tools/effect_journal.rs\<close> and
  \<open>execute_registered_task_tool\<close> of \<open>workflow_runtime/task_tools.rs\<close>): an effect is reserved, claimed,
  performed and verified, or the task is halted until the user has looked. Every database statement
  is a function of the store; the functions of the source are their sequences and keep what was
  written before an error. An error is its code. The hash, the JSON encoder and decoder are
  arguments, and so is the tool with what it answers.
\<close>

record journal_env =
  j_task :: task_env
  j_sha256_hex :: "string \<Rightarrow> string"
  j_encode :: "json \<Rightarrow> string"
  j_decode :: "string \<Rightarrow> json option"

record reserved_effect =
  re_run :: string
  re_node :: string
  re_key :: string
  re_operation :: string
  re_summary :: json

datatype effect_reservation = Execute reserved_effect | Replay json

type_synonym 'a journal = "(string + 'a) \<times> task_store"

subsection \<open>What the user is shown\<close>

text \<open>\<open>char::is_control\<close> of some character: below a space, or from DEL to U+009F.\<close>

fun has_control :: "string \<Rightarrow> bool" where
  "has_control [] = False"
| "has_control (c # s) = ((of_char c :: nat) < 32 \<or> (of_char c :: nat) = 127 \<or>
     (of_char c :: nat) = 194 \<and> (case s of [] \<Rightarrow> False | d # _ \<Rightarrow> 128 \<le> (of_char d :: nat) \<and> (of_char d :: nat) < 160) \<or> has_control s)"

definition bounded_recovery_text :: "string \<Rightarrow> nat \<Rightarrow> string option" where
  "bounded_recovery_text v limit =
     (let v = trim v in if v \<noteq> [] \<and> chars_count v \<le> limit \<and> \<not> has_control v then Some v else None)"

definition effect_recovery_summary :: "string \<Rightarrow> json \<Rightarrow> json" where
  "effect_recovery_summary operation arguments =
     (let text_of = (\<lambda>field limit. json_opt JStr (Option.bind (Option.bind (json_get arguments field) json_str) (\<lambda>v. bounded_recovery_text v limit))) in
      if operation \<in> {''create_system_calendar_event'', ''create_conflict_free_calendar_event''} then
        JObj [(''surface'', JStr ''calendar''), (''calendarName'', text_of ''calendarName'' 160), (''title'', text_of ''title'' 240)]
      else if operation \<in> {''draft_system_email'', ''draft_decision_pack_email'', ''draft_release_recovery_email''} then
        JObj [(''surface'', JStr ''mail_draft''), (''recipient'', text_of ''to'' 4096), (''subject'', text_of ''subject'' 998)]
      else if operation = ''send_system_email'' then
        JObj [(''surface'', JStr ''mail_send''), (''recipient'', text_of ''to'' 4096), (''subject'', text_of ''subject'' 998)]
      else JObj [(''surface'', JStr ''protected_action'')])"

definition workflow_effect_key :: "journal_env \<Rightarrow> string \<Rightarrow> string \<Rightarrow> json \<Rightarrow> string" where
  "workflow_effect_key env node operation arguments =
     ''workflow-task:'' @ node @ '':'' @ operation @ '':'' @ j_sha256_hex env (j_encode env arguments)"

definition new_effect :: "journal_env \<Rightarrow> string \<Rightarrow> string \<Rightarrow> string \<Rightarrow> json \<Rightarrow> reserved_effect" where
  "new_effect env run node operation arguments = \<lparr>re_run = run, re_node = node, re_key = workflow_effect_key env node operation arguments,
     re_operation = operation, re_summary = effect_recovery_summary operation arguments\<rparr>"

subsection \<open>Statements\<close>

definition effect_of :: "reserved_effect \<Rightarrow> effect_row \<Rightarrow> bool" where
  "effect_of e f \<longleftrightarrow> fx_run f = re_run e \<and> fx_key f = re_key e \<and> fx_kind f = re_operation e"

definition bound_effect :: "reserved_effect \<Rightarrow> task_store \<Rightarrow> effect_row option" where
  "bound_effect e st = find (\<lambda>f. fx_run f = re_run e \<and> fx_key f = re_key e) (t_effects st)"

text \<open>An update of the effects and the number of rows it changed.\<close>

definition update_effects :: "(effect_row \<Rightarrow> bool) \<Rightarrow> (effect_row \<Rightarrow> effect_row) \<Rightarrow> task_store \<Rightarrow> nat \<times> task_store" where
  "update_effects P f st = (changed_rows P (t_effects st), st\<lparr>t_effects := update_rows P f (t_effects st)\<rparr>)"

definition claim_row :: "reserved_effect \<Rightarrow> int \<Rightarrow> task_store \<Rightarrow> nat \<times> task_store" where
  "claim_row e now = update_effects (\<lambda>f. effect_of e f \<and> fx_state f = ''reserved'') (\<lambda>f. f\<lparr>fx_state := ''executed'', fx_updated := now\<rparr>)"

definition verify_row :: "reserved_effect \<Rightarrow> string \<Rightarrow> int \<Rightarrow> task_store \<Rightarrow> nat \<times> task_store" where
  "verify_row e digest now = update_effects (\<lambda>f. effect_of e f \<and> fx_state f \<in> {''reserved'', ''executed'', ''verified''} \<and>
       (fx_digest f = None \<or> fx_digest f = Some digest))
     (\<lambda>f. f\<lparr>fx_state := ''verified'', fx_digest := Some digest, fx_updated := now\<rparr>)"

definition halt_row :: "reserved_effect \<Rightarrow> int \<Rightarrow> task_store \<Rightarrow> nat \<times> task_store" where
  "halt_row e now = update_effects (\<lambda>f. effect_of e f \<and> fx_state f \<in> {''reserved'', ''executed'', ''verified''})
     (\<lambda>f. f\<lparr>fx_state := ''executed'', fx_updated := now\<rparr>)"

definition releasable :: "reserved_effect \<Rightarrow> effect_row \<Rightarrow> bool" where
  "releasable e f \<longleftrightarrow> effect_of e f \<and> fx_state f = ''executed'' \<and> fx_digest f = None"

definition delete_effects :: "(effect_row \<Rightarrow> bool) \<Rightarrow> task_store \<Rightarrow> nat \<times> task_store" where
  "delete_effects P st = (changed_rows P (t_effects st), st\<lparr>t_effects := filter (\<lambda>f. \<not> P f) (t_effects st)\<rparr>)"

definition block_task :: "reserved_effect \<Rightarrow> int \<Rightarrow> task_store \<Rightarrow> nat \<times> task_store" where
  "block_task e now st =
     (let P = (\<lambda>r. tr_id r = re_run e) in
      (changed_rows P (t_runs st), st\<lparr>t_runs := update_rows P (\<lambda>r. r\<lparr>
         tr_state := (if tr_state r \<in> {Queued, Planning, AwaitingApproval, Running} then Blocked else tr_state r),
         tr_recovery := ''recoverable'', tr_last_error := Some (''OOMU could not confirm whether this protected action already happened. '' @
           ''It will not repeat the action automatically. The Task is saved for verification-only recovery.''), tr_updated := now\<rparr>)
         (t_runs st)\<rparr>))"

definition retry_supported :: "reserved_effect \<Rightarrow> task_store \<Rightarrow> bool" where
  "retry_supported e st = list_ex (\<lambda>r. tr_id r = re_run e \<and> tr_runtime r = ''workflow'' \<and>
     list_ex (\<lambda>(schedule, instance, run). instance = tr_record r \<and> run = tr_id r) (t_routine_runs st)) (t_runs st)"

definition required_payload :: "reserved_effect \<Rightarrow> string \<Rightarrow> bool \<Rightarrow> json" where
  "required_payload e reason supported = JObj [(''nodeId'', JStr (re_node e)), (''idempotencyKey'', JStr (re_key e)),
     (''effectKind'', JStr (re_operation e)), (''effectSummary'', re_summary e), (''reasonCode'', JStr reason),
     (''nextAction'', JStr ''verify_only''), (''retrySupported'', JBool supported)]"

definition verified_payload :: "reserved_effect \<Rightarrow> string \<Rightarrow> json \<Rightarrow> json" where
  "verified_payload e digest result = JObj [(''idempotencyKey'', JStr (re_key e)), (''effectKind'', JStr (re_operation e)),
     (''resultDigest'', JStr digest), (''result'', result)]"

definition EFFECT_VERIFIED :: string where
  "EFFECT_VERIFIED = ''workflow.effect.verified''"

definition receipt_events :: "reserved_effect \<Rightarrow> task_store \<Rightarrow> task_event_row list" where
  "receipt_events e st = filter (\<lambda>v. te_run v = re_run e \<and> typed EFFECT_VERIFIED v \<and>
     payload_value v ''idempotencyKey'' = Some (JStr (re_key e))) (t_events st)"

definition receipt_in :: "journal_env \<Rightarrow> reserved_effect \<Rightarrow> json \<Rightarrow> string + string \<times> json" where
  "receipt_in env e payload =
     and_then (ensure (case payload of JObj m \<Rightarrow> True | _ \<Rightarrow> False) ''workflow_effect_receipt_invalid'') (\<lambda>_.
     and_then (ensure (json_get payload ''idempotencyKey'' = Some (JStr (re_key e)) \<and> json_get payload ''effectKind'' = Some (JStr (re_operation e)))
       ''workflow_effect_receipt_invalid'') (\<lambda>_.
     and_then (ok_or (case Option.bind (json_get payload ''resultDigest'') json_str of None \<Rightarrow> None
         | Some d \<Rightarrow> if length d = 64 \<and> list_all is_ascii_hexdigit d then Some d else None) ''workflow_effect_receipt_invalid'') (\<lambda>digest.
     and_then (ok_or (json_get payload ''result'') ''workflow_effect_receipt_invalid'') (\<lambda>result.
     and_then (ensure (j_sha256_hex env (j_encode env result) = digest) ''workflow_effect_receipt_digest_changed'') (\<lambda>_.
     Ok (digest, result))))))"

definition load_verified_effect_receipt :: "journal_env \<Rightarrow> reserved_effect \<Rightarrow> task_store \<Rightarrow> string + (string \<times> json) option" where
  "load_verified_effect_receipt env e st =
     (let rows = sort_key te_sequence (receipt_events e st) in
      if rows = [] then Ok None
      else and_then (receipt_in env e (ev_payload (te_event (last rows)))) (\<lambda>r. Ok (Some r)))"

text \<open>What the source does with the reservation it has read back and the receipt it has loaded.\<close>

datatype reserve_next = HaltFor string | ReplayOf string json | ExecuteNow

definition reserve_decision :: "string \<Rightarrow> bool \<Rightarrow> effect_row \<Rightarrow> string + (string \<times> json) option \<Rightarrow> reserve_next" where
  "reserve_decision operation inserted bound receipt =
     (case receipt of
        Inl code \<Rightarrow> HaltFor code
      | Inr (Some (digest, result)) \<Rightarrow>
          if (case fx_digest bound of None \<Rightarrow> False | Some d \<Rightarrow> d \<noteq> digest) then HaltFor ''workflow_effect_receipt_digest_changed''
          else ReplayOf digest result
      | Inr None \<Rightarrow>
          if inserted \<and> fx_state bound = ''reserved'' then ExecuteNow
          else HaltFor (if fx_state bound = ''verified'' then ''workflow_effect_verified_receipt_missing'' else ''workflow_effect_execution_ambiguous''))"

subsection \<open>The functions of the journal\<close>

definition halt_for_effect_verification :: "journal_env \<Rightarrow> reserved_effect \<Rightarrow> string \<Rightarrow> task_store \<Rightarrow> 'a journal" where
  "halt_for_effect_verification env e reason st =
     (let (n, st) = halt_row e (k_now (j_task env)) st in
      if n \<noteq> 1 then (Err ''workflow_effect_recovery_persistence_failed'', st)
      else let (n, st) = block_task e (k_now (j_task env)) st in
      if n \<noteq> 1 then (Err ''workflow_effect_recovery_persistence_failed'', st)
      else case record_domain_event (j_task env) (re_run e) VERIFICATION_REQUIRED ObservedResult
          (required_payload e reason (retry_supported e st)) st of
        Inl _ \<Rightarrow> (Err ''workflow_effect_recovery_persistence_failed'', st)
      | Inr st \<Rightarrow> (Err ''workflow_effect_verification_required'', st))"

definition reconcile_verified_effect :: "journal_env \<Rightarrow> reserved_effect \<Rightarrow> string \<Rightarrow> task_store \<Rightarrow> unit journal" where
  "reconcile_verified_effect env e digest st =
     (let (n, st) = verify_row e digest (k_now (j_task env)) st in
      (if n \<noteq> 1 then Err ''workflow_effect_verification_lost'' else Ok (), st))"

definition reserve_effect_for_task ::
  "journal_env \<Rightarrow> string \<Rightarrow> string \<Rightarrow> string \<Rightarrow> json \<Rightarrow> task_store \<Rightarrow> effect_reservation journal" where
  "reserve_effect_for_task env run node operation arguments st =
     (let e = new_effect env run node operation arguments in
      case insert_effect (k_now (j_task env)) run (re_key e) operation st of
        Inl _ \<Rightarrow> (Err ''workflow_database'', st)
      | Inr (inserted, st) \<Rightarrow>
         case bound_effect e st of
           None \<Rightarrow> (Err ''workflow_effect_reservation_lost'', st)
         | Some bound \<Rightarrow>
            if fx_kind bound \<noteq> operation then (Err ''workflow_effect_binding_changed'', st)
            else case reserve_decision operation inserted bound (load_verified_effect_receipt env e st) of
              HaltFor code \<Rightarrow> halt_for_effect_verification env e code st
            | ExecuteNow \<Rightarrow> (Ok (Execute e), st)
            | ReplayOf digest result \<Rightarrow>
               (case reconcile_verified_effect env e digest st of
                  (Inl code, st) \<Rightarrow> halt_for_effect_verification env e code st
                | (Inr _, st) \<Rightarrow> (Ok (Replay result), st)))"

definition reserve_workflow_effect ::
  "journal_env \<Rightarrow> string \<Rightarrow> string \<Rightarrow> string \<Rightarrow> json \<Rightarrow> task_store \<Rightarrow> effect_reservation journal" where
  "reserve_workflow_effect env execution node operation arguments st =
     (case require_agent_runtime_task (j_task env) execution st of
        Inl _ \<Rightarrow> (Err ''workflow_task_binding_missing'', st)
      | Inr (task, st) \<Rightarrow> reserve_effect_for_task env (tr_id (tv_row task)) node operation arguments st)"

definition claim_effect_execution :: "journal_env \<Rightarrow> reserved_effect \<Rightarrow> task_store \<Rightarrow> json option journal" where
  "claim_effect_execution env e st =
     (let (n, st) = claim_row e (k_now (j_task env)) st in
      if n = 1 then (Ok None, st)
      else case load_verified_effect_receipt env e st of
        Inl code \<Rightarrow> halt_for_effect_verification env e code st
      | Inr None \<Rightarrow> halt_for_effect_verification env e ''workflow_effect_execution_ambiguous'' st
      | Inr (Some (digest, result)) \<Rightarrow>
         (case reconcile_verified_effect env e digest st of
            (Inl code, st) \<Rightarrow> halt_for_effect_verification env e code st
          | (Inr _, st) \<Rightarrow> (Ok (Some result), st)))"

definition verify_effect :: "journal_env \<Rightarrow> reserved_effect \<Rightarrow> json \<Rightarrow> task_store \<Rightarrow> unit journal" where
  "verify_effect env e result st =
     (let digest = j_sha256_hex env (j_encode env result) in
      case load_verified_effect_receipt env e st of
        Inl code \<Rightarrow> (Err code, st)
      | Inr (Some (d, r)) \<Rightarrow>
          if d \<noteq> digest \<or> r \<noteq> result then (Err ''workflow_effect_receipt_conflict'', st)
          else reconcile_verified_effect env e digest st
      | Inr None \<Rightarrow>
          (case record_domain_event (j_task env) (re_run e) EFFECT_VERIFIED VerifiedPostcondition (verified_payload e digest result) st of
             Inl _ \<Rightarrow> (Err ''workflow_effect_receipt_persistence_failed'', st)
           | Inr st \<Rightarrow> reconcile_verified_effect env e digest st))"

definition release_unchanged_effect :: "journal_env \<Rightarrow> reserved_effect \<Rightarrow> string \<Rightarrow> task_store \<Rightarrow> unit journal" where
  "release_unchanged_effect env e code st =
     (let (n, st) = delete_effects (releasable e) st in
      if n \<noteq> 1 then halt_for_effect_verification env e ''workflow_effect_unchanged_release_failed'' st
      else case record_domain_event (j_task env) (re_run e) ''workflow.effect.unchanged'' ObservedResult
          (JObj [(''idempotencyKey'', JStr (re_key e)), (''effectKind'', JStr (re_operation e)), (''errorCode'', JStr code),
            (''changedState'', JBool False)]) st of
        Inl _ \<Rightarrow> (Err ''workflow_effect_receipt_persistence_failed'', st)
      | Inr st \<Rightarrow> (Ok (), st))"

subsection \<open>Running a tool\<close>

record command_response =
  co_completed :: bool
  co_verified :: bool
  co_operation :: string
  co_message :: string

text \<open>What a run of the tool gives: no runtime for it, an answer, an error with its code that is known
  to have changed nothing or not, or a timeout.\<close>

datatype tool_outcome = NoRuntime string | Answered command_response | ToolFailed string bool | TimedOut string

definition verified_result :: "journal_env \<Rightarrow> command_response \<Rightarrow> string + json" where
  "verified_result env response =
     and_then (ensure (\<not> (\<not> co_completed response \<or> \<not> co_verified response)) ''workflow_registered_task_unverified'') (\<lambda>_.
     let parsed = (case j_decode env (co_message response) of None \<Rightarrow> JStr (co_message response) | Some v \<Rightarrow> v);
         result = (case parsed of JObj m \<Rightarrow> m | v \<Rightarrow> [(''result'', v)]) in
     Ok (JObj (if co_operation response = ''create_file'' \<and> map_of result ''structuredContent'' = None
       then result @ [(''structuredContent'', JObj result)] else result)))"

definition conclude_effect :: "journal_env \<Rightarrow> reserved_effect \<Rightarrow> tool_outcome \<Rightarrow> task_store \<Rightarrow> json journal" where
  "conclude_effect env e outcome st =
     (case outcome of
        NoRuntime code \<Rightarrow> halt_for_effect_verification env e code st
      | TimedOut code \<Rightarrow> halt_for_effect_verification env e code st
      | ToolFailed code unchanged \<Rightarrow>
          if unchanged then (case release_unchanged_effect env e code st of (Inl c, st) \<Rightarrow> (Err c, st) | (Inr _, st) \<Rightarrow> (Err code, st))
          else halt_for_effect_verification env e code st
      | Answered response \<Rightarrow>
         (case verified_result env response of
            Inl code \<Rightarrow> halt_for_effect_verification env e code st
          | Inr result \<Rightarrow>
             (case verify_effect env e result st of
                (Inl code, st) \<Rightarrow> halt_for_effect_verification env e code st
              | (Inr _, st) \<Rightarrow> (Ok result, st))))"

text \<open>The effectful half of \<open>execute_registered_task_tool\<close>: the result, and whether the tool was run.\<close>

definition execute_effectful_tool ::
  "journal_env \<Rightarrow> string \<Rightarrow> string \<Rightarrow> string \<Rightarrow> json \<Rightarrow> tool_outcome \<Rightarrow> task_store \<Rightarrow> json journal \<times> bool" where
  "execute_effectful_tool env execution node operation arguments outcome st =
     (case reserve_workflow_effect env execution node operation arguments st of
        (Inl code, st) \<Rightarrow> ((Err code, st), False)
      | (Inr (Replay result), st) \<Rightarrow> ((Ok result, st), False)
      | (Inr (Execute e), st) \<Rightarrow>
         (case claim_effect_execution env e st of
            (Inl code, st) \<Rightarrow> ((Err code, st), False)
          | (Inr (Some result), st) \<Rightarrow> ((Ok result, st), False)
          | (Inr None, st) \<Rightarrow> (conclude_effect env e outcome st, case outcome of NoRuntime _ \<Rightarrow> False | _ \<Rightarrow> True)))"

end
