(* ===== verification/Effect_Verification.thy ===== *)
theory Effect_Verification
  imports Effect_Journal
begin

text \<open>
  The user's decision about a protected action whose outcome is unknown
  (\<open>tasks/effect_verification.rs\<close>): one transaction that checks that the decision still fits what is
  stored, and then releases the effect for one retry, or stops the run. Reading an event back from
  its JSON is \<open>check_envelope\<close> of \<open>Opaque_Ids\<close> with the identifiers.
\<close>

datatype effect_decision = DidNotHappen | Happened | StopWithoutRepeating

fun decision_text :: "effect_decision \<Rightarrow> string" where
  "decision_text DidNotHappen = ''did_not_happen''"
| "decision_text Happened = ''happened''"
| "decision_text StopWithoutRepeating = ''stop_without_repeating''"

record resolve_request =
  rq_run :: string
  rq_task :: string
  rq_record :: string
  rq_sequence :: "nat option"
  rq_node :: "string option"
  rq_key :: "string option"
  rq_kind :: "string option"
  rq_decision :: effect_decision

record exact_effect =
  ex_sequence :: nat
  ex_node :: string
  ex_key :: string
  ex_kind :: string

datatype resolve_error =
  NotDurable | InvalidRequestIds | InvalidIdentity | TaskMismatch | DecisionStale | SeveralOpen | AuditInvalid | BoundaryMismatch
| DetailsRequired | DetailsIncomplete | EffectChanged | CheckpointInvalid | NotStoppedHere | NoSchedule | RetryBoundary | StopBoundary
| AuditBindingRequired | ResolveStore

record resolve_env =
  z_task :: task_env
  z_rfc3339 :: "string \<Rightarrow> bool"

definition validate_identity :: "string \<Rightarrow> nat \<Rightarrow> resolve_error + unit" where
  "validate_identity v maximum = ensure (\<not> (blank v \<or> length v > maximum \<or> has_control v)) InvalidIdentity"

definition validate_exact_identity :: "exact_effect \<Rightarrow> resolve_error + unit" where
  "validate_exact_identity x =
     and_then (validate_identity (ex_node x) 256) (\<lambda>_.
     and_then (validate_identity (ex_key x) 1024) (\<lambda>_.
     validate_identity (ex_kind x) 256))"

definition readable_event :: "resolve_env \<Rightarrow> json p0_event_envelope \<Rightarrow> bool" where
  "readable_event env ev \<longleftrightarrow> is_ok (check_envelope (z_rfc3339 env) ev) \<and> is_ok (parse_id ProjectId (ev_project_id ev)) \<and>
     is_ok (parse_id TaskId (ev_task_id ev)) \<and> (case ev_task_run_id ev of None \<Rightarrow> True | Some r \<Rightarrow> is_ok (parse_id TaskRunId r))"

text \<open>What both readers of a boundary event require of it.\<close>

definition boundary_event :: "string \<Rightarrow> string \<Rightarrow> nat \<Rightarrow> json p0_event_envelope \<Rightarrow> bool" where
  "boundary_event run task sequence ev \<longleftrightarrow> ev_event_type ev = VERIFICATION_REQUIRED \<and> ev_sequence ev = sequence \<and>
     ev_task_id ev = task \<and> ev_task_run_id ev = Some run \<and> json_get (ev_payload ev) ''nextAction'' = Some (JStr ''verify_only'')"

definition payload_text :: "json p0_event_envelope \<Rightarrow> string \<Rightarrow> string option" where
  "payload_text ev key = Option.bind (json_get (ev_payload ev) key) json_str"

definition open_boundaries :: "string \<Rightarrow> task_store \<Rightarrow> task_event_row list" where
  "open_boundaries run st = sort_key te_sequence (filter (\<lambda>e. te_run e = run \<and> typed VERIFICATION_REQUIRED e \<and>
     \<not> list_ex (\<lambda>d. te_run d = te_run e \<and> te_sequence d > te_sequence e \<and> typed VERIFICATION_RESOLVED d \<and>
       payload_value d ''verificationSequence'' = Some (JInt (te_sequence e))) (t_events st)) (t_events st))"

definition derive_single_unresolved_verification ::
  "resolve_env \<Rightarrow> string \<Rightarrow> string \<Rightarrow> task_store \<Rightarrow> resolve_error + exact_effect" where
  "derive_single_unresolved_verification env run task st =
     (case take 2 (open_boundaries run st) of
        [e] \<Rightarrow>
          and_then (ensure (te_sequence e \<ge> 0) DecisionStale) (\<lambda>_.
          and_then (ensure (readable_event env (te_event e)) AuditInvalid) (\<lambda>_.
          and_then (ensure (boundary_event run task (nat (te_sequence e)) (te_event e)) BoundaryMismatch) (\<lambda>_.
          and_then (ok_or (payload_text (te_event e) ''nodeId'') AuditInvalid) (\<lambda>node.
          and_then (ok_or (payload_text (te_event e) ''idempotencyKey'') AuditInvalid) (\<lambda>key.
          and_then (ok_or (payload_text (te_event e) ''effectKind'') AuditInvalid) (\<lambda>kind.
          let x = \<lparr>ex_sequence = nat (te_sequence e), ex_node = node, ex_key = key, ex_kind = kind\<rparr> in
          and_then (validate_exact_identity x) (\<lambda>_. Ok x)))))))
      | [] \<Rightarrow> Err DecisionStale
      | _ \<Rightarrow> Err SeveralOpen)"

definition exact_verification_for_request ::
  "resolve_env \<Rightarrow> string \<Rightarrow> string \<Rightarrow> resolve_request \<Rightarrow> task_store \<Rightarrow> resolve_error + exact_effect" where
  "exact_verification_for_request env run task q st =
     and_then (case (rq_sequence q, rq_node q, rq_key q, rq_kind q) of
         (Some sequence, Some node, Some key, Some kind) \<Rightarrow> Ok \<lparr>ex_sequence = sequence, ex_node = node, ex_key = key, ex_kind = kind\<rparr>
       | (None, None, None, None) \<Rightarrow>
           if rq_decision q = StopWithoutRepeating then derive_single_unresolved_verification env run task st else Err DetailsRequired
       | _ \<Rightarrow> Err DetailsIncomplete) (\<lambda>x.
     and_then (validate_exact_identity x) (\<lambda>_. Ok x))"

definition require_current_task_binding :: "string \<Rightarrow> string \<Rightarrow> string \<Rightarrow> task_store \<Rightarrow> resolve_error + unit" where
  "require_current_task_binding run task record st =
     and_then (ok_or (find (\<lambda>r. tr_id r = run) (t_runs st)) ResolveStore) (\<lambda>r.
     ensure ((tr_task r, tr_runtime r, tr_record r, tr_state r, tr_recovery r) = (task, ''workflow'', record, Blocked, ''recoverable'')) TaskMismatch)"

definition open_for :: "string \<Rightarrow> exact_effect \<Rightarrow> task_store \<Rightarrow> task_event_row \<Rightarrow> bool" where
  "open_for run x st e \<longleftrightarrow>
     (let names = (\<lambda>d. payload_value d ''nodeId'' = Some (JStr (ex_node x)) \<and> payload_value d ''idempotencyKey'' = Some (JStr (ex_key x)) \<and>
         payload_value d ''effectKind'' = Some (JStr (ex_kind x))) in
      te_run e = run \<and> typed VERIFICATION_REQUIRED e \<and> names e \<and>
      \<not> list_ex (\<lambda>d. te_run d = te_run e \<and> te_sequence d > te_sequence e \<and> typed VERIFICATION_RESOLVED d \<and> names d) (t_events st))"

definition latest_open :: "string \<Rightarrow> exact_effect \<Rightarrow> task_store \<Rightarrow> int option" where
  "latest_open run x st =
     (case map te_sequence (filter (open_for run x st) (t_events st)) of [] \<Rightarrow> None | s # ss \<Rightarrow> Some (fold max ss s))"

definition require_exact_unresolved_event ::
  "resolve_env \<Rightarrow> string \<Rightarrow> string \<Rightarrow> int \<Rightarrow> exact_effect \<Rightarrow> task_store \<Rightarrow> resolve_error + unit" where
  "require_exact_unresolved_event env run task sequence x st =
     and_then (ok_or (find (\<lambda>e. te_run e = run \<and> te_sequence e = sequence) (t_events st)) DecisionStale) (\<lambda>e.
     and_then (ensure (readable_event env (te_event e)) AuditInvalid) (\<lambda>_.
     and_then (ensure (boundary_event run task (ex_sequence x) (te_event e) \<and>
       json_get (ev_payload (te_event e)) ''nodeId'' = Some (JStr (ex_node x)) \<and>
       json_get (ev_payload (te_event e)) ''idempotencyKey'' = Some (JStr (ex_key x)) \<and>
       json_get (ev_payload (te_event e)) ''effectKind'' = Some (JStr (ex_kind x))) BoundaryMismatch) (\<lambda>_.
     ensure (latest_open run x st = Some sequence) DecisionStale)))"

definition require_exact_effect_and_checkpoint :: "string \<Rightarrow> string \<Rightarrow> exact_effect \<Rightarrow> task_store \<Rightarrow> resolve_error + unit" where
  "require_exact_effect_and_checkpoint run record x st =
     and_then (ensure (map_option (\<lambda>f. (fx_kind f, fx_state f, fx_digest f)) (find (\<lambda>f. fx_run f = run \<and> fx_key f = ex_key x) (t_effects st)) =
       Some (ex_kind x, ''executed'', None)) EffectChanged) (\<lambda>_.
     and_then (ok_or (find (\<lambda>r. rr_id r = record) (t_instances st)) ResolveStore) (\<lambda>instance.
     ensure (rr_status instance = ''Failed'' \<and>
       Option.bind (Option.bind (Option.bind (json_get (rr_payloads instance) (ex_node x)) (\<lambda>p. json_get p ''error'')) (\<lambda>p. json_get p ''code'')) json_str =
         Some ''workflow_effect_verification_required'') NotStoppedHere))"

definition waiting_task :: "string \<Rightarrow> task_row \<Rightarrow> bool" where
  "waiting_task run r \<longleftrightarrow> tr_id r = run \<and> tr_state r = Blocked \<and> tr_recovery r = ''recoverable''"

definition failed_instance :: "string \<Rightarrow> runtime_record \<Rightarrow> bool" where
  "failed_instance record r \<longleftrightarrow> rr_id r = record \<and> rr_status r = ''Failed''"

definition effect_row_of :: "string \<Rightarrow> exact_effect \<Rightarrow> effect_row \<Rightarrow> bool" where
  "effect_row_of run x f \<longleftrightarrow> fx_run f = run \<and> fx_key f = ex_key x \<and> fx_kind f = ex_kind x \<and> fx_state f = ''executed'' \<and> fx_digest f = None"

definition release_exact_effect_once ::
  "string \<Rightarrow> string \<Rightarrow> exact_effect \<Rightarrow> int \<Rightarrow> task_store \<Rightarrow> resolve_error + task_store" where
  "release_exact_effect_once run record x now st =
     and_then (ok_or (find (\<lambda>(s, i, t). i = record \<and> t = run) (t_routine_runs st)) NoSchedule) (\<lambda>(schedule, _, _).
     let S = (\<lambda>s. sc_id s = schedule \<and> sc_last_instance s = Some record) in
     and_then (ensure (\<not> (changed_rows (effect_row_of run x) (t_effects st) \<noteq> 1 \<or> changed_rows (failed_instance record) (t_instances st) \<noteq> 1 \<or>
       changed_rows S (t_schedules st) \<noteq> 1 \<or> changed_rows (waiting_task run) (t_runs st) \<noteq> 1)) RetryBoundary) (\<lambda>_.
     Ok (st\<lparr>t_effects := filter (\<lambda>f. \<not> effect_row_of run x f) (t_effects st),
       t_instances := update_rows (failed_instance record) (\<lambda>r. r\<lparr>rr_status := ''Pending'', rr_active_node := None, rr_error := None,
         rr_completed := None, rr_updated := now\<rparr>) (t_instances st),
       t_schedules := update_rows S (\<lambda>s. s\<lparr>sc_is_active := True, sc_claimed := None, sc_next_run := Some now, sc_last_status := ''Pending'',
         sc_last_error := None, sc_last_instance := Some record, sc_updated := now\<rparr>) (t_schedules st),
       t_runs := update_rows (waiting_task run) (\<lambda>r. r\<lparr>tr_state := Queued, tr_last_error := None, tr_recovery := ''reconciled'',
         tr_completed := None, tr_updated := now\<rparr>) (t_runs st)\<rparr>)))"

definition stop_exact_run ::
  "string \<Rightarrow> string \<Rightarrow> string \<Rightarrow> task_state \<Rightarrow> string \<Rightarrow> int \<Rightarrow> task_store \<Rightarrow> resolve_error + task_store" where
  "stop_exact_run run record stop_error state last_error now st =
     and_then (ensure (\<not> (changed_rows (failed_instance record) (t_instances st) \<noteq> 1 \<or> changed_rows (waiting_task run) (t_runs st) \<noteq> 1)) StopBoundary) (\<lambda>_.
     Ok (st\<lparr>t_instances := update_rows (failed_instance record) (\<lambda>r. r\<lparr>rr_status := ''Failed'', rr_active_node := None,
         rr_error := Some stop_error, rr_completed := coalesce (rr_completed r) (Some now), rr_updated := now\<rparr>) (t_instances st),
       t_runs := update_rows (waiting_task run) (\<lambda>r. r\<lparr>tr_state := state, tr_last_error := Some last_error, tr_recovery := ''reconciled'',
         tr_completed := Some now, tr_updated := now\<rparr>) (t_runs st)\<rparr>))"

definition stop_after_observed_occurrence :: "string \<Rightarrow> string \<Rightarrow> int \<Rightarrow> task_store \<Rightarrow> resolve_error + task_store" where
  "stop_after_observed_occurrence run record now st = stop_exact_run run record
     (''{\"code\":\"workflow_effect_stopped_after_user_observation\",\"message\":\"The user observed that the protected action happened. '' @
      ''OOMU stopped without repeating it and did not mark the workflow complete.\"}'') Failed
     ''The protected action happened, so OOMU stopped without repeating it. This Task was not marked complete.'' now st"

definition stop_with_unknown_outcome :: "string \<Rightarrow> string \<Rightarrow> int \<Rightarrow> task_store \<Rightarrow> resolve_error + task_store" where
  "stop_with_unknown_outcome run record now st = stop_exact_run run record
     (''{\"code\":\"workflow_effect_stopped_outcome_unknown\",\"message\":\"The user stopped this run without repeating the protected action. '' @
      ''Its outcome remains unknown, and OOMU did not mark the workflow complete.\"}'') Cancelled
     ''The protected action outcome is unknown. OOMU stopped this run without repeating it.'' now st"

definition apply_decision ::
  "resolve_env \<Rightarrow> resolve_request \<Rightarrow> exact_effect \<Rightarrow> task_store \<Rightarrow> resolve_error + (string \<times> string) \<times> task_store" where
  "apply_decision env q x st =
     (let now = k_now (z_task env) in
      case rq_decision q of
        DidNotHappen \<Rightarrow> and_then (release_exact_effect_once (rq_run q) (rq_record q) x now st)
          (\<lambda>st. Ok ((''retry_requested'', ''retry_exact_effect_once''), st))
      | Happened \<Rightarrow> and_then (stop_after_observed_occurrence (rq_run q) (rq_record q) now st) (\<lambda>st. Ok ((''stopped_unverified'', ''none''), st))
      | StopWithoutRepeating \<Rightarrow> and_then (stop_with_unknown_outcome (rq_run q) (rq_record q) now st)
          (\<lambda>st. Ok ((''stopped_outcome_unknown'', ''none''), st)))"

definition resolved_payload :: "resolve_request \<Rightarrow> exact_effect \<Rightarrow> string \<Rightarrow> json" where
  "resolved_payload q x next_action = JObj [(''verificationSequence'', JInt (int (ex_sequence x))), (''nodeId'', JStr (ex_node x)),
     (''idempotencyKey'', JStr (ex_key x)), (''effectKind'', JStr (ex_kind x)), (''decision'', JStr (decision_text (rq_decision q))),
     (''nextAction'', JStr next_action), (''runtimeRecordId'', JStr (rq_record q)),
     (''outcome'', JStr (case rq_decision q of DidNotHappen \<Rightarrow> ''observed_not_happened'' | Happened \<Rightarrow> ''observed_happened''
        | StopWithoutRepeating \<Rightarrow> ''outcome_unknown'')),
     (''postconditionVerified'', JBool False)]"

definition matches_request :: "resolve_request \<Rightarrow> task_view \<Rightarrow> bool" where
  "matches_request q t \<longleftrightarrow> \<not> (tr_task (tv_row t) \<noteq> rq_task q \<or> tr_runtime (tv_row t) \<noteq> ''workflow'' \<or> tr_record (tv_row t) \<noteq> rq_record q \<or>
     tr_state (tv_row t) \<noteq> Blocked \<or> tr_recovery (tv_row t) \<noteq> ''recoverable'' \<or> \<not> tv_verification_required t)"

text \<open>The end of the transaction: the row of the audit and the event.\<close>

definition audited :: "resolve_env \<Rightarrow> resolve_request \<Rightarrow> string \<Rightarrow> string \<Rightarrow> task_store \<Rightarrow> task_store" where
  "audited env q resolved_state next_action st = st\<lparr>t_audit := t_audit st @ [\<lparr>ra_run = rq_run q, ra_resolved = resolved_state,
     ra_decision = decision_text (rq_decision q), ra_next_action = next_action, ra_created = k_now (z_task env)\<rparr>]\<rparr>"

definition record_resolution ::
  "resolve_env \<Rightarrow> resolve_request \<Rightarrow> task_view \<Rightarrow> exact_effect \<Rightarrow> string \<Rightarrow> string \<Rightarrow> task_store \<Rightarrow> resolve_error + task_store" where
  "record_resolution env q t x resolved_state next_action st =
     (case append_event_in_transaction (z_task env) (tv_row t) VERIFICATION_RESOLVED ExecutedMutation (resolved_payload q x next_action)
         (audited env q resolved_state next_action st) of
       Inl _ \<Rightarrow> Err ResolveStore
     | Inr (None, st) \<Rightarrow> Err AuditBindingRequired
     | Inr (Some _, st) \<Rightarrow> Ok st)"

text \<open>The transaction, for a task read before it.\<close>

definition resolve_transaction :: "resolve_env \<Rightarrow> resolve_request \<Rightarrow> task_view \<Rightarrow> task_store \<Rightarrow> resolve_error + task_store" where
  "resolve_transaction env q t st =
     and_then (require_current_task_binding (rq_run q) (rq_task q) (rq_record q) st) (\<lambda>_.
     and_then (exact_verification_for_request env (rq_run q) (rq_task q) q st) (\<lambda>x.
     and_then (ensure (int (ex_sequence x) \<le> i64_max) DecisionStale) (\<lambda>_.
     and_then (require_exact_unresolved_event env (rq_run q) (rq_task q) (int (ex_sequence x)) x st) (\<lambda>_.
     and_then (require_exact_effect_and_checkpoint (rq_run q) (rq_record q) x st) (\<lambda>_.
     and_then (apply_decision env q x st) (\<lambda>((resolved_state, next_action), st).
     record_resolution env q t x resolved_state next_action st))))))"

definition resolve_read :: "resolve_env \<Rightarrow> resolve_request \<Rightarrow> task_store \<Rightarrow> resolve_error + task_view" where
  "resolve_read env q st =
     and_then (ensure (k_durable (z_task env)) NotDurable) (\<lambda>_.
     and_then (ensure (is_ok (parse_id TaskRunId (rq_run q)) \<and> is_ok (parse_id TaskId (rq_task q))) InvalidRequestIds) (\<lambda>_.
     and_then (validate_identity (rq_record q) 256) (\<lambda>_.
     and_then (case get_task (rq_run q) st of Inl _ \<Rightarrow> Err ResolveStore | Inr t \<Rightarrow> Ok t) (\<lambda>t.
     and_then (ensure (matches_request q t) TaskMismatch) (\<lambda>_. Ok t)))))"

definition resolve_effect_verification :: "resolve_env \<Rightarrow> resolve_request \<Rightarrow> task_store \<Rightarrow> resolve_error + task_view \<times> task_store" where
  "resolve_effect_verification env q st =
     and_then (resolve_read env q st) (\<lambda>t.
     and_then (resolve_transaction env q t st) (\<lambda>st.
     case get_task (rq_run q) st of Inl _ \<Rightarrow> Err ResolveStore | Inr after \<Rightarrow> Ok (after, st)))"

end
