(* ===== verification/Effect_Runs.thy ===== *)
theory Effect_Runs
  imports Effect_Verification Transition_System
begin

text \<open>
  Runs of protected effects: any number of executions of tools, between any two database statements,
  with the user's decisions, the effect commands and the rest of the application. The histories are
  the tools that were run, the reservations that were removed and why, and the results that were
  returned. The application may change every table, but of the effects only those whose key is not
  one of a workflow (the deliveries of routines use their own keys); the deletion of tasks and their
  effects (by a cleanup or with a project) is a step of its own. A statement may fail, after which the
  call ends or halts the task; a call may also end at any statement because the program ends.
\<close>

subsection \<open>Calls\<close>

datatype effect_call =
  Reserving reserved_effect
| ReadingBack reserved_effect bool
| LoadingReceipt reserved_effect bool effect_row
| Replaying reserved_effect string json
| Claiming reserved_effect
| ClaimLost reserved_effect
| Performing reserved_effect
| Concluding reserved_effect tool_outcome
| Verifying reserved_effect json
| Recording reserved_effect json
| MarkingVerified reserved_effect json
| Releasing reserved_effect string
| NotingUnchanged reserved_effect string
| Halting reserved_effect string
| BlockingTask reserved_effect string
| Requiring reserved_effect string

datatype release_cause = ReportedUnchanged | UserDecided | TaskDeleted

record effect_system =
  x_store :: task_store
  x_calls :: "effect_call list"
  x_performed :: "(string \<times> string) list"
  x_released :: "(release_cause \<times> string \<times> string) list"
  x_returned :: "(reserved_effect \<times> json) list"

definition effect_id :: "reserved_effect \<Rightarrow> string \<times> string" where
  "effect_id e = (re_run e, re_key e)"

definition row_id :: "effect_row \<Rightarrow> string \<times> string" where
  "row_id f = (fx_run f, fx_key f)"

definition removed :: "release_cause \<Rightarrow> task_store \<Rightarrow> task_store \<Rightarrow> (release_cause \<times> string \<times> string) list" where
  "removed cause st st' = map (\<lambda>f. (cause, row_id f)) (filter (\<lambda>f. row_id f \<notin> row_id ` set (t_effects st')) (t_effects st))"

text \<open>The next statement of a call: the store, what is left of the call, and a result it returns.\<close>

fun advance_effect :: "journal_env \<Rightarrow> effect_call \<Rightarrow> task_store \<Rightarrow> task_store \<times> effect_call option \<times> json option" where
  "advance_effect env (Reserving e) st = (case insert_effect (k_now (j_task env)) (re_run e) (re_key e) (re_operation e) st of
       Inl _ \<Rightarrow> (st, None, None) | Inr (inserted, st) \<Rightarrow> (st, Some (ReadingBack e inserted), None))"
| "advance_effect env (ReadingBack e inserted) st = (case bound_effect e st of None \<Rightarrow> (st, None, None)
     | Some bound \<Rightarrow> (st, if fx_kind bound \<noteq> re_operation e then None else Some (LoadingReceipt e inserted bound), None))"
| "advance_effect env (LoadingReceipt e inserted bound) st =
     (st, Some (case reserve_decision (re_operation e) inserted bound (load_verified_effect_receipt env e st) of
        HaltFor code \<Rightarrow> Halting e code | ExecuteNow \<Rightarrow> Claiming e | ReplayOf digest result \<Rightarrow> Replaying e digest result), None)"
| "advance_effect env (Replaying e digest result) st = (let (n, st) = verify_row e digest (k_now (j_task env)) st in
     if n \<noteq> 1 then (st, Some (Halting e ''workflow_effect_verification_lost''), None) else (st, None, Some result))"
| "advance_effect env (Claiming e) st = (let (n, st) = claim_row e (k_now (j_task env)) st in
     (st, Some (if n = 1 then Performing e else ClaimLost e), None))"
| "advance_effect env (ClaimLost e) st = (st, Some (case load_verified_effect_receipt env e st of
       Inl code \<Rightarrow> Halting e code | Inr None \<Rightarrow> Halting e ''workflow_effect_execution_ambiguous''
     | Inr (Some (digest, result)) \<Rightarrow> Replaying e digest result), None)"
| "advance_effect env (Performing e) st = (st, Some (Performing e), None)"
| "advance_effect env (Concluding e outcome) st = (st, Some (case outcome of
       NoRuntime code \<Rightarrow> Halting e code | TimedOut code \<Rightarrow> Halting e code
     | ToolFailed code unchanged \<Rightarrow> if unchanged then Releasing e code else Halting e code
     | Answered response \<Rightarrow> (case verified_result env response of Inl code \<Rightarrow> Halting e code | Inr result \<Rightarrow> Verifying e result)), None)"
| "advance_effect env (Verifying e result) st = (st, Some (case load_verified_effect_receipt env e st of
       Inl code \<Rightarrow> Halting e code | Inr None \<Rightarrow> Recording e result
     | Inr (Some (d, r)) \<Rightarrow> if d \<noteq> j_sha256_hex env (j_encode env result) \<or> r \<noteq> result then Halting e ''workflow_effect_receipt_conflict''
         else MarkingVerified e result), None)"
| "advance_effect env (Recording e result) st =
     (case record_domain_event (j_task env) (re_run e) EFFECT_VERIFIED VerifiedPostcondition
         (verified_payload e (j_sha256_hex env (j_encode env result)) result) st of
       Inl _ \<Rightarrow> (st, Some (Halting e ''workflow_effect_receipt_persistence_failed''), None)
     | Inr st \<Rightarrow> (st, Some (MarkingVerified e result), None))"
| "advance_effect env (MarkingVerified e result) st =
     (let (n, st) = verify_row e (j_sha256_hex env (j_encode env result)) (k_now (j_task env)) st in
      if n \<noteq> 1 then (st, Some (Halting e ''workflow_effect_verification_lost''), None) else (st, None, Some result))"
| "advance_effect env (Releasing e code) st = (let (n, st) = delete_effects (releasable e) st in
     (st, Some (if n \<noteq> 1 then Halting e ''workflow_effect_unchanged_release_failed'' else NotingUnchanged e code), None))"
| "advance_effect env (NotingUnchanged e code) st =
     (case record_domain_event (j_task env) (re_run e) ''workflow.effect.unchanged'' ObservedResult
         (JObj [(''idempotencyKey'', JStr (re_key e)), (''effectKind'', JStr (re_operation e)), (''errorCode'', JStr code),
            (''changedState'', JBool False)]) st of Inl _ \<Rightarrow> (st, None, None) | Inr st \<Rightarrow> (st, None, None))"
| "advance_effect env (Halting e code) st = (let (n, st) = halt_row e (k_now (j_task env)) st in
     (st, if n \<noteq> 1 then None else Some (BlockingTask e code), None))"
| "advance_effect env (BlockingTask e code) st = (let (n, st) = block_task e (k_now (j_task env)) st in
     (st, if n \<noteq> 1 then None else Some (Requiring e code), None))"
| "advance_effect env (Requiring e code) st =
     (case record_domain_event (j_task env) (re_run e) VERIFICATION_REQUIRED ObservedResult (required_payload e code (retry_supported e st)) st of
       Inl _ \<Rightarrow> (st, None, None) | Inr st \<Rightarrow> (st, None, None))"

fun call_effect :: "effect_call \<Rightarrow> reserved_effect" where
  "call_effect (Reserving e) = e" | "call_effect (ReadingBack e _) = e" | "call_effect (LoadingReceipt e _ _) = e"
| "call_effect (Replaying e _ _) = e" | "call_effect (Claiming e) = e" | "call_effect (ClaimLost e) = e" | "call_effect (Performing e) = e"
| "call_effect (Concluding e _) = e" | "call_effect (Verifying e _) = e" | "call_effect (Recording e _) = e"
| "call_effect (MarkingVerified e _) = e" | "call_effect (Releasing e _) = e" | "call_effect (NotingUnchanged e _) = e"
| "call_effect (Halting e _) = e" | "call_effect (BlockingTask e _) = e" | "call_effect (Requiring e _) = e"

definition workflow_row :: "effect_row \<Rightarrow> bool" where
  "workflow_row f = starts_with (fx_key f) ''workflow-task:''"

inductive effect_step :: "journal_env \<Rightarrow> effect_system \<Rightarrow> effect_system \<Rightarrow> bool" for env :: journal_env where
  begins: "effect_step env w (w\<lparr>x_calls := Reserving (new_effect env run node operation arguments) # x_calls w\<rparr>)"
| advances: "x_calls w = xs @ c # ys \<Longrightarrow> advance_effect (env\<lparr>j_task := clock\<rparr>) c (x_store w) = (st, c', r) \<Longrightarrow>
    effect_step env w (w\<lparr>x_store := st, x_calls := xs @ (case c' of None \<Rightarrow> [] | Some d \<Rightarrow> [d]) @ ys,
      x_released := x_released w @ removed ReportedUnchanged (x_store w) st,
      x_returned := x_returned w @ (case r of None \<Rightarrow> [] | Some v \<Rightarrow> [(call_effect c, v)])\<rparr>)"
| performs: "x_calls w = xs @ Performing e # ys \<Longrightarrow>
    effect_step env w (w\<lparr>x_calls := xs @ Concluding e outcome # ys,
      x_performed := x_performed w @ (case outcome of NoRuntime _ \<Rightarrow> [] | _ \<Rightarrow> [effect_id e])\<rparr>)"
| ends: "x_calls w = xs @ c # ys \<Longrightarrow> effect_step env w (w\<lparr>x_calls := xs @ ys\<rparr>)"
| fails: "x_calls w = xs @ c # ys \<Longrightarrow> effect_step env w (w\<lparr>x_calls := xs @ Halting (call_effect c) code # ys\<rparr>)"
| resolves: "resolve_transaction renv q t (x_store w) = Ok st \<Longrightarrow>
    effect_step env w (w\<lparr>x_store := st, x_released := x_released w @ removed UserDecided (x_store w) st\<rparr>)"
| deletes: "st = delete_tasks P (x_store w) \<Longrightarrow>
    effect_step env w (w\<lparr>x_store := st, x_released := x_released w @ removed TaskDeleted (x_store w) st\<rparr>)"
| reserves_by_command: "reserve_effect tenv run key kind (x_store w) = Ok (b, st) \<Longrightarrow> effect_step env w (w\<lparr>x_store := st\<rparr>)"
| verifies_by_command: "verify_effect_command tenv run key digest (x_store w) = Ok st \<Longrightarrow> effect_step env w (w\<lparr>x_store := st\<rparr>)"
| application: "filter workflow_row (t_effects st) = filter workflow_row (t_effects (x_store w)) \<Longrightarrow>
    effect_step env w (w\<lparr>x_store := st\<rparr>)"

definition effect_start :: "task_store \<Rightarrow> effect_system" where
  "effect_start st = \<lparr>x_store = st, x_calls = [], x_performed = [], x_released = [], x_returned = []\<rparr>"

definition effects_keyed :: "task_store \<Rightarrow> bool" where
  "effects_keyed st \<longleftrightarrow> distinct (map row_id (filter workflow_row (t_effects st)))"

definition effect_reachable :: "journal_env \<Rightarrow> effect_system \<Rightarrow> bool" where
  "effect_reachable env w \<longleftrightarrow> (\<exists>st. effects_keyed st \<and> (effect_step env)\<^sup>*\<^sup>* (effect_start st) w)"

subsection \<open>Accounting\<close>

text \<open>Whether the reservation of an effect has been used up, and the calls that hold it.\<close>

definition spent :: "string \<times> string \<Rightarrow> task_store \<Rightarrow> nat" where
  "spent k st = (if list_ex (\<lambda>f. row_id f = k \<and> fx_state f \<noteq> ''reserved'') (t_effects st) then 1 else 0)"

fun performing :: "effect_call \<Rightarrow> (string \<times> string) list" where
  "performing (Performing e) = [effect_id e]"
| "performing _ = []"

definition workflow_id :: "string \<times> string \<Rightarrow> bool" where
  "workflow_id k = starts_with (snd k) ''workflow-task:''"

fun sound_call :: "journal_env \<Rightarrow> effect_call \<Rightarrow> bool" where
  "sound_call env (Replaying e digest result) = (digest = j_sha256_hex env (j_encode env result))"
| "sound_call env _ = True"

definition effect_inv :: "journal_env \<Rightarrow> effect_system \<Rightarrow> bool" where
  "effect_inv env w \<longleftrightarrow> effects_keyed (x_store w) \<and>
     (\<forall>c \<in> set (x_calls w). workflow_id (effect_id (call_effect c)) \<and> sound_call env c) \<and>
     (\<forall>k. workflow_id k \<longrightarrow> count_list (x_performed w) k + count_list (concat (map performing (x_calls w))) k \<le>
        count_list (map snd (x_released w)) k + spent k (x_store w))"

lemma keyed_update:
  "effects_keyed st \<Longrightarrow> (\<And>f. P f \<Longrightarrow> fx_run (g f) = fx_run f \<and> fx_key (g f) = fx_key f) \<Longrightarrow>
   effects_keyed (st\<lparr>t_effects := update_rows P g (t_effects st)\<rparr>)"
proof -
  assume k: "effects_keyed st" and g: "\<And>f. P f \<Longrightarrow> fx_run (g f) = fx_run f \<and> fx_key (g f) = fx_key f"
  have "map row_id (filter workflow_row (update_rows P g fs)) = map row_id (filter workflow_row fs)" for fs
    using g by (induction fs) (auto simp: update_rows_def workflow_row_def row_id_def)
  then show ?thesis using k by (simp add: effects_keyed_def)
qed

lemma spent_mono:
  "(\<And>f. f \<in> set (t_effects st) \<Longrightarrow> fx_state f \<noteq> ''reserved'' \<Longrightarrow> row_id f = k \<Longrightarrow>
      \<exists>g \<in> set (t_effects st'). row_id g = k \<and> fx_state g \<noteq> ''reserved'') \<Longrightarrow> spent k st \<le> spent k st'"
  by (auto simp: spent_def list_ex_iff)

lemma spent_update:
  assumes g: "\<And>f. P f \<Longrightarrow> fx_run (g f) = fx_run f \<and> fx_key (g f) = fx_key f \<and> fx_state (g f) \<noteq> ''reserved''"
  shows "spent k st \<le> spent k (st\<lparr>t_effects := update_rows P g (t_effects st)\<rparr>)"
proof (rule spent_mono)
  fix f assume f: "f \<in> set (t_effects st)" "fx_state f \<noteq> ''reserved''" "row_id f = k"
  then have "(if P f then g f else f) \<in> set (update_rows P g (t_effects st))" by (simp add: set_update_rows)
  moreover have "row_id (if P f then g f else f) = k \<and> fx_state (if P f then g f else f) \<noteq> ''reserved''"
    using f g by (simp add: row_id_def)
  ultimately show "\<exists>h \<in> set (t_effects (st\<lparr>t_effects := update_rows P g (t_effects st)\<rparr>)). row_id h = k \<and> fx_state h \<noteq> ''reserved''"
    by auto
qed

text \<open>
  What a step owes: the keys stay, and a reservation that was used up is used up afterwards, or is
  among the removed; what it takes is used up by it.
\<close>

definition accounted :: "task_store \<Rightarrow> (string \<times> string) list \<Rightarrow> (release_cause \<times> string \<times> string) list \<Rightarrow> task_store \<Rightarrow> bool" where
  "accounted st taken gone st' \<longleftrightarrow> effects_keyed st' \<and>
     (\<forall>k. workflow_id k \<longrightarrow> spent k st + count_list taken k \<le> count_list (map snd gone) k + spent k st')"

lemma account_update:
  "effects_keyed st \<Longrightarrow>
   (\<And>f. P f \<Longrightarrow> fx_run (g f) = fx_run f \<and> fx_key (g f) = fx_key f \<and> fx_state (g f) \<noteq> ''reserved'') \<Longrightarrow>
   accounted st [] gone (st\<lparr>t_effects := update_rows P g (t_effects st)\<rparr>)"
  using spent_update [of P g] keyed_update [of st P g] by (simp add: accounted_def trans_le_add2)

lemma account_same: "effects_keyed st \<Longrightarrow> t_effects st' = t_effects st \<Longrightarrow> accounted st [] gone st'"
  by (simp add: accounted_def effects_keyed_def spent_def)

lemma workflow_row_id: "workflow_row f \<longleftrightarrow> workflow_id (row_id f)"
  by (simp add: workflow_row_def workflow_id_def row_id_def)

lemma keyed_row:
  "effects_keyed st \<Longrightarrow> f \<in> set (t_effects st) \<Longrightarrow> g \<in> set (t_effects st) \<Longrightarrow> row_id f = row_id g \<Longrightarrow> workflow_id (row_id f) \<Longrightarrow> f = g"
  unfolding effects_keyed_def by (rule distinct_key_eq [of row_id "filter workflow_row (t_effects st)"]) (auto simp: workflow_row_id)

lemma keyed_only:
  "effects_keyed st \<Longrightarrow> workflow_id k \<Longrightarrow> f \<in> set (t_effects st) \<Longrightarrow> row_id f = k \<Longrightarrow> g \<in> set (t_effects st) \<Longrightarrow> row_id g = k \<Longrightarrow> g = f"
  by (rule keyed_row [of st]) simp_all

lemma account_delete:
  assumes keyed: "effects_keyed st" and st': "t_effects st' = filter Q (t_effects st)"
  shows "accounted st [] (removed cause st st') st'"
  unfolding accounted_def
proof (intro conjI allI impI)
  show "effects_keyed st'"
    using keyed distinct_map_filter [of row_id "filter workflow_row (t_effects st)" Q]
    by (simp add: effects_keyed_def st' conj_commute)
next
  fix k assume k: "workflow_id k"
  show "spent k st + count_list [] k \<le> count_list (map snd (removed cause st st')) k + spent k st'"
  proof (cases "\<exists>f \<in> set (t_effects st). row_id f = k \<and> fx_state f \<noteq> ''reserved'' \<and> \<not> Q f")
    case True
    then obtain f where f: "f \<in> set (t_effects st)" "row_id f = k" "\<not> Q f" by blast
    have "Q g \<Longrightarrow> g \<in> set (t_effects st) \<Longrightarrow> row_id g \<noteq> k" for g using keyed_only [OF keyed k f(1,2), of g] f(3) by blast
    then have "k \<notin> row_id ` set (t_effects st')" by (auto simp: st')
    then have "k \<in> set (map snd (removed cause st st'))" using f by (auto simp: removed_def image_image)
    then have "count_list (map snd (removed cause st st')) k \<noteq> 0" by (simp add: count_list_0_iff)
    then show ?thesis by (auto simp: spent_def)
  next
    case False
    then have "spent k st \<le> spent k st'" by (intro spent_mono) (auto simp: st')
    then show ?thesis by simp
  qed
qed

lemma account_insert:
  assumes keyed: "effects_keyed st" and insert: "insert_effect now run key kind st = Ok (b, st')"
  shows "accounted st [] gone st'"
proof -
  have st': "st' = st \<or> (run, key) \<notin> row_id ` set (t_effects st) \<and>
      t_effects st' = t_effects st @ [\<lparr>fx_run = run, fx_key = key, fx_kind = kind, fx_state = ''reserved'', fx_digest = None, fx_updated = now\<rparr>]"
    using insert by (auto simp: insert_effect_def and_then_eq_Ok ensure_eq_Ok list_ex_iff row_id_def split: if_splits)
  then have "effects_keyed st'" using keyed by (auto simp: effects_keyed_def row_id_def)
  have "set (t_effects st) \<subseteq> set (t_effects st')" using st' by auto
  moreover have "spent k st \<le> spent k st'" for k using \<open>set (t_effects st) \<subseteq> _\<close> by (intro spent_mono) auto
  ultimately show ?thesis using \<open>effects_keyed st'\<close> by (simp add: accounted_def trans_le_add2)
qed

lemma account_claim:
  assumes keyed: "effects_keyed st" and e: "workflow_id (effect_id e)" and claim: "claim_row e now st = (1, st')"
  shows "accounted st [effect_id e] gone st'"
proof -
  define P where "P = (\<lambda>f. effect_of e f \<and> fx_state f = ''reserved'')"
  define g where "g = (\<lambda>f :: effect_row. f\<lparr>fx_state := ''executed'', fx_updated := now\<rparr>)"
  have st': "st' = st\<lparr>t_effects := update_rows P g (t_effects st)\<rparr>" and n: "changed_rows P (t_effects st) = 1"
    using claim by (simp_all add: claim_row_def update_effects_def P_def g_def)
  have grow: "accounted st [] gone st'" unfolding st' by (rule account_update [OF keyed]) (simp add: g_def)
  obtain f where f: "f \<in> set (t_effects st)" "P f" using changed_rows_pos [OF n] by blast
  then have id: "row_id f = effect_id e" by (simp add: P_def effect_of_def row_id_def effect_id_def)
  have "spent (effect_id e) st = 0"
    using keyed_only [OF keyed e f(1) id] f(2) unfolding spent_def list_ex_iff P_def by fastforce
  moreover have "g f \<in> set (t_effects st')" using updated_row [of f _ P g] f by (simp add: st')
  then have "spent (effect_id e) st' = 1" 
    using id unfolding spent_def list_ex_iff by (auto simp: g_def row_id_def intro!: bexI [of _ "g f"])
  ultimately show ?thesis using grow by (auto simp: accounted_def)
qed

end
