(* ===== verification/Effect_Inv.thy ===== *)
theory Effect_Inv
  imports Effect_Runs
begin

text \<open>
  The invariant of runs of protected effects: for every effect of a workflow, the tools that were run
  and those about to run are at most the reservations that were removed and the one that is used up.
  Every statement of a call, every decision of the user and every deletion keeps the account.
\<close>

subsection \<open>Statements that leave the effects\<close>

lemma append_event_in_transaction_effects:
  "append_event_in_transaction env t ty ev p st = Ok (n, st') \<Longrightarrow> t_effects st' = t_effects st"
  by (auto simp: append_event_in_transaction_def Let_def result_simps split: option.splits)

lemma record_domain_event_effects:
  "record_domain_event env run ty ev p st = Ok st' \<Longrightarrow> t_effects st' = t_effects st"
  by (auto simp: record_domain_event_def append_event_def result_simps dest: append_event_in_transaction_effects)

lemma block_task_effects: "block_task e now st = (n, st') \<Longrightarrow> t_effects st' = t_effects st"
  by (auto simp: block_task_def Let_def)

subsection \<open>Statements on the effects\<close>

lemma account_effects_update:
  assumes "effects_keyed st" and "update_effects P g st = (n, st')"
    and "\<And>f. P f \<Longrightarrow> fx_run (g f) = fx_run f \<and> fx_key (g f) = fx_key f \<and> fx_state (g f) \<noteq> ''reserved''"
  shows "accounted st [] gone st'"
  using account_update [OF assms(1), of P g gone] assms(2,3) by (auto simp: update_effects_def)

lemma account_verify: "effects_keyed st \<Longrightarrow> verify_row e d now st = (n, st') \<Longrightarrow> accounted st [] gone st'"
  unfolding verify_row_def by (erule account_effects_update, assumption) auto

lemma account_halt: "effects_keyed st \<Longrightarrow> halt_row e now st = (n, st') \<Longrightarrow> accounted st [] gone st'"
  unfolding halt_row_def by (erule account_effects_update, assumption) auto

lemma account_claim_any: "effects_keyed st \<Longrightarrow> claim_row e now st = (n, st') \<Longrightarrow> accounted st [] gone st'"
  unfolding claim_row_def by (erule account_effects_update, assumption) auto

lemma account_release:
  "effects_keyed st \<Longrightarrow> delete_effects P st = (n, st') \<Longrightarrow> accounted st [] (removed cause st st') st'"
  by (rule account_delete [of _ _ "\<lambda>f. \<not> P f"]) (auto simp: delete_effects_def)

lemmas account_statements = account_verify account_halt account_claim_any account_release account_insert account_same
  account_same [OF _ record_domain_event_effects] account_same [OF _ block_task_effects]

text \<open>What a statement of a call takes: the reservation, when the call goes on to run the tool.\<close>

definition taken :: "effect_call option \<Rightarrow> (string \<times> string) list" where
  "taken c = (case c of None \<Rightarrow> [] | Some d \<Rightarrow> performing d)"

lemma account_advance:
  assumes keyed: "effects_keyed st" and e: "workflow_id (effect_id (call_effect c))"
    and c: "\<nexists>e. c = Performing e" and step: "advance_effect env c st = (st', c', r)"
  shows "accounted st (taken c') (removed ReportedUnchanged st st') st'"
proof (cases c)
  case (Claiming d)
  obtain n st1 where claim: "claim_row d (k_now (j_task env)) st = (n, st1)" by (metis prod.exhaust)
  show ?thesis
  proof (cases "n = 1")
    case True
    then show ?thesis using account_claim [OF keyed _ claim [unfolded True]] step e claim by (auto simp: Claiming taken_def)
  next
    case False
    then show ?thesis using account_claim_any [OF keyed claim] step claim by (auto simp: Claiming taken_def)
  qed
next
  case (Performing d)
  then show ?thesis using c by blast
qed (use keyed step in \<open>auto simp: taken_def Let_def split: prod.splits sum.splits option.splits if_splits reserve_next.splits tool_outcome.splits
      intro: account_statements\<close>)

lemma advance_call: "advance_effect env c st = (st', Some d, r) \<Longrightarrow> call_effect d = call_effect c"
  by (cases c) (auto simp: Let_def split: prod.splits sum.splits option.splits if_splits reserve_next.splits tool_outcome.splits)

lemma receipt_digest: "receipt_in env e p = Ok (d, r) \<Longrightarrow> d = j_sha256_hex env (j_encode env r)"
  by (auto simp: receipt_in_def result_simps)

lemma loaded_digest: "load_verified_effect_receipt env e st = Ok (Some (d, r)) \<Longrightarrow> d = j_sha256_hex env (j_encode env r)"
  by (auto simp: load_verified_effect_receipt_def Let_def result_simps split: if_splits dest: receipt_digest)

lemma decision_digest:
  "reserve_decision op i f (load_verified_effect_receipt env e st) = ReplayOf d r \<Longrightarrow> d = j_sha256_hex env (j_encode env r)"
  by (auto simp: reserve_decision_def split: sum.splits option.splits prod.splits if_splits dest: loaded_digest)

lemma advance_sound: "advance_effect env c st = (st', Some d, r) \<Longrightarrow> sound_call env d"
  by (cases c) (auto simp: Let_def split: prod.splits sum.splits option.splits if_splits reserve_next.splits tool_outcome.splits
      dest: loaded_digest decision_digest)

text \<open>Only the clock of an environment changes, so soundness does not depend on it.\<close>

lemma sound_call_clock: "sound_call (env\<lparr>j_task := t\<rparr>) c = sound_call env c"
  by (cases c) simp_all

subsection \<open>Decisions and deletions\<close>

lemma apply_decision_effects:
  "apply_decision env q x st = Ok (o1, st') \<Longrightarrow>
   t_effects st' = (if rq_decision q = DidNotHappen then filter (\<lambda>f. \<not> effect_row_of (rq_run q) x f) (t_effects st) else t_effects st)"
  by (auto simp: apply_decision_def release_exact_effect_once_def stop_after_observed_occurrence_def stop_with_unknown_outcome_def
      stop_exact_run_def Let_def result_simps split: effect_decision.splits prod.splits)

lemma record_resolution_Ok:
  "record_resolution env q t x resolved next_action st = Ok st' \<longleftrightarrow> (\<exists>n. append_event_in_transaction (z_task env) (tv_row t)
     VERIFICATION_RESOLVED ExecutedMutation (resolved_payload q x next_action) (audited env q resolved next_action st) = Ok (Some n, st'))"
  by (auto simp: record_resolution_def split: sum.splits option.splits)

lemma resolve_transaction_Ok:
  assumes "resolve_transaction env q t st = Ok st'"
  obtains x resolved next_action st1 where
    "require_current_task_binding (rq_run q) (rq_task q) (rq_record q) st = Ok ()"
    "exact_verification_for_request env (rq_run q) (rq_task q) q st = Ok x"
    "require_exact_unresolved_event env (rq_run q) (rq_task q) (int (ex_sequence x)) x st = Ok ()"
    "require_exact_effect_and_checkpoint (rq_run q) (rq_record q) x st = Ok ()"
    "apply_decision env q x st = Ok ((resolved, next_action), st1)"
    "record_resolution env q t x resolved next_action st1 = Ok st'"
  using assms unfolding resolve_transaction_def by (auto simp: result_simps)

lemma resolve_effects:
  assumes "resolve_transaction env q t st = Ok st'"
  obtains Q where "t_effects st' = filter Q (t_effects st)"
  using assms
proof (rule resolve_transaction_Ok)
  fix x resolved next_action st1
  assume a: "apply_decision env q x st = Ok ((resolved, next_action), st1)" and "record_resolution env q t x resolved next_action st1 = Ok st'"
  then have "t_effects st' = t_effects st1"
    by (auto simp: record_resolution_Ok audited_def dest: append_event_in_transaction_effects)
  then show thesis using apply_decision_effects [OF a] that [of "\<lambda>_. True"] that by (auto split: if_splits)
qed

lemma account_resolve:
  "effects_keyed st \<Longrightarrow> resolve_transaction env q t st = Ok st' \<Longrightarrow> accounted st [] (removed cause st st') st'"
  by (erule resolve_effects) (rule account_delete)

lemma account_delete_tasks:
  "effects_keyed st \<Longrightarrow> accounted st [] (removed cause st (delete_tasks P st)) (delete_tasks P st)"
  by (rule account_delete [of _ _ "\<lambda>f. fx_run f \<notin> set (map tr_id (filter P (t_runs st)))"]) (simp_all add: delete_tasks_def Let_def)

lemma account_verify_command:
  "effects_keyed st \<Longrightarrow> verify_effect_command env run key digest st = Ok st' \<Longrightarrow> accounted st [] gone st'"
  by (auto simp: verify_effect_command_def Let_def result_simps intro!: account_update)

lemma account_reserve_command:
  "effects_keyed st \<Longrightarrow> reserve_effect env run key kind st = Ok (b, st') \<Longrightarrow> accounted st [] gone st'"
  by (auto simp: reserve_effect_def result_simps intro: account_insert)

lemma account_application:
  assumes "effects_keyed st" and same: "filter workflow_row (t_effects st') = filter workflow_row (t_effects st)"
  shows "accounted st [] gone st'"
proof -
  have "spent k st = (if list_ex (\<lambda>f. row_id f = k \<and> fx_state f \<noteq> ''reserved'') (filter workflow_row (t_effects st)) then 1 else 0)"
    if "workflow_id k" for k st
    using that by (auto simp: spent_def list_ex_iff workflow_row_id)
  then show ?thesis using assms by (simp add: accounted_def effects_keyed_def)
qed

subsection \<open>Every step keeps the invariant\<close>

definition balance :: "effect_system \<Rightarrow> bool" where
  "balance w \<longleftrightarrow> (\<forall>k. workflow_id k \<longrightarrow> count_list (x_performed w) k + count_list (concat (map performing (x_calls w))) k \<le>
     count_list (map snd (x_released w)) k + spent k (x_store w))"

lemma balance_step:
  assumes "balance w" and "accounted (x_store w) new gone (x_store w')"
    and "x_released w' = x_released w @ gone"
    and "\<And>k. count_list (x_performed w') k + count_list (concat (map performing (x_calls w'))) k \<le>
       count_list (x_performed w) k + count_list (concat (map performing (x_calls w))) k + count_list new k"
  shows "balance w'"
  unfolding balance_def
proof (intro allI impI)
  fix k assume k: "workflow_id k"
  have "count_list (x_performed w) k + count_list (concat (map performing (x_calls w))) k \<le> count_list (map snd (x_released w)) k + spent k (x_store w)"
    using assms(1) k unfolding balance_def by blast
  moreover have "spent k (x_store w) + count_list new k \<le> count_list (map snd gone) k + spent k (x_store w')"
    using assms(2) k unfolding accounted_def by blast
  ultimately show "count_list (x_performed w') k + count_list (concat (map performing (x_calls w'))) k \<le>
      count_list (map snd (x_released w')) k + spent k (x_store w')"
    using assms(4) [of k] by (simp add: assms(3))
qed

lemma effect_inv_balance:
  "effect_inv env w \<longleftrightarrow> effects_keyed (x_store w) \<and>
     (\<forall>c \<in> set (x_calls w). workflow_id (effect_id (call_effect c)) \<and> sound_call env c) \<and> balance w"
  by (simp only: effect_inv_def balance_def)

lemma effect_inv_store:
  assumes inv: "effect_inv env w" and ok: "accounted (x_store w) [] gone st"
    and w': "w' = w\<lparr>x_store := st, x_released := x_released w @ gone\<rparr>"
  shows "effect_inv env w'"
proof -
  have "balance w'" by (rule balance_step [of w "[]" gone]) (use inv ok in \<open>simp_all add: effect_inv_balance w'\<close>)
  then show ?thesis using inv ok by (simp add: effect_inv_balance w' accounted_def)
qed

lemma workflow_new_effect: "workflow_id (effect_id (new_effect env run node operation arguments))"
  by (simp add: workflow_id_def effect_id_def new_effect_def workflow_effect_key_def starts_with_def)

lemma performing_Cons: "count_list (concat (map performing (xs @ c # ys))) k =
    count_list (concat (map performing (xs @ ys))) k + count_list (performing c) k"
  by simp

lemma effect_inv_advance:
  assumes inv: "effect_inv env w" and calls: "x_calls w = xs @ c # ys"
    and step: "advance_effect (env\<lparr>j_task := clock\<rparr>) c (x_store w) = (st, c', r)"
    and w': "w' = w\<lparr>x_store := st, x_calls := xs @ (case c' of None \<Rightarrow> [] | Some d \<Rightarrow> [d]) @ ys,
      x_released := x_released w @ removed ReportedUnchanged (x_store w) st, x_returned := returned\<rparr>"
  shows "effect_inv env w'"
proof -
  have keyed: "effects_keyed (x_store w)" and call: "workflow_id (effect_id (call_effect c))" and "balance w"
    using inv calls by (auto simp: effect_inv_balance)
  have new: "c' = Some d \<Longrightarrow> call_effect d = call_effect c \<and> sound_call env d" for d
    using step advance_call advance_sound sound_call_clock by metis
  define fresh where "fresh = (if \<exists>e. c = Performing e then [] else taken c')"
  have ok: "accounted (x_store w) fresh (removed ReportedUnchanged (x_store w) st) st"
  proof (cases "\<exists>e. c = Performing e")
    case True
    then show ?thesis using step keyed by (auto simp: fresh_def intro: account_same)
  next
    case False
    then show ?thesis using account_advance [OF keyed call False step] by (simp add: fresh_def)
  qed
  have "balance w'"
    by (rule balance_step [of w fresh "removed ReportedUnchanged (x_store w) st"])
       (use \<open>balance w\<close> ok step in \<open>auto simp: w' calls fresh_def taken_def split: option.splits\<close>)
  then show ?thesis using inv ok new call by (auto simp: effect_inv_balance w' accounted_def calls split: option.splits)
qed

lemma effect_step_inv:
  assumes inv: "effect_inv env w" and step: "effect_step env w w'"
  shows "effect_inv env w'"
  using step
proof cases
  case (begins run node operation arguments)
  then show ?thesis using inv by (simp add: effect_inv_def workflow_new_effect)
next
  case (advances xs c ys clock st c' r)
  then show ?thesis by (intro effect_inv_advance [OF inv]) auto
next
  case (performs xs e ys outcome)
  have "balance w'"
    by (rule balance_step [of w "[]" "[]"])
       (use inv performs in \<open>auto simp: effect_inv_balance intro: account_same split: tool_outcome.splits\<close>)
  then show ?thesis using inv performs by (auto simp: effect_inv_balance)
next
  case (ends xs c ys)
  have "balance w'"
    by (rule balance_step [of w "[]" "[]"]) (use inv ends in \<open>auto simp: effect_inv_balance intro: account_same\<close>)
  then show ?thesis using inv ends by (auto simp: effect_inv_balance)
next
  case (fails xs c ys code)
  have "balance w'"
    by (rule balance_step [of w "[]" "[]"]) (use inv fails in \<open>auto simp: effect_inv_balance intro: account_same\<close>)
  then show ?thesis using inv fails by (auto simp: effect_inv_balance)
next
  case (resolves renv q t st)
  then show ?thesis using inv by (intro effect_inv_store [OF inv, where gone = "removed UserDecided (x_store w) st"])
      (auto simp: effect_inv_balance intro: account_resolve)
next
  case (deletes st P)
  then show ?thesis using inv by (intro effect_inv_store [OF inv, where gone = "removed TaskDeleted (x_store w) st"])
      (auto simp: effect_inv_balance intro: account_delete_tasks)
next
  case (reserves_by_command tenv run key kind b st)
  then show ?thesis using inv by (intro effect_inv_store [OF inv, where gone = "[]"])
      (auto simp: effect_inv_balance intro: account_reserve_command)
next
  case (verifies_by_command tenv run key digest st)
  then show ?thesis using inv by (intro effect_inv_store [OF inv, where gone = "[]"])
      (auto simp: effect_inv_balance intro: account_verify_command)
next
  case (application st)
  then show ?thesis using inv by (intro effect_inv_store [OF inv, where gone = "[]"])
      (auto simp: effect_inv_balance intro: account_application)
qed

interpretation effect_runs: invariant_system "effect_step env" "effect_inv env" for env
  by unfold_locales (rule effect_step_inv)

lemma effect_start_inv: "effects_keyed st \<Longrightarrow> effect_inv env (effect_start st)"
  by (simp add: effect_inv_def effect_start_def)

lemma effect_reachable_inv: "effect_reachable env w \<Longrightarrow> effect_inv env w"
  unfolding effect_reachable_def using effect_runs.run_inv effect_start_inv by blast

end
