(* ===== verification/Effect_Sim.thy ===== *)
theory Effect_Sim
  imports Effect_Inv
begin

text \<open>
  The functions of the journal are runs of the step relation: a call that is not interrupted goes
  through the statements of its function, in their order, ends with the function's store, has run
  the tool when the function has, and returns what the function returns.
\<close>

definition run_to ::
  "journal_env \<Rightarrow> effect_call \<Rightarrow> task_store \<Rightarrow> task_store \<Rightarrow> json option \<Rightarrow> (string \<times> string) list \<Rightarrow> bool" where
  "run_to env c st st' v tools \<longleftrightarrow> (\<forall>w ys. x_store w = st \<longrightarrow> x_calls w = c # ys \<longrightarrow>
     (\<exists>w'. (effect_step env)\<^sup>*\<^sup>* w w' \<and> x_store w' = st' \<and> x_calls w' = ys \<and> x_performed w' = x_performed w @ tools \<and>
        x_returned w' = x_returned w @ (case v of None \<Rightarrow> [] | Some r \<Rightarrow> [(call_effect c, r)])))"

lemma advances_here:
  assumes "x_store w = st" "x_calls w = c # ys" "advance_effect env c st = (st', c', r)"
  shows "effect_step env w (w\<lparr>x_store := st', x_calls := (case c' of None \<Rightarrow> [] | Some d \<Rightarrow> [d]) @ ys,
      x_released := x_released w @ removed ReportedUnchanged st st',
      x_returned := x_returned w @ (case r of None \<Rightarrow> [] | Some v \<Rightarrow> [(call_effect c, v)])\<rparr>)"
  using effect_step.advances [where xs = "[]" and env = env and clock = "j_task env" and w = w and c = c and ys = ys] assms by simp

lemma run_toD:
  "run_to env c st st' v tools \<Longrightarrow> x_store w = st \<Longrightarrow> x_calls w = c # ys \<Longrightarrow>
   \<exists>w'. (effect_step env)\<^sup>*\<^sup>* w w' \<and> x_store w' = st' \<and> x_calls w' = ys \<and> x_performed w' = x_performed w @ tools \<and>
     x_returned w' = x_returned w @ (case v of None \<Rightarrow> [] | Some r \<Rightarrow> [(call_effect c, r)])"
  by (simp only: run_to_def)

lemma run_end: "advance_effect env c st = (st', None, v) \<Longrightarrow> run_to env c st st' v []"
  unfolding run_to_def
proof (intro allI impI)
  fix w :: effect_system and ys
  assume "advance_effect env c st = (st', None, v)" "x_store w = st" "x_calls w = c # ys"
  from advances_here [OF this(2,3,1)]
  show "\<exists>w'. (effect_step env)\<^sup>*\<^sup>* w w' \<and> x_store w' = st' \<and> x_calls w' = ys \<and> x_performed w' = x_performed w @ [] \<and>
      x_returned w' = x_returned w @ (case v of None \<Rightarrow> [] | Some r \<Rightarrow> [(call_effect c, r)])"
    by (intro exI conjI, rule r_into_rtranclp) auto
qed

lemma run_prefix: "effect_step env w w1 \<Longrightarrow> \<exists>w'. (effect_step env)\<^sup>*\<^sup>* w1 w' \<and> P w' \<Longrightarrow> \<exists>w'. (effect_step env)\<^sup>*\<^sup>* w w' \<and> P w'"
  by (auto intro: converse_rtranclp_into_rtranclp)

lemma run_next:
  assumes step: "advance_effect env c st = (st1, Some d, None)" and rest: "run_to env d st1 st' v tools"
  shows "run_to env c st st' v tools"
  unfolding run_to_def
proof (intro allI impI)
  fix w :: effect_system and ys
  assume w: "x_store w = st" "x_calls w = c # ys"
  define w1 where "w1 = w\<lparr>x_store := st1, x_calls := d # ys, x_released := x_released w @ removed ReportedUnchanged st st1\<rparr>"
  have one: "effect_step env w w1" using advances_here [OF w step] by (simp add: w1_def)
  have "\<exists>w'. (effect_step env)\<^sup>*\<^sup>* w1 w' \<and> x_store w' = st' \<and> x_calls w' = ys \<and> x_performed w' = x_performed w1 @ tools \<and>
      x_returned w' = x_returned w1 @ (case v of None \<Rightarrow> [] | Some r \<Rightarrow> [(call_effect d, r)])"
    by (rule run_toD [OF rest]) (simp_all add: w1_def)
  from run_prefix [OF one this]
  show "\<exists>w'. (effect_step env)\<^sup>*\<^sup>* w w' \<and> x_store w' = st' \<and> x_calls w' = ys \<and> x_performed w' = x_performed w @ tools \<and>
      x_returned w' = x_returned w @ (case v of None \<Rightarrow> [] | Some r \<Rightarrow> [(call_effect c, r)])"
    using advance_call [OF step] by (cases v) (simp_all add: w1_def)
qed

definition ran_by :: "reserved_effect \<Rightarrow> tool_outcome \<Rightarrow> (string \<times> string) list" where
  "ran_by e outcome = (case outcome of NoRuntime _ \<Rightarrow> [] | _ \<Rightarrow> [effect_id e])"

lemma run_perform:
  assumes rest: "run_to env (Concluding e outcome) st st' v []"
  shows "run_to env (Performing e) st st' v (ran_by e outcome)"
  unfolding run_to_def
proof (intro allI impI)
  fix w :: effect_system and ys
  assume w: "x_store w = st" "x_calls w = Performing e # ys"
  define w1 where "w1 = w\<lparr>x_calls := Concluding e outcome # ys, x_performed := x_performed w @ ran_by e outcome\<rparr>"
  have one: "effect_step env w w1" using effect_step.performs [where xs = "[]" and env = env and w = w and e = e and ys = ys and outcome = outcome] w by (simp add: w1_def ran_by_def)
  have "\<exists>w'. (effect_step env)\<^sup>*\<^sup>* w1 w' \<and> x_store w' = st' \<and> x_calls w' = ys \<and> x_performed w' = x_performed w1 @ [] \<and>
      x_returned w' = x_returned w1 @ (case v of None \<Rightarrow> [] | Some r \<Rightarrow> [(call_effect (Concluding e outcome), r)])"
    by (rule run_toD [OF rest]) (simp_all add: w1_def w)
  from run_prefix [OF one this]
  show "\<exists>w'. (effect_step env)\<^sup>*\<^sup>* w w' \<and> x_store w' = st' \<and> x_calls w' = ys \<and> x_performed w' = x_performed w @ ran_by e outcome \<and>
      x_returned w' = x_returned w @ (case v of None \<Rightarrow> [] | Some r \<Rightarrow> [(call_effect (Performing e), r)])"
    by (cases v) (simp_all add: w1_def)
qed

subsection \<open>The functions, one after the other\<close>

definition returns :: "string + 'a \<Rightarrow> 'a option" where
  "returns res = (case res of Inl _ \<Rightarrow> None | Inr v \<Rightarrow> Some v)"

lemma halt_never_returns: "halt_for_effect_verification env e code st = (res, st') \<Longrightarrow> returns res = None"
  by (auto simp: halt_for_effect_verification_def returns_def Let_def split: prod.splits if_splits sum.splits)

lemma halt_run: "halt_for_effect_verification env e code st = (res, st') \<Longrightarrow> run_to env (Halting e code) st st' None []"
proof -
  assume halt: "halt_for_effect_verification env e code st = (res, st')"
  obtain n1 st1 where h: "halt_row e (k_now (j_task env)) st = (n1, st1)" by (metis prod.exhaust)
  obtain n2 st2 where b: "block_task e (k_now (j_task env)) st1 = (n2, st2)" by (metis prod.exhaust)
  show ?thesis
  proof (cases "n1 = 1 \<and> n2 = 1")
    case True
    have "run_to env (Requiring e code) st2 st' None []"
      by (rule run_end) (use halt h b True in \<open>auto simp: halt_for_effect_verification_def split: sum.splits\<close>)
    then have "run_to env (BlockingTask e code) st1 st' None []"
      by (rule run_next [rotated]) (use b True in simp)
    then show ?thesis by (rule run_next [rotated]) (use h True in simp)
  next
    case False
    then show ?thesis
    proof (cases "n1 = 1")
      case True
      have "run_to env (BlockingTask e code) st1 st' None []"
        by (rule run_end) (use halt h b False True in \<open>simp add: halt_for_effect_verification_def\<close>)
      then show ?thesis by (rule run_next [rotated]) (use h True in simp)
    next
      case False
      show ?thesis by (rule run_end) (use halt h False in \<open>simp add: halt_for_effect_verification_def\<close>)
    qed
  qed
qed

lemma replay_run:
  assumes "(case reconcile_verified_effect env e d st of (Inl code, st) \<Rightarrow> halt_for_effect_verification env e code st
     | (Inr _, st) \<Rightarrow> (Ok (f result), st)) = (res, st')"
  shows "run_to env (Replaying e d result) st st' (map_option (\<lambda>_. result) (returns res)) [] \<and> (returns res = None \<or> res = Ok (f result))"
proof -
  obtain n st1 where v: "verify_row e d (k_now (j_task env)) st = (n, st1)" by (metis prod.exhaust)
  show ?thesis
  proof (cases "n = 1")
    case True
    then show ?thesis using assms v by (auto simp: reconcile_verified_effect_def returns_def intro!: run_end)
  next
    case False
    then have halt: "halt_for_effect_verification env e ''workflow_effect_verification_lost'' st1 = (res, st')"
      using assms v by (simp add: reconcile_verified_effect_def)
    have "run_to env (Replaying e d result) st st' None []"
      by (rule run_next [OF _ halt_run [OF halt]]) (use v False in simp)
    then show ?thesis using halt_never_returns [OF halt] by simp
  qed
qed

lemma halt_next:
  assumes "advance_effect env c st = (st1, Some (Halting e code), None)" and halt: "halt_for_effect_verification env e code st1 = (res, st')"
  shows "run_to env c st st' (returns res) []"
  using run_next [OF assms(1) halt_run [OF halt]] halt_never_returns [OF halt] by simp

lemma mark_run:
  assumes "(case reconcile_verified_effect env e (j_sha256_hex env (j_encode env result)) st of
      (Inl code, st) \<Rightarrow> halt_for_effect_verification env e code st | (Inr _, st) \<Rightarrow> (Ok result, st)) = (res, st')"
  shows "run_to env (MarkingVerified e result) st st' (returns res) []"
proof -
  obtain n st1 where v: "verify_row e (j_sha256_hex env (j_encode env result)) (k_now (j_task env)) st = (n, st1)" by (metis prod.exhaust)
  show ?thesis
  proof (cases "n = 1")
    case True
    show ?thesis by (rule run_end) (use assms v True in \<open>auto simp: reconcile_verified_effect_def returns_def\<close>)
  next
    case False
    show ?thesis by (rule halt_next [where code = "''workflow_effect_verification_lost''"])
        (use assms v False in \<open>auto simp: reconcile_verified_effect_def\<close>)
  qed
qed

lemma verify_run:
  assumes "(case verify_effect env e result st of (Inl code, st) \<Rightarrow> halt_for_effect_verification env e code st
     | (Inr _, st) \<Rightarrow> (Ok result, st)) = (res, st')"
  shows "run_to env (Verifying e result) st st' (returns res) []"
proof -
  define digest where "digest = j_sha256_hex env (j_encode env result)"
  note mark = mark_run [of env e result, folded digest_def]
  show ?thesis
  proof (cases "load_verified_effect_receipt env e st")
    case (Inl code)
    show ?thesis by (rule halt_next [where code = code]) (use assms Inl in \<open>auto simp: verify_effect_def Let_def\<close>)
  next
    case (Inr receipt)
    show ?thesis
    proof (cases receipt)
      case None
      show ?thesis
      proof (cases "record_domain_event (j_task env) (re_run e) EFFECT_VERIFIED VerifiedPostcondition (verified_payload e digest result) st")
        case (Inl err)
        have "run_to env (Recording e result) st st' (returns res) []"
          by (rule halt_next [where code = "''workflow_effect_receipt_persistence_failed''"])
             (use assms Inr None Inl in \<open>auto simp: verify_effect_def digest_def\<close>)
        then show ?thesis by (rule run_next [rotated]) (use Inr None in simp)
      next
        case rec: (Inr st1)
        have "run_to env (MarkingVerified e result) st1 st' (returns res) []"
          by (rule mark) (use assms Inr None rec in \<open>simp add: verify_effect_def digest_def\<close>)
        then have "run_to env (Recording e result) st st' (returns res) []"
          by (rule run_next [rotated]) (use rec in \<open>simp add: digest_def\<close>)
        then show ?thesis by (rule run_next [rotated]) (use Inr None in simp)
      qed
    next
      case (Some dr)
      then obtain d r where dr: "receipt = Some (d, r)" by (metis prod.exhaust)
      show ?thesis
      proof (cases "d = digest \<and> r = result")
        case True
        have "run_to env (MarkingVerified e result) st st' (returns res) []"
          by (rule mark) (use assms Inr dr True in \<open>simp add: verify_effect_def digest_def\<close>)
        then show ?thesis by (rule run_next [rotated]) (use Inr dr True in \<open>simp add: digest_def\<close>)
      next
        case False
        show ?thesis by (rule halt_next [where code = "''workflow_effect_receipt_conflict''"])
            (use assms Inr dr False in \<open>auto simp: verify_effect_def digest_def\<close>)
      qed
    qed
  qed
qed

lemma release_run:
  assumes "release_unchanged_effect env e code st = (res, st')"
  shows "run_to env (Releasing e code) st st' None []"
proof -
  obtain n st1 where d: "delete_effects (releasable e) st = (n, st1)" by (metis prod.exhaust)
  show ?thesis
  proof (cases "n = 1")
    case True
    have "run_to env (NotingUnchanged e code) st1 st' None []"
      by (rule run_end) (use assms d True in \<open>auto simp: release_unchanged_effect_def split: sum.splits\<close>)
    then show ?thesis by (rule run_next [rotated]) (use d True in simp)
  next
    case False
    then have halt: "halt_for_effect_verification env e ''workflow_effect_unchanged_release_failed'' st1 = (res, st')"
      using assms d by (simp add: release_unchanged_effect_def)
    show ?thesis by (rule run_next [OF _ halt_run [OF halt]]) (use d False in simp)
  qed
qed

lemma conclude_run:
  assumes "conclude_effect env e outcome st = (res, st')"
  shows "run_to env (Concluding e outcome) st st' (returns res) []"
proof (cases outcome)
  case (NoRuntime code)
  show ?thesis by (rule halt_next) (use assms NoRuntime in \<open>simp_all add: conclude_effect_def\<close>)
next
  case (TimedOut code)
  show ?thesis by (rule halt_next) (use assms TimedOut in \<open>simp_all add: conclude_effect_def\<close>)
next
  case (ToolFailed code unchanged)
  show ?thesis
  proof (cases unchanged)
    case True
    obtain r where rel: "release_unchanged_effect env e code st = (r, st')" and "returns res = None"
      using assms ToolFailed True by (auto simp: conclude_effect_def returns_def split: prod.splits sum.splits)
    then show ?thesis using run_next [OF _ release_run [OF rel]] ToolFailed True by simp
  next
    case False
    show ?thesis by (rule halt_next) (use assms ToolFailed False in \<open>simp_all add: conclude_effect_def\<close>)
  qed
next
  case (Answered response)
  show ?thesis
  proof (cases "verified_result env response")
    case (Inl code)
    show ?thesis by (rule halt_next) (use assms Answered Inl in \<open>simp_all add: conclude_effect_def\<close>)
  next
    case (Inr result)
    have "run_to env (Verifying e result) st st' (returns res) []"
      by (rule verify_run) (use assms Answered Inr in \<open>simp add: conclude_effect_def\<close>)
    then show ?thesis by (rule run_next [rotated]) (use Answered Inr in simp)
  qed
qed

definition execute_reserved :: "journal_env \<Rightarrow> tool_outcome \<Rightarrow> reserved_effect \<Rightarrow> task_store \<Rightarrow> json journal \<times> bool" where
  "execute_reserved env outcome e st =
     (case claim_effect_execution env e st of
        (Inl code, st) \<Rightarrow> ((Err code, st), False)
      | (Inr (Some result), st) \<Rightarrow> ((Ok result, st), False)
      | (Inr None, st) \<Rightarrow> (conclude_effect env e outcome st, case outcome of NoRuntime _ \<Rightarrow> False | _ \<Rightarrow> True))"

lemma claim_lost_run:
  assumes c: "claim_row e (k_now (j_task env)) st = (n, st1)" and lost: "n \<noteq> 1" and claim: "claim_effect_execution env e st = (r, st')"
  shows "run_to env (ClaimLost e) st1 st' (Option.bind (returns r) id) [] \<and> r \<noteq> Ok None"
proof -
  have halted: ?thesis if halt: "halt_for_effect_verification env e code st1 = (r, st')"
    and "advance_effect env (ClaimLost e) st1 = (st1, Some (Halting e code), None)" for code
  proof -
    have "run_to env (ClaimLost e) st1 st' None []" by (rule run_next [OF that(2) halt_run [OF halt]])
    then show ?thesis using halt_never_returns [OF halt] by (auto simp: returns_def)
  qed
  show ?thesis
  proof (cases "load_verified_effect_receipt env e st1")
    case (Inl code)
    show ?thesis by (rule halted [where code = code]) (use c lost claim Inl in \<open>auto simp: claim_effect_execution_def\<close>)
  next
    case (Inr receipt)
    show ?thesis
    proof (cases receipt)
      case None
      show ?thesis by (rule halted [where code = "''workflow_effect_execution_ambiguous''"])
          (use c lost claim Inr None in \<open>auto simp: claim_effect_execution_def\<close>)
    next
      case (Some dr)
      then obtain d result where dr: "receipt = Some (d, result)" by (metis prod.exhaust)
      then have "(case reconcile_verified_effect env e d st1 of (Inl code, st) \<Rightarrow> halt_for_effect_verification env e code st
          | (Inr _, st) \<Rightarrow> (Ok (Some result), st)) = (r, st')"
        using c lost claim Inr by (simp add: claim_effect_execution_def)
      note replay = replay_run [where f = Some, OF this]
      have "run_to env (ClaimLost e) st1 st' (map_option (\<lambda>_. result) (returns r)) []"
        by (rule run_next [OF _ conjunct1 [OF replay]]) (use Inr dr in simp)
      then show ?thesis using replay by (auto simp: returns_def split: sum.splits)
    qed
  qed
qed

lemma claim_run:
  assumes "execute_reserved env outcome e st = ((res, st'), used)"
  shows "run_to env (Claiming e) st st' (returns res) (if used then [effect_id e] else [])"
proof -
  obtain n st1 where c: "claim_row e (k_now (j_task env)) st = (n, st1)" by (metis prod.exhaust)
  obtain r st2 where claim: "claim_effect_execution env e st = (r, st2)" by (metis prod.exhaust)
  show ?thesis
  proof (cases "n = 1")
    case True
    then have end': "conclude_effect env e outcome st1 = (res, st')" and used: "(if used then [effect_id e] else []) = ran_by e outcome"
      using assms c by (auto simp: execute_reserved_def claim_effect_execution_def ran_by_def split: tool_outcome.splits)
    have "run_to env (Performing e) st1 st' (returns res) (ran_by e outcome)" by (rule run_perform [OF conclude_run [OF end']])
    then show ?thesis unfolding used by (rule run_next [rotated]) (use c True in simp)
  next
    case False
    note lost = claim_lost_run [OF c False claim]
    then have "returns res = Option.bind (returns r) id" "st' = st2" "\<not> used"
      using assms claim by (auto simp: execute_reserved_def returns_def split: sum.splits option.splits)
    then have "run_to env (ClaimLost e) st1 st' (returns res) (if used then [effect_id e] else [])" using lost by simp
    then show ?thesis by (rule run_next [rotated]) (use c False in simp)
  qed
qed

lemma execute_effectful_tool_reserved:
  "execute_effectful_tool env execution node operation arguments outcome st =
     (case reserve_workflow_effect env execution node operation arguments st of
        (Inl code, st) \<Rightarrow> ((Err code, st), False)
      | (Inr (Replay result), st) \<Rightarrow> ((Ok result, st), False)
      | (Inr (Execute e), st) \<Rightarrow> execute_reserved env outcome e st)"
  by (simp only: execute_effectful_tool_def execute_reserved_def)

lemma load_run:
  assumes decided: "(case reserve_decision (re_operation e) inserted bound (load_verified_effect_receipt env e st) of
        HaltFor code \<Rightarrow> halt_for_effect_verification env e code st
      | ExecuteNow \<Rightarrow> (Ok (Execute e), st)
      | ReplayOf digest result \<Rightarrow>
         (case reconcile_verified_effect env e digest st of
            (Inl code, st) \<Rightarrow> halt_for_effect_verification env e code st | (Inr _, st) \<Rightarrow> (Ok (Replay result), st))) = (r, st1)"
    and "(case (r, st1) of (Inl code, st) \<Rightarrow> ((Err code, st), False) | (Inr (Replay result), st) \<Rightarrow> ((Ok result, st), False)
      | (Inr (Execute d), st) \<Rightarrow> execute_reserved env outcome d st) = ((res, st'), used)"
  shows "run_to env (LoadingReceipt e inserted bound) st st' (returns res) (if used then [effect_id e] else [])"
proof (cases "reserve_decision (re_operation e) inserted bound (load_verified_effect_receipt env e st)")
  case (HaltFor code)
  then have halt: "halt_for_effect_verification env e code st = (r, st1)" using decided by simp
  then have "returns res = None" "st' = st1" "\<not> used"
    using assms(2) halt_never_returns [OF halt] by (auto simp: returns_def split: sum.splits)
  then show ?thesis using run_next [OF _ halt_run [OF halt]] HaltFor by simp
next
  case (ReplayOf digest result)
  then have replay: "(case reconcile_verified_effect env e digest st of
      (Inl code, st) \<Rightarrow> halt_for_effect_verification env e code st | (Inr _, st) \<Rightarrow> (Ok (Replay result), st)) = (r, st1)"
    using decided by simp
  then have "returns res = map_option (\<lambda>_. result) (returns r)" "st' = st1" "\<not> used"
    using assms(2) replay_run [where f = Replay, OF replay] by (auto simp: returns_def split: sum.splits)
  then show ?thesis using run_next [OF _ conjunct1 [OF replay_run [where f = Replay, OF replay]]] ReplayOf by simp
next
  case ExecuteNow
  then have "execute_reserved env outcome e st = ((res, st'), used)" using assms by auto
  from claim_run [OF this] show ?thesis by (rule run_next [rotated]) (use ExecuteNow in simp)
qed

lemma reserve_run:
  assumes reserved: "reserve_effect_for_task env run node operation arguments st = (r, st1)"
    and rest: "(case (r, st1) of (Inl code, st) \<Rightarrow> ((Err code, st), False) | (Inr (Replay result), st) \<Rightarrow> ((Ok result, st), False)
      | (Inr (Execute d), st) \<Rightarrow> execute_reserved env outcome d st) = ((res, st'), used)"
  defines "e \<equiv> new_effect env run node operation arguments"
  shows "run_to env (Reserving e) st st' (returns res) (if used then [effect_id e] else [])"
proof -
  have e: "re_run e = run" "re_operation e = operation" by (simp_all add: e_def new_effect_def)
  have stops: "run_to env c st0 st' (returns res) (if used then [effect_id e] else [])"
    if "r = Err code" "advance_effect env c st0 = (st1, None, None)" for c st0 code
    using run_end [OF that(2)] rest that(1) by (auto simp: returns_def)
  show ?thesis
  proof (cases "insert_effect (k_now (j_task env)) run (re_key e) operation st")
    case (Inl err)
    show ?thesis by (rule stops) (use reserved Inl e in \<open>auto simp: reserve_effect_for_task_def Let_def simp flip: e_def\<close>)
  next
    case (Inr p)
    then obtain inserted st0 where ins: "insert_effect (k_now (j_task env)) run (re_key e) operation st = Ok (inserted, st0)"
      by (metis prod.exhaust)
    have "run_to env (ReadingBack e inserted) st0 st' (returns res) (if used then [effect_id e] else [])"
    proof (cases "bound_effect e st0")
      case None
      show ?thesis by (rule stops) (use reserved ins None e in \<open>auto simp: reserve_effect_for_task_def Let_def simp flip: e_def\<close>)
    next
      case (Some bound)
      show ?thesis
      proof (cases "fx_kind bound = operation")
        case True
        have "run_to env (LoadingReceipt e inserted bound) st0 st' (returns res) (if used then [effect_id e] else [])"
          by (rule load_run [OF _ rest]) (use reserved ins Some True e in \<open>simp add: reserve_effect_for_task_def Let_def flip: e_def\<close>)
        then show ?thesis by (rule run_next [rotated]) (use Some True e in simp)
      next
        case False
        show ?thesis by (rule stops) (use reserved ins Some False e in \<open>auto simp: reserve_effect_for_task_def Let_def simp flip: e_def\<close>)
      qed
    qed
    then show ?thesis by (rule run_next [rotated]) (use ins e in simp)
  qed
qed

end
