(* ===== verification/Task_Hold.thy ===== *)
theory Task_Hold
  imports Effect_Journal
begin

text \<open>
  A task that waits for the user's decision about a protected action: halting makes it wait, and
  reconciliation with the runtimes, which sets the state of every other task, leaves it waiting.
\<close>

subsection \<open>What is kept of a waiting task\<close>

definition same_hold :: "string \<Rightarrow> task_row \<Rightarrow> task_row \<Rightarrow> bool" where
  "same_hold run r r' \<longleftrightarrow> tr_id r' = tr_id r \<and>
     (tr_id r = run \<longrightarrow> tr_state r' = tr_state r \<and> tr_recovery r' = tr_recovery r \<and> tr_last_error r' = tr_last_error r \<and>
        tr_completed r' = tr_completed r)"

interpretation hold: row_order "same_hold run" for run
  by unfold_locales (auto simp: same_hold_def)

definition holds :: "string \<Rightarrow> task_store \<Rightarrow> task_store \<Rightarrow> bool" where
  "holds run st st' \<longleftrightarrow> rows_keep (same_hold run) (t_runs st) (t_runs st') \<and>
     (effect_verification_required run st \<longrightarrow> effect_verification_required run st')"

lemma holds_refl: "holds run st st"
  by (simp add: holds_def hold.keep_refl)

lemma holds_trans: "holds run st st' \<Longrightarrow> holds run st' st'' \<Longrightarrow> holds run st st''"
  unfolding holds_def using hold.keep_trans by blast

lemma holds_runs:
  "rows_keep (same_hold run) (t_runs st) rs \<Longrightarrow> holds run st (st\<lparr>t_runs := rs\<rparr>)"
  by (simp add: holds_def effect_verification_required_def resolved_later_def)

text \<open>An event other than a resolution leaves every open verification open.\<close>

lemma resolved_later_event:
  "\<not> typed VERIFICATION_RESOLVED v \<Longrightarrow> resolved_later (st\<lparr>t_events := t_events st @ [v]\<rparr>) e f = resolved_later st e f"
  by (auto simp: resolved_later_def list_ex_iff)

lemma holds_event:
  "\<not> typed VERIFICATION_RESOLVED v \<Longrightarrow> holds run st (st\<lparr>t_events := t_events st @ [v]\<rparr>)"
  by (auto simp: holds_def hold.keep_refl effect_verification_required_def resolved_later_event)

lemma holds_append_event:
  "append_event env t ty ev p st = Ok st' \<Longrightarrow> ty \<noteq> VERIFICATION_RESOLVED \<Longrightarrow> holds run st st'"
  by (auto simp: append_event_def append_event_in_transaction_def Let_def result_simps typed_def
      intro!: holds_refl holds_event split: option.splits)

subsection \<open>Reconciliation\<close>

lemma holds_upsert:
  assumes "upsert_runtime env n runtime i project state origin summary error created updated st = Ok (b, st')"
    and "effect_verification_required run st"
  shows "holds run st st'"
proof (cases "find (\<lambda>r. tr_runtime r = runtime \<and> tr_record r = i) (t_runs st)")
  case None
  then show ?thesis using assms by (auto simp: upsert_runtime_def result_simps intro!: holds_runs hold.keep_append)
next
  case (Some old)
  then show ?thesis using assms
    by (auto simp: upsert_runtime_def Let_def same_hold_def intro!: holds_runs hold.keep_update split: if_splits)
qed

lemma holds_ingest:
  "ingest env runtime origin rs counts st = Ok (counts', st') \<Longrightarrow> effect_verification_required run st \<Longrightarrow> holds run st st'"
proof (induction env runtime origin rs counts st rule: ingest.induct)
  case (2 env runtime origin r rs inspected reconciled st)
  from 2(2) obtain b st1 where
    up: "upsert_runtime env inspected runtime (rr_id r) (rr_project r) (canonical_state runtime (rr_status r)) origin (rr_summary r)
       (if runtime \<in> {''taskflow'', ''agent''} then None else rr_error r) (rr_created r) (rr_updated r) st = Ok (b, st1)"
    and rest: "ingest env runtime origin rs (Suc inspected, if b then Suc reconciled else reconciled) st1 = Ok (counts', st')"
    by (auto simp: result_simps simp del: insert_iff)
  have one: "holds run st st1" using holds_upsert [OF up 2(3)] .
  moreover have "holds run st1 st'" using 2(1) [OF rest] one 2(3) by (simp add: holds_def)
  ultimately show ?case by (rule holds_trans)
qed (simp add: holds_refl)

lemma holds_register: "register_tasks env ts st = Ok st' \<Longrightarrow> holds run st st'"
proof (induction env ts st rule: register_tasks.induct)
  case (2 env t ts st)
  from 2(2) obtain st1 where
    one: "(if list_ex (\<lambda>e. te_run e = tr_id (tv_row t)) (t_events st) then Ok st
       else append_event env (tv_row t) ''task.registered'' ObservedResult
         (JObj [(''state'', JStr (state_text (tr_state (tv_row t)))), (''runtime'', JStr (tr_runtime (tv_row t))),
           (''origin'', JStr (tr_origin (tv_row t)))]) st) = Ok st1"
    and rest: "register_tasks env ts st1 = Ok st'"
    by (auto simp: result_simps)
  have "holds run st st1"
    using one by (auto simp: holds_refl VERIFICATION_RESOLVED_def split: if_splits elim!: holds_append_event)
  then show ?case using 2(1) [OF rest] by (rule holds_trans)
qed (simp add: holds_refl)

lemma holds_other: "i \<noteq> run \<Longrightarrow> (\<And>r. tr_id (g r) = tr_id r) \<Longrightarrow>
    holds run st (st\<lparr>t_runs := update_rows (\<lambda>r. tr_id r = i) g (t_runs st)\<rparr>)"
  by (intro holds_runs hold.keep_update) (simp add: same_hold_def)

lemma holds_other_event:
  "append_event env t ty ev p (st\<lparr>t_runs := update_rows (\<lambda>r. tr_id r = i) g (t_runs st)\<rparr>) = Ok st' \<Longrightarrow> ty \<noteq> VERIFICATION_RESOLVED \<Longrightarrow>
   i \<noteq> run \<Longrightarrow> (\<And>r. tr_id (g r) = tr_id r) \<Longrightarrow> holds run st st'"
  by (rule holds_trans [OF holds_other holds_append_event])

lemma holds_reconcile_one:
  assumes "reconcile_one env t st = Ok (b, st')" and "tr_id (tv_row t) = run \<Longrightarrow> tv_verification_required t"
  shows "holds run st st'"
proof (cases "tv_verification_required t")
  case True
  then show ?thesis using assms by (simp add: reconcile_one_def Let_def holds_refl)
next
  case False
  then have "tr_id (tv_row t) \<noteq> run" using assms by blast
  then show ?thesis using assms False
    by (auto simp: reconcile_one_def Let_def result_simps split: option.splits if_splits intro!: holds_other elim!: holds_other_event)
      (simp_all add: VERIFICATION_RESOLVED_def)
qed

lemma holds_reconcile_each:
  "reconcile_each env ts lost st = Ok (n, st') \<Longrightarrow> (\<And>t. t \<in> set ts \<Longrightarrow> tr_id (tv_row t) = run \<Longrightarrow> tv_verification_required t) \<Longrightarrow>
   holds run st st'"
proof (induction env ts lost st rule: reconcile_each.induct)
  case (2 env t ts lost st)
  from 2(2) obtain b st1 where one: "reconcile_one env t st = Ok (b, st1)"
    and rest: "reconcile_each env ts (if b then Suc lost else lost) st1 = Ok (n, st')"
    by (auto simp: result_simps)
  have "holds run st st1" using one 2(3) by (rule holds_reconcile_one) simp
  moreover have "holds run st1 st'" using 2(1) [OF rest] 2(3) by simp
  ultimately show ?case by (rule holds_trans)
qed (simp add: holds_refl)

lemma recent_required:
  "effect_verification_required run st \<Longrightarrow> t \<in> set (recent_tasks st) \<Longrightarrow> tr_id (tv_row t) = run \<Longrightarrow> tv_verification_required t"
  by (auto simp: recent_tasks_def task_from_row_def Let_def dest!: in_set_takeD)

lemma required_has_effect: "effect_verification_required run st \<Longrightarrow> list_ex (\<lambda>f. fx_run f = run) (t_effects st)"
  by (auto simp: effect_verification_required_def list_ex_iff)

text \<open>The cleanup deletes tasks that have no effects, so not this one, and none of its events and effects.\<close>

lemma cleanup_required:
  assumes "effect_verification_required run st"
  shows "effect_verification_required run (delete_tasks (expired_task cutoff st) st)"
proof -
  define gone where "gone = map tr_id (filter (expired_task cutoff st) (t_runs st))"
  have "run \<notin> set gone" using required_has_effect [OF assms] by (auto simp: gone_def expired_task_def)
  moreover have "delete_tasks (expired_task cutoff st) st = st\<lparr>t_runs := filter (\<lambda>r. \<not> expired_task cutoff st r) (t_runs st),
      t_events := filter (\<lambda>e. te_run e \<notin> set gone) (t_events st), t_effects := filter (\<lambda>f. fx_run f \<notin> set gone) (t_effects st),
      t_audit := filter (\<lambda>a. ra_run a \<notin> set gone) (t_audit st)\<rparr>"
    by (simp add: delete_tasks_def gone_def Let_def)
  ultimately show ?thesis using assms
    by (fastforce simp: effect_verification_required_def resolved_later_def list_ex_iff)
qed

lemma cleanup_row:
  "effect_verification_required (tr_id r) st \<Longrightarrow> r \<in> set (t_runs st) \<Longrightarrow> r \<in> set (t_runs (delete_tasks (expired_task cutoff st) st))"
  by (auto simp: delete_tasks_def Let_def expired_task_def dest: required_has_effect)

lemma reconcile_all_holds:
  assumes all: "reconcile_all env st = Ok (report, st')" and required: "effect_verification_required run st"
    and r: "r \<in> set (t_runs st)" "tr_id r = run"
  shows "(\<exists>r' \<in> set (t_runs st'). same_hold run r r') \<and> effect_verification_required run st'"
proof -
  obtain c1 c2 c3 c4 lost st1 st2 st3 st4 st5 st6 where
    i1: "ingest env ''taskflow'' ''taskflow'' (t_flows st) (0, 0) st = Ok (c1, st1)"
    and i2: "ingest env ''workflow'' ''workflow'' (t_instances st1) c1 st1 = Ok (c2, st2)"
    and i3: "ingest env ''agent'' ''agent'' (t_agents st2) c2 st2 = Ok (c3, st3)"
    and i4: "ingest env ''queued_message'' ''chat_queue'' (t_queue st3) c3 st3 = Ok (c4, st4)"
    and i5: "register_tasks env (recent_tasks st4) st4 = Ok st5"
    and i6: "reconcile_each env (filter (\<lambda>t. \<not> terminal (tr_state (tv_row t))) (recent_tasks st4)) 0 st5 = Ok (lost, st6)"
    and st': "st' = delete_tasks (expired_task (k_now env - 90 * 24 * 60 * 60 * 1000) st6) st6"
    using all by (auto simp: reconcile_all_def Let_def result_simps)
  have h1: "holds run st st1" using holds_ingest [OF i1 required] .
  then have "effect_verification_required run st1" using required by (simp add: holds_def)
  note h2 = holds_trans [OF h1 holds_ingest [OF i2 this]]
  then have "effect_verification_required run st2" using required by (simp add: holds_def)
  note h3 = holds_trans [OF h2 holds_ingest [OF i3 this]]
  then have "effect_verification_required run st3" using required by (simp add: holds_def)
  note h4 = holds_trans [OF h3 holds_ingest [OF i4 this]]
  then have r4: "effect_verification_required run st4" using required by (simp add: holds_def)
  have h6: "holds run st5 st6" using i6 by (rule holds_reconcile_each) (auto intro: recent_required [OF r4])
  have h: "holds run st st6" using h4 holds_register [OF i5] h6 by (blast intro: holds_trans)
  then obtain r' where r': "r' \<in> set (t_runs st6)" "same_hold run r r'" using r by (auto simp: holds_def rows_keep_def)
  have r6: "effect_verification_required run st6" using h required by (simp add: holds_def)
  have "tr_id r' = run" using r' r by (simp add: same_hold_def)
  then have "r' \<in> set (t_runs st')" using r' r6 by (auto simp: st' intro: cleanup_row)
  then show ?thesis using r' cleanup_required [OF r6] by (auto simp: st')
qed

subsection \<open>Halting\<close>

lemma next_event_later: "e \<in> set (t_events st) \<Longrightarrow> te_run e = run \<Longrightarrow> te_sequence e < next_event run st"
proof -
  have grow: "m \<le> fold (\<lambda>e m. max m (te_sequence e)) es m \<and> (\<forall>e \<in> set es. te_sequence e \<le> fold (\<lambda>e m. max m (te_sequence e)) es m)"
    for es :: "task_event_row list" and m
    by (induction es arbitrary: m) (auto, (metis max.bounded_iff)+)
  assume "e \<in> set (t_events st)" "te_run e = run"
  then show ?thesis using grow [of "-1" "filter (\<lambda>e. te_run e = run) (t_events st)"] by (force simp: next_event_def)
qed

lemma halted_row:
  assumes "halt_row e now st = (1, st')"
  obtains f where "f \<in> set (t_effects st')" "effect_of e f" "fx_state f = ''executed''"
proof -
  define P where "P = (\<lambda>f. effect_of e f \<and> fx_state f \<in> {''reserved'', ''executed'', ''verified''})"
  define g where "g = (\<lambda>f :: effect_row. f\<lparr>fx_state := ''executed'', fx_updated := now\<rparr>)"
  have st': "t_effects st' = update_rows P g (t_effects st)" and n: "changed_rows P (t_effects st) = 1"
    using assms by (auto simp: halt_row_def update_effects_def P_def g_def)
  obtain f where f: "f \<in> set (t_effects st)" "P f" using changed_rows_pos [OF n] by blast
  have "g f \<in> set (t_effects st')" unfolding st' using f by (rule updated_row)
  then show thesis by (rule that) (use f(2) in \<open>simp_all add: P_def g_def effect_of_def\<close>)
qed

text \<open>An event that requires a verification, appended last, is open: every resolution has a lower number.\<close>

lemma required_by_event:
  assumes f: "f \<in> set (t_effects st)" "effect_of e f" "fx_state f = ''executed''"
    and v: "te_run v = re_run e" "typed VERIFICATION_REQUIRED v" "te_sequence v = next_event (re_run e) st"
      "ev_payload (te_event v) = required_payload e reason b"
  shows "effect_verification_required (re_run e) (st\<lparr>t_events := t_events st @ [v]\<rparr>)"
proof -
  have names: "payload_value v ''idempotencyKey'' = Some (JStr (re_key e))" "payload_value v ''effectKind'' = Some (JStr (re_operation e))"
    using v(4) by (simp_all add: payload_value_def required_payload_def)
  have v': "\<not> typed VERIFICATION_RESOLVED v" using v(2) by (simp add: typed_def VERIFICATION_REQUIRED_def VERIFICATION_RESOLVED_def)
  have "\<not> resolved_later (st\<lparr>t_events := t_events st @ [v]\<rparr>) v f"
    unfolding resolved_later_event [OF v'] using next_event_later [of _ st "re_run e"] v
    by (force simp: resolved_later_def list_ex_iff)
  then show ?thesis using f v names unfolding effect_verification_required_def list_ex_iff
    by (intro bexI [of _ v] conjI bexI [of _ f]) (auto simp: effect_of_def)
qed

lemma recorded_event:
  assumes "record_domain_event env run ty ev p st = Ok st'" and "find (\<lambda>r. tr_id r = run) (t_runs st) = Some r"
    and "tr_project r = Some project"
  obtains v where "st' = st\<lparr>t_events := t_events st @ [v]\<rparr>" "te_run v = run" "typed ty v" "te_sequence v = next_event run st"
    "ev_payload (te_event v) = p"
proof -
  have id: "tr_id r = run" using find_SomeD [OF assms(2)] by simp
  show thesis
    using assms that by (auto simp: record_domain_event_def append_event_def append_event_in_transaction_def get_task_def task_from_row_def
        Let_def result_simps typed_def id)
qed

lemma block_task_find:
  assumes "block_task e now st = (n, st')" and "find (\<lambda>r. tr_id r = re_run e) (t_runs st) = Some r"
  obtains r' where "find (\<lambda>r. tr_id r = re_run e) (t_runs st') = Some r'" "r' \<in> set (t_runs st')" "tr_id r' = re_run e"
    "tr_project r' = tr_project r"
    "tr_state r' = (if tr_state r \<in> {Queued, Planning, AwaitingApproval, Running} then Blocked else tr_state r)"
    "tr_recovery r' = ''recoverable''"
proof -
  define g where "g = (\<lambda>r :: task_row. r\<lparr>tr_state := (if tr_state r \<in> {Queued, Planning, AwaitingApproval, Running} then Blocked else tr_state r),
         tr_recovery := ''recoverable'', tr_last_error := Some (''OOMU could not confirm whether this protected action already happened. '' @
           ''It will not repeat the action automatically. The Task is saved for verification-only recovery.''), tr_updated := now\<rparr>)"
  have runs: "t_runs st' = update_rows (\<lambda>r. tr_id r = re_run e) g (t_runs st)"
    using assms(1) unfolding block_task_def Let_def g_def by auto
  have "find (\<lambda>r. tr_id r = re_run e) rows = Some r \<Longrightarrow>
      find (\<lambda>r. tr_id r = re_run e) (update_rows (\<lambda>r. tr_id r = re_run e) g rows) = Some (g r)" for rows
    by (induction rows) (auto simp: update_rows_def g_def split: if_splits)
  from this [OF assms(2)] have find: "find (\<lambda>r. tr_id r = re_run e) (t_runs st') = Some (g r)" by (simp add: runs)
  show thesis using that [OF find] find_SomeD [OF find] by (simp add: g_def)
qed

lemma halt_requires:
  assumes halt: "halt_for_effect_verification env e reason st = (Err ''workflow_effect_verification_required'', st')"
    and r: "find (\<lambda>r. tr_id r = re_run e) (t_runs st) = Some r" "tr_project r = Some project"
  shows "effect_verification_required (re_run e) st' \<and> (\<exists>r' \<in> set (t_runs st'). tr_id r' = re_run e \<and> tr_recovery r' = ''recoverable'' \<and>
    tr_state r' = (if tr_state r \<in> {Queued, Planning, AwaitingApproval, Running} then Blocked else tr_state r))"
proof -
  obtain n1 st1 where h: "halt_row e (k_now (j_task env)) st = (n1, st1)" by (metis prod.exhaust)
  obtain n2 st2 where b: "block_task e (k_now (j_task env)) st1 = (n2, st2)" by (metis prod.exhaust)
  have n: "n1 = 1" and rec: "record_domain_event (j_task env) (re_run e) VERIFICATION_REQUIRED ObservedResult
      (required_payload e reason (retry_supported e st2)) st2 = Ok st'"
    using halt h b by (auto simp: halt_for_effect_verification_def split: if_split_asm sum.split_asm)
  obtain f where f: "f \<in> set (t_effects st1)" "effect_of e f" "fx_state f = ''executed''" using halted_row h n by metis
  then have f2: "f \<in> set (t_effects st2)" using b by (auto simp: block_task_def Let_def)
  have "t_runs st1 = t_runs st" using h by (auto simp: halt_row_def update_effects_def)
  then have r1: "find (\<lambda>r. tr_id r = re_run e) (t_runs st1) = Some r" using r(1) by simp
  obtain r' where r': "find (\<lambda>r. tr_id r = re_run e) (t_runs st2) = Some r'" "r' \<in> set (t_runs st2)" "tr_id r' = re_run e"
    "tr_project r' = tr_project r"
    "tr_state r' = (if tr_state r \<in> {Queued, Planning, AwaitingApproval, Running} then Blocked else tr_state r)"
    "tr_recovery r' = ''recoverable''"
    by (rule block_task_find [OF b r1])
  obtain v where v: "st' = st2\<lparr>t_events := t_events st2 @ [v]\<rparr>" "te_run v = re_run e" "typed VERIFICATION_REQUIRED v"
    "te_sequence v = next_event (re_run e) st2" "ev_payload (te_event v) = required_payload e reason (retry_supported e st2)"
    by (rule recorded_event [OF rec r'(1) trans [OF r'(4) r(2)]])
  have "effect_verification_required (re_run e) st'" unfolding v(1) by (rule required_by_event [OF f2 f(2,3) v(2-5)])
  then show ?thesis using r' by (auto simp: v(1))
qed

end
