(* ===== verification/Effect_Props.thy ===== *)
theory Effect_Props
  imports Effect_Sim Task_Hold
begin

text \<open>
  The properties of tasks and protected effects, with a run of one effect as their witness.
\<close>

subsection \<open>A run\<close>

definition fx_uuid :: string where
  "fx_uuid = ''07070707-0707-4707-8707-070707070707''"

definition fx_task :: task_row where
  "fx_task = \<lparr>tr_id = ''taskrun_'' @ fx_uuid, tr_task = ''task_'' @ fx_uuid, tr_project = Some (''project_'' @ fx_uuid),
     tr_runtime = ''workflow'', tr_record = ''wf'', tr_state = Running, tr_origin = ''workflow'', tr_correlation = ''task_'' @ fx_uuid,
     tr_summary = ''s'', tr_last_error = None, tr_created = 1, tr_updated = 1, tr_completed = None, tr_acknowledged = None,
     tr_recovery = ''reconciled''\<rparr>"

definition fx_store :: task_store where
  "fx_store = \<lparr>t_runs = [fx_task], t_events = [], t_effects = [], t_audit = [], t_flows = [], t_flow_steps = [],
     t_instances = [\<lparr>rr_id = ''wf'', rr_project = Some (''project_'' @ fx_uuid), rr_status = ''Running'', rr_summary = ''s'', rr_error = None,
       rr_created = 1, rr_updated = 1, rr_active_node = None, rr_completed = None,
       rr_payloads = JObj [(''n'', JObj [(''error'', JObj [(''code'', JStr ''workflow_effect_verification_required'')])])], rr_chat = None\<rparr>],
     t_agents = [], t_queue = [], t_routine_runs = [(''s'', ''wf'', ''taskrun_'' @ fx_uuid)],
     t_schedules = [\<lparr>sc_id = ''s'', sc_is_active = False, sc_claimed = None, sc_next_run = None, sc_last_status = ''Failed'',
       sc_last_error = None, sc_last_instance = Some ''wf'', sc_updated = 1\<rparr>]\<rparr>"

definition fx_task_env :: task_env where
  "fx_task_env = \<lparr>k_now = 2, k_timestamp = Some ''2026-01-01T00:00:00.000Z'', k_new_task = (\<lambda>n. []), k_new_run = (\<lambda>n. []),
     k_internal_project = Err TaskStoreFailed, k_durable = True\<rparr>"

definition fx_env :: journal_env where
  "fx_env = \<lparr>j_task = fx_task_env, j_sha256_hex = (\<lambda>s. s), j_encode = (\<lambda>v. ''v''), j_decode = (\<lambda>s. None)\<rparr>"

definition fx_answer :: command_response where
  "fx_answer = \<lparr>co_completed = True, co_verified = True, co_operation = ''send'', co_message = ''sent''\<rparr>"

definition fx_effect :: reserved_effect where
  "fx_effect = new_effect fx_env (''taskrun_'' @ fx_uuid) ''n'' ''send'' JNull"

datatype fx_move = FxBegin | FxNext | FxTool tool_outcome

fun fx_do :: "fx_move \<Rightarrow> effect_system \<Rightarrow> effect_system option" where
  "fx_do FxBegin w = Some (w\<lparr>x_calls := Reserving fx_effect # x_calls w\<rparr>)"
| "fx_do FxNext w = (case x_calls w of [] \<Rightarrow> None | c # ys \<Rightarrow>
     let (st, c', r) = advance_effect fx_env c (x_store w) in
     Some (w\<lparr>x_store := st, x_calls := (case c' of None \<Rightarrow> [] | Some d \<Rightarrow> [d]) @ ys,
       x_released := x_released w @ removed ReportedUnchanged (x_store w) st,
       x_returned := x_returned w @ (case r of None \<Rightarrow> [] | Some v \<Rightarrow> [(call_effect c, v)])\<rparr>))"
| "fx_do (FxTool outcome) w = (case x_calls w of Performing e # ys \<Rightarrow>
       Some (w\<lparr>x_calls := Concluding e outcome # ys,
         x_performed := x_performed w @ (case outcome of NoRuntime _ \<Rightarrow> [] | _ \<Rightarrow> [effect_id e])\<rparr>)
     | _ \<Rightarrow> None)"

fun fx_run_moves :: "fx_move list \<Rightarrow> effect_system \<Rightarrow> effect_system option" where
  "fx_run_moves [] w = Some w"
| "fx_run_moves (m # ms) w = (case fx_do m w of None \<Rightarrow> None | Some v \<Rightarrow> fx_run_moves ms v)"

lemma fx_do_step: "fx_do m w = Some w' \<Longrightarrow> effect_step fx_env w w'"
proof (cases m)
  case FxBegin
  assume "fx_do m w = Some w'"
  then show ?thesis using FxBegin effect_step.begins [of fx_env w] by (auto simp: fx_effect_def)
next
  case FxNext
  assume m: "fx_do m w = Some w'"
  then obtain c ys where c: "x_calls w = c # ys" using FxNext by (auto split: list.splits)
  obtain st c' r where a: "advance_effect fx_env c (x_store w) = (st, c', r)" by (metis prod.exhaust)
  show ?thesis using advances_here [OF refl c a] m FxNext c a by (auto simp: Let_def)
next
  case (FxTool outcome)
  assume m: "fx_do m w = Some w'"
  then obtain e ys where c: "x_calls w = [] @ Performing e # ys" using FxTool by (auto split: list.splits effect_call.splits)
  show ?thesis using effect_step.performs [OF c, of fx_env outcome] m FxTool c by auto
qed

lemma fx_run_steps: "fx_run_moves ms w = Some w' \<Longrightarrow> (effect_step fx_env)\<^sup>*\<^sup>* w w'"
  by (induction ms arbitrary: w) (auto split: option.splits intro: converse_rtranclp_into_rtranclp fx_do_step)

lemma fx_reachable: "fx_run_moves ms (effect_start fx_store) = Some w \<Longrightarrow> effect_reachable fx_env w"
  unfolding effect_reachable_def using fx_run_steps [of ms "effect_start fx_store" w]
  by (intro exI [of _ fx_store]) (simp add: effects_keyed_def fx_store_def)

text \<open>The call up to the last statement, before which the result is not returned.\<close>

definition fx_before :: effect_system where
  "fx_before = the (fx_run_moves [FxBegin, FxNext, FxNext, FxNext, FxNext, FxTool (Answered fx_answer), FxNext, FxNext, FxNext] (effect_start fx_store))"

definition fx_after :: effect_system where
  "fx_after = the (fx_do FxNext fx_before)"

lemma fx_before_run: "effect_reachable fx_env fx_before"
proof -
  have "fx_run_moves [FxBegin, FxNext, FxNext, FxNext, FxNext, FxTool (Answered fx_answer), FxNext, FxNext, FxNext] (effect_start fx_store) \<noteq> None"
    by code_simp
  from option.collapse [OF this, symmetric] show ?thesis unfolding fx_before_def by (rule fx_reachable)
qed

lemma fx_after_step: "effect_step fx_env fx_before fx_after"
proof -
  have "fx_do FxNext fx_before \<noteq> None" by code_simp
  from option.collapse [OF this, symmetric] show ?thesis unfolding fx_after_def by (rule fx_do_step)
qed

lemma fx_after_run: "effect_reachable fx_env fx_after"
  using fx_before_run fx_after_step unfolding effect_reachable_def by (auto intro: rtranclp.rtrancl_into_rtrancl)

lemma fx_after_returned: "x_returned fx_after = [(fx_effect, JObj [(''result'', JStr ''sent'')])] \<and> x_returned fx_before = []"
  by code_simp

subsection \<open>Effects happen at most once\<close>

text \<open>
  C11. In every reachable state, whatever calls, decisions, commands and deletions have interleaved and
  wherever calls have ended, the tool of a workflow's protected effect has been run at most once more
  often than its reservation has been removed; and no more often than that while no row says that
  the reservation is used up. So an effect that nobody released runs at most once, for any number
  of attempts.
\<close>

theorem at_most_once:
  assumes "effect_reachable env w" and "workflow_id k"
  shows "count_list (x_performed w) k \<le> count_list (map snd (x_released w)) k + 1 \<and>
    (count_list (x_performed w) k \<le> count_list (map snd (x_released w)) k \<or>
     (\<exists>f \<in> set (t_effects (x_store w)). row_id f = k \<and> fx_state f \<noteq> ''reserved''))"
proof -
  have "count_list (x_performed w) k \<le> count_list (map snd (x_released w)) k + spent k (x_store w)"
    using effect_reachable_inv [OF assms(1)] assms(2) unfolding effect_inv_def by (meson add_leD1 order_trans)
  then show ?thesis by (auto simp: spent_def list_ex_iff split: if_splits)
qed

theorem at_most_once_witness:
  "count_list (x_performed fx_after) (effect_id fx_effect) = 1 \<and> x_released fx_after = [] \<and>
   (\<exists>f \<in> set (t_effects (x_store fx_after)). row_id f = effect_id fx_effect \<and> fx_state f \<noteq> ''reserved'')"
proof -
  have w: "workflow_id (effect_id fx_effect)" by (simp add: fx_effect_def workflow_new_effect)
  have facts: "count_list (x_performed fx_after) (effect_id fx_effect) = 1" "x_released fx_after = []" by code_simp+
  then show ?thesis using at_most_once [OF fx_after_run w] by simp
qed

subsection \<open>What is returned is verified\<close>

lemma verify_row_verified:
  assumes "verify_row e d now st = (1, st')"
  shows "\<exists>f \<in> set (t_effects st'). effect_of e f \<and> fx_state f = ''verified'' \<and> fx_digest f = Some d"
proof -
  define P where "P = (\<lambda>f. effect_of e f \<and> fx_state f \<in> {''reserved'', ''executed'', ''verified''} \<and> (fx_digest f = None \<or> fx_digest f = Some d))"
  define g where "g = (\<lambda>f :: effect_row. f\<lparr>fx_state := ''verified'', fx_digest := Some d, fx_updated := now\<rparr>)"
  have st': "t_effects st' = update_rows P g (t_effects st)" and n: "changed_rows P (t_effects st) = 1"
    using assms by (auto simp: verify_row_def update_effects_def P_def g_def)
  obtain f where f: "f \<in> set (t_effects st)" "P f" using changed_rows_pos [OF n] by blast
  have "g f \<in> set (t_effects st')" unfolding st' using f by (rule updated_row)
  then show ?thesis by (rule bexI [rotated]) (use f(2) in \<open>simp add: P_def g_def effect_of_def\<close>)
qed

lemma advance_returns:
  assumes "advance_effect env c st = (st', c', Some v)" and "sound_call env c"
  shows "\<exists>f \<in> set (t_effects st'). effect_of (call_effect c) f \<and> fx_state f = ''verified'' \<and>
    fx_digest f = Some (j_sha256_hex env (j_encode env v))"
proof (cases c)
  case (Replaying e d result)
  obtain n st1 where "verify_row e d (k_now (j_task env)) st = (n, st1)" by (metis prod.exhaust)
  then show ?thesis using verify_row_verified [of e d "k_now (j_task env)" st st1] assms Replaying by (auto split: if_splits)
next
  case (MarkingVerified e result)
  obtain n st1 where "verify_row e (j_sha256_hex env (j_encode env result)) (k_now (j_task env)) st = (n, st1)" by (metis prod.exhaust)
  then show ?thesis using verify_row_verified [of e "j_sha256_hex env (j_encode env result)" "k_now (j_task env)" st st1] assms MarkingVerified
    by (auto split: if_splits)
qed (use assms(1) in \<open>auto simp: Let_def split: prod.splits sum.splits if_splits option.splits\<close>)

text \<open>
  C13. A result is returned to the workflow only with its effect verified: after a step that returns a
  value, by a first execution, a replay or a lost race, the row of the effect is \<open>verified\<close> and carries
  the digest of exactly this value.
\<close>

theorem returned_verified:
  assumes "effect_reachable env w" and "effect_step env w w'" and "x_returned w' = x_returned w @ [(e, v)]"
  shows "\<exists>f \<in> set (t_effects (x_store w')). effect_of e f \<and> fx_state f = ''verified'' \<and>
    fx_digest f = Some (j_sha256_hex env (j_encode env v))"
  using assms(2)
proof cases
  case (advances xs c ys clock st c' r)
  have "sound_call env c" using effect_reachable_inv [OF assms(1)] advances(2) by (simp add: effect_inv_def)
  moreover have "r = Some v" "call_effect c = e" using assms(3) advances(1) by (auto split: option.splits)
  ultimately show ?thesis
    using advance_returns [of "env\<lparr>j_task := clock\<rparr>" c "x_store w" st c' v] advances(1,3) by (simp add: sound_call_clock)
qed (use assms(3) in auto)

theorem returned_verified_witness:
  "\<exists>f \<in> set (t_effects (x_store fx_after)). effect_of fx_effect f \<and> fx_state f = ''verified'' \<and>
    fx_digest f = Some (j_sha256_hex fx_env (j_encode fx_env (JObj [(''result'', JStr ''sent'')])))"
  by (rule returned_verified [OF fx_before_run fx_after_step]) (simp add: fx_after_returned)

subsection \<open>A verified effect is not released\<close>

definition recorded :: "task_store \<Rightarrow> effect_row list" where
  "recorded st = filter (\<lambda>f. fx_digest f \<noteq> None) (filter workflow_row (t_effects st))"

definition same_effect :: "effect_row \<Rightarrow> effect_row \<Rightarrow> bool" where
  "same_effect f g \<longleftrightarrow> row_id g = row_id f \<and> fx_kind g = fx_kind f"

interpretation effect_row_order: row_order same_effect
  by unfold_locales (auto simp: same_effect_def)

definition keeps_recorded :: "task_store \<Rightarrow> task_store \<Rightarrow> bool" where
  "keeps_recorded st st' \<longleftrightarrow> rows_keep same_effect (recorded st) (recorded st')"

lemma keeps_recorded_same: "t_effects st' = t_effects st \<Longrightarrow> keeps_recorded st st'"
  by (simp add: keeps_recorded_def recorded_def effect_row_order.keep_refl)

lemma keeps_recorded_application: "filter workflow_row (t_effects st') = filter workflow_row (t_effects st) \<Longrightarrow> keeps_recorded st st'"
  by (simp add: keeps_recorded_def recorded_def effect_row_order.keep_refl del: filter_filter)

lemma keeps_recorded_update:
  assumes "update_effects P g st = (n, st')"
    and g: "\<And>f. P f \<Longrightarrow> row_id (g f) = row_id f \<and> fx_kind (g f) = fx_kind f \<and> (fx_digest f \<noteq> None \<longrightarrow> fx_digest (g f) \<noteq> None)"
  shows "keeps_recorded st st'"
  unfolding keeps_recorded_def rows_keep_def
proof
  fix f assume f: "f \<in> set (recorded st)"
  have st': "t_effects st' = update_rows P g (t_effects st)" using assms(1) by (auto simp: update_effects_def)
  let ?h = "if P f then g f else f"
  have "?h \<in> set (t_effects st')" using f by (simp add: st' set_update_rows recorded_def)
  moreover have "row_id ?h = row_id f \<and> fx_kind ?h = fx_kind f \<and> fx_digest ?h \<noteq> None" using f g by (simp add: recorded_def)
  ultimately show "\<exists>h \<in> set (recorded st'). same_effect f h"
    using f by (intro bexI [of _ ?h]) (simp_all add: recorded_def same_effect_def workflow_row_id del: split_paired_Ex)
qed

lemma keeps_recorded_filter:
  "t_effects st' = filter Q (t_effects st) \<Longrightarrow> (\<And>f. fx_digest f \<noteq> None \<Longrightarrow> Q f) \<Longrightarrow> keeps_recorded st st'"
  unfolding keeps_recorded_def rows_keep_def by (auto simp: recorded_def same_effect_def)

lemma keeps_recorded_insert: "insert_effect now run key kind st = Ok (b, st') \<Longrightarrow> keeps_recorded st st'"
  unfolding keeps_recorded_def rows_keep_def
  by (auto simp: insert_effect_def result_simps recorded_def same_effect_def split: if_splits)

lemma keeps_recorded_statements:
  "claim_row e now st = (n, st') \<Longrightarrow> keeps_recorded st st'"
  "verify_row e d now st = (n, st') \<Longrightarrow> keeps_recorded st st'"
  "halt_row e now st = (n, st') \<Longrightarrow> keeps_recorded st st'"
  "delete_effects (releasable e) st = (n, st') \<Longrightarrow> keeps_recorded st st'"
  "block_task e now st = (n, st') \<Longrightarrow> keeps_recorded st st'"
  "record_domain_event tenv run ty ev p st = Ok st' \<Longrightarrow> keeps_recorded st st'"
  unfolding claim_row_def verify_row_def halt_row_def
  by (erule keeps_recorded_update, simp add: row_id_def)+
    (auto simp: delete_effects_def releasable_def intro: keeps_recorded_filter keeps_recorded_same dest: block_task_effects record_domain_event_effects)

lemma keeps_recorded_advance:
  assumes "advance_effect env c st = (st', c', r)" shows "keeps_recorded st st'"
  using assms by (cases c) (auto simp: Let_def split: prod.splits sum.splits option.splits if_splits
      intro: keeps_recorded_statements keeps_recorded_insert keeps_recorded_same)

lemma keeps_recorded_resolve:
  assumes "resolve_transaction env q t st = Ok st'" shows "keeps_recorded st st'"
  using assms
proof (rule resolve_transaction_Ok)
  fix x resolved next_action st1
  assume a: "apply_decision env q x st = Ok ((resolved, next_action), st1)" and "record_resolution env q t x resolved next_action st1 = Ok st'"
  then have "t_effects st' = t_effects st1"
    by (auto simp: record_resolution_Ok audited_def dest: append_event_in_transaction_effects)
  then have "t_effects st' = filter (\<lambda>f. rq_decision q \<noteq> DidNotHappen \<or> \<not> effect_row_of (rq_run q) x f) (t_effects st)"
    using apply_decision_effects [OF a] by simp
  then show ?thesis by (rule keeps_recorded_filter) (simp add: effect_row_of_def)
qed

lemma keeps_recorded_verify_command:
  assumes "verify_effect_command env run key digest st = Ok st'" shows "keeps_recorded st st'"
proof -
  obtain d where "update_effects (\<lambda>f. fx_run f = run \<and> fx_key f = key \<and> fx_state f \<in> {''reserved'', ''executed''})
      (\<lambda>f. f\<lparr>fx_state := ''verified'', fx_digest := Some d, fx_updated := k_now env\<rparr>) st = (fst (update_effects (\<lambda>f. fx_run f = run \<and>
      fx_key f = key \<and> fx_state f \<in> {''reserved'', ''executed''}) (\<lambda>f. f\<lparr>fx_state := ''verified'', fx_digest := Some d, fx_updated := k_now env\<rparr>) st), st')"
    using assms by (auto simp: verify_effect_command_def update_effects_def Let_def result_simps)
  then show ?thesis by (rule keeps_recorded_update) (simp add: row_id_def)
qed

definition recorded_order :: "effect_system \<Rightarrow> effect_system \<Rightarrow> bool" where
  "recorded_order w w' \<longleftrightarrow> set (x_released w) \<subseteq> set (x_released w') \<and> (\<forall>f \<in> set (recorded (x_store w)).
     (TaskDeleted, row_id f) \<in> set (x_released w') \<or> (\<exists>g \<in> set (recorded (x_store w')). same_effect f g))"

lemma recorded_orderI:
  "keeps_recorded (x_store w) (x_store w') \<Longrightarrow> set (x_released w) \<subseteq> set (x_released w') \<Longrightarrow> recorded_order w w'"
  by (simp add: recorded_order_def keeps_recorded_def rows_keep_def)

lemma recorded_order_delete:
  "recorded_order w (w\<lparr>x_store := delete_tasks P (x_store w), x_released := x_released w @ removed TaskDeleted (x_store w) (delete_tasks P (x_store w))\<rparr>)"
proof -
  define st' where "st' = delete_tasks P (x_store w)"
  define Q where "Q = (\<lambda>run. run \<notin> set (map tr_id (filter P (t_runs (x_store w)))))"
  have st': "t_effects st' = filter (\<lambda>f. Q (fx_run f)) (t_effects (x_store w))" by (simp add: st'_def delete_tasks_def Q_def Let_def)
  have "(TaskDeleted, row_id f) \<in> set (removed TaskDeleted (x_store w) st') \<or> (\<exists>g \<in> set (recorded st'). same_effect f g)"
    if f: "f \<in> set (recorded (x_store w))" for f
  proof (cases "Q (fx_run f)")
    case True
    then show ?thesis using f by (auto simp: recorded_def st' same_effect_def)
  next
    case False
    then have "row_id f \<notin> row_id ` set (t_effects st')" by (auto simp: st' row_id_def)
    then show ?thesis using f by (auto simp: removed_def recorded_def)
  qed
  then show ?thesis by (auto simp: recorded_order_def simp flip: st'_def)
qed

lemma recorded_order_step:
  assumes "effect_step env w w'" shows "recorded_order w w'"
  using assms
proof cases
  case (deletes st P)
  then show ?thesis using recorded_order_delete [of w P] by simp
qed (auto intro!: recorded_orderI intro: keeps_recorded_same keeps_recorded_advance keeps_recorded_resolve keeps_recorded_verify_command
    keeps_recorded_application simp: reserve_effect_def result_simps dest: keeps_recorded_insert)

interpretation recorded_runs: monotone_system "effect_step env" "\<lambda>w. True" recorded_order for env
proof unfold_locales
  show "recorded_order w w" for w by (simp add: recorded_orderI keeps_recorded_same)
  show "recorded_order w w''" if "recorded_order w w'" "recorded_order w' w''" for w w' w''
    using that unfolding recorded_order_def same_effect_def by (metis subset_iff)
qed (simp_all add: recorded_order_step)

text \<open>
  C12. Once an effect of a workflow has a digest, its row is never given back for another execution: over every
  further run, with any decisions of the user, failed tools and commands, it stays with its kind and
  a digest, unless its whole task is deleted.
\<close>

theorem verified_never_released:
  assumes "(effect_step env)\<^sup>*\<^sup>* w w'" and "f \<in> set (t_effects (x_store w))" and "workflow_row f" and "fx_digest f \<noteq> None"
  shows "(TaskDeleted, row_id f) \<in> set (x_released w') \<or>
    (\<exists>g \<in> set (t_effects (x_store w')). row_id g = row_id f \<and> fx_kind g = fx_kind f \<and> fx_digest g \<noteq> None)"
proof -
  have "recorded_order w w'" using assms(1) by (rule recorded_runs.run_le) simp
  then show ?thesis using assms(2-4) by (auto simp: recorded_order_def recorded_def same_effect_def)
qed

definition fx_row :: effect_row where
  "fx_row = \<lparr>fx_run = re_run fx_effect, fx_key = re_key fx_effect, fx_kind = ''send'', fx_state = ''verified'', fx_digest = Some ''v'', fx_updated = 2\<rparr>"

definition fx_again :: effect_system where
  "fx_again = the (fx_run_moves [FxBegin, FxNext, FxNext, FxNext, FxNext, FxNext, FxNext] fx_after)"

lemma fx_again_run: "(effect_step fx_env)\<^sup>*\<^sup>* fx_after fx_again"
proof -
  have "fx_run_moves [FxBegin, FxNext, FxNext, FxNext, FxNext, FxNext, FxNext] fx_after \<noteq> None" by code_simp
  from option.collapse [OF this, symmetric] show ?thesis unfolding fx_again_def by (rule fx_run_steps)
qed

theorem verified_never_released_witness:
  "\<exists>g \<in> set (t_effects (x_store fx_again)). row_id g = effect_id fx_effect \<and> fx_kind g = ''send'' \<and> fx_digest g \<noteq> None"
proof -
  have id: "row_id fx_row = effect_id fx_effect" by (simp add: row_id_def fx_row_def effect_id_def)
  then have row: "workflow_row fx_row" by (simp add: workflow_row_id fx_effect_def workflow_new_effect)
  have after: "t_effects (x_store fx_after) = [fx_row]" by code_simp
  have again: "x_released fx_again = []" by code_simp
  show ?thesis using verified_never_released [OF fx_again_run, of fx_row] row by (simp add: after again id) (simp add: fx_row_def)
qed

subsection \<open>Calls as runs\<close>

text \<open>
  C16. The step relation has the code's own executions: the effectful half of \<open>execute_registered_task_tool\<close>,
  from the reservation on, is a run of it that ends with the same store, with no call left, with the
  tool run exactly when the function has run it, and with the same result, if there is one, returned.
\<close>

theorem execution_is_run:
  assumes "execute_effectful_tool env execution node operation arguments outcome st = ((res, st'), used)"
    and "require_agent_runtime_task (j_task env) execution st = Ok (task, st0)"
  shows "\<exists>w. (effect_step env)\<^sup>*\<^sup>* (effect_start st0) w \<and> x_store w = st' \<and> x_calls w = [] \<and>
    length (x_performed w) = (if used then 1 else 0) \<and> map snd (x_returned w) = (case res of Inl _ \<Rightarrow> [] | Inr v \<Rightarrow> [v])"
proof -
  define e where "e = new_effect env (tr_id (tv_row task)) node operation arguments"
  obtain r st1 where reserved: "reserve_effect_for_task env (tr_id (tv_row task)) node operation arguments st0 = (r, st1)"
    by (metis prod.exhaust)
  have "run_to env (Reserving e) st0 st' (returns res) (if used then [effect_id e] else [])"
    unfolding e_def by (rule reserve_run [OF reserved, of outcome])
      (use assms reserved in \<open>simp add: execute_effectful_tool_reserved reserve_workflow_effect_def\<close>)
  from run_toD [OF this, of "(effect_start st0)\<lparr>x_calls := [Reserving e]\<rparr>" "[]"]
  obtain w where w: "(effect_step env)\<^sup>*\<^sup>* ((effect_start st0)\<lparr>x_calls := [Reserving e]\<rparr>) w" "x_store w = st'" "x_calls w = []"
    "x_performed w = (if used then [effect_id e] else [])"
    "x_returned w = (case returns res of None \<Rightarrow> [] | Some r \<Rightarrow> [(call_effect (Reserving e), r)])"
    by (auto simp: effect_start_def)
  have "effect_step env (effect_start st0) ((effect_start st0)\<lparr>x_calls := [Reserving e]\<rparr>)"
    using effect_step.begins [of env "effect_start st0" "tr_id (tv_row task)" node operation arguments] by (simp add: e_def effect_start_def)
  then have "(effect_step env)\<^sup>*\<^sup>* (effect_start st0) w" using w(1) by (rule converse_rtranclp_into_rtranclp)
  then show ?thesis using w(2-) by (intro exI [of _ w]) (simp add: returns_def split: sum.splits)
qed

theorem execution_is_run_witness:
  "\<exists>w. (effect_step fx_env)\<^sup>*\<^sup>* (effect_start (snd (projr (require_agent_runtime_task fx_task_env ''wf'' fx_store)))) w \<and> x_calls w = [] \<and>
     length (x_performed w) = 1 \<and> map snd (x_returned w) = [JObj [(''result'', JStr ''sent'')]]"
proof -
  define x where "x = execute_effectful_tool fx_env ''wf'' ''n'' ''send'' JNull (Answered fx_answer) fx_store"
  define y where "y = require_agent_runtime_task fx_task_env ''wf'' fx_store"
  have x: "fst (fst x) = Ok (JObj [(''result'', JStr ''sent'')])" "snd x" and y: "is_ok y" unfolding x_def y_def by code_simp+
  have "x = ((Ok (JObj [(''result'', JStr ''sent'')]), snd (fst x)), True)" using x by (metis prod.collapse)
  moreover have "y = Ok (fst (projr y), snd (projr y))" using y by (auto simp: is_ok_iff)
  moreover have "j_task fx_env = fx_task_env" by (simp add: fx_env_def)
  ultimately have "\<exists>w. (effect_step fx_env)\<^sup>*\<^sup>* (effect_start (snd (projr y))) w \<and> x_store w = snd (fst x) \<and> x_calls w = [] \<and>
      length (x_performed w) = (if True then 1 else 0) \<and>
      map snd (x_returned w) = (case (Ok (JObj [(''result'', JStr ''sent'')]) :: string + json) of Inl _ \<Rightarrow> [] | Inr v \<Rightarrow> [v])"
    unfolding x_def y_def
    by (intro execution_is_run [of fx_env "''wf''" "''n''" "''send''" JNull "Answered fx_answer" fx_store _ _ _ "fst (projr y)"]) (simp_all add: y_def)
  then show ?thesis unfolding y_def by auto
qed

subsection \<open>Waiting for the user\<close>

text \<open>
  C18. When the journal has halted a bound task that was under way, the task is blocked, recoverable and marked as
  waiting for a verification, and it still is after reconciliation with the runtimes, which sets the
  state of every other task from its runtime record and deletes old ones, whatever the runtimes say.
\<close>

theorem halted_stays_halted:
  assumes "halt_for_effect_verification env e reason st = (Err ''workflow_effect_verification_required'' :: string + 'a, st1)"
    and "find (\<lambda>r. tr_id r = re_run e) (t_runs st) = Some r" and "tr_project r = Some project"
    and "tr_state r \<in> {Queued, Planning, AwaitingApproval, Running}" and "reconcile_all tenv st1 = Ok (report, st2)"
  shows "effect_verification_required (re_run e) st2 \<and>
    (\<exists>r \<in> set (t_runs st2). tr_id r = re_run e \<and> tr_state r = Blocked \<and> tr_recovery r = ''recoverable'')"
proof -
  obtain r' where r': "effect_verification_required (re_run e) st1" "r' \<in> set (t_runs st1)" "tr_id r' = re_run e"
    "tr_state r' = Blocked" "tr_recovery r' = ''recoverable''"
    using halt_requires [OF assms(1-3)] assms(4) by auto
  from reconcile_all_holds [OF assms(5) r'(1-3)] show ?thesis using r'(3-) by (auto simp: same_hold_def)
qed

definition fx_claimed :: task_store where
  "fx_claimed = fx_store\<lparr>t_effects := [\<lparr>fx_run = re_run fx_effect, fx_key = re_key fx_effect, fx_kind = ''send'', fx_state = ''executed'',
     fx_digest = None, fx_updated = 1\<rparr>]\<rparr>"

definition fx_halted :: task_store where
  "fx_halted = snd (halt_for_effect_verification fx_env fx_effect ''lost'' fx_claimed :: unit journal)"

definition fx_reconciled :: task_store where
  "fx_reconciled = snd (projr (reconcile_all fx_task_env fx_halted))"

theorem halted_stays_halted_witness:
  "effect_verification_required (re_run fx_effect) fx_reconciled \<and>
   (\<exists>r \<in> set (t_runs fx_reconciled). tr_id r = re_run fx_effect \<and> tr_state r = Blocked \<and> tr_recovery r = ''recoverable'')"
proof -
  have "fst (halt_for_effect_verification fx_env fx_effect ''lost'' fx_claimed :: unit journal) = Err ''workflow_effect_verification_required''"
    by code_simp
  then have h: "halt_for_effect_verification fx_env fx_effect ''lost'' fx_claimed = (Err ''workflow_effect_verification_required'' :: string + unit, fx_halted)"
    unfolding fx_halted_def by (metis prod.collapse)
  have "is_ok (reconcile_all fx_task_env fx_halted)" by code_simp
  then have r: "reconcile_all fx_task_env fx_halted = Ok (fst (projr (reconcile_all fx_task_env fx_halted)), fx_reconciled)"
    unfolding fx_reconciled_def by (auto simp: is_ok_iff)
  have "find (\<lambda>r. tr_id r = re_run fx_effect) (t_runs fx_claimed) = Some fx_task" by code_simp
  then show ?thesis using halted_stays_halted [OF h _ _ _ r] by (simp add: fx_task_def)
qed

subsection \<open>The user decides once\<close>

fun decided_state :: "effect_decision \<Rightarrow> task_state" where
  "decided_state DidNotHappen = Queued"
| "decided_state Happened = Failed"
| "decided_state StopWithoutRepeating = Cancelled"

lemma apply_decision_runs:
  assumes "apply_decision env q x st = Ok (out, st')"
  obtains g where "t_runs st' = update_rows (waiting_task (rq_run q)) g (t_runs st)"
    "\<And>r. tr_id (g r) = tr_id r" "\<And>r. tr_state (g r) = decided_state (rq_decision q)"
proof (cases "rq_decision q")
  case DidNotHappen
  then show thesis using assms
    by (auto simp: apply_decision_def release_exact_effect_once_def Let_def result_simps intro!: that split: prod.splits)
next
  case Happened
  then show thesis using assms
    by (auto simp: apply_decision_def stop_after_observed_occurrence_def stop_exact_run_def Let_def result_simps intro!: that)
next
  case StopWithoutRepeating
  then show thesis using assms
    by (auto simp: apply_decision_def stop_with_unknown_outcome_def stop_exact_run_def Let_def result_simps intro!: that)
qed

lemma find_updated_task:
  "find P rows = Some r \<Longrightarrow> Q r \<Longrightarrow> (\<And>r. P (g r) = P r) \<Longrightarrow> find P (update_rows Q g rows) = Some (g r)"
  by (induction rows) (auto simp: update_rows_def split: if_splits)

lemma current_binding:
  "require_current_task_binding run task record st = Ok () \<longleftrightarrow> (\<exists>r. find (\<lambda>r. tr_id r = run) (t_runs st) = Some r \<and>
     (tr_task r, tr_runtime r, tr_record r, tr_state r, tr_recovery r) = (task, ''workflow'', record, Blocked, ''recoverable''))"
  by (auto simp: require_current_task_binding_def result_simps)

lemma append_event_in_transaction_keeps:
  "append_event_in_transaction env t ty ev p st = Ok (n, st') \<Longrightarrow> t_runs st' = t_runs st \<and> t_audit st' = t_audit st"
  by (auto simp: append_event_in_transaction_def Let_def result_simps split: option.splits)

lemma record_resolution_keeps:
  "record_resolution env q t x resolved next_action st = Ok st' \<Longrightarrow> t_runs st' = t_runs st \<and> t_effects st' = t_effects st"
  by (auto simp: record_resolution_Ok audited_def dest: append_event_in_transaction_keeps append_event_in_transaction_effects)

text \<open>The task after a decision: found under its identifier, and no longer waiting.\<close>

lemma resolve_task:
  assumes "resolve_transaction env q t st = Ok st'"
  obtains r where "find (\<lambda>r. tr_id r = rq_run q) (t_runs st') = Some r" "tr_state r = decided_state (rq_decision q)"
  using assms
proof (rule resolve_transaction_Ok)
  fix x resolved next_action st1
  assume bound: "require_current_task_binding (rq_run q) (rq_task q) (rq_record q) st = Ok ()"
    and a: "apply_decision env q x st = Ok ((resolved, next_action), st1)" and "record_resolution env q t x resolved next_action st1 = Ok st'"
  then have runs: "t_runs st' = t_runs st1" by (simp add: record_resolution_keeps)
  obtain g where g: "t_runs st1 = update_rows (waiting_task (rq_run q)) g (t_runs st)"
    "\<And>r. tr_id (g r) = tr_id r" "\<And>r. tr_state (g r) = decided_state (rq_decision q)"
    using apply_decision_runs [OF a] by blast
  obtain r where r: "find (\<lambda>r. tr_id r = rq_run q) (t_runs st) = Some r" "tr_state r = Blocked" "tr_recovery r = ''recoverable''"
    using bound by (auto simp: current_binding)
  have "waiting_task (rq_run q) r" using find_SomeD [OF r(1)] r by (simp add: waiting_task_def)
  then have "find (\<lambda>r. tr_id r = rq_run q) (t_runs st') = Some (g r)" unfolding runs g(1) by (intro find_updated_task r(1)) (simp_all add: g)
  then show thesis by (rule that) (simp add: g)
qed

lemma apply_decision_events: "apply_decision env q x st = Ok (out, st') \<Longrightarrow> t_events st' = t_events st"
  by (auto simp: apply_decision_def release_exact_effect_once_def stop_after_observed_occurrence_def stop_with_unknown_outcome_def
      stop_exact_run_def Let_def result_simps split: effect_decision.splits prod.splits)

lemma resolve_effects_exact:
  assumes "resolve_transaction env q t st = Ok st'" "exact_verification_for_request env (rq_run q) (rq_task q) q st = Ok x"
  shows "t_effects st' = filter (\<lambda>f. \<not> (rq_decision q = DidNotHappen \<and> effect_row_of (rq_run q) x f)) (t_effects st)"
  using assms(1)
proof (rule resolve_transaction_Ok)
  fix x' resolved next_action st1
  assume "exact_verification_for_request env (rq_run q) (rq_task q) q st = Ok x'"
    and a: "apply_decision env q x' st = Ok ((resolved, next_action), st1)" and "record_resolution env q t x' resolved next_action st1 = Ok st'"
  then show ?thesis using apply_decision_effects [OF a] assms(2) by (simp add: record_resolution_keeps)
qed

lemma resolve_released:
  assumes "resolve_transaction env q t st = Ok st'"
  shows "length (t_effects st') + (if rq_decision q = DidNotHappen then 1 else 0) = length (t_effects st)"
  using assms
proof (rule resolve_transaction_Ok)
  fix x resolved next_action st1
  assume a: "apply_decision env q x st = Ok ((resolved, next_action), st1)" and "record_resolution env q t x resolved next_action st1 = Ok st'"
  then have effects: "t_effects st' = (if rq_decision q = DidNotHappen then filter (\<lambda>f. \<not> effect_row_of (rq_run q) x f) (t_effects st) else t_effects st)"
    using apply_decision_effects [OF a] by (simp add: record_resolution_keeps)
  show ?thesis
  proof (cases "rq_decision q = DidNotHappen")
    case True
    then have "length (filter (effect_row_of (rq_run q) x) (t_effects st)) = 1"
      using a by (auto simp: apply_decision_def release_exact_effect_once_def changed_rows_def Let_def result_simps)
    then show ?thesis using sum_length_filter_compl [of "effect_row_of (rq_run q) x" "t_effects st"] True by (simp add: effects)
  qed (simp add: effects)
qed

text \<open>The event a decision leaves behind closes its boundary in every store that still has the event.\<close>

lemma latest_open_in: "latest_open run x st = Some s \<Longrightarrow> \<exists>e \<in> set (t_events st). open_for run x st e \<and> te_sequence e = s"
proof -
  have top: "fold max ss s \<in> set (s # ss)" for ss and s :: int
    by (induction ss arbitrary: s) (auto simp: max_def)
  assume "latest_open run x st = Some s"
  then have "s \<in> set (map te_sequence (filter (open_for run x st) (t_events st)))"
    using top by (auto simp: latest_open_def simp del: set_map split: list.splits)
  then show ?thesis by auto
qed

lemma resolve_event:
  assumes "resolve_transaction env q t st = Ok st'" "tr_id (tv_row t) = rq_run q"
    and "exact_verification_for_request env (rq_run q) (rq_task q) q st = Ok x"
  obtains d where "d \<in> set (t_events st')" "te_run d = rq_run q" "int (ex_sequence x) < te_sequence d" "typed VERIFICATION_RESOLVED d"
    "payload_value d ''nodeId'' = Some (JStr (ex_node x))" "payload_value d ''idempotencyKey'' = Some (JStr (ex_key x))"
    "payload_value d ''effectKind'' = Some (JStr (ex_kind x))"
  using assms(1)
proof (rule resolve_transaction_Ok)
  fix x' resolved next_action st1
  assume x': "exact_verification_for_request env (rq_run q) (rq_task q) q st = Ok x'"
    and e: "require_exact_unresolved_event env (rq_run q) (rq_task q) (int (ex_sequence x')) x' st = Ok ()"
    and a: "apply_decision env q x' st = Ok ((resolved, next_action), st1)" and rec: "record_resolution env q t x' resolved next_action st1 = Ok st'"
  have x: "x' = x" using x' assms(3) by simp
  obtain b where b: "b \<in> set (t_events st)" "te_run b = rq_run q" "te_sequence b = int (ex_sequence x)"
    using e by (auto simp: require_exact_unresolved_event_def result_simps x dest: find_SomeD)
  let ?st = "audited env q resolved next_action st1"
  have events: "t_events ?st = t_events st" using apply_decision_events [OF a] by (simp add: audited_def)
  then have later: "int (ex_sequence x) < next_event (rq_run q) ?st" using next_event_later [of b ?st] b by simp
  obtain d where d: "st' = ?st\<lparr>t_events := t_events ?st @ [d]\<rparr>" "te_run d = rq_run q" "te_sequence d = next_event (rq_run q) ?st"
    "typed VERIFICATION_RESOLVED d" "ev_payload (te_event d) = resolved_payload q x next_action"
    using rec by (auto simp: record_resolution_Ok append_event_in_transaction_def Let_def result_simps typed_def assms(2) x split: option.splits)
  show thesis using later d by (intro that [of d]) (auto simp: payload_value_def resolved_payload_def)
qed

lemma boundary_closed:
  assumes "d \<in> set (t_events st)" "te_run d = run" "s < te_sequence d" "typed VERIFICATION_RESOLVED d"
    and "payload_value d ''nodeId'' = Some (JStr (ex_node x))" "payload_value d ''idempotencyKey'' = Some (JStr (ex_key x))"
      "payload_value d ''effectKind'' = Some (JStr (ex_kind x))"
  shows "latest_open run x st \<noteq> Some s"
  using assms by (auto simp: open_for_def Let_def list_ex_iff dest!: latest_open_in)

text \<open>
  C17. A decision about an unknown outcome takes effect once. The answer that the action did not happen gives
  back exactly one reservation, the executed and unverified one the decision names, and queues the
  task; the other answers give back none and end the task. The same request is refused in the store
  it leaves, and no request naming the same boundary is ever accepted again: not in any later store
  that still has the events, even when the retried action has been halted once more and
  task, effect and checkpoint are as they were, whatever its decision and whatever view of the task
  it was made from.
\<close>

theorem resolve_once:
  assumes "resolve_transaction env q t st = Ok st'" and "tr_id (tv_row t) = rq_run q"
    and "exact_verification_for_request env (rq_run q) (rq_task q) q st = Ok x"
    and "set (t_events st') \<subseteq> set (t_events later)"
    and "rq_run q' = rq_run q" "rq_sequence q' = Some (ex_sequence x)"
      "rq_node q' = Some (ex_node x)" "rq_key q' = Some (ex_key x)" "rq_kind q' = Some (ex_kind x)"
  shows "\<not> is_ok (resolve_transaction env' q' t' later) \<and> \<not> is_ok (resolve_transaction env' q t' st') \<and>
    t_effects st' = filter (\<lambda>f. \<not> (rq_decision q = DidNotHappen \<and> fx_run f = rq_run q \<and> fx_key f = ex_key x \<and> fx_kind f = ex_kind x \<and>
      fx_state f = ''executed'' \<and> fx_digest f = None)) (t_effects st) \<and>
    length (t_effects st') + (if rq_decision q = DidNotHappen then 1 else 0) = length (t_effects st) \<and>
    (\<exists>r \<in> set (t_runs st'). tr_id r = rq_run q \<and> tr_state r = decided_state (rq_decision q))"
proof -
  obtain d where d: "d \<in> set (t_events st')" "te_run d = rq_run q" "int (ex_sequence x) < te_sequence d" "typed VERIFICATION_RESOLVED d"
    "payload_value d ''nodeId'' = Some (JStr (ex_node x))" "payload_value d ''idempotencyKey'' = Some (JStr (ex_key x))"
    "payload_value d ''effectKind'' = Some (JStr (ex_kind x))"
    by (rule resolve_event [OF assms(1-3)])
  then have "latest_open (rq_run q) x later \<noteq> Some (int (ex_sequence x))"
    using assms(4) by (intro boundary_closed [of d]) auto
  moreover have "exact_verification_for_request env' (rq_run q') (rq_task q') q' later = Ok y \<Longrightarrow> y = x" for y
    using assms(6-9) by (cases x) (auto simp: exact_verification_for_request_def result_simps)
  ultimately have "\<not> is_ok (resolve_transaction env' q' t' later)"
    by (auto simp: is_ok_iff require_exact_unresolved_event_def result_simps assms(5) elim!: resolve_transaction_Ok)
  moreover obtain r where r: "find (\<lambda>r. tr_id r = rq_run q) (t_runs st') = Some r" "tr_state r = decided_state (rq_decision q)"
    by (rule resolve_task [OF assms(1)])
  then have "tr_state r \<noteq> Blocked" by (cases "rq_decision q") simp_all
  then have "require_current_task_binding (rq_run q) (rq_task q) (rq_record q) st' \<noteq> Ok ()" by (auto simp: current_binding r(1))
  then have "\<not> is_ok (resolve_transaction env' q t' st')" by (auto simp: is_ok_iff elim: resolve_transaction_Ok)
  ultimately show ?thesis
    using resolve_effects_exact [OF assms(1,3)] resolve_released [OF assms(1)] find_SomeD [OF r(1)] r(2) by (auto simp: effect_row_of_def)
qed

lemma get_task_Ok: "get_task raw st = Ok t \<Longrightarrow> tr_id (tv_row t) = raw \<and> t = task_from_row st (tv_row t)"
  by (auto simp: get_task_def result_simps task_from_row_def Let_def dest: find_SomeD)

lemma resolved_transaction:
  assumes "resolve_effect_verification env q st = Ok (v, st')"
  obtains t where "resolve_transaction env q t st = Ok st'" "tr_id (tv_row t) = rq_run q"
proof -
  obtain t st1 where t: "resolve_read env q st = Ok t" "resolve_transaction env q t st = Ok st1"
    and after: "(case get_task (rq_run q) st1 of Inl _ \<Rightarrow> Err ResolveStore | Inr after \<Rightarrow> Ok (after, st1)) = Ok (v, st')"
    using assms by (auto simp: resolve_effect_verification_def and_then_eq_Ok)
  have "get_task (rq_run q) st = Ok t" using t(1) by (auto simp: resolve_read_def result_simps split: sum.splits)
  then have "tr_id (tv_row t) = rq_run q" using get_task_Ok by blast
  then show thesis using t(2) after by (cases "get_task (rq_run q) st1") (auto intro: that)
qed

definition fx_waiting :: task_store where
  "fx_waiting = fx_halted\<lparr>t_instances := map (\<lambda>r. r\<lparr>rr_status := ''Failed''\<rparr>) (t_instances fx_halted)\<rparr>"

definition fx_request :: resolve_request where
  "fx_request = \<lparr>rq_run = tr_id fx_task, rq_task = tr_task fx_task, rq_record = ''wf'', rq_sequence = Some 0, rq_node = Some ''n'',
     rq_key = Some (re_key fx_effect), rq_kind = Some ''send'', rq_decision = DidNotHappen\<rparr>"

definition fx_resolve_env :: resolve_env where
  "fx_resolve_env = \<lparr>z_task = fx_task_env, z_rfc3339 = (\<lambda>s. True)\<rparr>"

definition fx_resolved :: task_store where
  "fx_resolved = snd (projr (resolve_effect_verification fx_resolve_env fx_request fx_waiting))"

text \<open>The retried action halts again: a new decision is due, and only that.\<close>

definition fx_halted_again :: task_store where
  "fx_halted_again = (let st = snd (halt_for_effect_verification fx_env fx_effect ''lost''
       (fx_resolved\<lparr>t_effects := t_effects fx_claimed\<rparr>) :: unit journal) in
     st\<lparr>t_instances := map (\<lambda>r. r\<lparr>rr_status := ''Failed''\<rparr>) (t_instances st)\<rparr>)"

definition fx_accepts :: "resolve_request \<Rightarrow> task_store \<Rightarrow> bool" where
  "fx_accepts q st = is_ok (resolve_transaction fx_resolve_env q (task_from_row st (hd (t_runs st))) st)"

lemma halt_events: "set (t_events st) \<subseteq> set (t_events (snd (halt_for_effect_verification env e reason st)))"
  by (auto simp: halt_for_effect_verification_def halt_row_def update_effects_def block_task_def record_domain_event_def append_event_def
      append_event_in_transaction_def Let_def result_simps split: sum.splits option.splits if_splits)

theorem resolve_once_witness:
  "\<not> fx_accepts fx_request fx_halted_again \<and> fx_accepts (fx_request\<lparr>rq_sequence := Some 2\<rparr>) fx_halted_again \<and>
   length (t_effects fx_resolved) + 1 = length (t_effects fx_waiting) \<and>
   (\<exists>r \<in> set (t_runs fx_resolved). tr_id r = tr_id fx_task \<and> tr_state r = Queued)"
proof -
  have "is_ok (resolve_effect_verification fx_resolve_env fx_request fx_waiting)" by code_simp
  then obtain v where "resolve_effect_verification fx_resolve_env fx_request fx_waiting = Ok (v, fx_resolved)" by (auto simp: is_ok_iff fx_resolved_def)
  then obtain t where t: "resolve_transaction fx_resolve_env fx_request t fx_waiting = Ok fx_resolved" "tr_id (tv_row t) = rq_run fx_request"
    by (rule resolved_transaction)
  define x where "x = \<lparr>ex_sequence = 0, ex_node = ''n'', ex_key = re_key fx_effect, ex_kind = ''send''\<rparr>"
  have "is_ok (exact_verification_for_request fx_resolve_env (rq_run fx_request) (rq_task fx_request) fx_request fx_waiting)" by code_simp
  then have x: "exact_verification_for_request fx_resolve_env (rq_run fx_request) (rq_task fx_request) fx_request fx_waiting = Ok x"
    by (auto simp: is_ok_iff exact_verification_for_request_def result_simps fx_request_def x_def)
  have events: "set (t_events fx_resolved) \<subseteq> set (t_events fx_halted_again)"
    using halt_events [of "fx_resolved\<lparr>t_effects := t_effects fx_claimed\<rparr>"] by (simp add: fx_halted_again_def Let_def)
  have new: "fx_accepts (fx_request\<lparr>rq_sequence := Some 2\<rparr>) fx_halted_again" by code_simp
  have q: "rq_run fx_request = tr_id fx_task" "rq_decision fx_request = DidNotHappen" by (simp_all add: fx_request_def)
  note once = resolve_once [OF t x events, of fx_request fx_resolve_env "task_from_row fx_halted_again (hd (t_runs fx_halted_again))"]
  have "rq_sequence fx_request = Some (ex_sequence x)" "rq_node fx_request = Some (ex_node x)" "rq_key fx_request = Some (ex_key x)"
    "rq_kind fx_request = Some (ex_kind x)" by (simp_all add: fx_request_def x_def)
  note once = once [OF refl this]
  have "\<not> fx_accepts fx_request fx_halted_again" unfolding fx_accepts_def by (rule conjunct1 [OF once])
  moreover note rest = once [THEN conjunct2, THEN conjunct2, THEN conjunct2, unfolded q decided_state.simps]
  have "length (t_effects fx_resolved) + 1 = length (t_effects fx_waiting)" using conjunct1 [OF rest] by (simp only: simp_thms if_True)
  moreover note conjunct2 [OF rest]
  ultimately show ?thesis using new by (intro conjI)
qed

subsection \<open>Controls\<close>

text \<open>
  C32. A failed task with a protected effect that is not verified is never retried as a whole: the control is not
  offered, and asking for it all the same is refused before anything is changed.
\<close>

theorem retry_refused_unverified:
  assumes "k_durable env" and "get_task raw st = Ok t" and "tr_state (tv_row t) = Failed"
    and "f \<in> set (t_effects st)" and "fx_run f = raw" and "fx_state f \<noteq> ''verified''"
  shows "control_task env raw ''retry'' st = Err UnverifiedEffects \<and> ''retry'' \<notin> set (tv_controls t)"
proof -
  have t: "tr_id (tv_row t) = raw" "t = task_from_row st (tv_row t)" using get_task_Ok [OF assms(2)] by blast+
  have "changed_rows (\<lambda>f. fx_run f = raw \<and> fx_state f \<noteq> ''verified'') (t_effects st) > 0"
    using assms(4-6) by (auto simp: changed_rows_def filter_empty_conv)
  then have "control_task env raw ''retry'' st = Err UnverifiedEffects"
    using assms(1-3) by (simp add: control_task_def ensure_def t(1))
  moreover have "has_unverified_effects raw st" using assms(4-6) by (auto simp: has_unverified_effects_def list_ex_iff)
  then have "''retry'' \<notin> set (tv_controls t)" by (subst t(2)) (simp add: task_from_row_def controls_def assms(3) t(1) Let_def)
  ultimately show ?thesis by blast
qed

definition fx_failed :: task_store where
  "fx_failed = fx_claimed\<lparr>t_runs := [fx_task\<lparr>tr_state := Failed\<rparr>]\<rparr>"

theorem retry_refused_unverified_witness:
  "control_task fx_task_env (tr_id fx_task) ''retry'' fx_failed = Err UnverifiedEffects"
proof -
  have "is_ok (get_task (tr_id fx_task) fx_failed)" by code_simp
  then obtain t where t: "get_task (tr_id fx_task) fx_failed = Ok t" by (auto simp: is_ok_iff)
  then have "tr_state (tv_row t) = Failed"
    by (auto simp: get_task_def result_simps task_from_row_def Let_def fx_failed_def split: if_splits)
  then show ?thesis
    using retry_refused_unverified [of fx_task_env "tr_id fx_task" fx_failed t "hd (t_effects fx_claimed)"] t
    by (simp add: fx_task_env_def fx_failed_def fx_claimed_def fx_task_def fx_effect_def new_effect_def)
qed

text \<open>
  A decision to stop without repeating shows the task as cancelled, with no controls. Reconciliation then
  takes the state from the workflow's record, which the decision leaves as failed, and shows a
  failed task that asks to be acknowledged.
\<close>

theorem stop_state_overwritten:
  "(case resolve_effect_verification fx_resolve_env (fx_request\<lparr>rq_decision := StopWithoutRepeating\<rparr>) fx_waiting of
      Inl _ \<Rightarrow> None
    | Inr (t, st) \<Rightarrow> Some (tr_state (tv_row t), tv_controls t, case reconcile_all fx_task_env st of
        Inl _ \<Rightarrow> [] | Inr (_, st') \<Rightarrow> map (\<lambda>t. (tr_state (tv_row t), tv_controls t)) (recent_tasks st'))) =
   Some (Cancelled, [], [(Failed, [''acknowledge_failure''])])"
  by code_simp

end
