(* ===== verification/Spec2Isabelle.thy ===== *)
theory Spec2Isabelle
  imports
    Workflow_IR
    Approval_Scopes
    Network_Policy
    Official_Page
    Schedule_Expression
    Workbook_Address
    Office_Zip
    Unified_Diff
    Delegation_Props
    Context_Manager
    App_Control_Props
    Remote_Props
    Effect_Props
begin

text \<open>
  A verification library for the desktop engine of OOMU (\<open>src/src-tauri/src\<close>, Rust).

  \<^bold>\<open>The program.\<close> OOMU runs agents and workflows on the user's machine. A workflow is written in an
  intermediate representation that is validated before it is compiled; a scheduler starts it at
  the instants a schedule expression denotes; its actions pass the shield gate, which asks the user
  or finds a reviewed approval scope that covers the action; what leaves the machine goes to a
  destination the network policy has resolved and pinned; work may be delegated to read-only child
  agents; a paired device may look at tasks, stop them and fetch files; an agent may operate desktop applications in sessions the user watches and can interrupt;
  everything that runs is a task, and what a task does to the outside world is journalled so that it is not repeated;
  the results are patches to files and Office packages. The library models the parts that
  decide: the validators, policies, parsers and codecs. The parts that only carry data between
  models, databases, windows and the network are not modelled.

  \<^bold>\<open>Theories and sources.\<close> Names of definitions are those of the code.

  \<^item> \<open>Rust_Prelude\<close>: results (\<open>Ok\<close>, \<open>Err\<close>, \<open>and_then\<close>, \<open>ensure\<close>), machine integers, and the string
    operations of the standard library with their round trips; strings are their UTF-8 bytes.
    \<open>Rust_Path\<close>: path components. \<open>Transition_System\<close>: the locales \<open>invariant_system\<close> and
    \<open>monotone_system\<close>. \<open>Digraph_Search\<close>: breadth-first search and Kahn's pass over the locales
    \<open>edge_index\<close> and \<open>node_graph\<close>.
  \<^item> \<open>Workflow_IR\<close> (\<open>workflow_ir.rs\<close>): data types, every check of \<open>WorkflowIr::validate\<close> and the
    errors it reports. The checks accept exactly the well-formed graphs of a declarative
    specification; in an accepted one every path ends; validation always returns. The adjacency
    tables of the code interpret \<open>node_graph\<close> and \<open>edge_index\<close>.
  \<^item> \<open>Approval_Scopes\<close> (\<open>approval_scopes.rs\<close>, the request and decision types of \<open>shield_gate.rs\<close>):
    the two tables, \<open>grant\<close>, \<open>authorize\<close>, \<open>revoke\<close> as transactions, and their interleavings as the
    step relation \<open>scope_step\<close>, in which other writers may act between the read and the guarded update of an
    authorization. No interleaving spends a grant beyond its budget or revives a revoked one;
    an authorization succeeds only, and always, on a live matching grant, and the atomic
    \<open>authorize\<close> is one of the runs. \<open>scope_step\<close> interprets \<open>monotone_system\<close>.
  \<^item> \<open>Network_Policy\<close> (\<open>network_policy.rs\<close>): canonical URLs, resolution, address classes, rechecks,
    redirects, navigations, peers. Resolved addresses are public unless a loopback grant says
    otherwise; the class of an IPv4 address is membership in the special-purpose blocks. The three
    kinds of recheck interpret the locale \<open>recheck\<close>, which shows that any sequence of them keeps
    the approved binding.
  \<^item> \<open>Official_Page\<close> (\<open>tools/official_page.rs\<close>), a client of the network policy: registration,
    fallback and redirect loops, bounded reading. Every request it ever sends goes to public,
    approved addresses; the number of requests and the size of the page are bounded.
  \<^item> \<open>Schedule_Expression\<close> (\<open>schedule_expression.rs\<close>): parser and \<open>next_run_after_in_timezone\<close> for
    all kinds of schedule. A next run is later than its reference and, for cron, the first
    matching minute; cron terms denote arithmetic progressions; months are added exactly.
  \<^item> \<open>Workbook_Address\<close> (\<open>artifacts/workbooks/address.rs\<close>, range predicates of \<open>validation.rs\<close>):
    cell addresses, ranges and sheet names round-trip; the reference budget bounds what a formula
    may touch, except through a reference written backwards, whose width wraps.
  \<^item> \<open>Office_Zip\<close> (\<open>foundation/office_zip.rs\<close>): writer and reader of store-only packages. What is
    written is read back; whatever bytes are read, the entries have safe names and stay within the
    limits. The little-endian fields interpret the locale \<open>byte_field\<close>.
  \<^item> \<open>Unified_Diff\<close> (\<open>shield_gate/unified_diff.rs\<close>): parser, hunks and the directive that applies a
    diff to the files. A printed diff is parsed back; a hunk replaces the only place where its old
    block stands; a directive changes the named files only.
  \<^item> \<open>Delegation_Policy\<close> (\<open>delegation/policy.rs\<close>, types of \<open>delegation/mod.rs\<close>): the validator of a
    delegation plan, equal to a policy stated without its checks; accepted children only read.
    \<open>Delegation_Runtime\<close> (\<open>delegation/repository.rs\<close>, \<open>sources.rs\<close>, \<open>worker.rs\<close>): tables, sources, the
    worker and the transactions. \<open>Delegation_Runs\<close> (\<open>commands.rs\<close>): the registry of cancellation flags
    and the step relation \<open>delegation_step\<close>, in which executions, retries, pauses and cancellations
    interleave between any two statements. \<open>Delegation_Inv\<close>, \<open>Delegation_Props\<close>: it interprets
    \<open>monotone_system\<close>; workers exclude each other, stay within budget and read inside the project;
    results are final and a completed plan has the whole synthesis; but a flag left by an error
    blocks its child, an execution starts failed children again without counting an attempt, and a
    cancellation can be overwritten. A view of a plan is read at one instant. Deleting a project
    is not a step.
  \<^item> \<open>Context_Manager\<close> (\<open>context_manager.rs\<close>): estimates, truncation, shares of a budget and the
    assembly of the context of a request. The assembled context fits the budget it was given,
    unless the share of the latest message is too small to cut it down to, and always ends in that
    message; shares add up exactly.
  \<^item> \<open>Opaque_Ids\<close> (\<open>p0_contracts.rs\<close>): identifiers with a kind, and the checks of an event
    envelope. \<open>Hash_Map\<close>: hash maps as association lists without duplicate keys, and characters of
    UTF-8 strings.
  \<^item> \<open>App_Control_Policy\<close>, \<open>App_Control\<close> (\<open>computer_use\<close>): the closed set of actions, the table
    of applications, adapters, file scope, reference vault and verification; then the manager, each
    stretch under its mutex a function from state to result and state, and the authority, a client
    of \<open>Approval_Scopes\<close>. \<open>App_Control_Inv\<close>: every stretch keeps the invariant of the sessions and of
    the vault, and lets a session evolve in one direction only. \<open>App_Control_Runs\<close>: the step relation
    \<open>app_step\<close>, in which any number of calls, the user's controls, physical input, the driver and
    changes of the scopes interleave, and the driver's last check and its commitment are one step; it interprets \<open>monotone_system\<close> and, for the count of
    approvals, \<open>invariant_system\<close>. \<open>App_Control_Props\<close>: effects stay within what was approved and
    are paid for by an approval each; a control of the user cancels what is under way; a stopped
    session stays stopped; but an outage of the input monitor ends a takeover.
  \<^item> \<open>Sql_Table\<close>: rows, guarded updates and JSON values; the locale \<open>row_order\<close> of tables whose rows
    only latch. \<open>Remote_Store\<close>, \<open>Remote_Execution\<close> (\<open>remote_access\<close>): commands signed by paired devices,
    their acceptance statement by statement, the transactions that execute them, the hand-over of a
    file and the revocation of a device, with the keys and triggers of the migrations.
    \<open>Remote_Runs\<close>: the step relation \<open>remote_step\<close>, in which calls, the application and the user
    interleave between any two statements. \<open>Remote_Inv\<close>: it keeps the tables consistent and every effect
    accounted for (\<open>monotone_system\<close>). \<open>Remote_Demo\<close>: a run with a stop and a file. \<open>Remote_Props\<close>: effects are
    signed, approved and happen once, and none happens for a device after its revocation.
  \<^item> \<open>Task_Store\<close> (\<open>tasks/repository.rs\<close>, \<open>adapters.rs\<close>): tasks, their events and effects, reconciliation with
    the records of the four runtimes, controls. \<open>Effect_Journal\<close> (\<open>workflow_runtime/task_tools/effect_journal.rs\<close>,
    the part of \<open>execute_registered_task_tool\<close> that handles an effect): reservation, claim, verification,
    release and halt of a protected action. \<open>Effect_Verification\<close> (\<open>tasks/effect_verification.rs\<close>): the user's decision
    about an action whose outcome is unknown. \<open>Effect_Runs\<close>: the step relation \<open>effect_step\<close>, in which executions,
    decisions, commands, deletions and failures interleave between any two statements. \<open>Effect_Inv\<close>: every step
    keeps the account of tools run and reservations given back (\<open>invariant_system\<close>). \<open>Effect_Sim\<close>: the functions of
    the journal are runs of the relation. \<open>Task_Hold\<close>: halting makes a task wait, and reconciliation leaves it
    waiting (\<open>row_order\<close>). \<open>Effect_Props\<close>: an action happens at most once unless it was given back, a
    verified one is never given back (\<open>monotone_system\<close>), a result is returned only verified, and a boundary
    is decided once, also when the retried action halts again; but a run stopped by the user is shown as failed after the next reconciliation.

  \<^bold>\<open>State and outside code.\<close> State is a record passed through; a database transaction is a function
  to the new tables or an error. Errors are values of a datatype per component; their wording is
  left out. Code from outside the repository is an argument, never a definition: the \<open>url\<close> crate,
  the resolver, the textual form of addresses, SHA-256, CRC-32, the inflater, the regular
  expression matches, the calendar and time zones of chrono, the order of a hash table and of SQL
  rows, the HTTP client, the file system's answers. What a theorem needs of an argument is a
  hypothesis of that theorem, and its witness shows a concrete instance.

  \<^bold>\<open>Bounds and fuel.\<close> The graph searches carry fuel, the number of nodes and edges, and are shown to
  finish with it; \<open>None\<close> stands for not finishing or an overflowing counter, and is shown never to
  occur. The search of a cron schedule runs over \<open>366 * 24 * 60\<close> minutes because the code does. Every
  other loop is structural or has a termination proof. Integers are \<open>nat\<close> or \<open>int\<close> where the code's
  guards keep them in range, words where it computes on bits, and wrap-around is written out where
  a release build would wrap.

  \<^bold>\<open>Not modelled.\<close> User interface, model inference, the database layer beyond the tables above,
  connectors and protocol clients, document templates, and the integration with macOS: they are
  input and output, or depend on what a model says. Still open, in this order: work
  graphs (\<open>p1_contracts.rs\<close>), recurrence and retry
  (\<open>workflow_scheduler.rs\<close>), conditions (\<open>condition_expression.rs\<close>), updates (\<open>app_updates.rs\<close>), tool security and redaction.
\<close>

end
